(* ===== verification/Agent_Prelude.thy ===== *)
theory Agent_Prelude
  imports Main "HOL-Library.Char_ord" "HOL-Library.List_Lexorder"
begin

text \<open>
  Shared vocabulary of the development: the machine integers and the string operations of Rust that
  the crate uses, fallible computations as sums, the standard library's ordered map as a strictly
  sorted association list (with its interface as a locale), and a generic locale of state machines
  whose client lemma lifts an inductive invariant to every reachable state.

  Strings are byte strings: a \<open>string\<close> is the UTF-8 encoding of the Rust value, so \<open>length\<close> is
  \<open>str::len\<close> and the order of \<open>HOL-Library.List_Lexorder\<close> is the \<open>Ord\<close> of \<open>String\<close>.
\<close>

named_theorems rust_int \<open>unfolding rules for the machine integer operations\<close>
named_theorems res_simps \<open>rewrite rules for fallible computations\<close>

section \<open>Machine integers\<close>

text \<open>
  Unsigned integers are natural numbers with the width written into every operation that can leave
  it. \<open>u64_max\<close> is \<open>u64::MAX\<close>; \<open>MAX_WIRE_INTEGER\<close> is the largest integer that JSON readers keep
  exact.
\<close>

type_synonym u64 = nat
type_synonym u32 = nat
type_synonym u128 = nat

definition u32_max :: nat where
  "u32_max = 2 ^ 32 - 1"

definition u64_max :: nat where
  "u64_max = 2 ^ 64 - 1"

definition u128_max :: nat where
  "u128_max = 2 ^ 128 - 1"

definition MAX_WIRE_INTEGER :: u64 where
  "MAX_WIRE_INTEGER = 2 ^ 53 - 1"

text \<open>The cast \<open>as u32\<close> keeps the low 32 bits.\<close>

definition as_u32 :: "u64 \<Rightarrow> u32" where
  "as_u32 n = n mod 2 ^ 32"

definition checked_add :: "u64 \<Rightarrow> u64 \<Rightarrow> u64 option" where
  "checked_add a b = (if a + b \<le> u64_max then Some (a + b) else None)"

definition saturating_add :: "u64 \<Rightarrow> u64 \<Rightarrow> u64" where
  "saturating_add a b = min (a + b) u64_max"

definition saturating_add128 :: "u128 \<Rightarrow> u128 \<Rightarrow> u128" where
  "saturating_add128 a b = min (a + b) u128_max"

definition saturating_sub :: "nat \<Rightarrow> nat \<Rightarrow> nat" where
  "saturating_sub a b = a - b"

lemmas rust_int_defs = checked_add_def saturating_add_def saturating_add128_def saturating_sub_def
declare rust_int_defs [rust_int]

lemma MAX_WIRE_INTEGER_lt_u64_max: "MAX_WIRE_INTEGER < u64_max"
  by (simp add: MAX_WIRE_INTEGER_def u64_max_def)

lemma u32_max_lt_MAX_WIRE_INTEGER: "u32_max < MAX_WIRE_INTEGER"
  by (simp add: MAX_WIRE_INTEGER_def u32_max_def)

lemma checked_add_Some_iff: "checked_add a b = Some c \<longleftrightarrow> c = a + b \<and> a + b \<le> u64_max"
  by (auto simp: checked_add_def)

lemma checked_add_None_iff: "checked_add a b = None \<longleftrightarrow> u64_max < a + b"
  by (auto simp: checked_add_def)

lemma checked_add_wire:
  assumes "a \<le> MAX_WIRE_INTEGER"
  shows "checked_add a 1 = Some (a + 1)"
  using assms MAX_WIRE_INTEGER_lt_u64_max by (simp add: checked_add_def)

lemma saturating_add_ge: "a \<le> u64_max \<Longrightarrow> a \<le> saturating_add a b"
  by (simp add: saturating_add_def)

lemma saturating_add_le: "saturating_add a b \<le> a + b"
  by (simp add: saturating_add_def)

lemma saturating_add_bound [simp]: "saturating_add a b \<le> u64_max"
  by (simp add: saturating_add_def)

lemma saturating_add_exact: "a + b \<le> u64_max \<Longrightarrow> saturating_add a b = a + b"
  by (simp add: saturating_add_def)

section \<open>Strings\<close>

text \<open>
  \<open>str::trim\<close> removes the characters with the Unicode property \<open>White_Space\<close>. On UTF-8 bytes these
  are six single bytes (U+0009 to U+000D and U+0020), two two-byte sequences (U+0085, U+00A0) and
  the three-byte sequences of U+1680, U+2000 to U+200A, U+2028, U+2029, U+202F, U+205F and U+3000.
  \<open>ws_prefix\<close> gives the number of bytes of a white-space character at the front, 0 when there is none.
\<close>

definition byte :: "nat \<Rightarrow> char" where
  "byte n = char_of n"

definition ws1 :: "nat \<Rightarrow> bool" where
  "ws1 a \<longleftrightarrow> (9 \<le> a \<and> a \<le> 13) \<or> a = 32"

definition ws2 :: "nat \<Rightarrow> nat \<Rightarrow> bool" where
  "ws2 a b \<longleftrightarrow> a = 0xC2 \<and> (b = 0x85 \<or> b = 0xA0)"

definition ws3 :: "nat \<Rightarrow> nat \<Rightarrow> nat \<Rightarrow> bool" where
  "ws3 a b c \<longleftrightarrow>
     (a = 0xE1 \<and> b = 0x9A \<and> c = 0x80) \<or>
     (a = 0xE2 \<and> b = 0x80 \<and> ((0x80 \<le> c \<and> c \<le> 0x8A) \<or> c = 0xA8 \<or> c = 0xA9 \<or> c = 0xAF)) \<or>
     (a = 0xE2 \<and> b = 0x81 \<and> c = 0x9F) \<or>
     (a = 0xE3 \<and> b = 0x80 \<and> c = 0x80)"

fun trim_start :: "string \<Rightarrow> string" where
  "trim_start [] = []"
| "trim_start [a] = (if ws1 (of_char a) then [] else [a])"
| "trim_start [a, b] =
     (if ws1 (of_char a) then trim_start [b]
      else if ws2 (of_char a) (of_char b) then [] else [a, b])"
| "trim_start (a # b # c # s) =
     (if ws1 (of_char a) then trim_start (b # c # s)
      else if ws2 (of_char a) (of_char b) then trim_start (c # s)
      else if ws3 (of_char a) (of_char b) (of_char c) then trim_start s
      else a # b # c # s)"

text \<open>The same from the back, on the reversed byte string.\<close>

fun trim_end_rev :: "string \<Rightarrow> string" where
  "trim_end_rev [] = []"
| "trim_end_rev [a] = (if ws1 (of_char a) then [] else [a])"
| "trim_end_rev [b, a] =
     (if ws1 (of_char b) then trim_end_rev [a]
      else if ws2 (of_char a) (of_char b) then [] else [b, a])"
| "trim_end_rev (c # b # a # s) =
     (if ws1 (of_char c) then trim_end_rev (b # a # s)
      else if ws2 (of_char b) (of_char c) then trim_end_rev (a # s)
      else if ws3 (of_char a) (of_char b) (of_char c) then trim_end_rev s
      else c # b # a # s)"

definition trim :: "string \<Rightarrow> string" where
  "trim s = rev (trim_end_rev (rev (trim_start s)))"

text \<open>The test \<open>value.trim().is_empty()\<close>, which the crate uses for every identifier.\<close>

definition is_blank :: "string \<Rightarrow> bool" where
  "is_blank s \<longleftrightarrow> trim s = []"

lemma trim_Nil [simp]: "trim [] = []"
  by (simp add: trim_def)

lemma is_blank_Nil [simp]: "is_blank []"
  by (simp add: is_blank_def)

text \<open>The decimal form that \<open>format!\<close> writes.\<close>

fun decimal :: "nat \<Rightarrow> string" where
  "decimal n = (if n < 10 then [byte (48 + n)] else decimal (n div 10) @ [byte (48 + n mod 10)])"

declare decimal.simps [simp del]

section \<open>Fallible computations\<close>

text \<open>
  \<open>Result<T, E>\<close> is the sum \<open>'e + 'a\<close> with \<open>Inl\<close> the error. \<open>and_then\<close> is the \<open>?\<close> operator,
  \<open>ensure\<close> the early return of an error when a check fails, \<open>ok_or\<close> the conversion of an option.
\<close>

definition and_then :: "'e + 'a \<Rightarrow> ('a \<Rightarrow> 'e + 'b) \<Rightarrow> 'e + 'b" where
  "and_then r f = (case r of Inl e \<Rightarrow> Inl e | Inr a \<Rightarrow> f a)"

definition ensure :: "bool \<Rightarrow> 'e \<Rightarrow> 'e + unit" where
  "ensure b e = (if b then Inr () else Inl e)"

definition ok_or :: "'a option \<Rightarrow> 'e \<Rightarrow> 'e + 'a" where
  "ok_or x e = (case x of None \<Rightarrow> Inl e | Some a \<Rightarrow> Inr a)"

definition map_err :: "('e \<Rightarrow> 'f) \<Rightarrow> 'e + 'a \<Rightarrow> 'f + 'a" where
  "map_err f r = (case r of Inl e \<Rightarrow> Inl (f e) | Inr a \<Rightarrow> Inr a)"

definition is_ok :: "'e + 'a \<Rightarrow> bool" where
  "is_ok r = (case r of Inl _ \<Rightarrow> False | Inr _ \<Rightarrow> True)"

text \<open>A loop over a list whose body may return an error.\<close>

fun for_each :: "('a \<Rightarrow> 'e + unit) \<Rightarrow> 'a list \<Rightarrow> 'e + unit" where
  "for_each f [] = Inr ()"
| "for_each f (x # xs) = and_then (f x) (\<lambda>_. for_each f xs)"

lemma and_then_simps [simp, res_simps]:
  "and_then (Inl e) f = Inl e" "and_then (Inr a) f = f a"
  by (simp_all add: and_then_def)

lemma and_then_Inr_iff [res_simps]:
  "and_then r f = Inr b \<longleftrightarrow> (\<exists>a. r = Inr a \<and> f a = Inr b)"
  by (cases r) auto

lemma ensure_Inr_iff [simp, res_simps]: "ensure b e = Inr u \<longleftrightarrow> b"
  by (simp add: ensure_def)

lemma ensure_simps [simp]: "ensure True e = Inr ()" "ensure False e = Inl e"
  by (simp_all add: ensure_def)

lemma ok_or_Inr_iff [simp, res_simps]: "ok_or x e = Inr a \<longleftrightarrow> x = Some a"
  by (cases x) (simp_all add: ok_or_def)

lemma ok_or_simps [simp]: "ok_or (Some a) e = Inr a" "ok_or None e = Inl e"
  by (simp_all add: ok_or_def)

lemma map_err_Inr_iff [simp, res_simps]: "map_err f r = Inr a \<longleftrightarrow> r = Inr a"
  by (cases r) (simp_all add: map_err_def)

lemma for_each_Inr_iff [res_simps]:
  "for_each f xs = Inr u \<longleftrightarrow> (\<forall>x \<in> set xs. f x = Inr ())"
  by (induction xs) (auto simp: and_then_Inr_iff)

section \<open>The ordered map of the standard library\<close>

text \<open>
  \<open>BTreeMap\<close> iterates in key order. Its model is an association list that is strictly sorted by
  key, so that iteration is list traversal and equality of maps is equality of lists.
\<close>

type_synonym ('k, 'v) btree = "('k \<times> 'v) list"

definition btree_ok :: "('k::linorder, 'v) btree \<Rightarrow> bool" where
  "btree_ok m \<longleftrightarrow> sorted_wrt (<) (map fst m)"

fun btree_get :: "'k \<Rightarrow> ('k::linorder, 'v) btree \<Rightarrow> 'v option" where
  "btree_get k [] = None"
| "btree_get k ((a, v) # m) = (if k = a then Some v else btree_get k m)"

fun btree_insert :: "'k \<Rightarrow> 'v \<Rightarrow> ('k::linorder, 'v) btree \<Rightarrow> ('k, 'v) btree" where
  "btree_insert k v [] = [(k, v)]"
| "btree_insert k v ((a, w) # m) =
     (if k < a then (k, v) # (a, w) # m
      else if k = a then (k, v) # m
      else (a, w) # btree_insert k v m)"

fun btree_remove :: "'k \<Rightarrow> ('k::linorder, 'v) btree \<Rightarrow> ('k, 'v) btree" where
  "btree_remove k [] = []"
| "btree_remove k ((a, w) # m) = (if k = a then m else (a, w) # btree_remove k m)"

definition btree_contains :: "'k \<Rightarrow> ('k::linorder, 'v) btree \<Rightarrow> bool" where
  "btree_contains k m \<longleftrightarrow> btree_get k m \<noteq> None"

text \<open>\<open>entry(k).or_insert_with(v)\<close>: an existing value stays.\<close>

definition btree_or_insert :: "'k \<Rightarrow> 'v \<Rightarrow> ('k::linorder, 'v) btree \<Rightarrow> ('k, 'v) btree" where
  "btree_or_insert k v m = (if btree_contains k m then m else btree_insert k v m)"

definition btree_collect :: "('k::linorder \<times> 'v) list \<Rightarrow> ('k, 'v) btree" where
  "btree_collect kvs = fold (\<lambda>(k, v) m. btree_insert k v m) kvs []"

lemma btree_ok_Nil [simp]: "btree_ok []"
  by (simp add: btree_ok_def)

lemma btree_ok_tail: "btree_ok ((a, v) # m) \<Longrightarrow> btree_ok m"
  by (simp add: btree_ok_def)

lemma btree_ok_head_notin: "btree_ok ((a, v) # m) \<Longrightarrow> a \<notin> fst ` set m"
  by (auto simp: btree_ok_def)

lemma fst_set_btree_insert: "fst ` set (btree_insert k v m) = insert k (fst ` set m)"
  by (induction m rule: btree_insert.induct) auto

lemma btree_get_insert [simp]:
  "btree_get x (btree_insert k v m) = (if x = k then Some v else btree_get x m)"
  by (induction k v m rule: btree_insert.induct) auto

lemma btree_ok_insert [simp]: "btree_ok m \<Longrightarrow> btree_ok (btree_insert k v m)"
proof (induction k v m rule: btree_insert.induct)
  case (2 k v a w m)
  have step: "btree_ok (btree_insert k v m)" if "a < k"
    using that 2 by (auto simp: btree_ok_def)
  have keys: "\<forall>x \<in> fst ` set (btree_insert k v m). a < x" if "a < k"
    using that 2(2) by (simp add: fst_set_btree_insert btree_ok_def)
  show ?case
    using 2(2) step keys by (auto simp: btree_ok_def)
qed (simp add: btree_ok_def)

lemma btree_get_notin: "k \<notin> fst ` set m \<Longrightarrow> btree_get k m = None"
  by (induction k m rule: btree_get.induct) auto

lemma btree_get_remove [simp]:
  "btree_ok m \<Longrightarrow> btree_get x (btree_remove k m) = (if x = k then None else btree_get x m)"
proof (induction k m rule: btree_remove.induct)
  case (2 k a w m)
  note tail = btree_ok_tail [OF 2(2)] btree_ok_head_notin [OF 2(2)]
  with 2(1) show ?case by (auto simp: btree_get_notin)
qed simp

lemma set_btree_remove: "set (btree_remove k m) \<subseteq> set m"
  by (induction k m rule: btree_remove.induct) auto

lemma btree_ok_remove [simp]: "btree_ok m \<Longrightarrow> btree_ok (btree_remove k m)"
proof (induction k m rule: btree_remove.induct)
  case (2 k a w m)
  then show ?case using set_btree_remove [of k m] by (fastforce simp: btree_ok_def)
qed simp

lemma btree_get_set: "btree_ok m \<Longrightarrow> btree_get k m = Some v \<longleftrightarrow> (k, v) \<in> set m"
proof (induction k m rule: btree_get.induct)
  case (2 k a w m)
  note m = btree_ok_tail [OF 2(2)] and a = btree_ok_head_notin [OF 2(2)]
  show ?case
  proof (cases "k = a")
    case True
    with a have "(k, v) \<notin> set m" by force
    with True show ?thesis by auto
  next
    case False
    with 2(1) m show ?thesis by auto
  qed
qed simp

text \<open>
  The interface a client of the map relies on, stated once and discharged for the sorted list below.
\<close>

locale ordered_map =
  fixes get :: "'k::linorder \<Rightarrow> 'm \<Rightarrow> 'v option"
    and insert :: "'k \<Rightarrow> 'v \<Rightarrow> 'm \<Rightarrow> 'm"
    and entries :: "'m \<Rightarrow> ('k \<times> 'v) list"
    and ok :: "'m \<Rightarrow> bool"
  assumes get_insert: "ok m \<Longrightarrow> get x (insert k v m) = (if x = k then Some v else get x m)"
    and ok_insert: "ok m \<Longrightarrow> ok (insert k v m)"
    and entries_sorted: "ok m \<Longrightarrow> sorted_wrt (<) (map fst (entries m))"
    and entries_get: "ok m \<Longrightarrow> (k, v) \<in> set (entries m) \<longleftrightarrow> get k m = Some v"
begin

text \<open>Two maps that answer every lookup alike hold the same entries in the same order.\<close>

lemma entries_ext:
  assumes "ok m" and "ok n" and "\<And>k. get k m = get k n"
  shows "entries m = entries n"
proof -
  have sets: "set (entries m) = set (entries n)"
    using assms entries_get by (fastforce simp: set_eq_iff)
  have key: "\<And>xs ys. \<lbrakk>sorted_wrt (<) (map fst (xs :: ('k \<times> 'v) list)); sorted_wrt (<) (map fst ys);
      set xs = set ys\<rbrakk> \<Longrightarrow> xs = ys"
  proof -
    fix xs ys :: "('k \<times> 'v) list"
    assume s: "sorted_wrt (<) (map fst xs)" "sorted_wrt (<) (map fst ys)" and e: "set xs = set ys"
    have d: "distinct (map fst xs)" "distinct (map fst ys)"
      using s by (simp_all add: strict_sorted_iff)
    then show "xs = ys"
      using s e by (intro map_sorted_distinct_set_unique [of fst])
        (auto simp: strict_sorted_iff distinct_map)
  qed
  show ?thesis
    using key [OF entries_sorted [OF assms(1)] entries_sorted [OF assms(2)] sets] .
qed

lemma get_fold_insert:
  assumes "ok m"
  shows "ok (fold (\<lambda>(k, v). insert k v) kvs m) \<and>
    get x (fold (\<lambda>(k, v). insert k v) kvs m) =
      (case map_of (rev kvs) x of None \<Rightarrow> get x m | Some v \<Rightarrow> Some v)"
  using assms
  by (induction kvs arbitrary: m)
    (auto simp: get_insert ok_insert map_add_def split: option.splits)

end

interpretation bt: ordered_map btree_get btree_insert "\<lambda>m. m" btree_ok
proof unfold_locales
  show "\<And>m k v. btree_ok m \<Longrightarrow> (k, v) \<in> set m \<longleftrightarrow> btree_get k m = Some v"
    by (simp add: btree_get_set)
qed (simp_all add: btree_ok_def [THEN iffD1])

lemma btree_ok_collect [simp]: "btree_ok (btree_collect kvs)"
  unfolding btree_collect_def using bt.get_fold_insert [of "[]" kvs] by simp

lemma btree_get_collect: "btree_get x (btree_collect kvs) = map_of (rev kvs) x"
  unfolding btree_collect_def using bt.get_fold_insert [of "[]" kvs x]
  by (simp split: option.splits)

text \<open>Lookups in a collected object with distinct keys.\<close>

lemma btree_get_object:
  assumes "distinct (map fst kvs)"
  shows "btree_get k (btree_collect kvs) = map_of kvs k"
proof -
  have "map_of (rev kvs) k = Some v \<longleftrightarrow> map_of kvs k = Some v" for v
    using assms by (simp add: rev_map [symmetric])
  then have "map_of (rev kvs) k = map_of kvs k" by (metis not_None_eq)
  then show ?thesis by (simp add: btree_get_collect)
qed

lemma btree_collect_keys: "(k, v) \<in> set (btree_collect kvs) \<Longrightarrow> k \<in> fst ` set kvs"
proof -
  assume "(k, v) \<in> set (btree_collect kvs)"
  then have "btree_get k (btree_collect kvs) = Some v" by (simp add: btree_get_set)
  then have "(k, v) \<in> set (rev kvs)" by (auto simp: btree_get_collect dest: map_of_SomeD)
  then show ?thesis by force
qed

lemma btree_collect_sub: "(k, v) \<in> set (btree_collect kvs) \<Longrightarrow> (k, v) \<in> set kvs"
  by (auto simp: btree_get_collect dest!: map_of_SomeD btree_get_set [OF btree_ok_collect, THEN iffD2])

lemma list_all_collect_keys:
  "fst ` set kvs \<subseteq> A \<Longrightarrow> list_all (\<lambda>(k, _). k \<in> A) (btree_collect kvs)"
  by (auto simp: list_all_iff dest!: btree_collect_keys)

lemma fst_set_btree_collect: "fst ` set (btree_collect kvs) = fst ` set kvs"
proof -
  have "fst ` set (fold (\<lambda>(k, v) m. btree_insert k v m) kvs m) = fst ` set m \<union> fst ` set kvs"
    for m :: "('a, 'b) btree"
    by (induction kvs arbitrary: m) (simp_all add: fst_set_btree_insert split_def)
  from this [of "[]"] show ?thesis by (simp add: btree_collect_def)
qed

lemma btree_ok_distinct: "btree_ok m \<Longrightarrow> distinct (map fst m)"
  by (simp add: btree_ok_def strict_sorted_iff)

lemma length_btree_collect:
  assumes "distinct (map fst kvs)"
  shows "length (btree_collect kvs) = length kvs"
proof -
  have "length (btree_collect kvs) = card (fst ` set (btree_collect kvs))"
    using btree_ok_distinct [OF btree_ok_collect, of kvs] by (metis distinct_card length_map list.set_map)
  also have "\<dots> = card (fst ` set kvs)" by (simp add: fst_set_btree_collect)
  also have "\<dots> = length kvs" using assms by (metis distinct_card length_map list.set_map)
  finally show ?thesis .
qed

lemma btree_ok_or_insert [simp]: "btree_ok m \<Longrightarrow> btree_ok (btree_or_insert k v m)"
  by (simp add: btree_or_insert_def)

lemma btree_get_or_insert:
  "btree_get x (btree_or_insert k v m) =
     (if x = k \<and> btree_get k m = None then Some v else btree_get x m)"
  by (auto simp: btree_or_insert_def btree_contains_def)

section \<open>State machines\<close>

text \<open>
  A component with a step relation interprets this locale; the client lemma is that an invariant
  which holds initially and is kept by every step holds in every reachable state.
\<close>

locale state_machine =
  fixes init :: "'s \<Rightarrow> bool"
    and step :: "'s \<Rightarrow> 's \<Rightarrow> bool"
    and inv :: "'s \<Rightarrow> bool"
  assumes inv_init: "init s \<Longrightarrow> inv s"
    and inv_step: "inv s \<Longrightarrow> step s t \<Longrightarrow> inv t"
begin

lemma inv_steps: "step\<^sup>*\<^sup>* s t \<Longrightarrow> inv s \<Longrightarrow> inv t"
  by (induction rule: rtranclp_induct) (auto intro: inv_step)

lemma inv_reachable: "init s \<Longrightarrow> step\<^sup>*\<^sup>* s t \<Longrightarrow> inv t"
  by (blast intro: inv_init inv_steps)

end

section \<open>Lists\<close>

text \<open>\<open>Iterator::find_map\<close>.\<close>

fun find_map :: "('a \<Rightarrow> 'b option) \<Rightarrow> 'a list \<Rightarrow> 'b option" where
  "find_map f [] = None"
| "find_map f (x # xs) = (case f x of None \<Rightarrow> find_map f xs | Some b \<Rightarrow> Some b)"

text \<open>\<open>Iterator::position\<close>.\<close>

fun position :: "('a \<Rightarrow> bool) \<Rightarrow> 'a list \<Rightarrow> nat option" where
  "position p [] = None"
| "position p (x # xs) = (if p x then Some 0 else map_option Suc (position p xs))"

lemma find_map_None_iff: "find_map f xs = None \<longleftrightarrow> (\<forall>x \<in> set xs. f x = None)"
  by (induction xs) (auto split: option.splits)

lemma find_map_SomeD: "find_map f xs = Some b \<Longrightarrow> \<exists>x \<in> set xs. f x = Some b"
  by (induction xs) (auto split: option.splits)

lemma find_map_split:
  "find_map f xs = Some b \<Longrightarrow>
     \<exists>as x bs. xs = as @ x # bs \<and> f x = Some b \<and> (\<forall>a \<in> set as. f a = None)"
proof (induction xs)
  case (Cons y ys)
  show ?case
  proof (cases "f y")
    case None
    with Cons obtain as x bs where "ys = as @ x # bs" "f x = Some b" "\<forall>a \<in> set as. f a = None"
      by auto
    with None have "y # ys = (y # as) @ x # bs \<and> f x = Some b \<and> (\<forall>a \<in> set (y # as). f a = None)"
      by simp
    then show ?thesis by blast
  next
    case (Some c)
    with Cons.prems have "y # ys = [] @ y # ys \<and> f y = Some b" by simp
    then show ?thesis by (metis emptyE list.set(1))
  qed
qed simp

lemma position_SomeD:
  "position p xs = Some i \<Longrightarrow> i < length xs \<and> p (xs ! i) \<and> (\<forall>j < i. \<not> p (xs ! j))"
proof (induction xs arbitrary: i)
  case (Cons x xs)
  then show ?case
    by (auto split: if_splits simp: less_Suc_eq_0_disj)
qed simp

lemma position_None_iff: "position p xs = None \<longleftrightarrow> (\<forall>x \<in> set xs. \<not> p x)"
  by (induction xs) auto

lemma nth_update_if: "xs[i := x] ! j = (if i = j \<and> i < length xs then x else xs ! j)"
  by (cases "i < length xs") (simp_all add: nth_list_update list_update_beyond)

end
