(* ===== verification/Request_Queue.thy ===== *)
theory Request_Queue
  imports Agent_Prelude
begin

text \<open>
  The request serialization queue of the application server
  (\<open>app_server/request_serialization.rs\<close>): for every key a queue state with the number of shared
  holders, the exclusive holder and the waiters in arrival order. The definitions follow
  \<open>QueueState\<close> and \<open>RequestSerializationQueue\<close>; \<open>sys\<close> adds the requests that are inside their
  critical section, which the source keeps implicitly as suspended futures. A request is identified
  by a number, which stands for the identity of its \<open>Notify\<close> object.
\<close>

section \<open>Scopes\<close>

datatype access = Shared | Exclusive

datatype queue_key = Key string

definition thread_key :: "string \<Rightarrow> queue_key" where
  "thread_key thread_id = Key (''thread:'' @ thread_id)"

definition global_key :: "string \<Rightarrow> queue_key" where
  "global_key name = Key (''global:'' @ name)"

record scope =
  scope_key :: queue_key
  scope_access :: access

definition shared_thread :: "string \<Rightarrow> scope" where
  "shared_thread t = \<lparr>scope_key = thread_key t, scope_access = Shared\<rparr>"

definition exclusive_thread :: "string \<Rightarrow> scope" where
  "exclusive_thread t = \<lparr>scope_key = thread_key t, scope_access = Exclusive\<rparr>"

definition shared_global :: "string \<Rightarrow> scope" where
  "shared_global n = \<lparr>scope_key = global_key n, scope_access = Shared\<rparr>"

definition exclusive_global :: "string \<Rightarrow> scope" where
  "exclusive_global n = \<lparr>scope_key = global_key n, scope_access = Exclusive\<rparr>"

text \<open>
  \<open>thread_id_param\<close> is the string member \<open>threadId\<close> of the request parameters, \<open>None\<close> when the
  parameters are absent, are no object, or hold no string there (function \<open>thread_id\<close>).
\<close>

definition for_method :: "string \<Rightarrow> string option \<Rightarrow> scope option" where
  "for_method method thread_id_param =
    (if method = ''thread/start'' then Some (exclusive_global ''thread'')
     else if method \<in> {''thread/resume'', ''thread/read'', ''thread/status''}
       then map_option shared_thread thread_id_param
     else if method \<in> {''thread/archive'', ''thread/unsubscribe'', ''turn/start'', ''turn/resume'',
         ''turn/interrupt'', ''turn/steer'', ''turn/followUp'', ''turn/action'', ''approval/resolve''}
       then map_option exclusive_thread thread_id_param
     else if method = ''thread/list'' then Some (shared_global ''thread/list'')
     else if method = ''model/list'' then Some (shared_global ''model'')
     else if method = ''schema/export'' then Some (shared_global ''schema'')
     else None)"

section \<open>The state of one key\<close>

type_synonym req_id = nat

record queue_state =
  active_shared :: nat
  active_exclusive :: bool
  waiters :: "(access \<times> req_id) list"

definition default_queue :: queue_state where
  "default_queue = \<lparr>active_shared = 0, active_exclusive = False, waiters = []\<rparr>"

definition can_start_now :: "queue_state \<Rightarrow> access \<Rightarrow> bool" where
  "can_start_now q a \<longleftrightarrow> waiters q = [] \<and>
     (case a of
        Shared \<Rightarrow> \<not> active_exclusive q
      | Exclusive \<Rightarrow> \<not> active_exclusive q \<and> active_shared q = 0)"

definition start :: "queue_state \<Rightarrow> access \<Rightarrow> queue_state" where
  "start q a = (case a of
      Shared \<Rightarrow> q\<lparr>active_shared := active_shared q + 1\<rparr>
    | Exclusive \<Rightarrow> q\<lparr>active_exclusive := True\<rparr>)"

definition finish :: "queue_state \<Rightarrow> access \<Rightarrow> queue_state" where
  "finish q a = (case a of
      Shared \<Rightarrow> q\<lparr>active_shared := saturating_sub (active_shared q) 1\<rparr>
    | Exclusive \<Rightarrow> q\<lparr>active_exclusive := False\<rparr>)"

text \<open>The loop that wakes the leading shared waiters; the second component lists the woken ones.\<close>

fun wake_shared :: "nat \<Rightarrow> (access \<times> req_id) list \<Rightarrow> nat \<times> (access \<times> req_id) list \<times> req_id list" where
  "wake_shared n ((Shared, r) # ws) =
     (case wake_shared (n + 1) ws of (n', ws', woken) \<Rightarrow> (n', ws', r # woken))"
| "wake_shared n ws = (n, ws, [])"

definition wake_next :: "queue_state \<Rightarrow> queue_state \<times> req_id list" where
  "wake_next q =
    (if active_exclusive q \<or> active_shared q > 0 then (q, [])
     else case waiters q of
       [] \<Rightarrow> (q, [])
     | (Exclusive, r) # ws \<Rightarrow> (q\<lparr>active_exclusive := True, waiters := ws\<rparr>, [r])
     | (Shared, _) # _ \<Rightarrow>
         (case wake_shared (active_shared q) (waiters q) of
            (n, ws, woken) \<Rightarrow> (q\<lparr>active_shared := n, waiters := ws\<rparr>, woken)))"

definition is_empty :: "queue_state \<Rightarrow> bool" where
  "is_empty q \<longleftrightarrow> active_shared q = 0 \<and> \<not> active_exclusive q \<and> waiters q = []"

section \<open>The queue of all keys\<close>

type_synonym queues = "queue_key \<rightharpoonup> queue_state"

text \<open>
  \<open>acquire\<close> up to the point where the lock is dropped: the boolean says whether the request entered
  at once or waits for its notification.
\<close>

definition acquire :: "queues \<Rightarrow> scope \<Rightarrow> req_id \<Rightarrow> queues \<times> bool" where
  "acquire qs s r =
    (let q = (case qs (scope_key s) of None \<Rightarrow> default_queue | Some q \<Rightarrow> q)
     in if can_start_now q (scope_access s)
        then (qs(scope_key s \<mapsto> start q (scope_access s)), True)
        else (qs(scope_key s \<mapsto> q\<lparr>waiters := waiters q @ [(scope_access s, r)]\<rparr>), False))"

text \<open>\<open>release\<close>: the second component lists the requests that were notified.\<close>

definition release :: "queues \<Rightarrow> scope \<Rightarrow> queues \<times> req_id list" where
  "release qs s =
    (case qs (scope_key s) of
       None \<Rightarrow> (qs, [])
     | Some q \<Rightarrow>
         (let (q', woken) = wake_next (finish q (scope_access s))
          in (if is_empty q' then qs(scope_key s := None) else qs(scope_key s \<mapsto> q'), woken)))"

section \<open>The concurrent system\<close>

text \<open>
  A request runs its future between the return of \<open>acquire\<close> and the call of \<open>release\<close>
  (\<open>RequestSerializationQueue::run\<close>). \<open>running\<close> lists the requests there with their scopes,
  \<open>waiting\<close> the suspended ones; each step is one critical section of the \<open>inner\<close> mutex.
\<close>

record sys =
  queues :: queues
  running :: "(req_id \<times> scope) list"
  waiting :: "(req_id \<times> scope) list"

definition init_sys :: sys where
  "init_sys = \<lparr>queues = Map.empty, running = [], waiting = []\<rparr>"

definition do_acquire :: "sys \<Rightarrow> req_id \<Rightarrow> scope \<Rightarrow> sys" where
  "do_acquire y r s =
    (let (qs, entered) = acquire (queues y) s r
     in if entered then y\<lparr>queues := qs, running := running y @ [(r, s)]\<rparr>
        else y\<lparr>queues := qs, waiting := waiting y @ [(r, s)]\<rparr>)"

definition do_release :: "sys \<Rightarrow> req_id \<Rightarrow> scope \<Rightarrow> sys" where
  "do_release y r s =
    (let (qs, woken) = release (queues y) s
     in y\<lparr>queues := qs,
          running := filter (\<lambda>p. fst p \<noteq> r) (running y) @ filter (\<lambda>p. fst p \<in> set woken) (waiting y),
          waiting := filter (\<lambda>p. fst p \<notin> set woken) (waiting y)\<rparr>)"

definition fresh :: "sys \<Rightarrow> req_id \<Rightarrow> bool" where
  "fresh y r \<longleftrightarrow> r \<notin> fst ` set (running y) \<and> r \<notin> fst ` set (waiting y)"

inductive queue_step :: "sys \<Rightarrow> sys \<Rightarrow> bool" where
  enter: "fresh y r \<Longrightarrow> queue_step y (do_acquire y r s)"
| leave: "(r, s) \<in> set (running y) \<Longrightarrow> queue_step y (do_release y r s)"

inductive_cases queue_stepE: "queue_step y z"

section \<open>The invariant\<close>

text \<open>
  The counters of a key count the running requests of that key, the waiters of a key are the waiting
  requests of that key in arrival order, holders exclude one another, and a key with waiters has a
  holder (so that somebody is left to wake them).
\<close>

definition on_key :: "queue_key \<Rightarrow> (req_id \<times> scope) list \<Rightarrow> (req_id \<times> scope) list" where
  "on_key k ps = filter (\<lambda>p. scope_key (snd p) = k) ps"

definition n_shared :: "(req_id \<times> scope) list \<Rightarrow> nat" where
  "n_shared ps = length (filter (\<lambda>p. scope_access (snd p) = Shared) ps)"

definition n_exclusive :: "(req_id \<times> scope) list \<Rightarrow> nat" where
  "n_exclusive ps = length (filter (\<lambda>p. scope_access (snd p) = Exclusive) ps)"

definition waiter_list :: "(req_id \<times> scope) list \<Rightarrow> (access \<times> req_id) list" where
  "waiter_list ps = map (\<lambda>p. (scope_access (snd p), fst p)) ps"

definition queue_of :: "queues \<Rightarrow> queue_key \<Rightarrow> queue_state" where
  "queue_of qs k = (case qs k of None \<Rightarrow> default_queue | Some q \<Rightarrow> q)"

definition queue_ok :: "queue_state \<Rightarrow> bool" where
  "queue_ok q \<longleftrightarrow>
     (active_exclusive q \<longrightarrow> active_shared q = 0) \<and>
     (waiters q \<noteq> [] \<longrightarrow> active_exclusive q \<or> active_shared q > 0) \<and>
     (active_shared q > 0 \<longrightarrow> (case waiters q of (Shared, _) # _ \<Rightarrow> False | _ \<Rightarrow> True))"

definition coherent :: "queue_state \<Rightarrow> (req_id \<times> scope) list \<Rightarrow> (req_id \<times> scope) list \<Rightarrow> bool" where
  "coherent q run wait \<longleftrightarrow>
     active_shared q = n_shared run \<and>
     n_exclusive run = (if active_exclusive q then 1 else 0) \<and>
     waiters q = waiter_list wait"

definition sys_inv :: "sys \<Rightarrow> bool" where
  "sys_inv y \<longleftrightarrow>
     distinct (map fst (running y @ waiting y)) \<and>
     (\<forall>k. queue_ok (queue_of (queues y) k) \<and>
          coherent (queue_of (queues y) k) (on_key k (running y)) (on_key k (waiting y)) \<and>
          (\<forall>q. queues y k = Some q \<longrightarrow> \<not> is_empty q))"

section \<open>Properties of the operations\<close>

lemma wake_shared_eq:
  "wake_shared n ws =
     (n + length (takeWhile (\<lambda>w. fst w = Shared) ws),
      dropWhile (\<lambda>w. fst w = Shared) ws,
      map snd (takeWhile (\<lambda>w. fst w = Shared) ws))"
  by (induction n ws rule: wake_shared.induct) auto

text \<open>What one \<open>wake_next\<close> admits: a list of waiters at the front of the queue.\<close>

definition admitted :: "queue_state \<Rightarrow> (access \<times> req_id) list" where
  "admitted q =
     (if active_exclusive q \<or> active_shared q > 0 then []
      else case waiters q of
        [] \<Rightarrow> []
      | (Exclusive, r) # _ \<Rightarrow> [(Exclusive, r)]
      | (Shared, _) # _ \<Rightarrow> takeWhile (\<lambda>w. fst w = Shared) (waiters q))"

lemma wake_next_woken: "snd (wake_next q) = map snd (admitted q)"
  by (auto simp: wake_next_def admitted_def wake_shared_eq split: list.splits access.splits)

lemma wake_next_waiters: "waiters q = admitted q @ waiters (fst (wake_next q))"
  by (auto simp: wake_next_def admitted_def wake_shared_eq split: list.splits access.splits)

lemma wake_next_shared:
  "active_shared (fst (wake_next q)) =
     active_shared q + length (filter (\<lambda>w. fst w = Shared) (admitted q))"
proof -
  have "length (filter (\<lambda>w. fst w = Shared) (takeWhile (\<lambda>w. fst w = Shared) ws)) =
      length (takeWhile (\<lambda>w. fst w = Shared) ws)" for ws :: "(access \<times> req_id) list"
    by (induction ws) auto
  then show ?thesis
    by (auto simp: wake_next_def admitted_def wake_shared_eq split: list.splits access.splits)
qed

lemma wake_next_exclusive:
  "(if active_exclusive (fst (wake_next q)) then 1 else 0) =
     (if active_exclusive q then 1 else 0) + length (filter (\<lambda>w. fst w = Exclusive) (admitted q))"
proof -
  have "filter (\<lambda>w. fst w = Exclusive) (takeWhile (\<lambda>w. fst w = Shared) ws) = []"
    for ws :: "(access \<times> req_id) list"
    by (induction ws) auto
  then show ?thesis
    by (auto simp: wake_next_def admitted_def wake_shared_eq split: list.splits access.splits)
qed

lemma head_dropWhile_shared [simp]: "dropWhile (\<lambda>w. fst w = Shared) ws \<noteq> (Shared, r) # vs"
  by (induction ws) auto

lemma wake_next_ok:
  assumes "active_exclusive q \<longrightarrow> active_shared q = 0"
    and "active_shared q > 0 \<longrightarrow> (case waiters q of (Shared, _) # _ \<Rightarrow> False | _ \<Rightarrow> True)"
  shows "queue_ok (fst (wake_next q))"
  using assms
  by (auto simp: wake_next_def queue_ok_def wake_shared_eq split: list.splits access.splits)

lemma wake_next_progress: "waiters q \<noteq> [] \<Longrightarrow> \<not> is_empty (fst (wake_next q))"
  by (auto simp: wake_next_def is_empty_def wake_shared_eq split: list.splits access.splits)

section \<open>Every step keeps the invariant\<close>

lemma queue_of_upd [simp]:
  "queue_of (qs(k \<mapsto> q)) k' = (if k' = k then q else queue_of qs k')"
  "queue_of (qs(k := None)) k' = (if k' = k then default_queue else queue_of qs k')"
  by (simp_all add: queue_of_def)

lemma is_empty_default: "is_empty q \<Longrightarrow> q = default_queue"
  by (simp add: is_empty_def default_queue_def)

lemma on_key_append [simp]: "on_key k (ps @ qs) = on_key k ps @ on_key k qs"
  by (simp add: on_key_def)

lemma on_key_single [simp]: "on_key k [(r, s)] = (if scope_key s = k then [(r, s)] else [])"
  by (simp add: on_key_def)

lemma count_append [simp]:
  "n_shared (ps @ qs) = n_shared ps + n_shared qs"
  "n_exclusive (ps @ qs) = n_exclusive ps + n_exclusive qs"
  "waiter_list (ps @ qs) = waiter_list ps @ waiter_list qs"
  by (simp_all add: n_shared_def n_exclusive_def waiter_list_def)

lemma count_single [simp]:
  "n_shared [(r, s)] = (if scope_access s = Shared then 1 else 0)"
  "n_exclusive [(r, s)] = (if scope_access s = Exclusive then 1 else 0)"
  "waiter_list [(r, s)] = [(scope_access s, r)]"
  by (simp_all add: n_shared_def n_exclusive_def waiter_list_def)

lemma count_Nil [simp]: "n_shared [] = 0" "n_exclusive [] = 0" "waiter_list [] = []" "on_key k [] = []"
  by (simp_all add: n_shared_def n_exclusive_def waiter_list_def on_key_def)

lemma waiter_list_count:
  "length (filter (\<lambda>w. fst w = Shared) (waiter_list ps)) = n_shared ps"
  "length (filter (\<lambda>w. fst w = Exclusive) (waiter_list ps)) = n_exclusive ps"
  by (induction ps) (auto simp: waiter_list_def n_shared_def n_exclusive_def)

lemma filter_prefix_ids:
  assumes "distinct (map fst ws)" and "filter P ws = as @ bs"
  shows "filter (\<lambda>p. fst p \<in> fst ` set as) ws = as"
    and "filter (\<lambda>p. fst p \<notin> fst ` set as \<and> P p) ws = bs"
proof -
  have sub: "set as \<subseteq> set ws" "\<forall>p \<in> set as. P p"
    using assms(2) by (metis Un_subset_iff filter_is_subset set_append,
      metis UnCI mem_Collect_eq set_append set_filter)
  have inj: "inj_on fst (set ws)" using assms(1) by (simp add: distinct_map)
  have mem: "fst p \<in> fst ` set as \<longleftrightarrow> p \<in> set as" if "p \<in> set ws" for p
    using that sub(1) inj by (auto dest: inj_onD)
  have d: "distinct (as @ bs)"
    using assms distinct_filter [of ws P] by (simp add: distinct_map)
  have "filter (\<lambda>p. fst p \<in> fst ` set as) ws = filter (\<lambda>p. p \<in> set as) (filter P ws)"
    using mem sub(2) by (auto intro!: filter_cong)
  also have "\<dots> = as"
    using assms(2) d by (simp add: filter_id_conv filter_empty_conv) auto
  finally show "filter (\<lambda>p. fst p \<in> fst ` set as) ws = as" .
  have "filter (\<lambda>p. fst p \<notin> fst ` set as \<and> P p) ws = filter (\<lambda>p. p \<notin> set as) (filter P ws)"
    using mem by (auto intro!: filter_cong)
  also have "\<dots> = bs"
    using assms(2) d by (auto simp add: filter_id_conv filter_empty_conv)
  finally show "filter (\<lambda>p. fst p \<notin> fst ` set as \<and> P p) ws = bs" .
qed

lemma remove_id:
  assumes "distinct (map fst ps)" and "(r, s) \<in> set ps"
  shows "n_shared (on_key k ps) = n_shared (on_key k (filter (\<lambda>p. fst p \<noteq> r) ps)) +
      (if scope_key s = k \<and> scope_access s = Shared then 1 else 0)"
    and "n_exclusive (on_key k ps) = n_exclusive (on_key k (filter (\<lambda>p. fst p \<noteq> r) ps)) +
      (if scope_key s = k \<and> scope_access s = Exclusive then 1 else 0)"
proof -
  obtain us vs where ps: "ps = us @ (r, s) # vs" using assms(2) by (meson split_list)
  have "filter (\<lambda>p. fst p \<noteq> r) us = us" "filter (\<lambda>p. fst p \<noteq> r) vs = vs"
    using assms(1) ps by (auto simp: filter_id_conv)
  then have f: "filter (\<lambda>p. fst p \<noteq> r) ps = us @ vs" using ps by simp
  have ps2: "ps = us @ [(r, s)] @ vs" using ps by simp
  show "n_shared (on_key k ps) = n_shared (on_key k (filter (\<lambda>p. fst p \<noteq> r) ps)) +
      (if scope_key s = k \<and> scope_access s = Shared then 1 else 0)"
    unfolding f unfolding ps2 on_key_append count_append by simp
  show "n_exclusive (on_key k ps) = n_exclusive (on_key k (filter (\<lambda>p. fst p \<noteq> r) ps)) +
      (if scope_key s = k \<and> scope_access s = Exclusive then 1 else 0)"
    unfolding f unfolding ps2 on_key_append count_append by simp
qed

lemma sys_inv_init: "sys_inv init_sys"
  by (simp add: sys_inv_def init_sys_def queue_of_def default_queue_def queue_ok_def coherent_def)

lemma sys_inv_acquire:
  assumes inv: "sys_inv y" and fresh: "fresh y r"
  shows "sys_inv (do_acquire y r s)"
proof -
  define q where "q = queue_of (queues y) (scope_key s)"
  have qs: "queue_of (queues y) (scope_key s) = q" and ok: "queue_ok q"
    and co: "coherent q (on_key (scope_key s) (running y)) (on_key (scope_key s) (waiting y))"
    using inv by (simp_all add: q_def sys_inv_def)
  have acq: "acquire (queues y) s r =
      (if can_start_now q (scope_access s)
       then ((queues y)(scope_key s \<mapsto> start q (scope_access s)), True)
       else ((queues y)(scope_key s \<mapsto> q\<lparr>waiters := waiters q @ [(scope_access s, r)]\<rparr>), False))"
    by (simp add: acquire_def q_def queue_of_def Let_def)
  have dist: "distinct (map fst (running y @ waiting y @ [(r, s)]))"
      "distinct (map fst (running y @ [(r, s)] @ waiting y))"
    using inv fresh by (auto simp: sys_inv_def fresh_def)
  show ?thesis
  proof (cases "can_start_now q (scope_access s)")
    case True
    have "queue_ok (start q (scope_access s))" "\<not> is_empty (start q (scope_access s))"
      using True ok by (auto simp: can_start_now_def start_def queue_ok_def is_empty_def split: access.splits)
    moreover have "coherent (start q (scope_access s))
        (on_key (scope_key s) (running y) @ [(r, s)]) (on_key (scope_key s) (waiting y))"
      using True co by (auto simp: coherent_def start_def can_start_now_def split: access.splits)
    ultimately show ?thesis
      using inv True dist by (auto simp: sys_inv_def do_acquire_def acq)
  next
    case False
    let ?q = "q\<lparr>waiters := waiters q @ [(scope_access s, r)]\<rparr>"
    have "queue_ok ?q" "\<not> is_empty ?q"
      using False ok by (auto simp: can_start_now_def queue_ok_def is_empty_def
        split: access.splits list.splits)
    moreover have "coherent ?q (on_key (scope_key s) (running y))
        (on_key (scope_key s) (waiting y) @ [(r, s)])"
      using co by (simp add: coherent_def)
    ultimately show ?thesis
      using inv False dist by (auto simp: sys_inv_def do_acquire_def acq)
  qed
qed

text \<open>What a release does to the waiting requests: the admitted prefix moves to \<open>running\<close>.\<close>

lemma release_split:
  assumes inv: "sys_inv y" and run: "(r, s) \<in> set (running y)"
  obtains q as bs where
    "queues y (scope_key s) = Some q"
    "on_key (scope_key s) (waiting y) = as @ bs"
    "admitted (finish q (scope_access s)) = waiter_list as"
    "waiters (fst (wake_next (finish q (scope_access s)))) = waiter_list bs"
    "do_release y r s = y\<lparr>
       queues := (if is_empty (fst (wake_next (finish q (scope_access s))))
         then (queues y)(scope_key s := None)
         else (queues y)(scope_key s \<mapsto> fst (wake_next (finish q (scope_access s))))),
       running := filter (\<lambda>p. fst p \<noteq> r) (running y) @ as,
       waiting := filter (\<lambda>p. fst p \<notin> fst ` set as) (waiting y)\<rparr>"
proof -
  let ?k = "scope_key s"
  have co: "coherent (queue_of (queues y) ?k) (on_key ?k (running y)) (on_key ?k (waiting y))"
    using inv by (simp add: sys_inv_def)
  have mem: "(r, s) \<in> set (on_key ?k (running y))" using run by (simp add: on_key_def)
  have "queues y ?k \<noteq> None"
  proof
    assume none: "queues y ?k = None"
    from co none have "n_shared (on_key ?k (running y)) = 0" "n_exclusive (on_key ?k (running y)) = 0"
      by (simp_all add: coherent_def queue_of_def default_queue_def)
    with mem show False
      by (cases "scope_access s") (auto simp: n_shared_def n_exclusive_def filter_empty_conv)
  qed
  then obtain q where q: "queues y ?k = Some q" by blast
  define f where "f = finish q (scope_access s)"
  have wl: "waiters f = waiter_list (on_key ?k (waiting y))"
    using co q by (simp add: f_def finish_def coherent_def queue_of_def split: access.splits)
  define n where "n = length (admitted f)"
  define as bs where "as = take n (on_key ?k (waiting y))" and "bs = drop n (on_key ?k (waiting y))"
  have split: "on_key ?k (waiting y) = as @ bs" by (simp add: as_def bs_def)
  have pre: "waiter_list as @ waiter_list bs = admitted f @ waiters (fst (wake_next f))"
    using wl split wake_next_waiters [of f] by simp
  have "length (admitted f) \<le> length (on_key ?k (waiting y))"
    using wl wake_next_waiters [of f] by (metis length_append le_add1 length_map waiter_list_def)
  then have "length (waiter_list as) = length (admitted f)"
    by (simp add: as_def waiter_list_def n_def)
  with pre have adm: "admitted f = waiter_list as" and rest: "waiters (fst (wake_next f)) = waiter_list bs"
    by simp_all
  have woken: "set (snd (wake_next f)) = fst ` set as"
    by (simp add: wake_next_woken adm waiter_list_def image_image)
  have "distinct (map fst (waiting y))" using inv by (simp add: sys_inv_def)
  from filter_prefix_ids(1) [OF this split [unfolded on_key_def]]
  have moved: "filter (\<lambda>p. fst p \<in> fst ` set as) (waiting y) = as" .
  have rel: "do_release y r s = y\<lparr>
      queues := (if is_empty (fst (wake_next f)) then (queues y)(?k := None)
        else (queues y)(?k \<mapsto> fst (wake_next f))),
      running := filter (\<lambda>p. fst p \<noteq> r) (running y) @ as,
      waiting := filter (\<lambda>p. fst p \<notin> fst ` set as) (waiting y)\<rparr>"
    using q woken moved by (simp add: do_release_def release_def f_def [symmetric] case_prod_beta Let_def)
  show ?thesis
    by (rule that [OF q split]) (use adm rest rel in \<open>simp_all add: f_def\<close>)
qed

lemma release_other:
  assumes dist: "distinct (map fst run)" "distinct (map fst wait)"
    and run: "(r, s) \<in> set run" and k: "k \<noteq> scope_key s"
    and as: "set as \<subseteq> set wait" "\<forall>p \<in> set as. scope_key (snd p) = scope_key s"
  shows "on_key k (filter (\<lambda>p. fst p \<noteq> r) run @ as) = on_key k run"
    and "on_key k (filter (\<lambda>p. fst p \<notin> fst ` set as) wait) = on_key k wait"
proof -
  have "on_key k as = []" using as(2) k by (auto simp: on_key_def filter_empty_conv)
  moreover have "on_key k (filter (\<lambda>p. fst p \<noteq> r) run) = on_key k run"
    using eq_key_imp_eq_value [OF dist(1) run] k by (auto simp: on_key_def intro!: filter_cong)
  ultimately show "on_key k (filter (\<lambda>p. fst p \<noteq> r) run @ as) = on_key k run" by simp
  show "on_key k (filter (\<lambda>p. fst p \<notin> fst ` set as) wait) = on_key k wait"
    using dist(2) as k by (auto simp: on_key_def distinct_map intro!: filter_cong dest!: inj_onD)
qed

lemma release_here:
  assumes ok: "queue_ok q"
    and co: "coherent q (on_key k run) (as @ bs)"
    and dist: "distinct (map fst run)" and mem: "(r, s) \<in> set run" and k: "scope_key s = k"
    and as: "\<forall>p \<in> set as. scope_key (snd p) = k"
    and adm: "admitted (finish q (scope_access s)) = waiter_list as"
    and rest: "waiters (fst (wake_next (finish q (scope_access s)))) = waiter_list bs"
  defines "f \<equiv> finish q (scope_access s)"
  shows "queue_ok (fst (wake_next f))"
    and "coherent (fst (wake_next f)) (on_key k (filter (\<lambda>p. fst p \<noteq> r) run @ as)) bs"
proof -
  show "queue_ok (fst (wake_next f))"
    using ok by (intro wake_next_ok)
      (auto simp: f_def finish_def queue_ok_def saturating_sub_def split: access.splits)
  have "active_shared f = n_shared (on_key k (filter (\<lambda>p. fst p \<noteq> r) run))"
      "n_exclusive (on_key k (filter (\<lambda>p. fst p \<noteq> r) run)) = (if active_exclusive f then 1 else 0)"
    using co k remove_id [OF dist mem, of k]
    by (auto simp: f_def finish_def coherent_def saturating_sub_def split: access.splits if_splits)
  moreover have "on_key k as = as" using as by (simp add: on_key_def filter_id_conv)
  ultimately show "coherent (fst (wake_next f)) (on_key k (filter (\<lambda>p. fst p \<noteq> r) run @ as)) bs"
    using wake_next_shared [of f] wake_next_exclusive [of f] rest adm
    by (simp add: coherent_def f_def waiter_list_count)
qed

lemma release_ids:
  assumes "distinct (map fst run)" "distinct (map fst wait)" "fst ` set run \<inter> fst ` set wait = {}"
    and "set as \<subseteq> set wait" "distinct (map fst as)"
  shows "distinct (map fst ((filter (\<lambda>p. fst p \<noteq> r) run @ as) @
    filter (\<lambda>p. fst p \<notin> fst ` set as) wait))"
proof -
  have sub: "fst ` set as \<subseteq> fst ` set wait" using assms(4) by (rule image_mono)
  have parts: "distinct (map fst (filter (\<lambda>p. fst p \<noteq> r) run))"
      "distinct (map fst (filter (\<lambda>p. fst p \<notin> fst ` set as) wait))"
    using assms(1,2) by (simp_all add: distinct_map_filter)
  have run: "fst ` set (filter (\<lambda>p. fst p \<noteq> r) run) \<subseteq> fst ` set run"
    by (rule image_mono) (rule filter_is_subset)
  have wait: "fst ` set (filter (\<lambda>p. fst p \<notin> fst ` set as) wait) \<subseteq> fst ` set wait - fst ` set as"
    by auto
  have "fst ` set (filter (\<lambda>p. fst p \<noteq> r) run) \<inter> fst ` set as = {}"
    using run sub assms(3) by blast
  moreover have "fst ` set (filter (\<lambda>p. fst p \<noteq> r) run @ as) \<inter>
      fst ` set (filter (\<lambda>p. fst p \<notin> fst ` set as) wait) = {}"
    using run wait assms(3) unfolding set_append image_Un by blast
  ultimately show ?thesis
    using parts assms(5) unfolding map_append distinct_append set_map set_append by blast
qed

lemma sys_inv_release:
  assumes inv: "sys_inv y" and run: "(r, s) \<in> set (running y)"
  shows "sys_inv (do_release y r s)"
proof -
  let ?k = "scope_key s"
  obtain q as bs where q: "queues y ?k = Some q"
    and split: "on_key ?k (waiting y) = as @ bs"
    and adm: "admitted (finish q (scope_access s)) = waiter_list as"
    and rest: "waiters (fst (wake_next (finish q (scope_access s)))) = waiter_list bs"
    and rel: "do_release y r s = y\<lparr>
       queues := (if is_empty (fst (wake_next (finish q (scope_access s))))
         then (queues y)(?k := None)
         else (queues y)(?k \<mapsto> fst (wake_next (finish q (scope_access s))))),
       running := filter (\<lambda>p. fst p \<noteq> r) (running y) @ as,
       waiting := filter (\<lambda>p. fst p \<notin> fst ` set as) (waiting y)\<rparr>"
    using inv run by (rule release_split)
  have ok: "queue_ok q" and co: "coherent q (on_key ?k (running y)) (as @ bs)"
    using inv q split by (auto simp: sys_inv_def queue_of_def dest!: spec [of _ ?k])
  have dist: "distinct (map fst (running y))" "distinct (map fst (waiting y))"
      "fst ` set (running y) \<inter> fst ` set (waiting y) = {}"
    using inv by (auto simp: sys_inv_def)
  have "set (as @ bs) \<subseteq> {p \<in> set (waiting y). scope_key (snd p) = ?k}"
    using split [symmetric] by (simp add: on_key_def del: set_append)
  then have as_sub: "set as \<subseteq> set (waiting y)" "\<forall>p \<in> set as. scope_key (snd p) = ?k"
    by auto
  have bs: "on_key ?k (filter (\<lambda>p. fst p \<notin> fst ` set as) (waiting y)) = bs"
    using filter_prefix_ids(2) [OF dist(2) split [unfolded on_key_def]]
    by (simp add: on_key_def conj_commute)
  note here = release_here [OF ok co dist(1) run refl as_sub(2) adm rest]
  note other = release_other [OF dist(1,2) run _ as_sub]
  have "distinct (map fst as)"
    using distinct_map_filter [OF dist(2)] filter_prefix_ids(1) [OF dist(2) split [unfolded on_key_def]]
    by metis
  from release_ids [OF dist as_sub(1) this]
  have ids: "distinct (map fst (running (do_release y r s) @ waiting (do_release y r s)))"
    by (simp add: rel)
  have qof: "queue_of (queues (do_release y r s)) k =
      (if k = ?k then fst (wake_next (finish q (scope_access s))) else queue_of (queues y) k)" for k
    by (simp add: rel) (metis is_empty_default)
  have nonempty: "\<forall>p. queues (do_release y r s) k = Some p \<longrightarrow> \<not> is_empty p" for k
    using inv by (auto simp: rel sys_inv_def split: if_splits)
  have "queue_ok (queue_of (queues (do_release y r s)) k) \<and>
      coherent (queue_of (queues (do_release y r s)) k)
        (on_key k (running (do_release y r s))) (on_key k (waiting (do_release y r s)))" for k
  proof (cases "k = ?k")
    case True
    with here bs show ?thesis unfolding qof by (simp add: rel)
  next
    case False
    with inv other [OF False] show ?thesis unfolding qof by (simp add: rel sys_inv_def)
  qed
  with ids nonempty show ?thesis unfolding sys_inv_def by blast
qed

interpretation rq: state_machine "\<lambda>y. y = init_sys" queue_step sys_inv
proof unfold_locales
  fix y z assume "sys_inv y" "queue_step y z"
  then show "sys_inv z"
    by (auto elim!: queue_stepE intro: sys_inv_acquire sys_inv_release)
qed (simp add: sys_inv_init)

lemma reachable_inv: "queue_step\<^sup>*\<^sup>* init_sys y \<Longrightarrow> sys_inv y"
  by (rule rq.inv_reachable [OF refl])

lemma length_one_unique: "length xs = 1 \<Longrightarrow> a \<in> set xs \<Longrightarrow> b \<in> set xs \<Longrightarrow> a = b"
  by (cases xs) auto

lemma release_count:
  assumes inv: "sys_inv y" and run: "(r, s) \<in> set (running y)"
  shows "length (running (do_release y r s)) + length (waiting (do_release y r s)) + 1 =
    length (running y) + length (waiting y)"
proof -
  obtain q as bs where split: "on_key (scope_key s) (waiting y) = as @ bs"
    and rel: "do_release y r s = y\<lparr>
       queues := (if is_empty (fst (wake_next (finish q (scope_access s))))
         then (queues y)(scope_key s := None)
         else (queues y)(scope_key s \<mapsto> fst (wake_next (finish q (scope_access s))))),
       running := filter (\<lambda>p. fst p \<noteq> r) (running y) @ as,
       waiting := filter (\<lambda>p. fst p \<notin> fst ` set as) (waiting y)\<rparr>"
    using inv run by (rule release_split)
  have dist: "distinct (map fst (running y))" "distinct (map fst (waiting y))"
    using inv by (simp_all add: sys_inv_def)
  have "length as + length (filter (\<lambda>p. fst p \<notin> fst ` set as) (waiting y)) = length (waiting y)"
    using filter_prefix_ids(1) [OF dist(2) split [unfolded on_key_def]]
      sum_length_filter_compl [of "\<lambda>p. fst p \<in> fst ` set as" "waiting y"] by simp
  moreover have "length (filter (\<lambda>p. fst p \<noteq> r) (running y)) + 1 = length (running y)"
  proof -
    obtain us vs where ps: "running y = us @ (r, s) # vs" using run by (meson split_list)
    then have "filter (\<lambda>p. fst p \<noteq> r) us = us" "filter (\<lambda>p. fst p \<noteq> r) vs = vs"
      using dist(1) by (auto simp: filter_id_conv)
    with ps show ?thesis by simp
  qed
  ultimately show ?thesis by (simp add: rel)
qed

lemma idle_is_init:
  assumes inv: "sys_inv y" and idle: "running y = []" "waiting y = []"
  shows "y = init_sys"
proof -
  have "queues y k = None" for k
  proof (rule ccontr)
    assume "queues y k \<noteq> None"
    then obtain q where q: "queues y k = Some q" by blast
    then have "\<not> is_empty q" "coherent q [] []"
      using inv idle by (auto simp: sys_inv_def queue_of_def dest!: spec [of _ k])
    then show False by (auto simp: is_empty_def coherent_def split: if_splits)
  qed
  then have "queues y = Map.empty" by (rule ext)
  with idle show ?thesis by (simp add: init_sys_def)
qed

text \<open>
  A scheduler that lets running requests finish, one at a time and in any order (\<open>pick\<close> chooses),
  while no new request arrives.
\<close>

fun finish_all :: "(sys \<Rightarrow> nat) \<Rightarrow> nat \<Rightarrow> sys \<Rightarrow> sys" where
  "finish_all pick 0 y = y"
| "finish_all pick (Suc n) y =
     (if running y = [] then y
      else case running y ! (pick y mod length (running y)) of
        (r, s) \<Rightarrow> finish_all pick n (do_release y r s))"

lemma finish_all_idle:
  "sys_inv y \<Longrightarrow> length (running y) + length (waiting y) = n \<Longrightarrow> finish_all pick n y = init_sys"
proof (induction n arbitrary: y)
  case 0
  then show ?case by (simp add: idle_is_init)
next
  case (Suc n)
  have "running y \<noteq> []"
  proof
    assume empty: "running y = []"
    with Suc.prems(2) obtain r s ws where w: "waiting y = (r, s) # ws" by (cases "waiting y") auto
    have "queue_ok (queue_of (queues y) (scope_key s))"
      "coherent (queue_of (queues y) (scope_key s)) [] (on_key (scope_key s) (waiting y))"
      using Suc.prems(1) empty by (auto simp: sys_inv_def dest!: spec [of _ "scope_key s"])
    with w show False by (auto simp: queue_ok_def coherent_def on_key_def waiter_list_def split: if_splits)
  qed
  moreover define p where "p = running y ! (pick y mod length (running y))"
  ultimately have p: "(fst p, snd p) \<in> set (running y)" by simp
  have "finish_all pick n (do_release y (fst p) (snd p)) = init_sys"
    using Suc.IH sys_inv_release [OF Suc.prems(1) p] release_count [OF Suc.prems(1) p] Suc.prems(2)
    by simp
  with \<open>running y \<noteq> []\<close> show ?case by (simp add: p_def case_prod_beta)
qed

section \<open>Theorems\<close>

text \<open>
  A concrete run for the witnesses: one exclusive request holds a thread, then a shared and an
  exclusive request arrive for it, and a shared request for another thread enters.
\<close>

definition busy_sys :: sys where
  "busy_sys =
     do_acquire (do_acquire (do_acquire (do_acquire init_sys 0 (exclusive_thread ''t''))
       1 (shared_thread ''t'')) 2 (exclusive_thread ''t'')) 3 (shared_thread ''u'')"

lemmas busy_simps = busy_sys_def do_acquire_def acquire_def can_start_now_def start_def init_sys_def
  default_queue_def exclusive_thread_def shared_thread_def thread_key_def Let_def

lemma busy_running: "running busy_sys = [(0, exclusive_thread ''t''), (3, shared_thread ''u'')]"
  by (simp add: busy_simps)

lemma busy_waiting: "waiting busy_sys = [(1, shared_thread ''t''), (2, exclusive_thread ''t'')]"
  by (simp add: busy_simps)

lemma reach_enter: "queue_step\<^sup>*\<^sup>* init_sys y \<Longrightarrow> fresh y r \<Longrightarrow> queue_step\<^sup>*\<^sup>* init_sys (do_acquire y r s)"
  by (rule rtranclp.rtrancl_into_rtrancl) (auto intro: queue_step.enter)

lemma busy_reachable: "queue_step\<^sup>*\<^sup>* init_sys busy_sys"
  unfolding busy_sys_def
  by (intro reach_enter) (simp_all add: fresh_def busy_simps)

text \<open>
  C1. Mutual exclusion: in every reachable state, a running request with exclusive access to a key is
  the only running request of that key.
\<close>

theorem exclusive_is_alone:
  assumes "queue_step\<^sup>*\<^sup>* init_sys y"
    and "(r, s) \<in> set (running y)" "scope_access s = Exclusive"
    and "(r', s') \<in> set (running y)" "scope_key s' = scope_key s"
  shows "r' = r \<and> s' = s"
proof -
  define run where "run = on_key (scope_key s) (running y)"
  have mem: "(r, s) \<in> set run" "(r', s') \<in> set run" using assms by (simp_all add: run_def on_key_def)
  have co: "queue_ok (queue_of (queues y) (scope_key s)) \<and>
      coherent (queue_of (queues y) (scope_key s)) run (on_key (scope_key s) (waiting y))"
    using reachable_inv [OF assms(1)] by (simp add: sys_inv_def run_def)
  have "n_exclusive run > 0"
    using mem(1) assms(3) by (force simp: n_exclusive_def filter_empty_conv)
  with co have one: "n_exclusive run = 1" and "n_shared run = 0"
    by (auto simp: queue_ok_def coherent_def split: if_splits)
  then have "scope_access s' = Exclusive"
    using mem(2) by (cases "scope_access s'") (auto simp: n_shared_def filter_empty_conv)
  with mem assms(3) have "(r', s') = (r, s)"
    by (intro length_one_unique [OF one [unfolded n_exclusive_def]]) simp_all
  then show ?thesis by simp
qed

theorem exclusive_is_alone_witness:
  "(0, exclusive_thread ''t'') \<in> set (running busy_sys) \<and>
   (1, shared_thread ''t'') \<notin> set (running busy_sys)"
  using exclusive_is_alone [OF busy_reachable, of 0 "exclusive_thread ''t''" 1 "shared_thread ''t''"]
  by (auto simp: busy_running exclusive_thread_def shared_thread_def)

text \<open>
  No lost wake-up: a request only waits while some other request of its key is running, so a
  later release reaches it.
\<close>

theorem waiter_has_holder:
  assumes "queue_step\<^sup>*\<^sup>* init_sys y" and "(r, s) \<in> set (waiting y)"
  shows "\<exists>r' s'. (r', s') \<in> set (running y) \<and> scope_key s' = scope_key s"
proof -
  define q where "q = queue_of (queues y) (scope_key s)"
  have ok: "queue_ok q"
    and co: "coherent q (on_key (scope_key s) (running y)) (on_key (scope_key s) (waiting y))"
    using reachable_inv [OF assms(1)] by (simp_all add: sys_inv_def q_def)
  have "(r, s) \<in> set (on_key (scope_key s) (waiting y))" using assms(2) by (simp add: on_key_def)
  then have "waiters q \<noteq> []" using co by (auto simp: coherent_def waiter_list_def)
  with ok co have "on_key (scope_key s) (running y) \<noteq> []"
    by (auto simp: queue_ok_def coherent_def split: if_splits)
  then obtain p where "p \<in> set (on_key (scope_key s) (running y))" by (meson hd_in_set)
  then show ?thesis by (intro exI [of _ "fst p"] exI [of _ "snd p"]) (simp add: on_key_def)
qed

theorem waiter_has_holder_witness:
  "\<exists>r' s'. (r', s') \<in> set (running busy_sys) \<and> scope_key s' = scope_key (exclusive_thread ''t'')"
  by (rule waiter_has_holder [OF busy_reachable, of 2]) (simp add: busy_waiting)

text \<open>
  First come, first served: a release admits a prefix of the waiters of its key in arrival order,
  leaves the rest waiting in the same order, and a new request enters at once only when nobody waits
  for its key.
\<close>

theorem release_is_fifo:
  assumes "queue_step\<^sup>*\<^sup>* init_sys y" and "(r, s) \<in> set (running y)"
  shows "\<exists>as. running (do_release y r s) = filter (\<lambda>p. fst p \<noteq> r) (running y) @ as \<and>
      on_key (scope_key s) (waiting y) = as @ on_key (scope_key s) (waiting (do_release y r s)) \<and>
      (snd (acquire (queues y) s' r') \<longrightarrow> on_key (scope_key s') (waiting y) = [])"
proof -
  note inv = reachable_inv [OF assms(1)]
  obtain q as bs where split: "on_key (scope_key s) (waiting y) = as @ bs"
    and rel: "do_release y r s = y\<lparr>
       queues := (if is_empty (fst (wake_next (finish q (scope_access s))))
         then (queues y)(scope_key s := None)
         else (queues y)(scope_key s \<mapsto> fst (wake_next (finish q (scope_access s))))),
       running := filter (\<lambda>p. fst p \<noteq> r) (running y) @ as,
       waiting := filter (\<lambda>p. fst p \<notin> fst ` set as) (waiting y)\<rparr>"
    using inv assms(2) by (rule release_split)
  have "distinct (map fst (waiting y))" using inv by (simp add: sys_inv_def)
  from filter_prefix_ids(2) [OF this split [unfolded on_key_def]]
  have "on_key (scope_key s) (waiting (do_release y r s)) = bs"
    by (simp add: rel on_key_def conj_commute)
  moreover have "on_key (scope_key s') (waiting y) = []" if "snd (acquire (queues y) s' r')"
  proof -
    have "waiters (queue_of (queues y) (scope_key s')) = []"
      using that by (auto simp: acquire_def can_start_now_def queue_of_def Let_def split: if_splits)
    then show ?thesis using inv by (auto simp: sys_inv_def coherent_def waiter_list_def)
  qed
  ultimately show ?thesis using split by (intro exI [of _ as]) (simp add: rel)
qed

theorem release_is_fifo_witness:
  "(0, exclusive_thread ''t'') \<in> set (running busy_sys) \<and>
   snd (acquire (queues busy_sys) (shared_thread ''w'') 4) \<and>
   (\<exists>as. running (do_release busy_sys 0 (exclusive_thread ''t'')) =
      filter (\<lambda>p. fst p \<noteq> 0) (running busy_sys) @ as \<and>
    on_key (thread_key ''t'') (waiting busy_sys) =
      as @ on_key (thread_key ''t'') (waiting (do_release busy_sys 0 (exclusive_thread ''t''))) \<and>
    on_key (thread_key ''w'') (waiting busy_sys) = [])"
proof -
  have key: "scope_key (exclusive_thread ''t'') = thread_key ''t''" "scope_key (shared_thread ''w'') = thread_key ''w''"
    by (simp_all add: exclusive_thread_def shared_thread_def)
  have run: "(0, exclusive_thread ''t'') \<in> set (running busy_sys)" by (simp add: busy_running)
  have enters: "snd (acquire (queues busy_sys) (shared_thread ''w'') 4)" by (simp add: busy_simps)
  show ?thesis
    using run enters release_is_fifo [OF busy_reachable run, of "shared_thread ''w''" 4]
    unfolding key by blast
qed

text \<open>
  C2. Progress and no leak: when running requests finish one after the other, in whatever order, and
  nothing new arrives, then after exactly as many releases as there are requests every waiter has
  been admitted and has left, and no queue entry is retained.
\<close>

theorem queue_drains:
  assumes "queue_step\<^sup>*\<^sup>* init_sys y"
  shows "finish_all pick (length (running y) + length (waiting y)) y = init_sys"
  using finish_all_idle [OF reachable_inv [OF assms] refl] .

theorem queue_drains_witness: "finish_all (\<lambda>_. 1) 4 busy_sys = init_sys"
  using queue_drains [OF busy_reachable, of "\<lambda>_. 1"] by (simp add: busy_running busy_waiting numeral_eq_Suc del: finish_all.simps)

end
