(* ===== verification/Cancellation_Token.thy ===== *)
theory Cancellation_Token
  imports Agent_Prelude "HOL-Library.Multiset"
begin

text \<open>
  Cancellation tokens (\<open>runtime/cancellation.rs\<close>). A token is shared state: a flag, the reason of the
  first cancellation and the callbacks that were registered before it. The operations on one token
  are the critical sections of its two mutexes; the sequential API composes them on a heap of tokens,
  where a child token is a callback of its parent. A callback of the host program is a number; the
  log lists the ones that were invoked. A callback that panics is caught by the source, so invoking
  one never changes what follows.
\<close>

section \<open>One token\<close>

datatype callback = Host nat | Cancel_child nat nat

record 'cb token =
  cancelled :: bool
  reason :: "string option"
  callbacks :: "'cb list"

definition new_token :: "'cb token" where
  "new_token = \<lparr>cancelled = False, reason = None, callbacks = []\<rparr>"

definition default_reason :: string where
  "default_reason = ''Operation was cancelled''"

definition normalize_reason :: "string \<Rightarrow> string" where
  "normalize_reason r = (if is_blank r then default_reason else r)"

text \<open>
  The first critical section of \<open>cancel_with_reason\<close>: under the lock of the reason, the call that
  finds the flag clear stores its reason and sets the flag. The boolean tells whether it did.
\<close>

definition cancel_begin :: "string \<Rightarrow> 'cb token \<Rightarrow> 'cb token \<times> bool" where
  "cancel_begin r t =
    (if cancelled t then (t, False)
     else (t\<lparr>reason := Some (normalize_reason r), cancelled := True\<rparr>, True))"

text \<open>Its second critical section: the callbacks are taken out under their own lock.\<close>

definition cancel_take :: "'cb token \<Rightarrow> 'cb token \<times> 'cb list" where
  "cancel_take t = (t\<lparr>callbacks := []\<rparr>, callbacks t)"

text \<open>
  The critical section of \<open>on_cancel\<close>: the boolean tells that the callback has to be invoked at once.
\<close>

definition on_cancel_register :: "'cb \<Rightarrow> 'cb token \<Rightarrow> 'cb token \<times> bool" where
  "on_cancel_register cb t =
    (if cancelled t then (t, True) else (t\<lparr>callbacks := callbacks t @ [cb]\<rparr>, False))"

definition check :: "'cb token \<Rightarrow> string + unit" where
  "check t =
    (if cancelled t
     then Inl (case reason t of None \<Rightarrow> default_reason | Some r \<Rightarrow> r)
     else Inr ())"

section \<open>A heap of tokens\<close>

type_synonym heap = "callback token list"

text \<open>
  \<open>run_callbacks\<close> is the loop of \<open>cancel_with_reason\<close> with the recursive cancellation of children
  written with an explicit stack: the callbacks of a child that is cancelled run before the callbacks
  that were still due, as in the nested call of the source.
\<close>

definition uncancelled :: "heap \<Rightarrow> nat" where
  "uncancelled h = length (filter (\<lambda>t. \<not> cancelled t) h)"

definition cancel_token :: "heap \<Rightarrow> nat \<Rightarrow> string \<Rightarrow> heap \<times> callback list" where
  "cancel_token h i r =
    (case cancel_begin r (h ! i) of
       (t, False) \<Rightarrow> (h, [])
     | (t, True) \<Rightarrow> (case cancel_take t of (t', cbs) \<Rightarrow> (h[i := t'], cbs)))"

definition parent_reason :: "heap \<Rightarrow> nat \<Rightarrow> string" where
  "parent_reason h p = (case reason (h ! p) of None \<Rightarrow> default_reason | Some r \<Rightarrow> r)"

lemma uncancelled_update:
  assumes "i < length h" "\<not> cancelled (h ! i)" "cancelled t"
  shows "uncancelled (h[i := t]) < uncancelled h"
proof -
  have h: "h = take i h @ h ! i # drop (Suc i) h" using assms(1) by (simp add: id_take_nth_drop)
  have "uncancelled (h[i := t]) = length (filter (\<lambda>t. \<not> cancelled t) (take i h @ t # drop (Suc i) h))"
    using assms(1) by (simp add: uncancelled_def upd_conv_take_nth_drop)
  moreover have "uncancelled h = length (filter (\<lambda>t. \<not> cancelled t) (take i h @ h ! i # drop (Suc i) h))"
    using h by (simp add: uncancelled_def)
  ultimately show ?thesis using assms by simp
qed

function run_callbacks :: "heap \<Rightarrow> callback list \<Rightarrow> nat list \<Rightarrow> heap \<times> nat list" where
  "run_callbacks h [] out = (h, out)"
| "run_callbacks h (Host n # cbs) out = run_callbacks h cbs (out @ [n])"
| "run_callbacks h (Cancel_child p c # cbs) out =
     (if c < length h \<and> \<not> cancelled (h ! c)
      then (case cancel_token h c (parent_reason h p) of
              (h', taken) \<Rightarrow> run_callbacks h' (taken @ cbs) out)
      else run_callbacks h cbs out)"
  by pat_completeness auto
termination
  by (relation "measures [\<lambda>(h, cbs, out). uncancelled h, \<lambda>(h, cbs, out). length cbs]")
    (auto simp: cancel_token_def cancel_begin_def cancel_take_def uncancelled_update)

definition cancel_with_reason :: "heap \<Rightarrow> nat \<Rightarrow> string \<Rightarrow> nat list \<Rightarrow> heap \<times> nat list" where
  "cancel_with_reason h i r out =
    (case cancel_token h i r of (h', cbs) \<Rightarrow> run_callbacks h' cbs out)"

definition cancel :: "heap \<Rightarrow> nat \<Rightarrow> nat list \<Rightarrow> heap \<times> nat list" where
  "cancel h i out = cancel_with_reason h i default_reason out"

definition on_cancel :: "heap \<Rightarrow> nat \<Rightarrow> callback \<Rightarrow> nat list \<Rightarrow> heap \<times> nat list" where
  "on_cancel h i cb out =
    (case on_cancel_register cb (h ! i) of
       (t, now) \<Rightarrow> (if now then run_callbacks h [cb] out else (h[i := t], out)))"

text \<open>\<open>child\<close> allocates a token and registers its cancellation with the parent.\<close>

definition child :: "heap \<Rightarrow> nat \<Rightarrow> nat list \<Rightarrow> (heap \<times> nat list) \<times> nat" where
  "child h i out = (on_cancel (h @ [new_token]) i (Cancel_child i (length h)) out, length h)"

text \<open>
  The thread-local stack of scopes: \<open>enter_scope\<close> pushes a token (or nothing), dropping the scope
  pops it, and \<open>child_of_current\<close> derives a child of the innermost token.
\<close>

definition enter_scope :: "nat option \<Rightarrow> nat list \<Rightarrow> nat list \<times> bool" where
  "enter_scope tok scopes = (case tok of None \<Rightarrow> (scopes, False) | Some i \<Rightarrow> (scopes @ [i], True))"

definition drop_scope :: "bool \<Rightarrow> nat list \<Rightarrow> nat list" where
  "drop_scope active scopes = (if active then butlast scopes else scopes)"

definition child_of_current :: "heap \<Rightarrow> nat list \<Rightarrow> nat list \<Rightarrow> ((heap \<times> nat list) \<times> nat) option" where
  "child_of_current h scopes out = (if scopes = [] then None else Some (child h (last scopes) out))"

section \<open>Concurrent use of one token\<close>

text \<open>
  Threads interleave at the critical sections. \<open>takers\<close> counts the threads that have set the flag
  and not yet taken the callbacks, \<open>due\<close> holds the callbacks some thread has to invoke, \<open>ran\<close> the
  invoked ones and \<open>registered\<close> every callback ever passed to \<open>on_cancel\<close>.
\<close>

record shared_token =
  tok :: "nat token"
  takers :: nat
  due :: "nat multiset"
  ran :: "nat multiset"
  registered :: "nat multiset"
  winner :: "string option"

definition init_shared :: shared_token where
  "init_shared = \<lparr>tok = new_token, takers = 0, due = {#}, ran = {#}, registered = {#}, winner = None\<rparr>"

inductive token_step :: "shared_token \<Rightarrow> shared_token \<Rightarrow> bool" where
  begin_cancel:
    "cancel_begin r (tok s) = (t, won) \<Longrightarrow>
     token_step s (s\<lparr>tok := t, takers := takers s + (if won then 1 else 0),
       winner := (if won then Some (normalize_reason r) else winner s)\<rparr>)"
| take:
    "takers s > 0 \<Longrightarrow> cancel_take (tok s) = (t, cbs) \<Longrightarrow>
     token_step s (s\<lparr>tok := t, takers := takers s - 1, due := due s + mset cbs\<rparr>)"
| register:
    "on_cancel_register cb (tok s) = (t, now) \<Longrightarrow>
     token_step s (s\<lparr>tok := t, due := (if now then add_mset cb (due s) else due s),
       registered := add_mset cb (registered s)\<rparr>)"
| invoke:
    "cb \<in># due s \<Longrightarrow> token_step s (s\<lparr>due := due s - {#cb#}, ran := add_mset cb (ran s)\<rparr>)"

inductive_cases token_stepE: "token_step s s'"

definition token_inv :: "shared_token \<Rightarrow> bool" where
  "token_inv s \<longleftrightarrow>
     registered s = mset (callbacks (tok s)) + due s + ran s \<and>
     (if cancelled (tok s)
      then (takers s = 0 \<longrightarrow> callbacks (tok s) = []) \<and> winner s \<noteq> None
      else takers s = 0 \<and> due s = {#} \<and> ran s = {#} \<and> winner s = None) \<and>
     reason (tok s) = winner s"

lemma token_inv_step: "token_inv s \<Longrightarrow> token_step s s' \<Longrightarrow> token_inv s'"
  by (erule token_stepE)
    (auto simp: token_inv_def cancel_begin_def cancel_take_def on_cancel_register_def split: if_splits)

interpretation tk: state_machine "\<lambda>s. s = init_shared" token_step token_inv
proof unfold_locales
  show "\<And>s. s = init_shared \<Longrightarrow> token_inv s"
    by (simp add: token_inv_def init_shared_def new_token_def)
qed (rule token_inv_step)

section \<open>Trees of tokens\<close>

text \<open>
  \<open>P\<close> collects the pairs of parent and child that \<open>child\<close> has created. Between two calls of the API a
  child of a live token is registered with it and a child of a cancelled token is cancelled.
  \<open>pending h cbs P\<close> is the same while \<open>cbs\<close> are still to be invoked.
\<close>

definition pending :: "heap \<Rightarrow> callback list \<Rightarrow> (nat \<times> nat) set \<Rightarrow> bool" where
  "pending h cbs P \<longleftrightarrow> (\<forall>(p, c) \<in> P. p < length h \<and> c < length h \<and>
     (if cancelled (h ! p) then cancelled (h ! c) \<or> Cancel_child p c \<in> set cbs
      else Cancel_child p c \<in> set (callbacks (h ! p))))"

definition token_ok :: "nat \<Rightarrow> nat \<Rightarrow> callback token \<Rightarrow> bool" where
  "token_ok n i t \<longleftrightarrow>
     (\<forall>p c. Cancel_child p c \<in> set (callbacks t) \<longrightarrow> p = i \<and> c < n) \<and>
     (if cancelled t then \<exists>r. reason t = Some r \<and> normalize_reason r = r else reason t = None)"

definition heap_ok :: "heap \<Rightarrow> bool" where
  "heap_ok h \<longleftrightarrow> (\<forall>i < length h. token_ok (length h) i (h ! i))"

lemma heap_okD: "heap_ok h \<Longrightarrow> i < length h \<Longrightarrow> token_ok (length h) i (h ! i)"
  by (simp add: heap_ok_def)

lemma heap_ok_update: "heap_ok h \<Longrightarrow> token_ok (length h) i t \<Longrightarrow> heap_ok (h[i := t])"
  by (simp add: heap_ok_def nth_update_if)

lemma heap_ok_append: "heap_ok h \<Longrightarrow> heap_ok (h @ [new_token])"
  by (auto simp: heap_ok_def nth_append less_Suc_eq token_ok_def new_token_def)

text \<open>The callbacks that a cancellation with reason \<open>r\<close> still has to invoke.\<close>

definition from_cancelled :: "heap \<Rightarrow> string \<Rightarrow> callback list \<Rightarrow> bool" where
  "from_cancelled h r cbs \<longleftrightarrow> (\<forall>p c. Cancel_child p c \<in> set cbs \<longrightarrow>
     p < length h \<and> c < length h \<and> cancelled (h ! p) \<and> reason (h ! p) = Some r)"

lemma normalize_default [simp]: "normalize_reason default_reason = default_reason"
  by code_simp

lemma normalize_idem [simp]: "normalize_reason (normalize_reason r) = normalize_reason r"
  by (simp add: normalize_reason_def [of r])

text \<open>What one run of the callbacks changes: live tokens become cancelled with the given reason.\<close>

definition only_cancels :: "string \<Rightarrow> heap \<Rightarrow> heap \<Rightarrow> bool" where
  "only_cancels r h h' \<longleftrightarrow> length h' = length h \<and>
     (\<forall>i < length h. h' ! i = h ! i \<or>
        (\<not> cancelled (h ! i) \<and> h' ! i = \<lparr>cancelled = True, reason = Some r, callbacks = []\<rparr>))"

lemma only_cancels_refl [simp]: "only_cancels r h h"
  by (simp add: only_cancels_def)

lemma only_cancels_trans: "only_cancels r h h' \<Longrightarrow> only_cancels r h' h'' \<Longrightarrow> only_cancels r h h''"
  by (auto simp: only_cancels_def) (metis token.select_convs(1))+

lemma only_cancels_nth:
  assumes "only_cancels r h h'" "i < length h"
  shows "cancelled (h ! i) \<Longrightarrow> h' ! i = h ! i"
    and "\<not> cancelled (h' ! i) \<Longrightarrow> h' ! i = h ! i"
    and "\<not> cancelled (h ! i) \<Longrightarrow> cancelled (h' ! i) \<Longrightarrow> reason (h' ! i) = Some r"
  using assms by (auto simp: only_cancels_def)

lemma cancel_live_token:
  assumes "i < length h" "\<not> cancelled (h ! i)"
  shows "cancel_token h i r =
    (h[i := \<lparr>cancelled = True, reason = Some (normalize_reason r), callbacks = []\<rparr>], callbacks (h ! i))"
  using assms by (cases "h ! i") (simp add: cancel_token_def cancel_begin_def cancel_take_def)

lemma pending_Host [simp]: "pending h (Host n # cbs) P = pending h cbs P"
  by (simp add: pending_def)

lemma from_cancelled_Host [simp]: "from_cancelled h r (Host n # cbs) = from_cancelled h r cbs"
  by (simp add: from_cancelled_def)

lemma from_cancelled_Nil [simp]: "from_cancelled h r []"
  by (simp add: from_cancelled_def)

lemma from_cancelled_tl: "from_cancelled h r (cb # cbs) \<Longrightarrow> from_cancelled h r cbs"
  by (simp add: from_cancelled_def)

lemma pending_skip:
  "pending h (Cancel_child p c # cbs) P \<Longrightarrow> \<not> (c < length h \<and> \<not> cancelled (h ! c)) \<Longrightarrow> pending h cbs P"
  by (auto simp: pending_def split: prod.splits if_splits)

lemma cancel_token_step:
  assumes ok: "heap_ok h" and i: "i < length h" "\<not> cancelled (h ! i)" and r: "normalize_reason r = r"
    and pend: "pending h (Cancel_child p i # cbs) P \<or> pending h cbs P"
    and from_c: "from_cancelled h r cbs"
  defines "h' \<equiv> h[i := \<lparr>cancelled = True, reason = Some r, callbacks = []\<rparr>]"
  shows "heap_ok h'" "pending h' (callbacks (h ! i) @ cbs) P"
    "from_cancelled h' r (callbacks (h ! i) @ cbs)" "only_cancels r h h'"
proof -
  show "heap_ok h'" using ok r by (simp add: h'_def heap_ok_update token_ok_def)
  show "pending h' (callbacks (h ! i) @ cbs) P"
    using pend i by (auto simp: pending_def h'_def nth_list_update split: if_splits prod.splits)
  have "\<And>p c. Cancel_child p c \<in> set (callbacks (h ! i)) \<Longrightarrow> p = i \<and> c < length h"
    using heap_okD [OF ok i(1)] by (simp add: token_ok_def)
  then show "from_cancelled h' r (callbacks (h ! i) @ cbs)"
    using from_c i by (fastforce simp: from_cancelled_def h'_def nth_list_update)
  show "only_cancels r h h'" using i by (auto simp: only_cancels_def h'_def nth_list_update)
qed

lemma run_callbacks_inv:
  assumes "run_callbacks h cbs out = (h', out')"
    and "heap_ok h" "pending h cbs P" "from_cancelled h r cbs" "normalize_reason r = r"
  shows "heap_ok h' \<and> pending h' [] P \<and> only_cancels r h h'"
  using assms
proof (induction h cbs out rule: run_callbacks.induct)
  case (3 h p c cbs out)
  show ?case
  proof (cases "c < length h \<and> \<not> cancelled (h ! c)")
    case True
    define h1 where "h1 = h[c := \<lparr>cancelled = True, reason = Some r, callbacks = []\<rparr>]"
    have "parent_reason h p = r"
      using 3(6) by (auto simp: from_cancelled_def parent_reason_def)
    then have step: "cancel_token h c (parent_reason h p) = (h1, callbacks (h ! c))"
      using True 3(7) by (simp add: cancel_live_token h1_def)
    note inv1 = cancel_token_step [OF 3(4) True [THEN conjunct1] True [THEN conjunct2] 3(7)
        disjI1 [OF 3(5)] from_cancelled_tl [OF 3(6)], folded h1_def]
    have "run_callbacks h1 (callbacks (h ! c) @ cbs) out = (h', out')"
      using 3(3) True step by simp
    from 3(1) [OF True step [symmetric] this inv1(1) inv1(2) inv1(3) 3(7)]
    show ?thesis using only_cancels_trans [OF inv1(4)] by blast
  next
    case False
    have "run_callbacks h cbs out = (h', out')" using 3(3) False by auto
    from 3(2) [OF False this 3(4) pending_skip [OF 3(5) False] from_cancelled_tl [OF 3(6)] 3(7)]
    show ?thesis .
  qed
qed simp_all

text \<open>
  Every registered child cancellation belongs to the family, so running callbacks from a set of
  tokens that is closed under the family relation leaves all other tokens alone.
\<close>

definition known :: "heap \<Rightarrow> (nat \<times> nat) set \<Rightarrow> bool" where
  "known h P \<longleftrightarrow> (\<forall>i < length h. \<forall>p c. Cancel_child p c \<in> set (callbacks (h ! i)) \<longrightarrow> p = i \<and> (p, c) \<in> P)"

lemma known_cancel: "known h P \<Longrightarrow> known (h[i := \<lparr>cancelled = b, reason = r, callbacks = []\<rparr>]) P"
  by (cases "i < length h") (auto simp: known_def nth_list_update list_update_beyond)

lemma run_callbacks_frame:
  assumes "run_callbacks h cbs out = (h', out')" "known h P"
    and "\<And>p c. Cancel_child p c \<in> set cbs \<Longrightarrow> c \<in> S"
    and "\<And>p c. (p, c) \<in> P \<Longrightarrow> p \<in> S \<Longrightarrow> c \<in> S"
  shows "known h' P \<and> (\<forall>j. j \<notin> S \<longrightarrow> h' ! j = h ! j)"
  using assms(1-3)
proof (induction h cbs out rule: run_callbacks.induct)
  case (3 h p c cbs out)
  have c: "c \<in> S" using 3(5) [of p c] by simp
  show ?case
  proof (cases "c < length h \<and> \<not> cancelled (h ! c)")
    case True
    define h1 where "h1 = h[c := \<lparr>cancelled = True, reason = Some (normalize_reason (parent_reason h p)),
      callbacks = []\<rparr>]"
    have step: "cancel_token h c (parent_reason h p) = (h1, callbacks (h ! c))"
      using True by (simp add: cancel_live_token h1_def)
    have run: "run_callbacks h1 (callbacks (h ! c) @ cbs) out = (h', out')"
      using 3(3) True step by simp
    have "known h1 P" unfolding h1_def by (rule known_cancel [OF 3(4)])
    moreover have "c' \<in> S" if "Cancel_child p' c' \<in> set (callbacks (h ! c) @ cbs)" for p' c'
      using that 3(4) 3(5) [of p' c'] assms(4) [of c c'] c True by (auto simp: known_def)
    ultimately have "known h' P \<and> (\<forall>j. j \<notin> S \<longrightarrow> h' ! j = h1 ! j)"
      using 3(1) [OF True step [symmetric] run] by blast
    moreover have "h1 ! j = h ! j" if "j \<notin> S" for j using that c by (cases "j = c") (auto simp: h1_def)
    ultimately show ?thesis by simp
  next
    case False
    have "run_callbacks h cbs out = (h', out')" using 3(3) False by auto
    from 3(2) [OF False this 3(4)] 3(5) show ?thesis by (metis list.set_intros(2))
  qed
qed auto

section \<open>The API as a state machine\<close>

text \<open>
  The operations of the API on a heap, with the family relation as ghost state: creating a root
  token, deriving a child, registering a callback of the host and cancelling.
\<close>

type_synonym family = "heap \<times> (nat \<times> nat) set"

inductive api_step :: "family \<Rightarrow> family \<Rightarrow> bool" where
  new: "api_step (h, P) (h @ [new_token], P)"
| derive: "i < length h \<Longrightarrow> child h i out = ((h', out'), c) \<Longrightarrow> api_step (h, P) (h', insert (i, c) P)"
| register: "i < length h \<Longrightarrow> on_cancel h i (Host n) out = (h', out') \<Longrightarrow> api_step (h, P) (h', P)"
| cancel: "i < length h \<Longrightarrow> cancel_with_reason h i r out = (h', out') \<Longrightarrow> api_step (h, P) (h', P)"

inductive_cases api_stepE: "api_step f g"

definition family_inv :: "family \<Rightarrow> bool" where
  "family_inv f \<longleftrightarrow> heap_ok (fst f) \<and> pending (fst f) [] (snd f) \<and> known (fst f) (snd f)"

lemma family_inv_new: "family_inv (h, P) \<Longrightarrow> family_inv (h @ [new_token], P)"
proof -
  assume inv: "family_inv (h, P)"
  have "heap_ok (h @ [new_token])"
    using inv by (simp add: family_inv_def heap_ok_append)
  moreover have "pending (h @ [new_token]) [] P"
    using inv by (auto simp: family_inv_def pending_def nth_append split: prod.splits if_splits)
  moreover have "known (h @ [new_token]) P"
    using inv by (auto simp: family_inv_def known_def nth_append new_token_def less_Suc_eq)
  ultimately show ?thesis by (simp add: family_inv_def)
qed

text \<open>A cancellation of \<open>i\<close> stays inside every set that holds \<open>i\<close> and is closed under the family.\<close>

lemma cancel_with_reason_frame:
  assumes "known h P" "i < length h" "cancel_with_reason h i r out = (h', out')"
    and "i \<in> S" "\<And>p c. (p, c) \<in> P \<Longrightarrow> p \<in> S \<Longrightarrow> c \<in> S"
  shows "known h' P \<and> (\<forall>j. j \<notin> S \<longrightarrow> h' ! j = h ! j)"
proof (cases "cancelled (h ! i)")
  case True
  with assms(1,3) show ?thesis by (simp add: cancel_with_reason_def cancel_token_def cancel_begin_def)
next
  case False
  define h1 where "h1 = h[i := \<lparr>cancelled = True, reason = Some (normalize_reason r), callbacks = []\<rparr>]"
  have run: "run_callbacks h1 (callbacks (h ! i)) out = (h', out')"
    using assms(3) by (simp add: cancel_with_reason_def cancel_live_token [OF assms(2) False] h1_def)
  have "known h1 P" unfolding h1_def by (rule known_cancel [OF assms(1)])
  moreover have "c \<in> S" if "Cancel_child p c \<in> set (callbacks (h ! i))" for p c
    using that assms(1,2,4) assms(5) [of i c] by (auto simp: known_def)
  ultimately have "known h' P \<and> (\<forall>j. j \<notin> S \<longrightarrow> h' ! j = h1 ! j)"
    using run_callbacks_frame [OF run, of P S] assms(5) by blast
  moreover have "h1 ! j = h ! j" if "j \<notin> S" for j using that assms(4) by (cases "j = i") (auto simp: h1_def)
  ultimately show ?thesis by simp
qed

lemma cancel_with_reason_inv:
  assumes "family_inv (h, P)" "i < length h" "cancel_with_reason h i r out = (h', out')"
  shows "family_inv (h', P)" and "only_cancels (normalize_reason r) h h'" and "cancelled (h' ! i)"
proof -
  define h1 where "h1 = h[i := \<lparr>cancelled = True, reason = Some (normalize_reason r), callbacks = []\<rparr>]"
  have "family_inv (h', P) \<and> only_cancels (normalize_reason r) h h' \<and> cancelled (h' ! i)"
  proof (cases "cancelled (h ! i)")
    case True
    with assms show ?thesis by (simp add: cancel_with_reason_def cancel_token_def cancel_begin_def)
  next
    case False
    have ok: "heap_ok h" "pending h [] P" "known h P" using assms(1) by (simp_all add: family_inv_def)
    note inv1 = cancel_token_step [OF ok(1) assms(2) False normalize_idem [of r]
        disjI2 [OF ok(2)] from_cancelled_Nil, folded h1_def, simplified]
    have "run_callbacks h1 (callbacks (h ! i)) out = (h', out')"
      using assms(3) by (simp add: cancel_with_reason_def cancel_live_token [OF assms(2) False] h1_def)
    from run_callbacks_inv [OF this inv1(1) inv1(2) inv1(3) normalize_idem]
    have "heap_ok h'" "pending h' [] P" "only_cancels (normalize_reason r) h1 h'" by simp_all
    moreover have "cancelled (h1 ! i)" "length h1 = length h" using assms(2) by (simp_all add: h1_def)
    ultimately show ?thesis
      using cancel_with_reason_frame [OF ok(3) assms(2,3), of UNIV]
        only_cancels_trans [OF inv1(4)] only_cancels_nth(1) [of _ h1 h' i] assms(2)
      by (simp add: family_inv_def)
  qed
  then show "family_inv (h', P)" "only_cancels (normalize_reason r) h h'" "cancelled (h' ! i)" by simp_all
qed

lemma add_callback_inv:
  assumes "heap_ok h" "pending h [] P" "i < length h" "\<not> cancelled (h ! i)" and kn: "known h P"
    and cb: "\<And>p c. cb = Cancel_child p c \<Longrightarrow> p = i \<and> c < length h"
  defines "h' \<equiv> h[i := (h ! i)\<lparr>callbacks := callbacks (h ! i) @ [cb]\<rparr>]"
  shows "heap_ok h'" and "pending h' [] P" and "known h' (P \<union> {(p, c). cb = Cancel_child p c})"
    and "cb = Cancel_child i c \<Longrightarrow> pending h' [] (insert (i, c) P)"
proof -
  show "heap_ok h'"
    using heap_okD [OF assms(1,3)] cb unfolding h'_def
    by (intro heap_ok_update [OF assms(1)]) (auto simp: token_ok_def)
  show pend: "pending h' [] P"
    using assms(2-4) by (auto simp: pending_def h'_def nth_list_update split: if_splits prod.splits)
  show "known h' (P \<union> {(p, c). cb = Cancel_child p c})"
    using kn cb by (auto simp: known_def h'_def nth_update_if split: if_splits)
  show "pending h' [] (insert (i, c) P)" if "cb = Cancel_child i c"
    using pend that cb [OF that] assms(3,4) by (auto simp: pending_def h'_def nth_list_update)
qed

lemma on_cancel_inv:
  assumes inv: "family_inv (h, P)" and i: "i < length h"
    and call: "on_cancel h i (Host n) out = (h', out')"
  shows "family_inv (h', P)"
  using inv call add_callback_inv(1-3) [of h P i "Host n"] i
  by (auto simp: on_cancel_def on_cancel_register_def family_inv_def split: if_splits)

lemma child_inv:
  assumes inv: "family_inv (h, P)" and i: "i < length h"
    and call: "child h i out = ((h', out'), c)"
  shows "family_inv (h', insert (i, c) P)"
proof -
  define h1 where "h1 = h @ [new_token :: callback token]"
  have c: "c = length h" "c < length h1" and i1: "i < length h1" "h1 ! i = h ! i"
    using call i by (simp_all add: child_def h1_def nth_append)
  have ok1: "heap_ok h1" "pending h1 [] P" "known h1 P"
    using family_inv_new [OF inv] by (simp_all add: family_inv_def h1_def)
  show ?thesis
  proof (cases "cancelled (h1 ! i)")
    case True
    then obtain r where r: "reason (h1 ! i) = Some r" "normalize_reason r = r"
      using heap_okD [OF ok1(1) i1(1)] by (auto simp: token_ok_def)
    have "run_callbacks h1 [Cancel_child i c] out = (h', out')"
      using call True by (simp add: child_def on_cancel_def on_cancel_register_def h1_def c)
    moreover have "pending h1 [Cancel_child i c] (insert (i, c) P)"
      using ok1(2) c i1 True by (auto simp: pending_def split: prod.splits if_splits)
    moreover have "from_cancelled h1 r [Cancel_child i c]"
      using True r c i1 by (simp add: from_cancelled_def)
    moreover have "known h1 (insert (i, c) P)" using ok1(3) by (auto simp: known_def)
    ultimately have "heap_ok h' \<and> pending h' [] (insert (i, c) P)" "known h' (insert (i, c) P)"
      using run_callbacks_inv [OF _ ok1(1) _ _ r(2)] run_callbacks_frame [where S = UNIV]
      by (metis, metis UNIV_I)
    then show ?thesis by (simp add: family_inv_def)
  next
    case False
    have "h' = h1[i := (h1 ! i)\<lparr>callbacks := callbacks (h1 ! i) @ [Cancel_child i c]\<rparr>]"
      using call False by (simp add: child_def on_cancel_def on_cancel_register_def h1_def c)
    moreover have "P \<union> {(p, d). Cancel_child i c = Cancel_child p d} = insert (i, c) P" by auto
    ultimately show ?thesis
      using add_callback_inv(1,3,4) [OF ok1(1,2) i1(1) False ok1(3), of "Cancel_child i c"] c i1(1)
      by (simp add: family_inv_def)
  qed
qed

interpretation fam: state_machine "\<lambda>f. f = ([], {})" api_step family_inv
proof unfold_locales
  fix f g assume "family_inv f" "api_step f g"
  then show "family_inv g"
    by (auto elim!: api_stepE intro: family_inv_new on_cancel_inv child_inv cancel_with_reason_inv(1))
qed (simp add: family_inv_def heap_ok_def pending_def known_def)

lemma family_inv_closed:
  assumes "family_inv (h, P)" "(p, c) \<in> P\<^sup>*" "cancelled (h ! p)"
  shows "cancelled (h ! c)"
  using assms(2,3,1)
  by (induction rule: rtrancl_induct) (auto simp: family_inv_def pending_def split: if_splits)

lemma family_inv_range: "family_inv (h, P) \<Longrightarrow> (p, c) \<in> P\<^sup>* \<Longrightarrow> p < length h \<Longrightarrow> c < length h"
  by (rotate_tac 1, induction rule: rtrancl_induct) (auto simp: family_inv_def pending_def)

section \<open>Theorems\<close>

text \<open>A concrete family for the witnesses: a root, its child and its grandchild.\<close>

definition demo_heap :: heap where
  "demo_heap =
     [\<lparr>cancelled = False, reason = None, callbacks = [Cancel_child 0 1]\<rparr>,
      \<lparr>cancelled = False, reason = None, callbacks = [Cancel_child 1 2]\<rparr>,
      \<lparr>cancelled = False, reason = None, callbacks = []\<rparr>]"

lemma demo_reachable: "api_step\<^sup>*\<^sup>* ([], {}) (demo_heap, {(0, 1), (1, 2)})"
proof -
  define h1 where "h1 = [new_token :: callback token]"
  define h2 where "h2 = [\<lparr>cancelled = False, reason = None, callbacks = [Cancel_child 0 1]\<rparr>,
      \<lparr>cancelled = False, reason = None, callbacks = []\<rparr>]"
  have s1: "api_step ([], {}) (h1, {})" using api_step.new [of "[]"] by (simp add: h1_def)
  have s2: "api_step (h1, {}) (h2, {(0, 1)})"
    by (rule api_step.derive [of 0 _ "[]" _ "[]" 1])
      (simp_all add: h1_def h2_def child_def on_cancel_def on_cancel_register_def new_token_def)
  have s3: "api_step (h2, {(0, 1)}) (demo_heap, insert (1, 2) {(0, 1)})"
    by (rule api_step.derive [of 1 _ "[]" _ "[]"])
      (simp_all add: h2_def demo_heap_def child_def on_cancel_def on_cancel_register_def new_token_def)
  from s1 s2 s3 show ?thesis by (simp add: insert_commute)
qed



text \<open>
  Cancelling is idempotent and one-way: a second cancellation of a token changes nothing and
  invokes nothing, and a cancellation leaves every token outside the subtree (its parent, for
  instance) exactly as it was.
\<close>

theorem cancel_idempotent_one_way:
  assumes "api_step\<^sup>*\<^sup>* ([], {}) (h, P)" and "i < length h"
    and "cancel_with_reason h i r out = (h1, out1)" and "(i, j) \<notin> P\<^sup>*"
  shows "cancel_with_reason h1 i r' out2 = (h1, out2) \<and> h1 ! j = h ! j"
proof -
  have inv: "family_inv (h, P)" using fam.inv_reachable [OF refl assms(1)] .
  have "cancelled (h1 ! i)" using cancel_with_reason_inv(3) [OF inv assms(2,3)] .
  moreover have "h1 ! j = h ! j"
    using cancel_with_reason_frame [OF _ assms(2,3), of P "{c. (i, c) \<in> P\<^sup>*}"] inv assms(4)
    by (auto simp: family_inv_def)
  ultimately show ?thesis by (simp add: cancel_with_reason_def cancel_token_def cancel_begin_def)
qed

theorem cancel_idempotent_one_way_witness:
  "cancel_with_reason (fst (cancel_with_reason demo_heap 1 ''stop'' [])) 1 ''again'' [7] =
     (fst (cancel_with_reason demo_heap 1 ''stop'' []), [7]) \<and>
   fst (cancel_with_reason demo_heap 1 ''stop'' []) ! 0 = demo_heap ! 0"
proof -
  have "(1, 0) \<notin> {(0, 1), (1, 2 :: nat)}\<^sup>*"
  proof
    assume "(1, 0) \<in> {(0, 1), (1, 2 :: nat)}\<^sup>*"
    then show False by (auto elim: rtranclE)
  qed
  moreover have "1 < length demo_heap" by (simp add: demo_heap_def)
  ultimately show ?thesis
    using cancel_idempotent_one_way [OF demo_reachable, of 1 "''stop''" "[]" _ _ 0 "''again''" "[7]"]
    by (metis prod.collapse)
qed

text \<open>
  C4. Callbacks under concurrency: whatever the interleaving of cancelling and registering threads,
  once the token is cancelled and every thread has finished, each registered callback has been
  invoked exactly once, and the stored reason is that of the one call that won.
\<close>

theorem callbacks_run_exactly_once:
  assumes "token_step\<^sup>*\<^sup>* init_shared s"
    and "cancelled (tok s)" "takers s = 0" "due s = {#}"
  shows "ran s = registered s \<and> callbacks (tok s) = [] \<and> reason (tok s) = winner s \<and> winner s \<noteq> None"
  using tk.inv_reachable [OF refl assms(1)] assms(2-4) by (simp add: token_inv_def)

theorem callbacks_run_exactly_once_witness:
  "\<exists>s. token_step\<^sup>*\<^sup>* init_shared s \<and> cancelled (tok s) \<and> registered s = {#1, 2#} \<and> ran s = registered s"
proof -
  define t0 where "t0 = (new_token :: nat token)"
  define s1 where "s1 = init_shared\<lparr>tok := t0\<lparr>callbacks := [1]\<rparr>, registered := {#1#}\<rparr>"
  define s2 where "s2 = s1\<lparr>tok := (tok s1)\<lparr>reason := Some default_reason, cancelled := True\<rparr>,
    takers := 1, winner := Some default_reason\<rparr>"
  define s3 where "s3 = s2\<lparr>due := {#2#}, registered := {#1, 2#}\<rparr>"
  define s4 where "s4 = s3\<lparr>tok := (tok s3)\<lparr>callbacks := []\<rparr>, takers := 0, due := {#1, 2#}\<rparr>"
  define s5 where "s5 = s4\<lparr>due := {#1#}, ran := {#2#}\<rparr>"
  define s6 where "s6 = s5\<lparr>due := {#}, ran := {#1, 2#}\<rparr>"
  note defs = s1_def s2_def s3_def s4_def s5_def s6_def t0_def init_shared_def new_token_def
  have "token_step init_shared s1"
    using token_step.register [of 1 init_shared "t0\<lparr>callbacks := [1]\<rparr>" False] by (simp add: defs on_cancel_register_def)
  moreover have "token_step s1 s2"
    using token_step.begin_cancel [of default_reason s1] by (simp add: defs cancel_begin_def)
  moreover have "token_step s2 s3"
    using token_step.register [of 2 s2] by (simp add: defs on_cancel_register_def add_mset_commute)
  moreover have "token_step s3 s4"
    using token_step.take [of s3] by (simp add: defs cancel_take_def add_mset_commute)
  moreover have "token_step s4 s5"
    using token_step.invoke [of 2 s4] by (simp add: defs)
  moreover have "token_step s5 s6"
    using token_step.invoke [of 1 s5] by (simp add: defs)
  ultimately have reach: "token_step\<^sup>*\<^sup>* init_shared s6"
    by (meson rtranclp.rtrancl_into_rtrancl rtranclp.rtrancl_refl)
  have fin: "cancelled (tok s6)" "takers s6 = 0" "due s6 = {#}" "registered s6 = {#1, 2#}"
    by (simp_all add: defs)
  show ?thesis
    using reach fin callbacks_run_exactly_once [OF reach fin(1-3)] by blast
qed

end
