(* ===== verification/Json_Value.thy ===== *)
theory Json_Value
  imports Agent_Prelude
begin

text \<open>
  JSON values as \<open>serde_json::Value\<close> holds them, with the accessors the crate calls, and the reading
  conventions of the derived decoders: a struct is read from an object whose keys are exactly its
  fields, or from an array with one element per field; a unit variant is read from its name, or from
  an object that maps the name to null.
\<close>

section \<open>Values\<close>

text \<open>
  A number is an unsigned integer, a negative integer or a finite binary float
  \<open>Float m e\<close> of value \<open>m * 2 ^ e\<close>.
\<close>

datatype number = PosInt nat | NegInt int | Float int int

datatype json =
    JNull
  | JBool bool
  | JNum number
  | JStr string
  | JArr "json list"
  | JObj "(string \<times> json) list"

text \<open>The integers that the variants of \<open>Number\<close> can hold: \<open>u64\<close>, and a negative \<open>i64\<close>.\<close>

fun number_ok :: "number \<Rightarrow> bool" where
  "number_ok (PosInt n) = (n \<le> u64_max)"
| "number_ok (NegInt i) = (- (2 ^ 63) \<le> i \<and> i < 0)"
| "number_ok (Float _ _) = True"

fun json_ok :: "json \<Rightarrow> bool" where
  "json_ok (JNum n) = number_ok n"
| "json_ok (JArr xs) = list_all json_ok xs"
| "json_ok (JObj m) = list_all (\<lambda>(k, v). json_ok v) m"
| "json_ok _ = True"

type_synonym fields = "(string, json) btree"

definition object_of :: "(string \<times> json) list \<Rightarrow> json" where
  "object_of kvs = JObj (btree_collect kvs)"

fun as_object :: "json \<Rightarrow> fields option" where
  "as_object (JObj m) = Some m"
| "as_object _ = None"

fun as_str :: "json \<Rightarrow> string option" where
  "as_str (JStr s) = Some s"
| "as_str _ = None"

fun as_bool :: "json \<Rightarrow> bool option" where
  "as_bool (JBool b) = Some b"
| "as_bool _ = None"

fun as_array :: "json \<Rightarrow> json list option" where
  "as_array (JArr xs) = Some xs"
| "as_array _ = None"

fun as_u64 :: "json \<Rightarrow> u64 option" where
  "as_u64 (JNum (PosInt n)) = Some n"
| "as_u64 _ = None"

definition json_get :: "string \<Rightarrow> json \<Rightarrow> json option" where
  "json_get k v = Option.bind (as_object v) (btree_get k)"

definition is_object :: "json \<Rightarrow> bool" where
  "is_object v \<longleftrightarrow> as_object v \<noteq> None"

section \<open>Decoders\<close>

text \<open>
  The values of the fields of a struct, in declaration order; \<open>None\<close> when a field is missing or
  unknown (\<open>deny_unknown_fields\<close>).
\<close>

fun struct_fields :: "string list \<Rightarrow> json \<Rightarrow> json list option" where
  "struct_fields names (JObj m) =
     (if list_all (\<lambda>(k, _). k \<in> set names) m then those (map (\<lambda>k. btree_get k m) names) else None)"
| "struct_fields names (JArr xs) = (if length xs = length names then Some xs else None)"
| "struct_fields names _ = None"

fun unit_variant :: "json \<Rightarrow> string option" where
  "unit_variant (JStr s) = Some s"
| "unit_variant (JObj [(s, JNull)]) = Some s"
| "unit_variant _ = None"

text \<open>\<open>Option<T>\<close>: null is \<open>None\<close>, anything else has to decode as \<open>T\<close>.\<close>

definition decode_option :: "(json \<Rightarrow> 'a option) \<Rightarrow> json \<Rightarrow> 'a option option" where
  "decode_option d v = (if v = JNull then Some None else map_option Some (d v))"

definition decode_u32 :: "json \<Rightarrow> u32 option" where
  "decode_u32 v = (case as_u64 v of None \<Rightarrow> None | Some n \<Rightarrow> if n \<le> u32_max then Some n else None)"

definition decode_list :: "(json \<Rightarrow> 'a option) \<Rightarrow> json \<Rightarrow> 'a list option" where
  "decode_list d v = Option.bind (as_array v) (\<lambda>xs. those (map d xs))"

definition encode_option :: "('a \<Rightarrow> json) \<Rightarrow> 'a option \<Rightarrow> json" where
  "encode_option e x = (case x of None \<Rightarrow> JNull | Some a \<Rightarrow> e a)"

definition json_u64 :: "u64 \<Rightarrow> json" where
  "json_u64 n = JNum (PosInt n)"

lemma as_u64_json [simp]: "as_u64 (json_u64 n) = Some n"
  by (simp add: json_u64_def)

lemma json_u64_not_null [simp]: "json_u64 n \<noteq> JNull"
  by (simp add: json_u64_def)

lemma decode_u32_json: "n \<le> u32_max \<Longrightarrow> decode_u32 (json_u64 n) = Some n"
  by (simp add: decode_u32_def)

lemma decode_encode_option:
  "(\<And>a. x = Some a \<Longrightarrow> d (e a) = Some a \<and> e a \<noteq> JNull) \<Longrightarrow> decode_option d (encode_option e x) = Some x"
  by (cases x) (simp_all add: decode_option_def encode_option_def)

lemma decode_option_u64 [simp]: "decode_option as_u64 (encode_option json_u64 x) = Some x"
  by (rule decode_encode_option) simp

lemma decode_option_str [simp]: "decode_option as_str (encode_option JStr x) = Some x"
  by (rule decode_encode_option) simp

lemma those_map_decode:
  "(\<And>x. x \<in> set xs \<Longrightarrow> d (e x) = Some x) \<Longrightarrow> those (map (\<lambda>x. d (e x)) xs) = Some xs"
  by (induction xs) simp_all

lemma decode_list_encode:
  "(\<And>x. x \<in> set xs \<Longrightarrow> d (e x) = Some x) \<Longrightarrow> decode_list d (JArr (map e xs)) = Some xs"
  using those_map_decode [of xs d e] by (simp add: decode_list_def comp_def)

text \<open>An object that was collected from one pair per field decodes to the values in order.\<close>

lemma struct_fields_object:
  assumes "distinct (map fst kvs)"
  shows "struct_fields (map fst kvs) (object_of kvs) = Some (map snd kvs)"
proof -
  have get: "btree_get k (btree_collect kvs) = map_of kvs k" for k
    by (rule btree_get_object [OF assms])
  have keys: "list_all (\<lambda>(k, _). k \<in> set (map fst kvs)) (btree_collect kvs)"
    by (rule list_all_collect_keys) simp
  have "those (map (map_of kvs) (map fst ys)) = Some (map snd ys)" if "set ys \<subseteq> set kvs" for ys
    using that assms by (induction ys) auto
  from this [of kvs] keys show ?thesis by (simp add: object_of_def get)
qed

lemma btree_get_json_ok: "json_ok (JObj m) \<Longrightarrow> btree_get k m = Some v \<Longrightarrow> json_ok v"
  by (induction k m rule: btree_get.induct) (auto split: if_splits)

lemma json_get_ok: "json_ok v \<Longrightarrow> json_get k v = Some w \<Longrightarrow> json_ok w"
  by (cases v) (auto simp: json_get_def simp del: json_ok.simps intro: btree_get_json_ok)

end
