(* ===== verification/Token_Usage.thy ===== *)
theory Token_Usage
  imports Json_Value
begin

text \<open>
  Token accounting: the records and their wire format (\<open>types/token_usage.rs\<close>), the normalisation of
  a provider's usage object and the summary of a ledger of model calls (\<open>runtime/token_usage.rs\<close>).
  The ledger summary exists twice in the source, once recomputed from the whole ledger and once
  maintained call by call for archived history; the theorems relate the two.
\<close>

section \<open>Data\<close>

datatype usage_source = UsProviderReported | UsEstimated | UsAccountingMissing

datatype cache_status = CsProviderReported | CsAccountingMissing | CsUnsupported

record cache_usage =
  cu_status :: cache_status
  read_input_tokens :: "u64 option"
  write_input_tokens :: "u64 option"
  uncached_input_tokens :: "u64 option"
  cu_source :: "string option"

definition default_cache_usage :: cache_usage where
  "default_cache_usage = \<lparr>cu_status = CsAccountingMissing, read_input_tokens = None,
     write_input_tokens = None, uncached_input_tokens = None, cu_source = None\<rparr>"

record token_usage =
  tu_input_tokens :: "u64 option"
  tu_output_tokens :: "u64 option"
  tu_total_tokens :: "u64 option"
  tu_reasoning_tokens :: "u64 option"
  tu_usage_source :: usage_source
  tu_cache_usage :: cache_usage
  provider_usage :: fields

definition default_token_usage :: token_usage where
  "default_token_usage = \<lparr>tu_input_tokens = None, tu_output_tokens = None, tu_total_tokens = None,
     tu_reasoning_tokens = None, tu_usage_source = UsAccountingMissing,
     tu_cache_usage = default_cache_usage, provider_usage = []\<rparr>"

definition has_usage :: "token_usage \<Rightarrow> bool" where
  "has_usage u \<longleftrightarrow> tu_input_tokens u \<noteq> None \<or> tu_output_tokens u \<noteq> None \<or> tu_total_tokens u \<noteq> None \<or>
     tu_reasoning_tokens u \<noteq> None \<or> tu_usage_source u \<noteq> UsAccountingMissing \<or>
     cu_status (tu_cache_usage u) \<noteq> CsAccountingMissing"

datatype model_call_operation = AgentCycle | SessionMemory | MemoryCompaction

datatype model_call_status = McCompleted | McFailed | McAmbiguous

record model_call =
  mc_call_id :: string
  mc_operation_id :: string
  mc_attempt :: u32
  mc_operation :: model_call_operation
  mc_cycle_index :: u32
  mc_backend :: string
  mc_model :: string
  mc_status :: model_call_status
  mc_usage :: token_usage
  mc_error_code :: "string option"

section \<open>Normalisation of provider usage\<close>

text \<open>\<open>str::parse::<u64>\<close>: an optional plus sign and at least one decimal digit, within the width.\<close>

fun digits_value :: "nat \<Rightarrow> string \<Rightarrow> nat option" where
  "digits_value acc [] = Some acc"
| "digits_value acc (c # cs) =
     (let d = (of_char c :: nat) in
      if 48 \<le> d \<and> d \<le> 57 then digits_value (10 * acc + (d - 48)) cs else None)"

definition parse_u64 :: "string \<Rightarrow> u64 option" where
  "parse_u64 s =
    (let ds = (case s of c # cs \<Rightarrow> if c = CHR ''+'' then cs else s | [] \<Rightarrow> s)
     in if ds = [] then None
        else case digits_value 0 ds of
          None \<Rightarrow> None
        | Some n \<Rightarrow> if n \<le> u64_max then Some n else None)"

text \<open>
  The integer value of a finite float when it is a whole non-negative number, with the saturating
  cast of Rust.
\<close>

definition float_count :: "int \<Rightarrow> int \<Rightarrow> u64 option" where
  "float_count m e =
    (if m < 0 then None
     else if 0 \<le> e then Some (min (nat (m * 2 ^ nat e)) u64_max)
     else if m mod 2 ^ nat (- e) = 0 then Some (min (nat (m div 2 ^ nat (- e))) u64_max)
     else None)"

fun read_count :: "json option \<Rightarrow> u64 option" where
  "read_count None = None"
| "read_count (Some (JNum (PosInt n))) = Some n"
| "read_count (Some (JNum (NegInt _))) = None"
| "read_count (Some (JNum (Float m e))) = float_count m e"
| "read_count (Some (JStr s)) = parse_u64 (trim s)"
| "read_count (Some _) = None"

fun nested_value :: "json \<Rightarrow> string list \<Rightarrow> json option" where
  "nested_value v [] = Some v"
| "nested_value v (k # ks) = (case json_get k v of None \<Rightarrow> None | Some w \<Rightarrow> nested_value w ks)"

definition read_nested_count :: "json \<Rightarrow> string list list \<Rightarrow> u64 option" where
  "read_nested_count v paths = find_map (\<lambda>p. case nested_value v p of None \<Rightarrow> None | Some w \<Rightarrow> read_count (Some w)) paths"

definition has_any_key :: "json \<Rightarrow> string list \<Rightarrow> bool" where
  "has_any_key v ks =
    (case as_object v of None \<Rightarrow> False | Some m \<Rightarrow> list_ex (\<lambda>k. btree_contains k m) ks)"

definition infer_usage_source :: "json \<Rightarrow> usage_source" where
  "infer_usage_source v =
    (case as_object v of
       None \<Rightarrow> UsAccountingMissing
     | Some m \<Rightarrow>
         if list_ex (\<lambda>k. btree_contains k m \<and> read_count (btree_get k m) \<noteq> None)
              [''prompt_tokens'', ''completion_tokens'', ''total_tokens'', ''input_tokens'', ''output_tokens'']
         then UsProviderReported else UsAccountingMissing)"

definition opt_or :: "'a option \<Rightarrow> 'a option \<Rightarrow> 'a option" where
  "opt_or x y = (case x of None \<Rightarrow> y | Some a \<Rightarrow> Some a)"

definition or_zero :: "u64 option \<Rightarrow> u64" where
  "or_zero x = (case x of None \<Rightarrow> 0 | Some n \<Rightarrow> n)"

text \<open>The token counts of a usage object before the cache status is decided.\<close>

record raw_counts =
  rc_native_input :: "u64 option"
  rc_output :: "u64 option"
  rc_cache_read :: "u64 option"
  rc_cache_write :: "u64 option"
  rc_reasoning :: "u64 option"
  rc_uncached :: "u64 option"
  rc_total :: "u64 option"
  rc_anthropic :: bool

definition read_raw_counts :: "json \<Rightarrow> fields \<Rightarrow> raw_counts" where
  "read_raw_counts v raw =
    (let prompt = read_count (btree_get ''prompt_tokens'' raw);
         completion = read_count (btree_get ''completion_tokens'' raw);
         uncached = read_nested_count v [[''uncached_input_tokens'']]
     in \<lparr>rc_native_input = opt_or (read_count (btree_get ''input_tokens'' raw)) prompt,
         rc_output = opt_or (read_count (btree_get ''output_tokens'' raw)) completion,
         rc_cache_read = read_nested_count v
           [[''cache_read_input_tokens''], [''cache_read_tokens''],
            [''prompt_tokens_details'', ''cached_tokens''], [''input_tokens_details'', ''cached_tokens'']],
         rc_cache_write = read_nested_count v
           [[''cache_write_input_tokens''], [''cache_creation_input_tokens''], [''cache_write_tokens''],
            [''input_tokens_details'', ''cache_creation_tokens''],
            [''prompt_tokens_details'', ''cache_creation_tokens'']],
         rc_reasoning = read_nested_count v
           [[''completion_tokens_details'', ''reasoning_tokens''],
            [''output_tokens_details'', ''reasoning_tokens''], [''reasoning_tokens'']],
         rc_uncached = uncached,
         rc_total = read_count (btree_get ''total_tokens'' raw),
         rc_anthropic = (prompt = None \<and> \<not> btree_contains ''total_tokens'' raw \<and> uncached = None \<and>
           has_any_key v [''cache_read_input_tokens'', ''cache_creation_input_tokens''])\<rparr>)"

definition normalized_input :: "raw_counts \<Rightarrow> u64 option" where
  "normalized_input c =
    (if rc_anthropic c
     then Option.bind (rc_native_input c) (\<lambda>native.
            Option.bind (checked_add native (or_zero (rc_cache_read c))) (\<lambda>n.
              checked_add n (or_zero (rc_cache_write c))))
     else rc_native_input c)"

definition normalized_status :: "raw_counts \<Rightarrow> cache_status option \<Rightarrow> cache_status" where
  "normalized_status c hint =
    (if rc_cache_read c \<noteq> None \<or> rc_cache_write c \<noteq> None \<or> rc_uncached c \<noteq> None
     then CsProviderReported
     else case hint of None \<Rightarrow> CsAccountingMissing | Some s \<Rightarrow> s)"

definition normalized_uncached :: "raw_counts \<Rightarrow> cache_status \<Rightarrow> u64 option" where
  "normalized_uncached c status =
    (if status = CsProviderReported \<and> rc_uncached c = None then
       (if rc_anthropic c
        then Option.bind (rc_native_input c) (\<lambda>native. checked_add native (or_zero (rc_cache_write c)))
        else case (normalized_input c, rc_cache_read c) of
          (Some input, Some rd) \<Rightarrow> Some (saturating_sub input rd)
        | _ \<Rightarrow> None)
     else rc_uncached c)"

definition normalize_token_usage_with_hints ::
  "json \<Rightarrow> usage_source option \<Rightarrow> cache_status option \<Rightarrow> token_usage" where
  "normalize_token_usage_with_hints v src_hint cache_hint =
    (case as_object v of
       None \<Rightarrow>
         (let status = (case cache_hint of None \<Rightarrow> CsAccountingMissing | Some s \<Rightarrow> s)
          in default_token_usage\<lparr>
               tu_usage_source := (case src_hint of None \<Rightarrow> UsAccountingMissing | Some s \<Rightarrow> s),
               tu_cache_usage := default_cache_usage\<lparr>cu_status := status,
                 cu_source := (if status = CsUnsupported then Some ''adapter_capability'' else None)\<rparr>\<rparr>)
     | Some raw \<Rightarrow>
         (let c = read_raw_counts v raw;
              input = normalized_input c;
              total_tokens = (case rc_total c of
                 Some n \<Rightarrow> Some n
               | None \<Rightarrow> Option.bind input (\<lambda>i. Option.bind (rc_output c) (\<lambda>out. checked_add i out)));
              status = normalized_status c cache_hint;
              uncached = normalized_uncached c status
          in \<lparr>tu_input_tokens = input, tu_output_tokens = rc_output c, tu_total_tokens = total_tokens,
              tu_reasoning_tokens = rc_reasoning c,
              tu_usage_source = (case src_hint of None \<Rightarrow> infer_usage_source v | Some s \<Rightarrow> s),
              tu_cache_usage = \<lparr>cu_status = status,
                read_input_tokens = (if status = CsProviderReported then rc_cache_read c else None),
                write_input_tokens = (if status = CsProviderReported then rc_cache_write c else None),
                uncached_input_tokens = (if status = CsProviderReported then uncached else None),
                cu_source = (case status of
                    CsProviderReported \<Rightarrow> Some ''provider_usage''
                  | CsUnsupported \<Rightarrow> Some ''adapter_capability''
                  | CsAccountingMissing \<Rightarrow> None)\<rparr>,
              provider_usage = raw\<rparr>))"

definition normalize_token_usage :: "json \<Rightarrow> token_usage" where
  "normalize_token_usage v = normalize_token_usage_with_hints v None None"

section \<open>Ledger summaries\<close>

text \<open>\<open>complete_sum\<close>: the total, \<open>None\<close> when a call lacks the count or the sum leaves the width.\<close>

fun try_sum :: "(token_usage \<Rightarrow> u64 option) \<Rightarrow> u64 \<Rightarrow> model_call list \<Rightarrow> u64 option" where
  "try_sum rd acc [] = Some acc"
| "try_sum rd acc (c # cs) =
     (case rd (mc_usage c) of
        None \<Rightarrow> None
      | Some n \<Rightarrow> (case checked_add acc n of None \<Rightarrow> None | Some t \<Rightarrow> try_sum rd t cs))"

definition complete_sum :: "model_call list \<Rightarrow> (token_usage \<Rightarrow> u64 option) \<Rightarrow> u64 option" where
  "complete_sum cs rd = (if cs = [] then Some 0 else try_sum rd 0 cs)"

definition call_cache_status :: "model_call \<Rightarrow> cache_status" where
  "call_cache_status c = cu_status (tu_cache_usage (mc_usage c))"

definition aggregate_cache_usage :: "model_call list \<Rightarrow> cache_usage" where
  "aggregate_cache_usage cs =
    (if cs = [] then default_cache_usage\<lparr>cu_source := Some ''aggregate''\<rparr>
     else
       let status =
             (if list_all (\<lambda>c. call_cache_status c = CsProviderReported) cs then CsProviderReported
              else if list_all (\<lambda>c. call_cache_status c = CsUnsupported) cs then CsUnsupported
              else CsAccountingMissing);
           sum_of = (\<lambda>rd. if status \<noteq> CsProviderReported then None
                        else try_sum (\<lambda>u. rd (tu_cache_usage u)) 0 cs)
       in \<lparr>cu_status = status, read_input_tokens = sum_of read_input_tokens,
           write_input_tokens = sum_of write_input_tokens,
           uncached_input_tokens = sum_of uncached_input_tokens,
           cu_source = Some ''aggregate''\<rparr>)"

record task_usage =
  tk_input_tokens :: "u64 option"
  tk_output_tokens :: "u64 option"
  tk_total_tokens :: "u64 option"
  tk_reasoning_tokens :: "u64 option"
  tk_cache_usage :: cache_usage
  tk_model_calls :: "model_call list"

definition default_task_usage :: task_usage where
  "default_task_usage = \<lparr>tk_input_tokens = Some 0, tk_output_tokens = Some 0, tk_total_tokens = Some 0,
     tk_reasoning_tokens = Some 0,
     tk_cache_usage = default_cache_usage\<lparr>cu_source := Some ''aggregate''\<rparr>, tk_model_calls = []\<rparr>"

definition add_model_call :: "model_call \<Rightarrow> task_usage \<Rightarrow> string + task_usage" where
  "add_model_call mc t =
    (if list_ex (\<lambda>x. mc_call_id x = mc_call_id mc) (tk_model_calls t)
     then Inl ''model_call_id_duplicate''
     else let cs = tk_model_calls t @ [mc]
          in Inr \<lparr>tk_input_tokens = complete_sum cs tu_input_tokens,
                  tk_output_tokens = complete_sum cs tu_output_tokens,
                  tk_total_tokens = complete_sum cs tu_total_tokens,
                  tk_reasoning_tokens = complete_sum cs tu_reasoning_tokens,
                  tk_cache_usage = aggregate_cache_usage cs,
                  tk_model_calls = cs\<rparr>)"

fun add_model_calls :: "model_call list \<Rightarrow> task_usage \<Rightarrow> string + task_usage" where
  "add_model_calls [] t = Inr t"
| "add_model_calls (c # cs) t = and_then (add_model_call c t) (add_model_calls cs)"

text \<open>\<open>summarize_task_token_usage\<close>; the error stands for the panic of \<open>expect\<close>.\<close>

definition summarize_task_token_usage :: "model_call list \<Rightarrow> string + task_usage" where
  "summarize_task_token_usage cs = add_model_calls cs default_task_usage"

text \<open>The running totals that a checkpoint keeps for its archived calls.\<close>

record usage_totals =
  to_input_tokens :: "u64 option"
  to_output_tokens :: "u64 option"
  to_total_tokens :: "u64 option"
  to_reasoning_tokens :: "u64 option"
  to_cache_usage :: cache_usage

definition default_totals :: usage_totals where
  "default_totals = \<lparr>to_input_tokens = tk_input_tokens default_task_usage,
     to_output_tokens = tk_output_tokens default_task_usage,
     to_total_tokens = tk_total_tokens default_task_usage,
     to_reasoning_tokens = tk_reasoning_tokens default_task_usage,
     to_cache_usage = tk_cache_usage default_task_usage\<rparr>"

definition add_counts :: "u64 option \<Rightarrow> u64 option \<Rightarrow> u64 option" where
  "add_counts l r = Option.bind l (\<lambda>a. Option.bind r (\<lambda>b. checked_add a b))"

definition append_cache :: "cache_usage \<Rightarrow> cache_usage \<Rightarrow> bool \<Rightarrow> cache_usage" where
  "append_cache acc cache first =
    (if first then cache\<lparr>cu_source := Some ''aggregate''\<rparr>
     else if cu_status acc = CsProviderReported \<and> cu_status cache = CsProviderReported
     then acc\<lparr>read_input_tokens := add_counts (read_input_tokens acc) (read_input_tokens cache),
              write_input_tokens := add_counts (write_input_tokens acc) (write_input_tokens cache),
              uncached_input_tokens := add_counts (uncached_input_tokens acc) (uncached_input_tokens cache)\<rparr>
     else (if cu_status acc \<noteq> CsUnsupported \<or> cu_status cache \<noteq> CsUnsupported
           then acc\<lparr>cu_status := CsAccountingMissing\<rparr> else acc)
            \<lparr>read_input_tokens := None, write_input_tokens := None, uncached_input_tokens := None\<rparr>)"

definition append_totals :: "usage_totals \<Rightarrow> model_call \<Rightarrow> bool \<Rightarrow> usage_totals" where
  "append_totals t mc first =
    \<lparr>to_input_tokens = add_counts (to_input_tokens t) (tu_input_tokens (mc_usage mc)),
     to_output_tokens = add_counts (to_output_tokens t) (tu_output_tokens (mc_usage mc)),
     to_total_tokens = add_counts (to_total_tokens t) (tu_total_tokens (mc_usage mc)),
     to_reasoning_tokens = add_counts (to_reasoning_tokens t) (tu_reasoning_tokens (mc_usage mc)),
     to_cache_usage = append_cache (to_cache_usage t) (tu_cache_usage (mc_usage mc)) first\<rparr>"

text \<open>The loop of the archive: the first call of an empty history resets the cache accounting.\<close>

fun append_all :: "nat \<Rightarrow> usage_totals \<Rightarrow> model_call list \<Rightarrow> usage_totals" where
  "append_all n t [] = t"
| "append_all n t (c # cs) = append_all (Suc n) (append_totals t c (n = 0)) cs"

section \<open>Wire format\<close>

definition TOKEN_USAGE_SCHEMA_VERSION :: string where
  "TOKEN_USAGE_SCHEMA_VERSION = ''vv-agent.token-usage.v1''"

definition TASK_TOKEN_USAGE_SCHEMA_VERSION :: string where
  "TASK_TOKEN_USAGE_SCHEMA_VERSION = ''vv-agent.task-token-usage.v2''"

fun usage_source_name :: "usage_source \<Rightarrow> string" where
  "usage_source_name UsProviderReported = ''provider_reported''"
| "usage_source_name UsEstimated = ''estimated''"
| "usage_source_name UsAccountingMissing = ''accounting_missing''"

definition decode_usage_source :: "json \<Rightarrow> usage_source option" where
  "decode_usage_source v =
    Option.bind (unit_variant v) (\<lambda>n. find (\<lambda>s. usage_source_name s = n)
      [UsProviderReported, UsEstimated, UsAccountingMissing])"

fun cache_status_name :: "cache_status \<Rightarrow> string" where
  "cache_status_name CsProviderReported = ''provider_reported''"
| "cache_status_name CsAccountingMissing = ''accounting_missing''"
| "cache_status_name CsUnsupported = ''unsupported''"

definition decode_cache_status :: "json \<Rightarrow> cache_status option" where
  "decode_cache_status v =
    Option.bind (unit_variant v) (\<lambda>n. find (\<lambda>s. cache_status_name s = n)
      [CsProviderReported, CsAccountingMissing, CsUnsupported])"

fun operation_name :: "model_call_operation \<Rightarrow> string" where
  "operation_name AgentCycle = ''agent_cycle''"
| "operation_name SessionMemory = ''session_memory''"
| "operation_name MemoryCompaction = ''memory_compaction''"

definition decode_operation :: "json \<Rightarrow> model_call_operation option" where
  "decode_operation v =
    Option.bind (unit_variant v) (\<lambda>n. find (\<lambda>s. operation_name s = n)
      [AgentCycle, SessionMemory, MemoryCompaction])"

fun call_status_name :: "model_call_status \<Rightarrow> string" where
  "call_status_name McCompleted = ''completed''"
| "call_status_name McFailed = ''failed''"
| "call_status_name McAmbiguous = ''ambiguous''"

definition decode_call_status :: "json \<Rightarrow> model_call_status option" where
  "decode_call_status v =
    Option.bind (unit_variant v) (\<lambda>n. find (\<lambda>s. call_status_name s = n)
      [McCompleted, McFailed, McAmbiguous])"

definition cache_usage_to_value :: "cache_usage \<Rightarrow> json" where
  "cache_usage_to_value c = object_of
    [(''status'', JStr (cache_status_name (cu_status c))),
     (''read_input_tokens'', encode_option json_u64 (read_input_tokens c)),
     (''write_input_tokens'', encode_option json_u64 (write_input_tokens c)),
     (''uncached_input_tokens'', encode_option json_u64 (uncached_input_tokens c)),
     (''source'', encode_option JStr (cu_source c))]"

definition cache_usage_from_value :: "json \<Rightarrow> cache_usage option" where
  "cache_usage_from_value v =
    (case struct_fields [''status'', ''read_input_tokens'', ''write_input_tokens'',
        ''uncached_input_tokens'', ''source''] v of
       Some [st, rd, wr, un, sr] \<Rightarrow>
         Option.bind (decode_cache_status st) (\<lambda>st.
         Option.bind (decode_option as_u64 rd) (\<lambda>rd.
         Option.bind (decode_option as_u64 wr) (\<lambda>wr.
         Option.bind (decode_option as_u64 un) (\<lambda>un.
         Option.bind (decode_option as_str sr) (\<lambda>sr.
           Some \<lparr>cu_status = st, read_input_tokens = rd, write_input_tokens = wr,
             uncached_input_tokens = un, cu_source = sr\<rparr>)))))
     | _ \<Rightarrow> None)"

definition token_usage_to_value :: "token_usage \<Rightarrow> json" where
  "token_usage_to_value u = object_of
    [(''schema_version'', JStr TOKEN_USAGE_SCHEMA_VERSION),
     (''input_tokens'', encode_option json_u64 (tu_input_tokens u)),
     (''output_tokens'', encode_option json_u64 (tu_output_tokens u)),
     (''total_tokens'', encode_option json_u64 (tu_total_tokens u)),
     (''reasoning_tokens'', encode_option json_u64 (tu_reasoning_tokens u)),
     (''usage_source'', JStr (usage_source_name (tu_usage_source u))),
     (''cache_usage'', cache_usage_to_value (tu_cache_usage u)),
     (''provider_usage'', JObj (provider_usage u))]"

definition token_usage_from_value :: "json \<Rightarrow> token_usage option" where
  "token_usage_from_value v =
    (case struct_fields [''schema_version'', ''input_tokens'', ''output_tokens'', ''total_tokens'',
        ''reasoning_tokens'', ''usage_source'', ''cache_usage'', ''provider_usage''] v of
       Some [sv, i, out, t, rs, us, cu, pu] \<Rightarrow>
         Option.bind (as_str sv) (\<lambda>sv.
         Option.bind (decode_option as_u64 i) (\<lambda>i.
         Option.bind (decode_option as_u64 out) (\<lambda>out.
         Option.bind (decode_option as_u64 t) (\<lambda>t.
         Option.bind (decode_option as_u64 rs) (\<lambda>rs.
         Option.bind (decode_usage_source us) (\<lambda>us.
         Option.bind (cache_usage_from_value cu) (\<lambda>cu.
         Option.bind (as_object pu) (\<lambda>pu.
           if sv \<noteq> TOKEN_USAGE_SCHEMA_VERSION then None
           else Some \<lparr>tu_input_tokens = i, tu_output_tokens = out, tu_total_tokens = t,
             tu_reasoning_tokens = rs, tu_usage_source = us, tu_cache_usage = cu,
             provider_usage = pu\<rparr>))))))))
     | _ \<Rightarrow> None)"

text \<open>The checks of \<open>ModelCallRecord::try_from\<close>.\<close>

definition model_call_valid :: "model_call \<Rightarrow> bool" where
  "model_call_valid c \<longleftrightarrow>
     \<not> is_blank (mc_call_id c) \<and> \<not> is_blank (mc_operation_id c) \<and> \<not> is_blank (mc_backend c) \<and>
     \<not> is_blank (mc_model c) \<and> mc_attempt c \<noteq> 0 \<and> mc_cycle_index c \<noteq> 0 \<and>
     (case mc_status c of
        McCompleted \<Rightarrow> mc_error_code c = None
      | _ \<Rightarrow> (case mc_error_code c of None \<Rightarrow> False | Some e \<Rightarrow> \<not> is_blank e))"

definition model_call_to_value :: "model_call \<Rightarrow> json" where
  "model_call_to_value c = object_of
    [(''call_id'', JStr (mc_call_id c)),
     (''operation_id'', JStr (mc_operation_id c)),
     (''attempt'', json_u64 (mc_attempt c)),
     (''operation'', JStr (operation_name (mc_operation c))),
     (''cycle_index'', json_u64 (mc_cycle_index c)),
     (''backend'', JStr (mc_backend c)),
     (''model'', JStr (mc_model c)),
     (''status'', JStr (call_status_name (mc_status c))),
     (''usage'', token_usage_to_value (mc_usage c)),
     (''error_code'', encode_option JStr (mc_error_code c))]"

definition model_call_from_value :: "json \<Rightarrow> model_call option" where
  "model_call_from_value v =
    (case struct_fields [''call_id'', ''operation_id'', ''attempt'', ''operation'', ''cycle_index'',
        ''backend'', ''model'', ''status'', ''usage'', ''error_code''] v of
       Some [ci, oi, att, opn, cyc, be, mo, st, us, er] \<Rightarrow>
         Option.bind (as_str ci) (\<lambda>ci.
         Option.bind (as_str oi) (\<lambda>oi.
         Option.bind (decode_u32 att) (\<lambda>att.
         Option.bind (decode_operation opn) (\<lambda>opn.
         Option.bind (decode_u32 cyc) (\<lambda>cyc.
         Option.bind (as_str be) (\<lambda>be.
         Option.bind (as_str mo) (\<lambda>mo.
         Option.bind (decode_call_status st) (\<lambda>st.
         Option.bind (token_usage_from_value us) (\<lambda>us.
         Option.bind (decode_option as_str er) (\<lambda>er.
           let c = \<lparr>mc_call_id = ci, mc_operation_id = oi, mc_attempt = att, mc_operation = opn,
             mc_cycle_index = cyc, mc_backend = be, mc_model = mo, mc_status = st, mc_usage = us,
             mc_error_code = er\<rparr>
           in if model_call_valid c then Some c else None))))))))))
     | _ \<Rightarrow> None)"

definition task_usage_to_value :: "task_usage \<Rightarrow> json" where
  "task_usage_to_value t = object_of
    [(''schema_version'', JStr TASK_TOKEN_USAGE_SCHEMA_VERSION),
     (''input_tokens'', encode_option json_u64 (tk_input_tokens t)),
     (''output_tokens'', encode_option json_u64 (tk_output_tokens t)),
     (''total_tokens'', encode_option json_u64 (tk_total_tokens t)),
     (''reasoning_tokens'', encode_option json_u64 (tk_reasoning_tokens t)),
     (''cache_usage'', cache_usage_to_value (tk_cache_usage t)),
     (''model_calls'', JArr (map model_call_to_value (tk_model_calls t)))]"

text \<open>The decoder recomputes the aggregate from the ledger and rejects any other.\<close>

definition task_usage_from_value :: "json \<Rightarrow> task_usage option" where
  "task_usage_from_value v =
    (case struct_fields [''schema_version'', ''input_tokens'', ''output_tokens'', ''total_tokens'',
        ''reasoning_tokens'', ''cache_usage'', ''model_calls''] v of
       Some [sv, i, out, t, rs, cu, mcs] \<Rightarrow>
         Option.bind (as_str sv) (\<lambda>sv.
         Option.bind (decode_option as_u64 i) (\<lambda>i.
         Option.bind (decode_option as_u64 out) (\<lambda>out.
         Option.bind (decode_option as_u64 t) (\<lambda>t.
         Option.bind (decode_option as_u64 rs) (\<lambda>rs.
         Option.bind (cache_usage_from_value cu) (\<lambda>cu.
         Option.bind (decode_list model_call_from_value mcs) (\<lambda>mcs.
           if sv \<noteq> TASK_TOKEN_USAGE_SCHEMA_VERSION then None
           else case add_model_calls mcs default_task_usage of
             Inl _ \<Rightarrow> None
           | Inr expected \<Rightarrow>
               if i \<noteq> tk_input_tokens expected \<or> out \<noteq> tk_output_tokens expected \<or>
                  t \<noteq> tk_total_tokens expected \<or> rs \<noteq> tk_reasoning_tokens expected \<or>
                  cu \<noteq> tk_cache_usage expected
               then None else Some expected)))))))
     | _ \<Rightarrow> None)"

section \<open>The two summaries agree\<close>

text \<open>
  A cache usage is well formed when counts are only present with a provider report, and every count
  is a 64-bit value. Normalisation produces nothing else.
\<close>

definition counts_of :: "cache_usage \<Rightarrow> u64 option list" where
  "counts_of c = [read_input_tokens c, write_input_tokens c, uncached_input_tokens c]"

definition wf_cache :: "cache_usage \<Rightarrow> bool" where
  "wf_cache c \<longleftrightarrow> (cu_status c = CsProviderReported \<or> counts_of c = [None, None, None]) \<and>
     list_all (\<lambda>x. case x of None \<Rightarrow> True | Some n \<Rightarrow> n \<le> u64_max) (counts_of c)"

definition wf_calls :: "model_call list \<Rightarrow> bool" where
  "wf_calls cs \<longleftrightarrow> distinct (map mc_call_id cs) \<and> list_all (\<lambda>c. wf_cache (tu_cache_usage (mc_usage c))) cs"

definition totals_of :: "task_usage \<Rightarrow> usage_totals" where
  "totals_of t = \<lparr>to_input_tokens = tk_input_tokens t, to_output_tokens = tk_output_tokens t,
     to_total_tokens = tk_total_tokens t, to_reasoning_tokens = tk_reasoning_tokens t,
     to_cache_usage = tk_cache_usage t\<rparr>"

definition summary_of :: "model_call list \<Rightarrow> task_usage" where
  "summary_of cs = \<lparr>tk_input_tokens = complete_sum cs tu_input_tokens,
     tk_output_tokens = complete_sum cs tu_output_tokens,
     tk_total_tokens = complete_sum cs tu_total_tokens,
     tk_reasoning_tokens = complete_sum cs tu_reasoning_tokens,
     tk_cache_usage = aggregate_cache_usage cs, tk_model_calls = cs\<rparr>"

lemma default_is_summary: "default_task_usage = summary_of []"
  by (simp add: default_task_usage_def summary_of_def complete_sum_def aggregate_cache_usage_def)

lemma add_model_call_summary:
  "add_model_call c (summary_of cs) =
     (if mc_call_id c \<in> set (map mc_call_id cs) then Inl ''model_call_id_duplicate''
      else Inr (summary_of (cs @ [c])))"
  by (auto simp: add_model_call_def summary_of_def list_ex_iff Let_def image_iff) metis

lemma add_model_calls_summary:
  "add_model_calls ds (summary_of cs) =
     (if distinct (map mc_call_id ds) \<and> set (map mc_call_id ds) \<inter> set (map mc_call_id cs) = {}
      then Inr (summary_of (cs @ ds)) else Inl ''model_call_id_duplicate'')"
proof (induction ds arbitrary: cs)
  case (Cons d ds)
  show ?case
  proof (cases "mc_call_id d \<in> set (map mc_call_id cs)")
    case True
    then show ?thesis by (auto simp: add_model_call_summary)
  next
    case False
    then show ?thesis using Cons.IH [of "cs @ [d]"] by (auto simp: add_model_call_summary)
  qed
qed simp

lemma summarize_eq:
  "summarize_task_token_usage cs =
     (if distinct (map mc_call_id cs) then Inr (summary_of cs) else Inl ''model_call_id_duplicate'')"
  using add_model_calls_summary [of cs "[]"]
  by (simp add: summarize_task_token_usage_def default_is_summary)

lemma try_sum_snoc: "try_sum rd a (cs @ [c]) = add_counts (try_sum rd a cs) (rd (mc_usage c))"
  by (induction cs arbitrary: a) (auto simp: add_counts_def split: option.splits)

lemma complete_sum_snoc: "complete_sum (cs @ [c]) rd = add_counts (complete_sum cs rd) (rd (mc_usage c))"
  by (cases "cs = []") (auto simp: complete_sum_def try_sum_snoc add_counts_def split: option.splits)

lemma append_all_snoc:
  "append_all n t (cs @ [c]) = append_totals (append_all n t cs) c (n + length cs = 0)"
  by (induction cs arbitrary: n t) auto

lemma aggregate_single:
  assumes "wf_cache (tu_cache_usage (mc_usage c))"
  shows "aggregate_cache_usage [c] = (tu_cache_usage (mc_usage c))\<lparr>cu_source := Some ''aggregate''\<rparr>"
  using assms
  by (cases "tu_cache_usage (mc_usage c)", cases "cu_status (tu_cache_usage (mc_usage c))")
    (auto simp: aggregate_cache_usage_def call_cache_status_def wf_cache_def counts_of_def
      checked_add_def split: option.splits)

lemma aggregate_snoc:
  assumes "cs \<noteq> []"
  shows "aggregate_cache_usage (cs @ [c]) =
    append_cache (aggregate_cache_usage cs) (tu_cache_usage (mc_usage c)) False"
proof -
  have "\<not> (list_all (\<lambda>c. call_cache_status c = CsProviderReported) cs \<and>
      list_all (\<lambda>c. call_cache_status c = CsUnsupported) cs)"
    using assms by (cases cs) auto
  with assms show ?thesis
    by (auto simp: aggregate_cache_usage_def append_cache_def Let_def try_sum_snoc)
      (auto simp: call_cache_status_def)
qed

lemma append_all_summary:
  "list_all (\<lambda>c. wf_cache (tu_cache_usage (mc_usage c))) cs \<Longrightarrow>
     append_all 0 default_totals cs = totals_of (summary_of cs)"
proof (induction cs rule: rev_induct)
  case Nil
  show ?case by (simp add: default_totals_def totals_of_def default_is_summary)
next
  case (snoc c cs)
  have "aggregate_cache_usage (cs @ [c]) =
      append_cache (aggregate_cache_usage cs) (tu_cache_usage (mc_usage c)) (cs = [])"
    using snoc.prems aggregate_single [of c] aggregate_snoc [of cs c]
    by (cases "cs = []") (simp_all add: append_cache_def)
  then show ?case
    using snoc by (simp add: append_all_snoc append_totals_def totals_of_def summary_of_def complete_sum_snoc)
qed

section \<open>Round trips\<close>

named_theorems wire \<open>decoding what was encoded\<close>

lemma decode_usage_source_name [wire]: "decode_usage_source (JStr (usage_source_name us)) = Some us"
  by (cases us) (simp_all add: decode_usage_source_def)

lemma decode_cache_status_name [wire]: "decode_cache_status (JStr (cache_status_name st)) = Some st"
  by (cases st) (simp_all add: decode_cache_status_def)

lemma decode_operation_name [wire]: "decode_operation (JStr (operation_name opn)) = Some opn"
  by (cases opn) (simp_all add: decode_operation_def)

lemma decode_call_status_name [wire]: "decode_call_status (JStr (call_status_name st)) = Some st"
  by (cases st) (simp_all add: decode_call_status_def)

text \<open>The decoder of an encoded struct sees its fields; the keys are literals and distinct.\<close>

lemma cache_usage_roundtrip [wire]: "cache_usage_from_value (cache_usage_to_value c) = Some c"
proof -
  let ?kvs = "[(''status'', JStr (cache_status_name (cu_status c))),
     (''read_input_tokens'', encode_option json_u64 (read_input_tokens c)),
     (''write_input_tokens'', encode_option json_u64 (write_input_tokens c)),
     (''uncached_input_tokens'', encode_option json_u64 (uncached_input_tokens c)),
     (''source'', encode_option JStr (cu_source c))]"
  have "struct_fields (map fst ?kvs) (object_of ?kvs) = Some (map snd ?kvs)"
    by (rule struct_fields_object) simp
  then show ?thesis
    unfolding cache_usage_from_value_def cache_usage_to_value_def by (simp add: wire)
qed

lemma token_usage_roundtrip [wire]: "token_usage_from_value (token_usage_to_value u) = Some u"
proof -
  let ?kvs = "[(''schema_version'', JStr TOKEN_USAGE_SCHEMA_VERSION),
     (''input_tokens'', encode_option json_u64 (tu_input_tokens u)),
     (''output_tokens'', encode_option json_u64 (tu_output_tokens u)),
     (''total_tokens'', encode_option json_u64 (tu_total_tokens u)),
     (''reasoning_tokens'', encode_option json_u64 (tu_reasoning_tokens u)),
     (''usage_source'', JStr (usage_source_name (tu_usage_source u))),
     (''cache_usage'', cache_usage_to_value (tu_cache_usage u)),
     (''provider_usage'', JObj (provider_usage u))]"
  have "struct_fields (map fst ?kvs) (object_of ?kvs) = Some (map snd ?kvs)"
    by (rule struct_fields_object) simp
  then show ?thesis
    unfolding token_usage_from_value_def token_usage_to_value_def by (simp add: wire)
qed

lemma model_call_roundtrip [wire]:
  assumes "model_call_valid c" "mc_attempt c \<le> u32_max" "mc_cycle_index c \<le> u32_max"
  shows "model_call_from_value (model_call_to_value c) = Some c"
proof -
  let ?kvs = "[(''call_id'', JStr (mc_call_id c)),
     (''operation_id'', JStr (mc_operation_id c)),
     (''attempt'', json_u64 (mc_attempt c)),
     (''operation'', JStr (operation_name (mc_operation c))),
     (''cycle_index'', json_u64 (mc_cycle_index c)),
     (''backend'', JStr (mc_backend c)),
     (''model'', JStr (mc_model c)),
     (''status'', JStr (call_status_name (mc_status c))),
     (''usage'', token_usage_to_value (mc_usage c)),
     (''error_code'', encode_option JStr (mc_error_code c))]"
  have "struct_fields (map fst ?kvs) (object_of ?kvs) = Some (map snd ?kvs)"
    by (rule struct_fields_object) simp
  then show ?thesis
    using assms unfolding model_call_from_value_def model_call_to_value_def
    by (cases c) (simp add: wire decode_u32_json Let_def)
qed

lemma task_usage_fields:
  "struct_fields [''schema_version'', ''input_tokens'', ''output_tokens'', ''total_tokens'',
      ''reasoning_tokens'', ''cache_usage'', ''model_calls''] (task_usage_to_value t) =
   Some [JStr TASK_TOKEN_USAGE_SCHEMA_VERSION, encode_option json_u64 (tk_input_tokens t),
     encode_option json_u64 (tk_output_tokens t), encode_option json_u64 (tk_total_tokens t),
     encode_option json_u64 (tk_reasoning_tokens t), cache_usage_to_value (tk_cache_usage t),
     JArr (map model_call_to_value (tk_model_calls t))]"
proof -
  let ?kvs = "[(''schema_version'', JStr TASK_TOKEN_USAGE_SCHEMA_VERSION),
     (''input_tokens'', encode_option json_u64 (tk_input_tokens t)),
     (''output_tokens'', encode_option json_u64 (tk_output_tokens t)),
     (''total_tokens'', encode_option json_u64 (tk_total_tokens t)),
     (''reasoning_tokens'', encode_option json_u64 (tk_reasoning_tokens t)),
     (''cache_usage'', cache_usage_to_value (tk_cache_usage t)),
     (''model_calls'', JArr (map model_call_to_value (tk_model_calls t)))]"
  have "struct_fields (map fst ?kvs) (object_of ?kvs) = Some (map snd ?kvs)"
    by (rule struct_fields_object) simp
  then show ?thesis unfolding task_usage_to_value_def by simp
qed

lemma decode_calls:
  assumes "\<forall>c \<in> set cs. model_call_valid c \<and> mc_attempt c \<le> u32_max \<and> mc_cycle_index c \<le> u32_max"
  shows "decode_list model_call_from_value (JArr (map model_call_to_value cs)) = Some cs"
  by (rule decode_list_encode) (use assms in \<open>simp add: model_call_roundtrip\<close>)

lemma those_SomeD: "those (map d xs) = Some ys \<Longrightarrow> \<forall>y \<in> set ys. \<exists>x \<in> set xs. d x = Some y"
  by (induction xs arbitrary: ys) (fastforce split: option.splits)+

lemma model_call_from_value_valid: "model_call_from_value v = Some c \<Longrightarrow> model_call_valid c"
  by (auto simp: model_call_from_value_def bind_eq_Some_conv Let_def split: option.splits list.splits if_splits)

lemma task_usage_from_value_SomeD:
  assumes "task_usage_from_value v = Some t"
  shows "\<exists>cs. add_model_calls cs default_task_usage = Inr t \<and> (\<forall>c \<in> set cs. model_call_valid c)"
proof -
  obtain mcs cs where "decode_list model_call_from_value mcs = Some cs"
      and add: "add_model_calls cs default_task_usage = Inr t"
    using assms
    by (auto simp: task_usage_from_value_def bind_eq_Some_conv split: option.splits list.splits if_splits sum.splits)
  then have "\<forall>c \<in> set cs. model_call_valid c"
    by (auto simp: decode_list_def bind_eq_Some_conv dest!: those_SomeD intro: model_call_from_value_valid)
  with add show ?thesis by blast
qed

section \<open>Facts about normalisation\<close>

lemma read_count_bound: "(\<And>w. x = Some w \<Longrightarrow> json_ok w) \<Longrightarrow> read_count x = Some n \<Longrightarrow> n \<le> u64_max"
  by (induction x rule: read_count.induct)
    (auto simp: float_count_def parse_u64_def Let_def split: if_splits option.splits)

lemma nested_value_ok: "json_ok v \<Longrightarrow> nested_value v p = Some w \<Longrightarrow> json_ok w"
  by (induction v p rule: nested_value.induct) (auto split: option.splits intro: json_get_ok)

lemma read_nested_count_bound: "json_ok v \<Longrightarrow> read_nested_count v ps = Some n \<Longrightarrow> n \<le> u64_max"
  unfolding read_nested_count_def
proof (drule find_map_SomeD, clarsimp split: option.splits)
  fix p w assume "json_ok v" "nested_value v p = Some w" "read_count (Some w) = Some n"
  then show "n \<le> u64_max" using nested_value_ok read_count_bound [of "Some w" n] by blast
qed

lemma raw_counts_bound:
  assumes "json_ok v" "as_object v = Some raw"
  shows "rc_cache_read (read_raw_counts v raw) = Some n \<Longrightarrow> n \<le> u64_max"
    and "rc_cache_write (read_raw_counts v raw) = Some n \<Longrightarrow> n \<le> u64_max"
    and "rc_uncached (read_raw_counts v raw) = Some n \<Longrightarrow> n \<le> u64_max"
    and "rc_native_input (read_raw_counts v raw) = Some n \<Longrightarrow> n \<le> u64_max"
proof -
  have raw: "v = JObj raw" using assms(2) by (cases v) auto
  have top: "read_count (btree_get k raw) = Some m \<Longrightarrow> m \<le> u64_max" for k m
    using assms(1) raw read_count_bound [of "btree_get k raw" m] btree_get_json_ok [of raw k] by blast
  show "rc_native_input (read_raw_counts v raw) = Some n \<Longrightarrow> n \<le> u64_max"
    by (auto simp: read_raw_counts_def Let_def opt_or_def split: option.splits dest: top)
qed (auto simp: read_raw_counts_def Let_def intro: read_nested_count_bound [OF assms(1)])

lemma normalized_input_bound:
  assumes "json_ok v" "as_object v = Some raw" "normalized_input (read_raw_counts v raw) = Some n"
  shows "n \<le> u64_max"
  using assms(3) raw_counts_bound(4) [OF assms(1,2)]
  by (auto simp: normalized_input_def bind_eq_Some_conv checked_add_Some_iff split: if_splits)

lemma normalized_uncached_bound:
  assumes "json_ok v" "as_object v = Some raw"
    and "normalized_uncached (read_raw_counts v raw) st = Some n"
  shows "n \<le> u64_max"
  using assms(3) raw_counts_bound(3) [OF assms(1,2)] normalized_input_bound [OF assms(1,2)]
  by (auto simp: normalized_uncached_def bind_eq_Some_conv checked_add_Some_iff saturating_sub_def
      split: if_splits option.splits)

text \<open>The fields of a normalised usage object.\<close>

lemma normalize_object:
  fixes src cache
  assumes "as_object v = Some raw" "read_raw_counts v raw = c"
  defines "st \<equiv> normalized_status c cache"
  shows "tu_input_tokens (normalize_token_usage_with_hints v src cache) = normalized_input c"
    and "tu_output_tokens (normalize_token_usage_with_hints v src cache) = rc_output c"
    and "tu_total_tokens (normalize_token_usage_with_hints v src cache) =
      (case rc_total c of Some n \<Rightarrow> Some n
       | None \<Rightarrow> Option.bind (normalized_input c) (\<lambda>i. Option.bind (rc_output c) (\<lambda>out. checked_add i out)))"
    and "cu_status (tu_cache_usage (normalize_token_usage_with_hints v src cache)) = st"
    and "read_input_tokens (tu_cache_usage (normalize_token_usage_with_hints v src cache)) =
      (if st = CsProviderReported then rc_cache_read c else None)"
    and "write_input_tokens (tu_cache_usage (normalize_token_usage_with_hints v src cache)) =
      (if st = CsProviderReported then rc_cache_write c else None)"
    and "uncached_input_tokens (tu_cache_usage (normalize_token_usage_with_hints v src cache)) =
      (if st = CsProviderReported then normalized_uncached c st else None)"
  using assms by (simp_all add: normalize_token_usage_with_hints_def Let_def)

lemma anthropic_no_uncached: "rc_anthropic (read_raw_counts v raw) \<Longrightarrow> rc_uncached (read_raw_counts v raw) = None"
  by (simp add: read_raw_counts_def Let_def)

lemma anthropic_input_split:
  assumes "rc_anthropic c" "rc_uncached c = None" "normalized_input c = Some i"
  shows "\<exists>un. normalized_uncached c CsProviderReported = Some un \<and> i = un + or_zero (rc_cache_read c)"
  using assms
  by (auto simp: normalized_input_def normalized_uncached_def bind_eq_Some_conv checked_add_Some_iff)

section \<open>Theorems\<close>

text \<open>Concrete data for the witnesses: two calls with a provider report and a native usage object.\<close>

definition demo_call :: "string \<Rightarrow> u64 \<Rightarrow> model_call" where
  "demo_call cid n = \<lparr>mc_call_id = cid, mc_operation_id = ''op'', mc_attempt = 1, mc_operation = AgentCycle,
     mc_cycle_index = 1, mc_backend = ''b'', mc_model = ''m'', mc_status = McCompleted,
     mc_usage = default_token_usage\<lparr>tu_input_tokens := Some n,
       tu_cache_usage := \<lparr>cu_status = CsProviderReported, read_input_tokens = Some n,
         write_input_tokens = None, uncached_input_tokens = Some 1, cu_source = Some ''provider_usage''\<rparr>\<rparr>,
     mc_error_code = None\<rparr>"

definition demo_usage :: json where
  "demo_usage = JObj [(''cache_read_input_tokens'', json_u64 3), (''input_tokens'', json_u64 10),
     (''output_tokens'', json_u64 4)]"

text \<open>
  C5. The totals that a checkpoint maintains call by call for its archived history are those that a
  recomputation from the whole ledger gives, including the cases where a count is missing or a sum
  leaves 64 bits, for every ledger of well-formed calls with distinct identities.
\<close>

theorem incremental_totals_correct:
  assumes "wf_calls cs"
  shows "summarize_task_token_usage cs = Inr (summary_of cs) \<and>
    append_all 0 default_totals cs = totals_of (summary_of cs)"
  using assms by (simp add: wf_calls_def summarize_eq append_all_summary)

theorem incremental_totals_correct_witness:
  "wf_calls [demo_call ''a'' 5, demo_call ''b'' 7] \<and>
   read_input_tokens (to_cache_usage (append_all 0 default_totals [demo_call ''a'' 5, demo_call ''b'' 7])) = Some 12"
proof -
  have wf: "wf_calls [demo_call ''a'' 5, demo_call ''b'' 7]"
    by (simp add: wf_calls_def wf_cache_def counts_of_def demo_call_def u64_max_def)
  have "read_input_tokens (tk_cache_usage (summary_of [demo_call ''a'' 5, demo_call ''b'' 7])) = Some 12"
    by (simp add: summary_of_def aggregate_cache_usage_def call_cache_status_def demo_call_def
        checked_add_def u64_max_def Let_def)
  then show ?thesis using wf incremental_totals_correct [OF wf] by (simp add: totals_of_def)
qed

text \<open>
  C9. Without well-formedness the two summaries differ: a first call that carries a cache count
  although its status is not a provider report leaves that count in the incremental totals, while the
  recomputation reports none.
\<close>

definition stray_call :: model_call where
  "stray_call = \<lparr>mc_call_id = ''c'', mc_operation_id = ''o'', mc_attempt = 1, mc_operation = AgentCycle,
     mc_cycle_index = 1, mc_backend = ''b'', mc_model = ''m'', mc_status = McCompleted,
     mc_usage = default_token_usage\<lparr>tu_cache_usage := default_cache_usage\<lparr>read_input_tokens := Some 5\<rparr>\<rparr>,
     mc_error_code = None\<rparr>"

theorem incremental_totals_differ:
  "model_call_valid stray_call \<and>
   read_input_tokens (to_cache_usage (append_all 0 default_totals [stray_call])) = Some 5 \<and>
   read_input_tokens (aggregate_cache_usage [stray_call]) = None"
proof -
  have "model_call_valid stray_call" by code_simp
  then show ?thesis
    by (simp add: append_totals_def append_cache_def aggregate_cache_usage_def stray_call_def
        call_cache_status_def default_token_usage_def default_cache_usage_def Let_def)
qed

text \<open>
  Normalisation is well formed and its counts add up: a cache count appears only under a provider
  report, a total that the provider does not state is the sum of input and output, and for the native
  Anthropic shape the input is the sum of its uncached and cache-read parts.
\<close>

theorem normalize_wf:
  assumes "json_ok v" and "as_object v = Some raw" and "c = read_raw_counts v raw"
    and "u = normalize_token_usage_with_hints v src cache"
  shows "wf_cache (tu_cache_usage u) \<and>
    (rc_total c = None \<longrightarrow> tu_total_tokens u = add_counts (tu_input_tokens u) (tu_output_tokens u)) \<and>
    (rc_anthropic c \<and> tu_input_tokens u = Some i \<and> cu_status (tu_cache_usage u) = CsProviderReported \<longrightarrow>
      (\<exists>un. uncached_input_tokens (tu_cache_usage u) = Some un \<and>
        i = un + or_zero (read_input_tokens (tu_cache_usage u))))"
proof (intro conjI impI)
  note u = normalize_object [OF assms(2) assms(3) [symmetric], of src cache, folded assms(4)]
  show "wf_cache (tu_cache_usage u)"
    using raw_counts_bound [OF assms(1,2)] normalized_uncached_bound [OF assms(1,2)] assms(3)
    by (auto simp: u wf_cache_def counts_of_def split: option.splits)
  show "tu_total_tokens u = add_counts (tu_input_tokens u) (tu_output_tokens u)" if "rc_total c = None"
    using that by (simp add: u add_counts_def)
  show "\<exists>un. uncached_input_tokens (tu_cache_usage u) = Some un \<and>
      i = un + or_zero (read_input_tokens (tu_cache_usage u))"
    if "rc_anthropic c \<and> tu_input_tokens u = Some i \<and> cu_status (tu_cache_usage u) = CsProviderReported"
    using that anthropic_input_split [of c] anthropic_no_uncached [of v raw] assms(3) by (simp add: u)
qed

lemma demo_counts:
  "read_raw_counts demo_usage [(''cache_read_input_tokens'', json_u64 3), (''input_tokens'', json_u64 10),
     (''output_tokens'', json_u64 4)] =
   \<lparr>rc_native_input = Some 10, rc_output = Some 4, rc_cache_read = Some 3, rc_cache_write = None,
    rc_reasoning = None, rc_uncached = None, rc_total = None, rc_anthropic = True\<rparr>"
  by (simp add: read_raw_counts_def demo_usage_def read_nested_count_def json_get_def has_any_key_def
      btree_contains_def opt_or_def json_u64_def Let_def)

theorem normalize_wf_witness:
  "wf_cache (tu_cache_usage (normalize_token_usage demo_usage)) \<and>
   tu_input_tokens (normalize_token_usage demo_usage) = Some 13 \<and>
   (\<exists>un. uncached_input_tokens (tu_cache_usage (normalize_token_usage demo_usage)) = Some un \<and>
     13 = un + or_zero (read_input_tokens (tu_cache_usage (normalize_token_usage demo_usage))))"
proof -
  let ?raw = "[(''cache_read_input_tokens'', json_u64 3), (''input_tokens'', json_u64 10),
    (''output_tokens'', json_u64 4)]"
  have obj: "json_ok demo_usage" "as_object demo_usage = Some ?raw"
    by (simp_all add: demo_usage_def json_u64_def u64_max_def)
  note u = normalize_object [OF obj(2) demo_counts, of None None, folded normalize_token_usage_def]
  have "rc_anthropic (read_raw_counts demo_usage ?raw)" by (simp add: demo_counts)
  moreover have "tu_input_tokens (normalize_token_usage demo_usage) = Some 13"
    by (simp add: u normalized_input_def or_zero_def checked_add_def u64_max_def)
  moreover have "cu_status (tu_cache_usage (normalize_token_usage demo_usage)) = CsProviderReported"
    by (simp add: u normalized_status_def)
  ultimately show ?thesis
    using normalize_wf [OF obj refl refl, of None None 13] by (simp add: normalize_token_usage_def)
qed

text \<open>
  Round trip: a summary of a ledger of valid calls decodes from its own encoding to itself.
\<close>

theorem task_usage_roundtrip:
  assumes "summarize_task_token_usage cs = Inr t"
    and "\<forall>c \<in> set cs. model_call_valid c \<and> mc_attempt c \<le> u32_max \<and> mc_cycle_index c \<le> u32_max"
  shows "task_usage_from_value (task_usage_to_value t) = Some t"
proof -
  have t: "t = summary_of cs" "tk_model_calls t = cs"
    using assms(1) by (auto simp: summarize_eq summary_of_def split: if_splits)
  have add: "add_model_calls (tk_model_calls t) default_task_usage = Inr t"
    using assms(1) t(2) by (simp add: summarize_task_token_usage_def)
  have calls: "decode_list model_call_from_value (JArr (map model_call_to_value (tk_model_calls t))) =
      Some (tk_model_calls t)"
    using assms(2) t(2) by (simp add: decode_calls)
  show ?thesis
    by (simp add: task_usage_from_value_def task_usage_fields cache_usage_roundtrip calls add)
qed

theorem task_usage_roundtrip_witness:
  "task_usage_from_value (task_usage_to_value (summary_of [demo_call ''a'' 5, demo_call ''b'' 7])) =
     Some (summary_of [demo_call ''a'' 5, demo_call ''b'' 7])"
proof (rule task_usage_roundtrip [where cs = "[demo_call ''a'' 5, demo_call ''b'' 7]"])
  show "summarize_task_token_usage [demo_call ''a'' 5, demo_call ''b'' 7] =
      Inr (summary_of [demo_call ''a'' 5, demo_call ''b'' 7])"
    by (simp add: summarize_eq demo_call_def)
  show "\<forall>c \<in> set [demo_call ''a'' 5, demo_call ''b'' 7].
      model_call_valid c \<and> mc_attempt c \<le> u32_max \<and> mc_cycle_index c \<le> u32_max"
    by (simp add: model_call_valid_def demo_call_def u32_max_def is_blank_def trim_def ws1_def ws2_def)
qed

text \<open>
  Integrity: whatever the decoder accepts is the recomputed summary of a ledger of valid calls
  with distinct identities, so a tampered aggregate is never admitted.
\<close>

theorem task_usage_integrity:
  assumes "task_usage_from_value v = Some t"
  shows "t = summary_of (tk_model_calls t) \<and> distinct (map mc_call_id (tk_model_calls t)) \<and>
    list_all model_call_valid (tk_model_calls t)"
proof -
  obtain cs where add: "add_model_calls cs default_task_usage = Inr t"
      and valid: "\<forall>c \<in> set cs. model_call_valid c"
    using task_usage_from_value_SomeD [OF assms] by blast
  then have "t = summary_of cs" "distinct (map mc_call_id cs)"
    using summarize_eq [of cs] by (auto simp: summarize_task_token_usage_def split: if_splits)
  with valid show ?thesis by (simp add: summary_of_def list_all_iff)
qed

theorem task_usage_integrity_witness:
  "task_usage_from_value (task_usage_to_value default_task_usage) = Some default_task_usage \<and>
   default_task_usage = summary_of (tk_model_calls default_task_usage)"
proof -
  have "task_usage_from_value (task_usage_to_value default_task_usage) = Some default_task_usage"
    by (simp add: task_usage_from_value_def task_usage_fields cache_usage_roundtrip decode_list_def
        default_task_usage_def)
  then show ?thesis using task_usage_integrity by blast
qed

end
