(* ===== verification/Budget.thy ===== *)
theory Budget
  imports Token_Usage
begin

text \<open>
  Run budgets (\<open>budget.rs\<close>): limits, usage snapshots, the evaluator that observes usage at the
  boundaries of a run, and the controller that the engine keeps around it
  (\<open>runtime/engine/budget.rs\<close>). A closure of the source whose value changes between calls, the
  monotonic clock and the cost meter, is an argument of every operation that calls it.
\<close>

section \<open>Data\<close>

datatype unavailable_policy = ContinueAndMark | Stop

datatype dimension = TotalTokens | UncachedInputTokens | ToolCalls | ToolCallsByName | WallTime | HostCost

text \<open>The derived order is the order of declaration.\<close>

fun dimension_index :: "dimension \<Rightarrow> nat" where
  "dimension_index TotalTokens = 0"
| "dimension_index UncachedInputTokens = 1"
| "dimension_index ToolCalls = 2"
| "dimension_index ToolCallsByName = 3"
| "dimension_index WallTime = 4"
| "dimension_index HostCost = 5"

lemma dimension_index_inject [simp]: "dimension_index a = dimension_index b \<longleftrightarrow> a = b"
  by (cases a; cases b) simp_all

instantiation dimension :: linorder
begin

definition less_eq_dimension :: "dimension \<Rightarrow> dimension \<Rightarrow> bool" where
  "less_eq_dimension a b \<longleftrightarrow> dimension_index a \<le> dimension_index b"

definition less_dimension :: "dimension \<Rightarrow> dimension \<Rightarrow> bool" where
  "less_dimension a b \<longleftrightarrow> dimension_index a < dimension_index b"

instance
  by standard (auto simp: less_eq_dimension_def less_dimension_def dest: antisym)

end

datatype boundary = RunStart | CycleStart | ModelCallComplete | ToolBatchPreflight | ToolBatchComplete | Terminal

datatype exhaustion_reason = LimitReached | LimitExceeded | MetricUnavailable

datatype unavailable_reason = AccountingMissing | UsageMissing | MeterMissing | MeterUnavailable
  | MeterError | UnitMismatch | CurrencyMismatch | NonMonotonic | IntegerOverflow

text \<open>Validation errors: the field (and the key of a map) that the message of the source names.\<close>

datatype budget_error =
    Out_of_wire_range string
  | Entry_out_of_wire_range string string
  | Blank_field string
  | No_limit
  | Duplicate_dimension

definition validate_wire_integer :: "u64 \<Rightarrow> budget_error \<Rightarrow> budget_error + unit" where
  "validate_wire_integer n e = ensure (n \<le> MAX_WIRE_INTEGER) e"

definition validate_non_empty :: "string \<Rightarrow> string \<Rightarrow> budget_error + unit" where
  "validate_non_empty s field = ensure (\<not> is_blank s) (Blank_field field)"

definition validate_some :: "('a \<Rightarrow> 'e + unit) \<Rightarrow> 'a option \<Rightarrow> 'e + unit" where
  "validate_some f x = (case x of None \<Rightarrow> Inr () | Some a \<Rightarrow> f a)"

record host_cost =
  hc_unit :: string
  hc_currency :: "string option"
  amount_microunits :: u64

definition host_cost_validate :: "host_cost \<Rightarrow> budget_error + unit" where
  "host_cost_validate c =
    and_then (validate_non_empty (hc_unit c) ''host cost unit'') (\<lambda>_.
    and_then (validate_some (\<lambda>s. validate_non_empty s ''host cost currency'') (hc_currency c)) (\<lambda>_.
    validate_wire_integer (amount_microunits c) (Out_of_wire_range ''host cost amount_microunits'')))"

definition host_cost_new :: "string \<Rightarrow> u64 \<Rightarrow> budget_error + host_cost" where
  "host_cost_new unit amount =
    (let c = \<lparr>hc_unit = unit, hc_currency = None, amount_microunits = amount\<rparr>
     in and_then (host_cost_validate c) (\<lambda>_. Inr c))"

definition with_currency :: "host_cost \<Rightarrow> string \<Rightarrow> budget_error + host_cost" where
  "with_currency c currency =
    (let d = c\<lparr>hc_currency := Some currency\<rparr> in and_then (host_cost_validate d) (\<lambda>_. Inr d))"

record unavailable_dimension =
  ud_dimension :: dimension
  ud_reason :: unavailable_reason
  expected_unit :: "string option"
  observed_unit :: "string option"
  expected_currency :: "string option"
  observed_currency :: "string option"

definition unavailable_validate :: "unavailable_dimension \<Rightarrow> budget_error + unit" where
  "unavailable_validate u =
    for_each (\<lambda>(field, value). validate_some (\<lambda>s. validate_non_empty s field) value)
      [(''expected_unit'', expected_unit u), (''observed_unit'', observed_unit u),
       (''expected_currency'', expected_currency u), (''observed_currency'', observed_currency u)]"

record limits =
  max_total_tokens :: "u64 option"
  max_uncached_input_tokens :: "u64 option"
  max_tool_calls :: "u64 option"
  max_tool_calls_by_name :: "(string, u64) btree"
  max_wall_time_ms :: "u64 option"
  max_host_cost :: "host_cost option"
  unavailable_metric_policy :: unavailable_policy

definition has_limits :: "limits \<Rightarrow> bool" where
  "has_limits l \<longleftrightarrow> max_total_tokens l \<noteq> None \<or> max_uncached_input_tokens l \<noteq> None \<or>
     max_tool_calls l \<noteq> None \<or> max_tool_calls_by_name l \<noteq> [] \<or> max_wall_time_ms l \<noteq> None \<or>
     max_host_cost l \<noteq> None"

definition limits_validate :: "limits \<Rightarrow> budget_error + unit" where
  "limits_validate l =
    and_then (for_each (\<lambda>(field, value). validate_some (\<lambda>n. validate_wire_integer n (Out_of_wire_range field)) value)
      [(''max_total_tokens'', max_total_tokens l), (''max_uncached_input_tokens'', max_uncached_input_tokens l),
       (''max_tool_calls'', max_tool_calls l), (''max_wall_time_ms'', max_wall_time_ms l)]) (\<lambda>_.
    and_then (for_each (\<lambda>(name, n).
       and_then (validate_non_empty name ''named tool budget key'') (\<lambda>_.
         validate_wire_integer n (Entry_out_of_wire_range ''max_tool_calls_by_name'' name)))
      (max_tool_calls_by_name l)) (\<lambda>_.
    validate_some host_cost_validate (max_host_cost l)))"

record usage_snapshot =
  sn_cycles :: u64
  sn_total_tokens :: "u64 option"
  sn_uncached_input_tokens :: "u64 option"
  sn_tool_calls :: u64
  sn_tool_calls_by_name :: "(string, u64) btree"
  sn_elapsed_ms :: u64
  sn_host_cost :: "host_cost option"
  unavailable_dimensions :: "unavailable_dimension list"

definition default_snapshot :: usage_snapshot where
  "default_snapshot = \<lparr>sn_cycles = 0, sn_total_tokens = Some 0, sn_uncached_input_tokens = Some 0,
     sn_tool_calls = 0, sn_tool_calls_by_name = [], sn_elapsed_ms = 0, sn_host_cost = None,
     unavailable_dimensions = []\<rparr>"

text \<open>Sorting and removing equal neighbours keeps the length exactly when the elements are distinct.\<close>

definition snapshot_validate :: "usage_snapshot \<Rightarrow> budget_error + unit" where
  "snapshot_validate s =
    and_then (validate_wire_integer (sn_cycles s) (Out_of_wire_range ''budget usage cycles'')) (\<lambda>_.
    and_then (validate_some (\<lambda>n. validate_wire_integer n (Out_of_wire_range ''budget usage total_tokens''))
      (sn_total_tokens s)) (\<lambda>_.
    and_then (validate_some (\<lambda>n. validate_wire_integer n (Out_of_wire_range ''budget usage uncached_input_tokens''))
      (sn_uncached_input_tokens s)) (\<lambda>_.
    and_then (validate_wire_integer (sn_tool_calls s) (Out_of_wire_range ''budget usage tool_calls'')) (\<lambda>_.
    and_then (validate_wire_integer (sn_elapsed_ms s) (Out_of_wire_range ''budget usage elapsed_ms'')) (\<lambda>_.
    and_then (for_each (\<lambda>(name, n).
       and_then (validate_non_empty name ''budget usage tool name'') (\<lambda>_.
         validate_wire_integer n (Entry_out_of_wire_range ''budget usage tool_calls_by_name'' name)))
      (sn_tool_calls_by_name s)) (\<lambda>_.
    and_then (validate_some host_cost_validate (sn_host_cost s)) (\<lambda>_.
    and_then (ensure (length (remdups_adj (sort (map ud_dimension (unavailable_dimensions s))))
        = length (unavailable_dimensions s)) Duplicate_dimension) (\<lambda>_.
    for_each unavailable_validate (unavailable_dimensions s)))))))))"

record exhaustion =
  ex_dimension :: dimension
  ex_tool_name :: "string option"
  ex_reason :: exhaustion_reason
  ex_limit :: u64
  ex_observed :: "u64 option"
  attempted_increment :: "u64 option"
  overshoot :: "u64 option"
  ex_unit :: string
  ex_currency :: "string option"
  enforcement_boundary :: boundary
  ex_unavailable_reason :: "unavailable_reason option"

definition exhaustion_validate :: "exhaustion \<Rightarrow> budget_error + unit" where
  "exhaustion_validate x =
    and_then (validate_wire_integer (ex_limit x) (Out_of_wire_range ''budget exhaustion limit'')) (\<lambda>_.
    and_then (for_each (\<lambda>(field, value). validate_some (\<lambda>n. validate_wire_integer n (Out_of_wire_range field)) value)
      [(''budget exhaustion observed'', ex_observed x),
       (''budget exhaustion attempted_increment'', attempted_increment x),
       (''budget exhaustion overshoot'', overshoot x)]) (\<lambda>_.
    and_then (validate_non_empty (ex_unit x) ''budget exhaustion unit'') (\<lambda>_.
    and_then (validate_some (\<lambda>s. validate_non_empty s ''tool_name'') (ex_tool_name x)) (\<lambda>_.
    validate_some (\<lambda>s. validate_non_empty s ''currency'') (ex_currency x)))))"

section \<open>The evaluator\<close>

text \<open>What the clock and the cost meter answer at one boundary.\<close>

record readings =
  rd_now_ns :: nat
  rd_cost :: "string + host_cost option"

record evaluator =
  ev_limits :: limits
  ev_has_meter :: bool
  started_ns :: nat
  cycles :: u64
  total_tokens :: "u64 option"
  uncached_tokens :: "u64 option"
  tool_calls :: u64
  tool_calls_by_name :: "(string, u64) btree"
  base_elapsed_ms :: u64
  elapsed_ms :: u64
  host_cost_seen :: "host_cost option"
  unavailable :: "(dimension, unavailable_dimension) btree"

definition with_clock :: "limits \<Rightarrow> bool \<Rightarrow> usage_snapshot option \<Rightarrow> nat \<Rightarrow> budget_error + evaluator" where
  "with_clock l meter initial now =
    and_then (limits_validate l) (\<lambda>_.
    and_then (ensure (has_limits l) No_limit) (\<lambda>_.
    let usage = (case initial of None \<Rightarrow> default_snapshot | Some s \<Rightarrow> s) in
    and_then (snapshot_validate usage) (\<lambda>_.
    Inr \<lparr>ev_limits = l, ev_has_meter = meter, started_ns = now, cycles = sn_cycles usage,
         total_tokens = sn_total_tokens usage, uncached_tokens = sn_uncached_input_tokens usage,
         tool_calls = sn_tool_calls usage, tool_calls_by_name = sn_tool_calls_by_name usage,
         base_elapsed_ms = sn_elapsed_ms usage, elapsed_ms = sn_elapsed_ms usage,
         host_cost_seen = sn_host_cost usage,
         unavailable = btree_collect (map (\<lambda>u. (ud_dimension u, u)) (unavailable_dimensions usage))\<rparr>)))"

definition DIMENSION_PRECEDENCE :: "dimension list" where
  "DIMENSION_PRECEDENCE = [WallTime, TotalTokens, UncachedInputTokens, HostCost, ToolCalls, ToolCallsByName]"

definition dimension_precedence :: "dimension \<Rightarrow> nat" where
  "dimension_precedence d = (case position (\<lambda>c. c = d) DIMENSION_PRECEDENCE of Some i \<Rightarrow> i | None \<Rightarrow> 0)"

definition snapshot :: "evaluator \<Rightarrow> usage_snapshot" where
  "snapshot ev = \<lparr>sn_cycles = cycles ev, sn_total_tokens = total_tokens ev,
     sn_uncached_input_tokens = uncached_tokens ev, sn_tool_calls = tool_calls ev,
     sn_tool_calls_by_name = tool_calls_by_name ev, sn_elapsed_ms = elapsed_ms ev,
     sn_host_cost = host_cost_seen ev,
     unavailable_dimensions = sort_key (\<lambda>u. dimension_precedence (ud_dimension u)) (map snd (unavailable ev))\<rparr>"

definition latch_unavailable ::
  "dimension \<Rightarrow> unavailable_reason \<Rightarrow> string option \<Rightarrow> string option \<Rightarrow> string option \<Rightarrow> string option \<Rightarrow>
   evaluator \<Rightarrow> evaluator" where
  "latch_unavailable d reason eu ou ec oc ev =
    ev\<lparr>unavailable := btree_or_insert d \<lparr>ud_dimension = d, ud_reason = reason, expected_unit = eu,
      observed_unit = ou, expected_currency = ec, observed_currency = oc\<rparr> (unavailable ev)\<rparr>"

definition latch_host_unavailable ::
  "host_cost \<Rightarrow> unavailable_reason \<Rightarrow> host_cost option \<Rightarrow> evaluator \<Rightarrow> evaluator" where
  "latch_host_unavailable l reason reading ev =
    latch_unavailable HostCost reason (Some (hc_unit l)) (map_option hc_unit reading)
      (hc_currency l) (Option.bind reading hc_currency) ev"

definition safe_add_or_latch :: "dimension \<Rightarrow> u64 \<Rightarrow> u64 \<Rightarrow> string \<Rightarrow> evaluator \<Rightarrow> evaluator \<times> u64 option" where
  "safe_add_or_latch d current increment unit ev =
    (case checked_add current increment of
       Some t \<Rightarrow>
         if t \<le> MAX_WIRE_INTEGER then (ev, Some t)
         else (latch_unavailable d IntegerOverflow (Some unit) None None None ev, None)
     | None \<Rightarrow> (latch_unavailable d IntegerOverflow (Some unit) None None None ev, None))"

definition observe_elapsed :: "readings \<Rightarrow> evaluator \<Rightarrow> evaluator" where
  "observe_elapsed rd ev =
    (if btree_contains WallTime (unavailable ev) then ev
     else let delta_ns = saturating_sub (rd_now_ns rd) (started_ns ev);
              elapsed = saturating_add128 (base_elapsed_ms ev) (delta_ns div 1000000)
          in if elapsed > MAX_WIRE_INTEGER
             then latch_unavailable WallTime IntegerOverflow (Some ''milliseconds'') None None None ev
             else ev\<lparr>elapsed_ms := max (elapsed_ms ev) elapsed\<rparr>)"

definition observe_host_cost :: "readings \<Rightarrow> evaluator \<Rightarrow> evaluator" where
  "observe_host_cost rd ev =
    (case max_host_cost (ev_limits ev) of
       None \<Rightarrow> ev
     | Some l \<Rightarrow>
         if btree_contains HostCost (unavailable ev) then ev
         else if \<not> ev_has_meter ev then latch_host_unavailable l MeterMissing None ev
         else case rd_cost rd of
           Inl _ \<Rightarrow> latch_host_unavailable l MeterError None ev
         | Inr None \<Rightarrow> latch_host_unavailable l MeterUnavailable None ev
         | Inr (Some reading) \<Rightarrow>
             if \<not> is_ok (host_cost_validate reading) then latch_host_unavailable l MeterError None ev
             else if hc_unit reading \<noteq> hc_unit l then latch_host_unavailable l UnitMismatch (Some reading) ev
             else if hc_currency reading \<noteq> hc_currency l
             then latch_host_unavailable l CurrencyMismatch (Some reading) ev
             else if (case host_cost_seen ev of None \<Rightarrow> False
                      | Some p \<Rightarrow> amount_microunits reading < amount_microunits p)
             then latch_host_unavailable l NonMonotonic (Some reading) (ev\<lparr>host_cost_seen := None\<rparr>)
             else ev\<lparr>host_cost_seen := Some reading\<rparr>)"

definition observe_boundary :: "readings \<Rightarrow> evaluator \<Rightarrow> evaluator" where
  "observe_boundary rd ev = observe_host_cost rd (observe_elapsed rd ev)"

definition observe_total :: "token_usage \<Rightarrow> evaluator \<Rightarrow> evaluator" where
  "observe_total usage ev =
    (if \<not> (tu_usage_source usage = UsProviderReported \<or> tu_usage_source usage = UsEstimated) \<or>
        tu_total_tokens usage = None
     then latch_unavailable TotalTokens UsageMissing (Some ''tokens'') None None None (ev\<lparr>total_tokens := None\<rparr>)
     else case (total_tokens ev, tu_total_tokens usage) of
       (Some current, Some increment) \<Rightarrow>
         (case safe_add_or_latch TotalTokens current increment ''tokens'' ev of
            (ev', r) \<Rightarrow> ev'\<lparr>total_tokens := r\<rparr>)
     | _ \<Rightarrow> ev)"

definition observe_uncached :: "token_usage \<Rightarrow> evaluator \<Rightarrow> evaluator" where
  "observe_uncached usage ev =
    (let uncached = (if cu_status (tu_cache_usage usage) = CsProviderReported
                     then uncached_input_tokens (tu_cache_usage usage) else None)
     in case uncached of
          Some increment \<Rightarrow>
            (case uncached_tokens ev of
               Some current \<Rightarrow>
                 (case safe_add_or_latch UncachedInputTokens current increment ''tokens'' ev of
                    (ev', r) \<Rightarrow> ev'\<lparr>uncached_tokens := r\<rparr>)
             | None \<Rightarrow> ev)
        | None \<Rightarrow> latch_unavailable UncachedInputTokens UsageMissing (Some ''tokens'') None None None
                   (ev\<lparr>uncached_tokens := None\<rparr>))"

definition observe_token_usage :: "token_usage \<Rightarrow> evaluator \<Rightarrow> evaluator" where
  "observe_token_usage usage ev = observe_uncached usage (observe_total usage ev)"

fun limit_descriptor :: "limits \<Rightarrow> dimension \<Rightarrow> (u64 \<times> string \<times> string option) option" where
  "limit_descriptor l TotalTokens = map_option (\<lambda>n. (n, ''tokens'', None)) (max_total_tokens l)"
| "limit_descriptor l UncachedInputTokens = map_option (\<lambda>n. (n, ''tokens'', None)) (max_uncached_input_tokens l)"
| "limit_descriptor l ToolCalls = map_option (\<lambda>n. (n, ''calls'', None)) (max_tool_calls l)"
| "limit_descriptor l WallTime = map_option (\<lambda>n. (n, ''milliseconds'', None)) (max_wall_time_ms l)"
| "limit_descriptor l HostCost =
     map_option (\<lambda>c. (amount_microunits c, hc_unit c, hc_currency c)) (max_host_cost l)"
| "limit_descriptor l ToolCallsByName = None"

fun observed_value :: "evaluator \<Rightarrow> dimension \<Rightarrow> u64 option" where
  "observed_value ev TotalTokens = total_tokens ev"
| "observed_value ev UncachedInputTokens = uncached_tokens ev"
| "observed_value ev ToolCalls = Some (tool_calls ev)"
| "observed_value ev WallTime = Some (elapsed_ms ev)"
| "observed_value ev HostCost = map_option amount_microunits (host_cost_seen ev)"
| "observed_value ev ToolCallsByName = None"

text \<open>The exhaustion of a configured dimension that is recorded as unavailable.\<close>

definition strict_dimension :: "evaluator \<Rightarrow> boundary \<Rightarrow> dimension \<Rightarrow> exhaustion option" where
  "strict_dimension ev b d =
    (case btree_get d (unavailable ev) of
       None \<Rightarrow> None
     | Some u \<Rightarrow>
         (case limit_descriptor (ev_limits ev) d of
            None \<Rightarrow> None
          | Some (l, unit, currency) \<Rightarrow>
              Some \<lparr>ex_dimension = d, ex_tool_name = None, ex_reason = MetricUnavailable, ex_limit = l,
               ex_observed = None, attempted_increment = None, overshoot = None, ex_unit = unit,
               ex_currency = currency, enforcement_boundary = b,
               ex_unavailable_reason = Some (ud_reason u)\<rparr>))"

definition strict_unavailable :: "evaluator \<Rightarrow> boundary \<Rightarrow> exhaustion option" where
  "strict_unavailable ev b =
    (if unavailable_metric_policy (ev_limits ev) \<noteq> Stop then None
     else find_map (strict_dimension ev b) DIMENSION_PRECEDENCE)"

text \<open>
  The two limit checks differ in the comparison and the reason: \<open>check_admission_limits\<close> stops when a
  limit is reached, \<open>check_exceeded_limits\<close> when it is exceeded.
\<close>

definition check_dimension ::
  "(u64 \<Rightarrow> u64 \<Rightarrow> bool) \<Rightarrow> exhaustion_reason \<Rightarrow> evaluator \<Rightarrow> boundary \<Rightarrow> dimension list \<Rightarrow> dimension \<Rightarrow>
   exhaustion option" where
  "check_dimension hit reason ev b ds d =
    (if d \<notin> set ds \<or> btree_contains d (unavailable ev) then None
     else case (limit_descriptor (ev_limits ev) d, observed_value ev d) of
       (Some (l, unit, currency), Some obs) \<Rightarrow>
         if hit obs l
         then Some \<lparr>ex_dimension = d, ex_tool_name = None, ex_reason = reason, ex_limit = l,
           ex_observed = Some obs, attempted_increment = None, overshoot = Some (saturating_sub obs l),
           ex_unit = unit, ex_currency = currency, enforcement_boundary = b,
           ex_unavailable_reason = None\<rparr>
         else None
     | _ \<Rightarrow> None)"

definition check_limits ::
  "(u64 \<Rightarrow> u64 \<Rightarrow> bool) \<Rightarrow> exhaustion_reason \<Rightarrow> evaluator \<Rightarrow> boundary \<Rightarrow> dimension list \<Rightarrow> exhaustion option" where
  "check_limits hit reason ev b ds = find_map (check_dimension hit reason ev b ds) DIMENSION_PRECEDENCE"

definition check_admission_limits :: "evaluator \<Rightarrow> boundary \<Rightarrow> dimension list \<Rightarrow> exhaustion option" where
  "check_admission_limits = check_limits (\<lambda>obs l. obs \<ge> l) LimitReached"

definition check_exceeded_limits :: "evaluator \<Rightarrow> boundary \<Rightarrow> dimension list \<Rightarrow> exhaustion option" where
  "check_exceeded_limits = check_limits (\<lambda>obs l. obs > l) LimitExceeded"

definition count_preflight_exhaustion ::
  "dimension \<Rightarrow> string option \<Rightarrow> u64 \<Rightarrow> u64 \<Rightarrow> u64 \<Rightarrow> boundary \<Rightarrow> exhaustion" where
  "count_preflight_exhaustion d name l obs inc b =
    \<lparr>ex_dimension = d, ex_tool_name = name, ex_reason = LimitReached, ex_limit = l,
     ex_observed = Some obs, attempted_increment = Some inc,
     overshoot = Some (saturating_sub (saturating_add obs inc) l), ex_unit = ''calls'',
     ex_currency = None, enforcement_boundary = b, ex_unavailable_reason = None\<rparr>"

definition token_dimensions :: "dimension list" where
  "token_dimensions = [WallTime, TotalTokens, UncachedInputTokens, HostCost]"

definition run_start :: "readings \<Rightarrow> evaluator \<Rightarrow> evaluator \<times> exhaustion option" where
  "run_start rd ev =
    (let ev = observe_boundary rd ev
     in (ev, opt_or (strict_unavailable ev RunStart) (check_admission_limits ev RunStart [WallTime, HostCost])))"

definition model_call_start :: "readings \<Rightarrow> evaluator \<Rightarrow> evaluator \<times> exhaustion option" where
  "model_call_start rd ev =
    (let ev = observe_boundary rd ev
     in (ev, opt_or (strict_unavailable ev CycleStart) (check_admission_limits ev CycleStart token_dimensions)))"

definition cycle_start :: "readings \<Rightarrow> evaluator \<Rightarrow> evaluator \<times> exhaustion option" where
  "cycle_start rd ev =
    (case model_call_start rd ev of
       (ev', None) \<Rightarrow> (ev'\<lparr>cycles := saturating_add (cycles ev') 1\<rparr>, None)
     | (ev', Some x) \<Rightarrow> (ev', Some x))"

definition model_call_complete :: "token_usage \<Rightarrow> readings \<Rightarrow> evaluator \<Rightarrow> evaluator \<times> exhaustion option" where
  "model_call_complete usage rd ev =
    (let ev = observe_boundary rd (observe_token_usage usage ev)
     in (ev, opt_or (strict_unavailable ev ModelCallComplete)
              (check_exceeded_limits ev ModelCallComplete token_dimensions)))"

text \<open>\<open>*batch_by_name.entry(name).or_default() += 1\<close>; a slice has fewer than \<open>2 ^ 63\<close> elements.\<close>

definition count_batch :: "string list \<Rightarrow> (string, u64) btree" where
  "count_batch names = fold (\<lambda>name m. btree_insert name (or_zero (btree_get name m) + 1) m) names []"

definition preflight_named :: "evaluator \<Rightarrow> (string, u64) btree \<Rightarrow> exhaustion option" where
  "preflight_named ev batch =
    find_map (\<lambda>(name, l).
      (let inc = or_zero (btree_get name batch);
           obs = or_zero (btree_get name (tool_calls_by_name ev))
       in if inc = 0 then None
          else if saturating_add obs inc > l
          then Some (count_preflight_exhaustion ToolCallsByName (Some name) l obs inc ToolBatchPreflight)
          else None)) (max_tool_calls_by_name (ev_limits ev))"

definition add_batch :: "(string, u64) btree \<Rightarrow> (string, u64) btree \<Rightarrow> (string, u64) btree" where
  "add_batch batch m =
    fold (\<lambda>(name, inc) m. btree_insert name (saturating_add (or_zero (btree_get name m)) inc) m) batch m"

definition preflight_tools :: "string list \<Rightarrow> readings \<Rightarrow> evaluator \<Rightarrow> evaluator \<times> exhaustion option" where
  "preflight_tools names rd ev =
    (let ev = observe_boundary rd ev;
         increment = min (length names) u64_max;
         batch = count_batch names
     in case opt_or (strict_unavailable ev ToolBatchPreflight)
               (check_admission_limits ev ToolBatchPreflight [WallTime, HostCost]) of
          Some x \<Rightarrow> (ev, Some x)
        | None \<Rightarrow>
            (case opt_or (Option.bind (max_tool_calls (ev_limits ev)) (\<lambda>l.
                     if saturating_add (tool_calls ev) increment > l
                     then Some (count_preflight_exhaustion ToolCalls None l (tool_calls ev) increment ToolBatchPreflight)
                     else None))
                   (preflight_named ev batch) of
               Some x \<Rightarrow> (ev, Some x)
             | None \<Rightarrow>
                 (ev\<lparr>tool_calls := saturating_add (tool_calls ev) increment,
                     tool_calls_by_name := add_batch batch (tool_calls_by_name ev)\<rparr>, None)))"

definition tool_batch_complete :: "bool \<Rightarrow> readings \<Rightarrow> evaluator \<Rightarrow> evaluator \<times> exhaustion option" where
  "tool_batch_complete operation_failed rd ev =
    (let ev = observe_boundary rd ev
     in (ev, if operation_failed then None
             else opt_or (strict_unavailable ev ToolBatchComplete)
                    (check_exceeded_limits ev ToolBatchComplete [WallTime, HostCost])))"

definition terminal :: "readings \<Rightarrow> evaluator \<Rightarrow> evaluator \<times> exhaustion option" where
  "terminal rd ev =
    (let ev = observe_boundary rd ev
     in (ev, opt_or (strict_unavailable ev Terminal) (check_exceeded_limits ev Terminal DIMENSION_PRECEDENCE)))"

definition limits_build :: "limits \<Rightarrow> budget_error + limits" where
  "limits_build l = and_then (limits_validate l) (\<lambda>_. Inr l)"

section \<open>The controller\<close>

text \<open>
  The engine's controller keeps the first exhaustion of a run and the last snapshot that was emitted.
  An emitted event is modelled by the arguments of \<open>emit_budget_log\<close>.
\<close>

record budget_log =
  bl_event :: string
  bl_boundary :: boundary
  bl_cycle :: "u32 option"
  bl_snapshot :: usage_snapshot
  bl_exhaustion :: "exhaustion option"

record controller =
  ct_evaluator :: evaluator
  ct_exhaustion :: "exhaustion option"
  last_emitted_snapshot :: "usage_snapshot option"

definition controller_new :: "evaluator \<Rightarrow> controller" where
  "controller_new ev = \<lparr>ct_evaluator = ev, ct_exhaustion = None, last_emitted_snapshot = None\<rparr>"

definition observe_update ::
  "bool \<Rightarrow> bool \<Rightarrow> (evaluator \<Rightarrow> evaluator \<times> exhaustion option) \<Rightarrow> controller \<Rightarrow>
   controller \<times> exhaustion option \<times> usage_snapshot option" where
  "observe_update force_snapshot suppress operation c =
    (case ct_exhaustion c of
       Some x \<Rightarrow> (c, Some x, None)
     | None \<Rightarrow>
         (case operation (ct_evaluator c) of
            (ev, x) \<Rightarrow>
              (let sn = snapshot ev
               in case (if suppress then None else x) of
                    Some x \<Rightarrow>
                      (c\<lparr>ct_evaluator := ev, ct_exhaustion := Some x, last_emitted_snapshot := Some sn\<rparr>,
                       Some x, Some sn)
                  | None \<Rightarrow>
                      if force_snapshot \<or> last_emitted_snapshot c \<noteq> Some sn
                      then (c\<lparr>ct_evaluator := ev, last_emitted_snapshot := Some sn\<rparr>, None, Some sn)
                      else (c\<lparr>ct_evaluator := ev\<rparr>, None, None))))"

definition observe ::
  "boundary \<Rightarrow> u32 option \<Rightarrow> bool \<Rightarrow> bool \<Rightarrow> (evaluator \<Rightarrow> evaluator \<times> exhaustion option) \<Rightarrow> controller \<Rightarrow>
   controller \<times> exhaustion option \<times> budget_log list" where
  "observe b cycle force_snapshot suppress operation c =
    (case observe_update force_snapshot suppress operation c of
       (c', x, None) \<Rightarrow> (c', x, [])
     | (c', x, Some sn) \<Rightarrow>
         (c', x, [\<lparr>bl_event = (if x \<noteq> None then ''budget_exhausted'' else ''budget_snapshot''),
                   bl_boundary = b, bl_cycle = cycle, bl_snapshot = sn, bl_exhaustion = x\<rparr>]))"

type_synonym observation = "controller \<times> exhaustion option \<times> budget_log list"

definition ct_run_start :: "readings \<Rightarrow> controller \<Rightarrow> observation" where
  "ct_run_start rd = observe RunStart None True False (run_start rd)"

definition ct_cycle_start :: "u32 \<Rightarrow> readings \<Rightarrow> controller \<Rightarrow> observation" where
  "ct_cycle_start i rd = observe CycleStart (Some i) False False (cycle_start rd)"

definition ct_model_call_start :: "u32 \<Rightarrow> readings \<Rightarrow> controller \<Rightarrow> observation" where
  "ct_model_call_start i rd = observe CycleStart (Some i) False False (model_call_start rd)"

definition ct_model_call_complete ::
  "token_usage \<Rightarrow> bool \<Rightarrow> readings \<Rightarrow> controller \<Rightarrow> controller \<times> exhaustion option \<times> usage_snapshot option" where
  "ct_model_call_complete usage suppress rd = observe_update False suppress (model_call_complete usage rd)"

definition ct_preflight_tools :: "u32 \<Rightarrow> string list \<Rightarrow> readings \<Rightarrow> controller \<Rightarrow> observation" where
  "ct_preflight_tools i names rd = observe ToolBatchPreflight (Some i) False False (preflight_tools names rd)"

definition ct_tool_batch_complete :: "u32 \<Rightarrow> bool \<Rightarrow> bool \<Rightarrow> readings \<Rightarrow> controller \<Rightarrow> observation" where
  "ct_tool_batch_complete i failed suppress rd =
     observe ToolBatchComplete (Some i) False (failed \<or> suppress) (tool_batch_complete failed rd)"

definition ct_terminal :: "bool \<Rightarrow> readings \<Rightarrow> controller \<Rightarrow> observation" where
  "ct_terminal suppress rd = observe Terminal None False suppress (terminal rd)"

section \<open>Operations as a state machine\<close>

datatype budget_op = Op_run_start | Op_cycle_start | Op_model_call_start
  | Op_model_call_complete token_usage | Op_preflight "string list"
  | Op_tool_batch_complete bool | Op_terminal

fun apply_op :: "budget_op \<Rightarrow> readings \<Rightarrow> evaluator \<Rightarrow> evaluator \<times> exhaustion option" where
  "apply_op Op_run_start = run_start"
| "apply_op Op_cycle_start = cycle_start"
| "apply_op Op_model_call_start = model_call_start"
| "apply_op (Op_model_call_complete usage) = model_call_complete usage"
| "apply_op (Op_preflight names) = preflight_tools names"
| "apply_op (Op_tool_batch_complete failed) = tool_batch_complete failed"
| "apply_op Op_terminal = terminal"

inductive budget_step :: "evaluator \<Rightarrow> evaluator \<Rightarrow> bool" where
  "apply_op op rd ev = (ev', r) \<Longrightarrow> budget_step ev ev'"

inductive_cases budget_stepE: "budget_step ev ev'"

text \<open>Well-formedness: what \<open>with_clock\<close> establishes and every operation keeps.\<close>

definition opt_all :: "('a \<Rightarrow> bool) \<Rightarrow> 'a option \<Rightarrow> bool" where
  "opt_all P x = (case x of None \<Rightarrow> True | Some a \<Rightarrow> P a)"

lemma opt_all_simps [simp]: "opt_all P None" "opt_all P (Some a) = P a"
  by (simp_all add: opt_all_def)

lemma opt_allI: "(\<And>a. x = Some a \<Longrightarrow> P a) \<Longrightarrow> opt_all P x"
  by (cases x) simp_all

definition latch_ok :: "(dimension, unavailable_dimension) btree \<Rightarrow> bool" where
  "latch_ok m \<longleftrightarrow> btree_ok m \<and> list_all (\<lambda>(d, u). ud_dimension u = d \<and> unavailable_validate u = Inr ()) m"

definition limits_ok :: "limits \<Rightarrow> bool" where
  "limits_ok l \<longleftrightarrow> limits_validate l = Inr () \<and> btree_ok (max_tool_calls_by_name l)"

definition ev_ok :: "evaluator \<Rightarrow> bool" where
  "ev_ok ev \<longleftrightarrow> limits_ok (ev_limits ev) \<and> has_limits (ev_limits ev) \<and> latch_ok (unavailable ev) \<and>
     cycles ev \<le> u64_max \<and> tool_calls ev \<le> u64_max \<and>
     btree_ok (tool_calls_by_name ev) \<and> list_all (\<lambda>(_, n). n \<le> u64_max) (tool_calls_by_name ev) \<and>
     opt_all (\<lambda>n. n \<le> MAX_WIRE_INTEGER) (total_tokens ev) \<and>
     opt_all (\<lambda>n. n \<le> MAX_WIRE_INTEGER) (uncached_tokens ev) \<and>
     base_elapsed_ms ev \<le> elapsed_ms ev \<and> elapsed_ms ev \<le> MAX_WIRE_INTEGER \<and>
     opt_all (\<lambda>c. host_cost_validate c = Inr ()) (host_cost_seen ev)"

text \<open>
  The order in which an evaluator only moves forward: counters grow, a lost measurement is not
  regained, and what is recorded as unavailable stays as it was first recorded.
\<close>

definition count_le :: "u64 option \<Rightarrow> u64 option \<Rightarrow> bool" where
  "count_le a b = opt_all (\<lambda>n. case a of None \<Rightarrow> False | Some m \<Rightarrow> m \<le> n) b"

definition cost_le :: "evaluator \<Rightarrow> evaluator \<Rightarrow> bool" where
  "cost_le a b \<longleftrightarrow> (btree_contains HostCost (unavailable a) \<longrightarrow> host_cost_seen b = host_cost_seen a) \<and>
     opt_all (\<lambda>c. case host_cost_seen b of
         None \<Rightarrow> btree_contains HostCost (unavailable b)
       | Some d \<Rightarrow> amount_microunits c \<le> amount_microunits d) (host_cost_seen a)"

definition latch_le :: "evaluator \<Rightarrow> evaluator \<Rightarrow> bool" where
  "latch_le a b \<longleftrightarrow> (\<forall>d u. btree_get d (unavailable a) = Some u \<longrightarrow> btree_get d (unavailable b) = Some u)"

definition usage_le :: "evaluator \<Rightarrow> evaluator \<Rightarrow> bool" where
  "usage_le a b \<longleftrightarrow> ev_limits b = ev_limits a \<and> started_ns b = started_ns a \<and>
     base_elapsed_ms b = base_elapsed_ms a \<and> ev_has_meter b = ev_has_meter a \<and>
     cycles a \<le> cycles b \<and> tool_calls a \<le> tool_calls b \<and> elapsed_ms a \<le> elapsed_ms b \<and>
     (\<forall>name. or_zero (btree_get name (tool_calls_by_name a)) \<le> or_zero (btree_get name (tool_calls_by_name b))) \<and>
     count_le (total_tokens a) (total_tokens b) \<and> count_le (uncached_tokens a) (uncached_tokens b) \<and>
     cost_le a b \<and> latch_le a b"

section \<open>Every operation moves forward\<close>

lemma count_le_refl [simp]: "count_le a a"
  by (simp add: count_le_def opt_all_def split: option.splits)

lemma count_le_None [simp]: "count_le a None"
  by (simp add: count_le_def)

lemma count_le_trans: "count_le a b \<Longrightarrow> count_le b c \<Longrightarrow> count_le a c"
  by (auto simp: count_le_def opt_all_def split: option.splits)

lemma latch_le_refl [simp]: "latch_le a a"
  by (simp add: latch_le_def)

lemma latch_le_contains: "latch_le a b \<Longrightarrow> btree_contains d (unavailable a) \<Longrightarrow> btree_contains d (unavailable b)"
  by (auto simp: latch_le_def btree_contains_def)

lemma cost_le_refl [simp]: "cost_le a a"
  by (simp add: cost_le_def opt_all_def split: option.splits)

lemma cost_le_trans:
  "cost_le a b \<Longrightarrow> cost_le b c \<Longrightarrow> latch_le a b \<Longrightarrow> latch_le b c \<Longrightarrow> cost_le a c"
  using latch_le_contains [of a b HostCost] latch_le_contains [of b c HostCost]
  by (auto simp: cost_le_def opt_all_def split: option.splits)

lemma usage_le_refl [simp]: "usage_le a a"
  by (simp add: usage_le_def)

lemma usage_le_trans: "usage_le a b \<Longrightarrow> usage_le b c \<Longrightarrow> usage_le a c"
  unfolding usage_le_def
  by (auto intro: count_le_trans cost_le_trans order_trans simp: latch_le_def)

text \<open>A step of an operation: well-formedness is kept and usage moves forward.\<close>

definition forward :: "evaluator \<Rightarrow> evaluator \<Rightarrow> bool" where
  "forward a b \<longleftrightarrow> ev_ok b \<and> usage_le a b"

lemma forward_trans: "forward a b \<Longrightarrow> forward b c \<Longrightarrow> forward a c"
  using usage_le_trans by (auto simp: forward_def)

lemma forward_contains:
  "forward a b \<Longrightarrow> btree_contains d (unavailable a) \<Longrightarrow> btree_contains d (unavailable b)"
  using latch_le_contains [of a b d] by (simp add: forward_def usage_le_def)

lemma forward_refl: "ev_ok a \<Longrightarrow> forward a a"
  by (simp add: forward_def)

lemma set_btree_insert_sub: "set (btree_insert k v m) \<subseteq> insert (k, v) (set m)"
  by (induction k v m rule: btree_insert.induct) auto

lemma latch_ok_or_insert:
  "latch_ok m \<Longrightarrow> ud_dimension u = d \<Longrightarrow> unavailable_validate u = Inr () \<Longrightarrow> latch_ok (btree_or_insert d u m)"
  using set_btree_insert_sub [of d u m]
  by (auto simp: latch_ok_def btree_or_insert_def list_all_iff)

lemma latch_forward:
  assumes "ev_ok ev"
    and "unavailable_validate \<lparr>ud_dimension = d, ud_reason = r, expected_unit = eu, observed_unit = ou,
      expected_currency = ec, observed_currency = oc\<rparr> = Inr ()"
  shows "forward ev (latch_unavailable d r eu ou ec oc ev)"
proof -
  have "latch_ok (btree_or_insert d \<lparr>ud_dimension = d, ud_reason = r, expected_unit = eu,
      observed_unit = ou, expected_currency = ec, observed_currency = oc\<rparr> (unavailable ev))"
    using assms by (intro latch_ok_or_insert) (simp_all add: ev_ok_def)
  with assms(1) show ?thesis
    by (auto simp: forward_def ev_ok_def usage_le_def latch_unavailable_def cost_le_def latch_le_def
        btree_get_or_insert btree_contains_def opt_all_def split: option.splits)
qed

text \<open>Changes of a single field.\<close>

lemma total_forward:
  "ev_ok ev \<Longrightarrow> count_le (total_tokens ev) r \<Longrightarrow> opt_all (\<lambda>n. n \<le> MAX_WIRE_INTEGER) r \<Longrightarrow>
   forward ev (ev\<lparr>total_tokens := r\<rparr>)"
  by (auto simp: forward_def ev_ok_def usage_le_def cost_le_def latch_le_def opt_all_def split: option.splits)

lemma uncached_forward:
  "ev_ok ev \<Longrightarrow> count_le (uncached_tokens ev) r \<Longrightarrow> opt_all (\<lambda>n. n \<le> MAX_WIRE_INTEGER) r \<Longrightarrow>
   forward ev (ev\<lparr>uncached_tokens := r\<rparr>)"
  by (auto simp: forward_def ev_ok_def usage_le_def cost_le_def latch_le_def opt_all_def split: option.splits)

lemma elapsed_forward:
  "ev_ok ev \<Longrightarrow> elapsed_ms ev \<le> n \<Longrightarrow> n \<le> MAX_WIRE_INTEGER \<Longrightarrow> forward ev (ev\<lparr>elapsed_ms := n\<rparr>)"
  by (auto simp: forward_def ev_ok_def usage_le_def cost_le_def latch_le_def opt_all_def split: option.splits)

lemma cycles_forward:
  "ev_ok ev \<Longrightarrow> forward ev (ev\<lparr>cycles := saturating_add (cycles ev) 1\<rparr>)"
  by (auto simp: forward_def ev_ok_def usage_le_def cost_le_def latch_le_def opt_all_def saturating_add_ge
      split: option.splits)

lemma cost_forward:
  "ev_ok ev \<Longrightarrow> \<not> btree_contains HostCost (unavailable ev) \<Longrightarrow> host_cost_validate c = Inr () \<Longrightarrow>
   opt_all (\<lambda>p. amount_microunits p \<le> amount_microunits c) (host_cost_seen ev) \<Longrightarrow>
   forward ev (ev\<lparr>host_cost_seen := Some c\<rparr>)"
  by (auto simp: forward_def ev_ok_def usage_le_def cost_le_def latch_le_def opt_all_def split: option.splits)

section \<open>Observations\<close>

lemma validate_some_Inr [simp]: "validate_some f x = Inr u \<longleftrightarrow> opt_all (\<lambda>a. f a = Inr ()) x"
  by (cases x) (simp_all add: validate_some_def)

lemma validate_non_empty_Inr [simp]: "validate_non_empty s f = Inr u \<longleftrightarrow> \<not> is_blank s"
  by (simp add: validate_non_empty_def)

lemma validate_wire_integer_Inr [simp]: "validate_wire_integer n e = Inr u \<longleftrightarrow> n \<le> MAX_WIRE_INTEGER"
  by (simp add: validate_wire_integer_def)

lemma host_cost_validate_Inr [simp]:
  "host_cost_validate c = Inr u \<longleftrightarrow> \<not> is_blank (hc_unit c) \<and> opt_all (\<lambda>s. \<not> is_blank s) (hc_currency c) \<and>
     amount_microunits c \<le> MAX_WIRE_INTEGER"
  by (simp add: host_cost_validate_def and_then_Inr_iff)

lemma unavailable_validate_Inr [simp]:
  "unavailable_validate u = Inr v \<longleftrightarrow> opt_all (\<lambda>s. \<not> is_blank s) (expected_unit u) \<and>
     opt_all (\<lambda>s. \<not> is_blank s) (observed_unit u) \<and> opt_all (\<lambda>s. \<not> is_blank s) (expected_currency u) \<and>
     opt_all (\<lambda>s. \<not> is_blank s) (observed_currency u)"
  by (auto simp: unavailable_validate_def and_then_Inr_iff)

lemma blank_words [simp]: "\<not> is_blank ''tokens''" "\<not> is_blank ''milliseconds''" "\<not> is_blank ''calls''"
  by (simp_all add: is_blank_def trim_def ws1_def ws2_def ws3_def)

lemma is_ok_Inr: "is_ok r \<longleftrightarrow> (\<exists>a. r = Inr a)"
  by (cases r) (simp_all add: is_ok_def)

lemma limits_cost_ok:
  "ev_ok ev \<Longrightarrow> max_host_cost (ev_limits ev) = Some l \<Longrightarrow> host_cost_validate l = Inr ()"
  by (simp add: ev_ok_def limits_ok_def limits_validate_def and_then_Inr_iff)

lemma observe_elapsed_forward:
  assumes "ev_ok ev"
  shows "forward ev (observe_elapsed rd ev)"
  using assms forward_refl [OF assms] latch_forward [OF assms] elapsed_forward [OF assms]
  by (auto simp: observe_elapsed_def Let_def ev_ok_def)

lemma host_latch_forward:
  assumes "ev_ok ev" "max_host_cost (ev_limits ev) = Some l"
    and "opt_all (\<lambda>c. host_cost_validate c = Inr ()) reading"
  shows "forward ev (latch_host_unavailable l r reading ev)"
  using limits_cost_ok [OF assms(1,2)] assms(3) unfolding latch_host_unavailable_def
  by (intro latch_forward [OF assms(1)]) (auto simp: opt_all_def split: option.splits)

lemma cost_lost_forward:
  assumes "ev_ok ev" "max_host_cost (ev_limits ev) = Some l" "host_cost_validate c = Inr ()"
    and "\<not> btree_contains HostCost (unavailable ev)"
  shows "forward ev (latch_host_unavailable l r (Some c) (ev\<lparr>host_cost_seen := None\<rparr>))"
proof -
  have "forward ev (latch_host_unavailable l r (Some c) ev)"
    using assms by (intro host_latch_forward) simp_all
  moreover have "btree_contains HostCost (unavailable (latch_host_unavailable l r (Some c) ev))"
    by (simp add: latch_host_unavailable_def latch_unavailable_def btree_contains_def btree_get_or_insert)
  ultimately show ?thesis using assms(1,4)
    by (auto simp: forward_def ev_ok_def usage_le_def cost_le_def latch_host_unavailable_def
        latch_unavailable_def latch_le_def opt_all_def split: option.splits)
qed

lemma observe_host_cost_forward:
  assumes "ev_ok ev"
  shows "forward ev (observe_host_cost rd ev)"
proof (cases "max_host_cost (ev_limits ev)")
  case None
  then show ?thesis using forward_refl [OF assms] by (simp add: observe_host_cost_def)
next
  case (Some l)
  note latch = host_latch_forward [OF assms Some] cost_lost_forward [OF assms Some]
    cost_forward [OF assms] forward_refl [OF assms]
  show ?thesis
    using Some latch
    by (auto simp: observe_host_cost_def is_ok_Inr opt_all_def
        simp del: host_cost_validate_Inr split: option.splits sum.splits)
qed

lemma observe_boundary_forward:
  assumes "ev_ok ev"
  shows "forward ev (observe_boundary rd ev)"
  using observe_elapsed_forward [OF assms, of rd]
    observe_host_cost_forward [of "observe_elapsed rd ev" rd]
  by (auto simp: observe_boundary_def forward_def intro: usage_le_trans)

lemma safe_add_cases:
  obtains (added) "safe_add_or_latch d c i u ev = (ev, Some (c + i))" "c + i \<le> MAX_WIRE_INTEGER"
  | (latched) "safe_add_or_latch d c i u ev =
      (latch_unavailable d IntegerOverflow (Some u) None None None ev, None)" "MAX_WIRE_INTEGER < c + i"
  using MAX_WIRE_INTEGER_lt_u64_max
  by (cases "c + i \<le> MAX_WIRE_INTEGER") (auto simp: safe_add_or_latch_def checked_add_def)

lemma observe_total_forward:
  assumes "ev_ok ev"
  shows "forward ev (observe_total usage ev)"
proof -
  have lost: "forward ev (latch_unavailable TotalTokens r (Some ''tokens'') None None None (ev\<lparr>total_tokens := None\<rparr>))" for r
    using total_forward [OF assms, of None]
      latch_forward [of "ev\<lparr>total_tokens := None\<rparr>" TotalTokens r "Some ''tokens''"]
    by (auto simp: forward_def intro: usage_le_trans)
  have overflow: "(latch_unavailable TotalTokens r u ou ec oc ev)\<lparr>total_tokens := x\<rparr> =
      latch_unavailable TotalTokens r u ou ec oc (ev\<lparr>total_tokens := x\<rparr>)" for r u ou ec oc x
    by (simp add: latch_unavailable_def)
  have add: "forward ev (case safe_add_or_latch TotalTokens c i ''tokens'' ev of (ev', r) \<Rightarrow> ev'\<lparr>total_tokens := r\<rparr>)"
    if "total_tokens ev = Some c" for c i
    by (cases rule: safe_add_cases [of TotalTokens c i "''tokens''" ev])
      (use that lost total_forward [OF assms, of "Some (c + i)"] overflow in \<open>simp_all add: count_le_def\<close>)
  show ?thesis
    using lost add forward_refl [OF assms] by (auto simp: observe_total_def split: option.splits)
qed

lemma observe_uncached_forward:
  assumes "ev_ok ev"
  shows "forward ev (observe_uncached usage ev)"
proof -
  have lost: "forward ev (latch_unavailable UncachedInputTokens r (Some ''tokens'') None None None
      (ev\<lparr>uncached_tokens := None\<rparr>))" for r
    using uncached_forward [OF assms, of None]
      latch_forward [of "ev\<lparr>uncached_tokens := None\<rparr>" UncachedInputTokens r "Some ''tokens''"]
    by (auto simp: forward_def intro: usage_le_trans)
  have overflow: "(latch_unavailable UncachedInputTokens r u ou ec oc ev)\<lparr>uncached_tokens := x\<rparr> =
      latch_unavailable UncachedInputTokens r u ou ec oc (ev\<lparr>uncached_tokens := x\<rparr>)" for r u ou ec oc x
    by (simp add: latch_unavailable_def)
  have add: "forward ev (case safe_add_or_latch UncachedInputTokens c i ''tokens'' ev of
      (ev', r) \<Rightarrow> ev'\<lparr>uncached_tokens := r\<rparr>)"
    if "uncached_tokens ev = Some c" for c i
    by (cases rule: safe_add_cases [of UncachedInputTokens c i "''tokens''" ev])
      (use that lost uncached_forward [OF assms, of "Some (c + i)"] overflow in \<open>simp_all add: count_le_def\<close>)
  show ?thesis
    using lost add forward_refl [OF assms]
    by (auto simp: observe_uncached_def Let_def split: option.splits)
qed

lemma observe_token_usage_forward:
  assumes "ev_ok ev"
  shows "forward ev (observe_token_usage usage ev)"
  using observe_total_forward [OF assms, of usage]
    observe_uncached_forward [of "observe_total usage ev" usage]
  by (auto simp: observe_token_usage_def forward_def intro: usage_le_trans)

section \<open>Tool batches\<close>

lemma or_zero_simps [simp]: "or_zero None = 0" "or_zero (Some n) = n"
  by (simp_all add: or_zero_def)

lemma count_batch_fold:
  "btree_ok m \<Longrightarrow>
   btree_ok (fold (\<lambda>name m. btree_insert name (or_zero (btree_get name m) + 1) m) names m) \<and>
   or_zero (btree_get x (fold (\<lambda>name m. btree_insert name (or_zero (btree_get name m) + 1) m) names m)) =
     or_zero (btree_get x m) + count_list names x"
  by (induction names arbitrary: m) auto

lemma btree_ok_count_batch [simp]: "btree_ok (count_batch names)"
  using count_batch_fold [of "[]" names] by (simp add: count_batch_def)

lemma count_batch_get [simp]: "or_zero (btree_get x (count_batch names)) = count_list names x"
  using count_batch_fold [of "[]" names x] by (simp add: count_batch_def)

lemma add_batch_fold:
  assumes "btree_ok m" "distinct (map fst batch)" "list_all (\<lambda>(_, n). n \<le> u64_max) m"
  shows "btree_ok (add_batch batch m) \<and> list_all (\<lambda>(_, n). n \<le> u64_max) (add_batch batch m) \<and>
    or_zero (btree_get x (add_batch batch m)) =
      (case map_of batch x of None \<Rightarrow> or_zero (btree_get x m)
       | Some i \<Rightarrow> saturating_add (or_zero (btree_get x m)) i)"
  using assms
proof (induction batch arbitrary: m)
  case (Cons b batch)
  obtain k i where b: "b = (k, i)" by force
  let ?m = "btree_insert k (saturating_add (or_zero (btree_get k m)) i) m"
  have "list_all (\<lambda>(_, n). n \<le> u64_max) ?m"
    using Cons.prems set_btree_insert_sub [of k "saturating_add (or_zero (btree_get k m)) i" m]
    by (auto simp: list_all_iff)
  moreover have "map_of batch k = None"
    using Cons.prems b by (simp add: map_of_eq_None_iff)
  ultimately show ?case
    using Cons.IH [of ?m] Cons.prems b
    by (auto simp: add_batch_def split: option.splits)
qed (simp add: add_batch_def)

lemma btree_get_map_of: "btree_get x m = map_of m x"
  by (induction x m rule: btree_get.induct) auto

lemma by_name_bound:
  "ev_ok ev \<Longrightarrow> or_zero (btree_get x (tool_calls_by_name ev)) \<le> u64_max"
  by (cases "btree_get x (tool_calls_by_name ev)")
    (auto simp: ev_ok_def list_all_iff btree_get_set [symmetric])

lemma add_batch_count:
  assumes "ev_ok ev"
  shows "btree_ok (add_batch (count_batch names) (tool_calls_by_name ev))"
    and "list_all (\<lambda>(_, n). n \<le> u64_max) (add_batch (count_batch names) (tool_calls_by_name ev))"
    and "or_zero (btree_get x (add_batch (count_batch names) (tool_calls_by_name ev))) =
      saturating_add (or_zero (btree_get x (tool_calls_by_name ev))) (count_list names x)"
proof -
  have m: "btree_ok (tool_calls_by_name ev)" "list_all (\<lambda>(_, n). n \<le> u64_max) (tool_calls_by_name ev)"
    using assms by (simp_all add: ev_ok_def)
  note fold = add_batch_fold [OF m(1) btree_ok_distinct [OF btree_ok_count_batch] m(2), of names]
  from fold show "btree_ok (add_batch (count_batch names) (tool_calls_by_name ev))"
    and "list_all (\<lambda>(_, n). n \<le> u64_max) (add_batch (count_batch names) (tool_calls_by_name ev))"
    by blast+
  have c: "or_zero (map_of (count_batch names) x) = count_list names x"
    by (simp flip: btree_get_map_of)
  show "or_zero (btree_get x (add_batch (count_batch names) (tool_calls_by_name ev))) =
      saturating_add (or_zero (btree_get x (tool_calls_by_name ev))) (count_list names x)"
    using fold [of x] c by_name_bound [OF assms, of x]
    by (auto simp: saturating_add_def split: option.splits)
qed

lemma tools_forward:
  assumes "ev_ok ev"
  shows "forward ev (ev\<lparr>tool_calls := saturating_add (tool_calls ev) n,
    tool_calls_by_name := add_batch (count_batch names) (tool_calls_by_name ev)\<rparr>)"
  using assms add_batch_count [OF assms] by_name_bound [OF assms]
  by (auto simp: forward_def ev_ok_def usage_le_def cost_le_def latch_le_def saturating_add_ge
      opt_all_def split: option.splits)

text \<open>The result of a preflight, with the exact sums that the saturating additions stand for.\<close>

definition preflight_blocked :: "string list \<Rightarrow> readings \<Rightarrow> evaluator \<Rightarrow> exhaustion option" where
  "preflight_blocked names rd ev =
    (let e = observe_boundary rd ev
     in opt_or (opt_or (strict_unavailable e ToolBatchPreflight)
                  (check_admission_limits e ToolBatchPreflight [WallTime, HostCost]))
          (opt_or (Option.bind (max_tool_calls (ev_limits e)) (\<lambda>l.
              if saturating_add (tool_calls e) (min (length names) u64_max) > l
              then Some (count_preflight_exhaustion ToolCalls None l (tool_calls e)
                (min (length names) u64_max) ToolBatchPreflight)
              else None))
            (preflight_named e (count_batch names))))"

lemma preflight_tools_eq:
  "preflight_tools names rd ev =
    (let e = observe_boundary rd ev
     in (if preflight_blocked names rd ev = None
         then e\<lparr>tool_calls := saturating_add (tool_calls e) (min (length names) u64_max),
                tool_calls_by_name := add_batch (count_batch names) (tool_calls_by_name e)\<rparr>
         else e, preflight_blocked names rd ev))"
  by (auto simp: preflight_tools_def preflight_blocked_def opt_or_def Let_def split: option.splits)

lemma apply_op_forward:
  assumes "ev_ok ev"
  shows "forward ev (fst (apply_op op rd ev))"
proof -
  note obs = observe_boundary_forward [OF assms, of rd]
  have ok: "ev_ok (observe_boundary rd ev)" using obs by (simp add: forward_def)
  have cyc: "forward ev (fst (cycle_start rd ev))"
    using forward_trans [OF obs cycles_forward [OF ok]] obs
    by (auto simp: cycle_start_def model_call_start_def Let_def split: option.splits prod.splits)
  have "ev_ok (observe_token_usage u ev)" for u
    using observe_token_usage_forward [OF assms] by (simp add: forward_def)
  then have mcc: "forward ev (fst (model_call_complete u rd ev))" for u
    using forward_trans [OF observe_token_usage_forward [OF assms] observe_boundary_forward]
    by (simp add: model_call_complete_def Let_def)
  have pre: "forward ev (fst (preflight_tools names rd ev))" for names
    using obs forward_trans [OF obs tools_forward [OF ok]] by (simp add: preflight_tools_eq Let_def)
  show ?thesis
    using obs cyc mcc pre
    by (cases op) (simp_all add: run_start_def model_call_start_def tool_batch_complete_def terminal_def Let_def)
qed

lemma with_clock_ok:
  assumes "with_clock l m initial now = Inr ev" "btree_ok (max_tool_calls_by_name l)"
    and "opt_all (\<lambda>s. btree_ok (sn_tool_calls_by_name s)) initial"
  shows "ev_ok ev"
proof -
  define s where "s = (case initial of None \<Rightarrow> default_snapshot | Some s \<Rightarrow> s)"
  have valid: "limits_validate l = Inr ()" "has_limits l" "snapshot_validate s = Inr ()"
    using assms(1) by (auto simp: with_clock_def and_then_Inr_iff Let_def s_def)
  have by_name: "btree_ok (sn_tool_calls_by_name s)"
    using assms(3) by (auto simp: s_def default_snapshot_def opt_all_def split: option.splits)
  let ?un = "btree_collect (map (\<lambda>u. (ud_dimension u, u)) (unavailable_dimensions s))"
  have un: "latch_ok ?un"
    unfolding latch_ok_def list_all_iff
  proof (intro conjI)
    show "\<forall>x \<in> set ?un. case x of (d, u) \<Rightarrow> ud_dimension u = d \<and> unavailable_validate u = Inr ()"
    proof (clarify)
      fix d u assume "(d, u) \<in> set ?un"
      then have "map_of (rev (map (\<lambda>u. (ud_dimension u, u)) (unavailable_dimensions s))) d = Some u"
        by (simp add: btree_get_set [symmetric] btree_get_collect)
      then have "u \<in> set (unavailable_dimensions s)" "ud_dimension u = d"
        by (auto dest: map_of_SomeD)
      with valid(3) show "ud_dimension u = d \<and> unavailable_validate u = Inr ()"
        by (auto simp: snapshot_validate_def and_then_Inr_iff for_each_Inr_iff)
    qed
  qed simp
  have "ev = \<lparr>ev_limits = l, ev_has_meter = m, started_ns = now, cycles = sn_cycles s,
         total_tokens = sn_total_tokens s, uncached_tokens = sn_uncached_input_tokens s,
         tool_calls = sn_tool_calls s, tool_calls_by_name = sn_tool_calls_by_name s,
         base_elapsed_ms = sn_elapsed_ms s, elapsed_ms = sn_elapsed_ms s,
         host_cost_seen = sn_host_cost s, unavailable = ?un\<rparr>"
    using assms(1) by (auto simp: with_clock_def and_then_Inr_iff Let_def s_def)
  with valid by_name un assms(2) MAX_WIRE_INTEGER_lt_u64_max show ?thesis
    by (auto simp: ev_ok_def limits_ok_def snapshot_validate_def and_then_Inr_iff for_each_Inr_iff list_all_iff)
qed

text \<open>An evaluator that the constructor returned for well-formed maps.\<close>

definition fresh_evaluator :: "evaluator \<Rightarrow> bool" where
  "fresh_evaluator ev \<longleftrightarrow> (\<exists>l m initial now. with_clock l m initial now = Inr ev \<and>
     btree_ok (max_tool_calls_by_name l) \<and> opt_all (\<lambda>s. btree_ok (sn_tool_calls_by_name s)) initial)"

interpretation be: state_machine fresh_evaluator budget_step ev_ok
proof unfold_locales
  show "\<And>s. fresh_evaluator s \<Longrightarrow> ev_ok s"
    using with_clock_ok by (auto simp: fresh_evaluator_def)
  show "\<And>s t. ev_ok s \<Longrightarrow> budget_step s t \<Longrightarrow> ev_ok t"
    using apply_op_forward by (metis budget_stepE forward_def fst_conv)
qed

lemma budget_step_forward: "ev_ok ev \<Longrightarrow> budget_step ev ev' \<Longrightarrow> forward ev ev'"
  using apply_op_forward by (metis budget_stepE fst_conv)

lemma budget_steps_forward: "budget_step\<^sup>*\<^sup>* ev ev' \<Longrightarrow> ev_ok ev \<Longrightarrow> forward ev ev'"
proof (induction rule: rtranclp_induct)
  case (step y z)
  then show ?case
    using budget_step_forward [of y z] by (auto simp: forward_def intro: usage_le_trans)
qed (simp add: forward_refl)

lemma budget_step_fst: "budget_step ev (fst (apply_op op rd ev))"
  by (rule budget_step.intros [of op rd ev _ "snd (apply_op op rd ev)"]) simp

section \<open>Tool limits\<close>

definition tools_within :: "evaluator \<Rightarrow> bool" where
  "tools_within ev \<longleftrightarrow> opt_all (\<lambda>l. tool_calls ev \<le> l) (max_tool_calls (ev_limits ev)) \<and>
     list_all (\<lambda>(name, l). or_zero (btree_get name (tool_calls_by_name ev)) \<le> l)
       (max_tool_calls_by_name (ev_limits ev))"

lemma observe_keeps [simp]:
  "ev_limits (observe_boundary rd ev) = ev_limits ev"
  "tool_calls (observe_boundary rd ev) = tool_calls ev"
  "tool_calls_by_name (observe_boundary rd ev) = tool_calls_by_name ev"
  "cycles (observe_boundary rd ev) = cycles ev"
  by (auto simp: observe_boundary_def observe_elapsed_def observe_host_cost_def latch_host_unavailable_def
      latch_unavailable_def Let_def split: option.splits sum.splits)

lemma observe_usage_keeps [simp]:
  "ev_limits (observe_token_usage u ev) = ev_limits ev"
  "tool_calls (observe_token_usage u ev) = tool_calls ev"
  "tool_calls_by_name (observe_token_usage u ev) = tool_calls_by_name ev"
  by (auto simp: observe_token_usage_def observe_total_def observe_uncached_def safe_add_or_latch_def
      latch_unavailable_def Let_def split: option.splits)

lemma opt_or_None_iff [simp]: "opt_or x y = None \<longleftrightarrow> x = None \<and> y = None"
  by (cases x) (simp_all add: opt_or_def)

lemma limits_wire:
  assumes "ev_ok ev"
  shows "max_tool_calls (ev_limits ev) = Some l \<Longrightarrow> l < u64_max"
    and "(name, l) \<in> set (max_tool_calls_by_name (ev_limits ev)) \<Longrightarrow> l < u64_max"
  using assms MAX_WIRE_INTEGER_lt_u64_max
  by (auto simp: ev_ok_def limits_ok_def limits_validate_def and_then_Inr_iff for_each_Inr_iff)

lemma saturating_le_iff: "l < u64_max \<Longrightarrow> saturating_add a b \<le> l \<longleftrightarrow> a + b \<le> l"
  by (auto simp: saturating_add_def)

lemma count_list_pos: "count_list xs x = 0 \<longleftrightarrow> x \<notin> set xs"
  by (rule count_list_0_iff)

lemma preflight_named_None:
  assumes "ev_ok ev"
  shows "preflight_named ev (count_batch names) = None \<longleftrightarrow>
    list_all (\<lambda>(name, l). name \<in> set names \<longrightarrow>
        or_zero (btree_get name (tool_calls_by_name ev)) + count_list names name \<le> l)
      (max_tool_calls_by_name (ev_limits ev))"
  unfolding preflight_named_def find_map_None_iff list_all_iff
proof (intro ball_cong refl)
  fix x assume x: "x \<in> set (max_tool_calls_by_name (ev_limits ev))"
  obtain name l where nl: "x = (name, l)" by force
  have "saturating_add a b > l \<longleftrightarrow> a + b > l" for a b
    using saturating_le_iff [OF limits_wire(2) [OF assms x [unfolded nl]], of a b] by auto
  then show "((case x of (name, l) \<Rightarrow>
        let inc = or_zero (btree_get name (count_batch names));
            obs = or_zero (btree_get name (tool_calls_by_name ev))
        in if inc = 0 then None
           else if saturating_add obs inc > l
           then Some (count_preflight_exhaustion ToolCallsByName (Some name) l obs inc ToolBatchPreflight)
           else None) = None) \<longleftrightarrow>
      (case x of (name, l) \<Rightarrow> name \<in> set names \<longrightarrow>
        or_zero (btree_get name (tool_calls_by_name ev)) + count_list names name \<le> l)"
    by (auto simp: nl Let_def count_list_pos)
qed

lemma preflight_total_None:
  assumes "ev_ok ev"
  shows "Option.bind (max_tool_calls (ev_limits ev)) (\<lambda>l.
      if saturating_add (tool_calls ev) (min (length names) u64_max) > l then Some (f l) else None) = None \<longleftrightarrow>
    opt_all (\<lambda>l. tool_calls ev + length names \<le> l) (max_tool_calls (ev_limits ev))"
  using limits_wire(1) [OF assms]
  by (cases "max_tool_calls (ev_limits ev)") (auto simp: saturating_add_def)

lemma preflight_tools_within:
  assumes "ev_ok ev" "tools_within ev"
  shows "tools_within (fst (preflight_tools names rd ev))"
proof (cases "preflight_blocked names rd ev")
  case None
  let ?e = "observe_boundary rd ev"
  have ok: "ev_ok ?e" using observe_boundary_forward [OF assms(1)] by (simp add: forward_def)
  have fits: "opt_all (\<lambda>l. tool_calls ev + length names \<le> l) (max_tool_calls (ev_limits ev))"
    "list_all (\<lambda>(name, l). name \<in> set names \<longrightarrow>
        or_zero (btree_get name (tool_calls_by_name ev)) + count_list names name \<le> l)
      (max_tool_calls_by_name (ev_limits ev))"
    using None preflight_named_None [OF ok, of names] preflight_total_None [OF ok, of names
      "\<lambda>l. count_preflight_exhaustion ToolCalls None l (tool_calls ?e) (min (length names) u64_max) ToolBatchPreflight"]
    by (simp_all add: preflight_blocked_def Let_def)
  have "or_zero (btree_get name (tool_calls_by_name ev)) + count_list names name \<le> l"
    if "(name, l) \<in> set (max_tool_calls_by_name (ev_limits ev))" for name l
    using that fits(2) assms(2)
    by (cases "name \<in> set names") (auto simp: list_all_iff tools_within_def)
  then show ?thesis
    using None fits(1) order_trans [OF saturating_add_le]
    by (fastforce simp: preflight_tools_eq Let_def tools_within_def list_all_iff opt_all_def
        saturating_add_def add_batch_count(3) [OF ok, simplified] split: option.splits)
next
  case (Some x)
  with assms(2) show ?thesis by (simp add: preflight_tools_eq Let_def tools_within_def)
qed

lemma apply_op_within:
  assumes "ev_ok ev" "tools_within ev"
  shows "tools_within (fst (apply_op op rd ev))"
proof (cases op)
  case (Op_preflight names)
  then show ?thesis using preflight_tools_within [OF assms] by simp
qed (use assms(2) in \<open>auto simp: tools_within_def run_start_def cycle_start_def model_call_start_def
    model_call_complete_def tool_batch_complete_def terminal_def Let_def split: option.splits prod.splits\<close>)

interpretation tw: state_machine "\<lambda>ev. fresh_evaluator ev \<and> tools_within ev" budget_step
  "\<lambda>ev. ev_ok ev \<and> tools_within ev"
proof unfold_locales
  show "\<And>s. fresh_evaluator s \<and> tools_within s \<Longrightarrow> ev_ok s \<and> tools_within s"
    using be.inv_init by blast
  show "\<And>s t. ev_ok s \<and> tools_within s \<Longrightarrow> budget_step s t \<Longrightarrow> ev_ok t \<and> tools_within t"
    using be.inv_step apply_op_within by (metis budget_stepE fst_conv)
qed

section \<open>Limit checks\<close>

lemma DIMENSION_PRECEDENCE_all [simp]: "d \<in> set DIMENSION_PRECEDENCE"
  by (cases d) (simp_all add: DIMENSION_PRECEDENCE_def)

lemma precedence_prefix:
  "DIMENSION_PRECEDENCE = as @ d # bs \<Longrightarrow> d' \<notin> set as \<Longrightarrow> dimension_precedence d \<le> dimension_precedence d'"
  by (cases d; cases d')
    (auto simp: DIMENSION_PRECEDENCE_def dimension_precedence_def Cons_eq_append_conv)

lemma check_dimension_None:
  "check_dimension hit reason ev b ds d = None \<longleftrightarrow> (d \<in> set ds \<longrightarrow> \<not> btree_contains d (unavailable ev) \<longrightarrow>
      opt_all (\<lambda>(l, _). opt_all (\<lambda>obs. \<not> hit obs l) (observed_value ev d)) (limit_descriptor (ev_limits ev) d))"
  by (cases "limit_descriptor (ev_limits ev) d"; cases "observed_value ev d")
    (auto simp: check_dimension_def)

lemma check_limits_None:
  "check_limits hit reason ev b ds = None \<longleftrightarrow>
    (\<forall>d \<in> set ds. \<not> btree_contains d (unavailable ev) \<longrightarrow>
      opt_all (\<lambda>(l, _). opt_all (\<lambda>obs. \<not> hit obs l) (observed_value ev d)) (limit_descriptor (ev_limits ev) d))"
  unfolding check_limits_def find_map_None_iff check_dimension_None by auto

text \<open>A configured dimension that is recorded as unavailable.\<close>

definition blind :: "evaluator \<Rightarrow> dimension \<Rightarrow> bool" where
  "blind ev d \<longleftrightarrow> btree_contains d (unavailable ev) \<and> limit_descriptor (ev_limits ev) d \<noteq> None"

lemma strict_dimension_None: "strict_dimension ev b d = None \<longleftrightarrow> \<not> blind ev d"
  by (auto simp: strict_dimension_def blind_def btree_contains_def split: option.splits)

lemma strict_dimension_Some:
  "strict_dimension ev b d = Some x \<Longrightarrow>
     ex_reason x = MetricUnavailable \<and> ex_dimension x = d \<and> enforcement_boundary x = b"
  by (auto simp: strict_dimension_def split: option.splits)

lemma strict_unavailable_None:
  "strict_unavailable ev b = None \<longleftrightarrow>
    unavailable_metric_policy (ev_limits ev) \<noteq> Stop \<or> (\<forall>d. \<not> blind ev d)"
  by (auto simp: strict_unavailable_def find_map_None_iff strict_dimension_None)

lemma strict_unavailable_Some:
  assumes "strict_unavailable ev b = Some x"
  shows "ex_reason x = MetricUnavailable \<and> blind ev (ex_dimension x) \<and> enforcement_boundary x = b \<and>
    (\<forall>d. blind ev d \<longrightarrow> dimension_precedence (ex_dimension x) \<le> dimension_precedence d)"
proof -
  have "find_map (strict_dimension ev b) DIMENSION_PRECEDENCE = Some x"
    using assms by (simp add: strict_unavailable_def split: if_splits)
  then obtain as d bs where d: "DIMENSION_PRECEDENCE = as @ d # bs" "strict_dimension ev b d = Some x"
      "\<forall>a \<in> set as. strict_dimension ev b a = None"
    using find_map_split by metis
  have "d' \<notin> set as" if "blind ev d'" for d' using d(3) that strict_dimension_None by metis
  moreover have "blind ev d" using d(2) strict_dimension_None [of ev b d] by simp
  ultimately show ?thesis
    using strict_dimension_Some [OF d(2)] precedence_prefix [OF d(1)] by simp
qed

section \<open>Snapshots and the controller\<close>

lemma distinct_map_sort_key: "distinct (map g (sort_key f xs)) \<longleftrightarrow> distinct (map g xs)"
  by (simp add: distinct_map)

lemma latch_dimensions:
  assumes "latch_ok m"
  shows "distinct (map ud_dimension (sort_key f (map snd m)))"
proof -
  have "map ud_dimension (map snd m) = map fst m" using assms by (auto simp: latch_ok_def list_all_iff)
  moreover have "distinct (map fst m)" using assms by (simp add: latch_ok_def btree_ok_distinct)
  ultimately show ?thesis by (metis distinct_map_sort_key)
qed

lemma unavailable_of_snapshot:
  assumes "latch_ok m"
  shows "btree_collect (map (\<lambda>u. (ud_dimension u, u)) (sort_key f (map snd m))) = m"
proof -
  let ?us = "sort_key f (map snd m)"
  have m: "btree_ok m" and keys: "\<forall>(d, u) \<in> set m. ud_dimension u = d"
    using assms by (auto simp: latch_ok_def list_all_iff)
  have dist: "distinct (map fst (map (\<lambda>u. (ud_dimension u, u)) ?us))"
    using latch_dimensions [OF assms, of f] by (simp add: comp_def)
  have "btree_get d (btree_collect (map (\<lambda>u. (ud_dimension u, u)) ?us)) = btree_get d m" for d
  proof -
    have "(d, u) \<in> set (map (\<lambda>u. (ud_dimension u, u)) ?us) \<longleftrightarrow> (d, u) \<in> set m" for u
      using keys by force
    then have "map_of (rev (map (\<lambda>u. (ud_dimension u, u)) ?us)) d = Some u \<longleftrightarrow> btree_get d m = Some u" for u
      using dist by (simp add: btree_get_set [OF m] rev_map [symmetric] del: set_map)
    then show ?thesis by (metis btree_get_collect not_None_eq)
  qed
  then show ?thesis using bt.entries_ext m by (metis btree_ok_collect)
qed

lemma distinct_sort_dedup: "distinct xs \<Longrightarrow> length (remdups_adj (sort xs)) = length xs"
  by (simp add: remdups_adj_distinct)

lemma snapshot_valid:
  assumes "ev_ok ev" "cycles ev \<le> MAX_WIRE_INTEGER" "tool_calls ev \<le> MAX_WIRE_INTEGER"
    and "list_all (\<lambda>(name, n). \<not> is_blank name \<and> n \<le> MAX_WIRE_INTEGER) (tool_calls_by_name ev)"
  shows "snapshot_validate (snapshot ev) = Inr ()"
proof -
  have m: "latch_ok (unavailable ev)" using assms(1) by (simp add: ev_ok_def)
  have "distinct (map ud_dimension (unavailable_dimensions (snapshot ev)))"
    using latch_dimensions [OF m] by (simp add: snapshot_def)
  moreover have "\<forall>u \<in> set (unavailable_dimensions (snapshot ev)). unavailable_validate u = Inr ()"
    using m by (fastforce simp: snapshot_def latch_ok_def list_all_iff)
  ultimately show ?thesis
    using assms distinct_sort_dedup [of "map ud_dimension (unavailable_dimensions (snapshot ev))"]
    by (simp add: snapshot_validate_def and_then_Inr_iff for_each_Inr_iff del: unavailable_validate_Inr)
      (auto simp: snapshot_def ev_ok_def list_all_iff opt_all_def and_then_Inr_iff)
qed

datatype ct_op = Ct_run_start | Ct_cycle_start u32 | Ct_model_call_start u32
  | Ct_model_call_complete token_usage bool | Ct_preflight u32 "string list"
  | Ct_tool_batch_complete u32 bool bool | Ct_terminal bool

fun ct_apply :: "ct_op \<Rightarrow> readings \<Rightarrow> controller \<Rightarrow> observation" where
  "ct_apply Ct_run_start rd c = ct_run_start rd c"
| "ct_apply (Ct_cycle_start i) rd c = ct_cycle_start i rd c"
| "ct_apply (Ct_model_call_start i) rd c = ct_model_call_start i rd c"
| "ct_apply (Ct_model_call_complete usage suppress) rd c =
     (case ct_model_call_complete usage suppress rd c of (c', x, _) \<Rightarrow> (c', x, []))"
| "ct_apply (Ct_preflight i names) rd c = ct_preflight_tools i names rd c"
| "ct_apply (Ct_tool_batch_complete i failed suppress) rd c = ct_tool_batch_complete i failed suppress rd c"
| "ct_apply (Ct_terminal suppress) rd c = ct_terminal suppress rd c"

fun ct_run :: "(ct_op \<times> readings) list \<Rightarrow> controller \<Rightarrow> controller \<times> exhaustion option list \<times> budget_log list" where
  "ct_run [] c = (c, [], [])"
| "ct_run ((op, rd) # ops) c =
     (case ct_apply op rd c of (c', x, logs) \<Rightarrow>
       (case ct_run ops c' of (c'', xs, logs') \<Rightarrow> (c'', x # xs, logs @ logs')))"

lemma observe_update_result:
  assumes "observe_update f s op c = (c', x, sn)"
  shows "ct_exhaustion c' = x" and "ct_exhaustion c = Some y \<Longrightarrow> c' = c \<and> x = Some y \<and> sn = None"
  using assms by (auto simp: observe_update_def Let_def split: option.splits prod.splits if_splits)

lemma observe_result:
  assumes "observe b i f s op c = (c', x, logs)"
  shows "ct_exhaustion c' = x" and "ct_exhaustion c = Some y \<Longrightarrow> c' = c \<and> x = Some y \<and> logs = []"
    and "\<forall>lg \<in> set logs. bl_exhaustion lg = x" and "length logs \<le> 1"
  using assms observe_update_result [of f s op c] by (auto simp: observe_def split: option.splits prod.splits)

lemma ct_apply_observe:
  obtains b i f s op' where "ct_apply op rd c = observe b i f s op' c"
  | c' x sn f s op' where "ct_apply op rd c = (c', x, [])" "observe_update f s op' c = (c', x, sn)"
proof (cases op)
  case (Ct_model_call_complete usage suppress)
  obtain c' x sn where "observe_update False suppress (model_call_complete usage rd) c = (c', x, sn)"
    by (metis surj_pair)
  with Ct_model_call_complete that(2) show ?thesis by (simp add: ct_model_call_complete_def)
qed (use that(1) in \<open>auto simp: ct_run_start_def ct_cycle_start_def ct_model_call_start_def
    ct_preflight_tools_def ct_tool_batch_complete_def ct_terminal_def\<close>)

lemma ct_apply_result:
  assumes "ct_apply op rd c = (c', x, logs)"
  shows "ct_exhaustion c' = x \<and> (\<forall>lg \<in> set logs. bl_exhaustion lg = x) \<and> length logs \<le> 1 \<and>
    (ct_exhaustion c \<noteq> None \<longrightarrow> c' = c \<and> x = ct_exhaustion c \<and> logs = [])"
proof (cases rule: ct_apply_observe [of op rd c])
  case (1 b i f s op')
  then show ?thesis using assms observe_result [of b i f s op' c c' x logs] by auto
next
  case (2 c'' x' sn f s op')
  then show ?thesis using assms observe_update_result [of f s op' c c' x sn] by auto
qed

lemma ct_run_exhausted:
  "ct_exhaustion c = Some x \<Longrightarrow> ct_run ops c = (c, replicate (length ops) (Some x), [])"
proof (induction ops)
  case (Cons o' ops)
  obtain op rd where o': "o' = (op, rd)" by force
  obtain c' y logs where a: "ct_apply op rd c = (c', y, logs)" by (metis surj_pair)
  with ct_apply_result [OF a] Cons show ?case by (simp add: o')
qed simp

section \<open>Theorems\<close>

text \<open>A small budget for the witnesses: two tool calls, one of them \<open>bash\<close>, and a hundred tokens.\<close>

definition demo_limits :: limits where
  "demo_limits = \<lparr>max_total_tokens = Some 100, max_uncached_input_tokens = None, max_tool_calls = Some 2,
     max_tool_calls_by_name = [(''bash'', 1)], max_wall_time_ms = Some 50, max_host_cost = None,
     unavailable_metric_policy = Stop\<rparr>"

definition demo_evaluator :: evaluator where
  "demo_evaluator = \<lparr>ev_limits = demo_limits, ev_has_meter = False, started_ns = 7, cycles = 0,
     total_tokens = Some 0, uncached_tokens = Some 0, tool_calls = 0, tool_calls_by_name = [],
     base_elapsed_ms = 0, elapsed_ms = 0, host_cost_seen = None, unavailable = []\<rparr>"

definition demo_readings :: readings where
  "demo_readings = \<lparr>rd_now_ns = 20000007, rd_cost = Inr None\<rparr>"

lemma demo_limits_ok: "limits_validate demo_limits = Inr ()" "has_limits demo_limits"
  by (auto simp: demo_limits_def limits_validate_def and_then_Inr_iff has_limits_def MAX_WIRE_INTEGER_def
      is_blank_def trim_def ws1_def ws2_def ws3_def)

lemma demo_fresh: "fresh_evaluator demo_evaluator"
proof -
  have "with_clock demo_limits False None 7 = Inr demo_evaluator"
    by (simp add: with_clock_def demo_limits_ok Let_def default_snapshot_def snapshot_validate_def
        validate_wire_integer_def validate_some_def demo_evaluator_def btree_collect_def)
  moreover have "btree_ok (max_tool_calls_by_name demo_limits)" by (simp add: demo_limits_def btree_ok_def)
  moreover have "opt_all (\<lambda>s. btree_ok (sn_tool_calls_by_name s)) None" by simp
  ultimately show ?thesis unfolding fresh_evaluator_def by blast
qed

lemma demo_ok: "ev_ok demo_evaluator"
  by (rule be.inv_init [OF demo_fresh])

lemma demo_observed: "observe_boundary demo_readings demo_evaluator = demo_evaluator\<lparr>elapsed_ms := 20\<rparr>"
  by (simp add: observe_boundary_def observe_elapsed_def observe_host_cost_def demo_readings_def
      demo_evaluator_def demo_limits_def btree_contains_def saturating_sub_def saturating_add128_def
      u128_max_def MAX_WIRE_INTEGER_def Let_def)

text \<open>
  Budget usage only moves forward in every run of the evaluator: cycles, tool calls, calls per
  tool and elapsed time never decrease, a token count is never regained after it was lost and never
  decreases, the host cost never decreases, and a dimension recorded as unavailable keeps its first
  record for ever; the evaluator stays well formed.
\<close>

theorem budget_moves_forward:
  assumes "fresh_evaluator ev0" and "budget_step\<^sup>*\<^sup>* ev0 ev" and "budget_step\<^sup>*\<^sup>* ev ev'"
  shows "ev_ok ev' \<and> usage_le ev ev'"
  using budget_steps_forward [OF assms(3) be.inv_reachable [OF assms(1,2)]] by (simp add: forward_def)

theorem budget_moves_forward_witness:
  "usage_le demo_evaluator (fst (cycle_start demo_readings demo_evaluator)) \<and>
   cycles (fst (cycle_start demo_readings demo_evaluator)) = 1"
proof -
  have "budget_step demo_evaluator (fst (cycle_start demo_readings demo_evaluator))"
    using budget_step_fst [of demo_evaluator Op_cycle_start demo_readings] by simp
  then have "usage_le demo_evaluator (fst (cycle_start demo_readings demo_evaluator))"
    using budget_moves_forward [OF demo_fresh] by (meson r_into_rtranclp rtranclp.rtrancl_refl)
  moreover have "cycles (fst (cycle_start demo_readings demo_evaluator)) = 1"
    unfolding cycle_start_def model_call_start_def demo_observed Let_def
    by (simp add: strict_unavailable_def strict_dimension_def
        check_admission_limits_def check_limits_def check_dimension_def DIMENSION_PRECEDENCE_def
        token_dimensions_def btree_contains_def demo_evaluator_def demo_limits_def opt_or_def
        saturating_add_def u64_max_def Let_def)
  ultimately show ?thesis by simp
qed

text \<open>
  C6. The tool-call limits hold in every reachable state: a run that starts within its total and
  per-tool limits never counts more calls than they allow, whatever batches the model asks for.
\<close>

theorem tool_limits_never_exceeded:
  assumes "fresh_evaluator ev0" and "tools_within ev0" and "budget_step\<^sup>*\<^sup>* ev0 ev"
  shows "opt_all (\<lambda>l. tool_calls ev \<le> l) (max_tool_calls (ev_limits ev)) \<and>
    list_all (\<lambda>(name, l). or_zero (btree_get name (tool_calls_by_name ev)) \<le> l)
      (max_tool_calls_by_name (ev_limits ev)) \<and> ev_limits ev = ev_limits ev0"
proof -
  have "tools_within ev" using tw.inv_reachable [of ev0 ev] assms by simp
  moreover have "usage_le ev0 ev"
    using budget_steps_forward [OF assms(3) be.inv_init [OF assms(1)]] by (simp add: forward_def)
  ultimately show ?thesis by (simp add: tools_within_def usage_le_def)
qed

theorem tool_limits_never_exceeded_witness:
  "tools_within demo_evaluator \<and>
   tool_calls (fst (preflight_tools [''bash'', ''grep''] demo_readings demo_evaluator)) \<le> 2"
proof -
  have w: "tools_within demo_evaluator"
    by (simp add: tools_within_def demo_evaluator_def demo_limits_def)
  let ?ev = "fst (preflight_tools [''bash'', ''grep''] demo_readings demo_evaluator)"
  have "budget_step demo_evaluator ?ev"
    using budget_step_fst [of demo_evaluator "Op_preflight [''bash'', ''grep'']" demo_readings] by simp
  then have step: "budget_step\<^sup>*\<^sup>* demo_evaluator ?ev" by simp
  have "ev_limits ?ev = demo_limits"
    using tool_limits_never_exceeded [OF demo_fresh w step] by (simp add: demo_evaluator_def)
  then have "max_tool_calls (ev_limits ?ev) = Some 2" by (simp add: demo_limits_def)
  then show ?thesis
    using tool_limits_never_exceeded [OF demo_fresh w step, THEN conjunct1] w by simp
qed

text \<open>
  A tool batch is admitted as a whole or not at all. It is admitted exactly when no strict
  unavailability and no reached wall-time or cost limit stops the run, the whole batch fits under the
  total limit and the calls of every limited tool in it fit under that tool's limit; then every
  counter grows by exactly its share of the batch (up to the width of the counter). A rejected batch
  changes nothing but what the boundary observes.
\<close>

theorem preflight_all_or_nothing:
  assumes "ev_ok ev" and "preflight_tools names rd ev = (ev', r)" and "e = observe_boundary rd ev"
  shows "(r = None \<longleftrightarrow>
      strict_unavailable e ToolBatchPreflight = None \<and>
      check_admission_limits e ToolBatchPreflight [WallTime, HostCost] = None \<and>
      opt_all (\<lambda>l. tool_calls ev + length names \<le> l) (max_tool_calls (ev_limits ev)) \<and>
      list_all (\<lambda>(name, l). name \<in> set names \<longrightarrow>
          or_zero (btree_get name (tool_calls_by_name ev)) + count_list names name \<le> l)
        (max_tool_calls_by_name (ev_limits ev))) \<and>
    (r = None \<longrightarrow> tool_calls ev' = min (tool_calls ev + length names) u64_max \<and>
      (\<forall>name. or_zero (btree_get name (tool_calls_by_name ev')) =
        min (or_zero (btree_get name (tool_calls_by_name ev)) + count_list names name) u64_max)) \<and>
    (r \<noteq> None \<longrightarrow> ev' = e)"
proof -
  have ok: "ev_ok e" using observe_boundary_forward [OF assms(1)] assms(3) by (simp add: forward_def)
  have e: "ev_limits e = ev_limits ev" "tool_calls e = tool_calls ev" "tool_calls_by_name e = tool_calls_by_name ev"
    by (simp_all add: assms(3))
  have r: "r = preflight_blocked names rd ev"
    and ev': "ev' = (if r = None
      then e\<lparr>tool_calls := saturating_add (tool_calls e) (min (length names) u64_max),
             tool_calls_by_name := add_batch (count_batch names) (tool_calls_by_name e)\<rparr> else e)"
    using assms(2) by (auto simp: preflight_tools_eq Let_def assms(3))
  have adm: "r = None \<longleftrightarrow>
      strict_unavailable e ToolBatchPreflight = None \<and>
      check_admission_limits e ToolBatchPreflight [WallTime, HostCost] = None \<and>
      opt_all (\<lambda>l. tool_calls ev + length names \<le> l) (max_tool_calls (ev_limits ev)) \<and>
      list_all (\<lambda>(name, l). name \<in> set names \<longrightarrow>
          or_zero (btree_get name (tool_calls_by_name ev)) + count_list names name \<le> l)
        (max_tool_calls_by_name (ev_limits ev))"
    unfolding r preflight_blocked_def Let_def assms(3) [symmetric] opt_or_None_iff
      preflight_total_None [OF ok] preflight_named_None [OF ok] by (simp add: e)
  have tot: "tool_calls ev' = min (tool_calls ev + length names) u64_max" if "r = None"
    using that ok by (auto simp: ev' e saturating_add_def ev_ok_def)
  have named: "or_zero (btree_get name (tool_calls_by_name ev')) =
      min (or_zero (btree_get name (tool_calls_by_name ev)) + count_list names name) u64_max"
    if "r = None" for name
    using that add_batch_count(3) [OF ok, of name names] by (simp add: ev' e saturating_add_def)
  show ?thesis
    by (intro conjI impI allI) (rule adm, erule tot, erule named, auto simp: ev')
qed

theorem preflight_all_or_nothing_witness:
  "snd (preflight_tools [''bash'', ''bash''] demo_readings demo_evaluator) \<noteq> None \<and>
   fst (preflight_tools [''bash'', ''bash''] demo_readings demo_evaluator) =
     observe_boundary demo_readings demo_evaluator"
proof -
  note p = preflight_all_or_nothing [OF demo_ok prod.collapse [symmetric] refl,
      of "[''bash'', ''bash'']" demo_readings]
  have "\<not> list_all (\<lambda>(name, l). name \<in> set [''bash'', ''bash''] \<longrightarrow>
      or_zero (btree_get name (tool_calls_by_name demo_evaluator)) + count_list [''bash'', ''bash''] name \<le> l)
      (max_tool_calls_by_name (ev_limits demo_evaluator))"
    by (simp add: demo_evaluator_def demo_limits_def)
  then have "snd (preflight_tools [''bash'', ''bash''] demo_readings demo_evaluator) \<noteq> None"
    using p by blast
  then show ?thesis using p by blast
qed

text \<open>
  Under the strict policy an unmeasurable limit stops the run: when a configured dimension is
  recorded as unavailable, every boundary (except the completion of a batch that failed already)
  reports exhaustion with reason \<open>metric_unavailable\<close>, for a dimension that is configured and
  unavailable and that comes first in the documented order among those.
\<close>

theorem strict_policy_stops:
  assumes "ev_ok ev" and "unavailable_metric_policy (ev_limits ev) = Stop" and "blind ev d"
    and "op \<noteq> Op_tool_batch_complete True" and "apply_op op rd ev = (ev', r)"
  shows "\<exists>x. r = Some x \<and> ex_reason x = MetricUnavailable \<and> blind ev' (ex_dimension x) \<and>
    (\<forall>d'. blind ev' d' \<longrightarrow> dimension_precedence (ex_dimension x) \<le> dimension_precedence d')"
proof -
  have keep: "blind e d \<and> unavailable_metric_policy (ev_limits e) = Stop" if "forward ev e" for e
    using that assms(2,3) latch_le_contains [of ev e d] by (simp add: forward_def usage_le_def blind_def)
  have stop: "\<exists>x. strict_unavailable e b = Some x \<and> ex_reason x = MetricUnavailable \<and> blind e (ex_dimension x) \<and>
      (\<forall>d'. blind e d' \<longrightarrow> dimension_precedence (ex_dimension x) \<le> dimension_precedence d')"
    if "forward ev e" for e b
    using keep [OF that] strict_unavailable_None [of e b] strict_unavailable_Some [of e b] by fastforce
  let ?e = "observe_boundary rd ev"
  note obs = stop [OF observe_boundary_forward [OF assms(1)], of rd]
  have mcc: "forward ev (observe_boundary rd (observe_token_usage u ev))" for u
    using observe_token_usage_forward [OF assms(1), of u] observe_boundary_forward forward_trans
    by (auto simp: forward_def)
  show ?thesis
  proof (cases op)
    case (Op_model_call_complete u)
    then show ?thesis
      using assms(5) stop [OF mcc [of u], of ModelCallComplete]
      by (auto simp: model_call_complete_def Let_def opt_or_def)
  next
    case (Op_preflight names)
    then show ?thesis
      using assms(5) obs [of ToolBatchPreflight]
      by (auto simp: preflight_tools_eq preflight_blocked_def Let_def opt_or_def)
  next
    case Op_run_start
    then show ?thesis using assms(5) obs [of RunStart] by (auto simp: run_start_def Let_def opt_or_def)
  next
    case Op_cycle_start
    then have "ev' = ?e \<and> r = strict_unavailable ?e CycleStart"
      using assms(5) obs [of CycleStart] by (auto simp: cycle_start_def model_call_start_def Let_def opt_or_def)
    then show ?thesis using obs [of CycleStart] by simp
  next
    case Op_model_call_start
    then show ?thesis using assms(5) obs [of CycleStart] by (auto simp: model_call_start_def Let_def opt_or_def)
  next
    case (Op_tool_batch_complete failed)
    then show ?thesis using assms(4,5) obs [of ToolBatchComplete]
      by (auto simp: tool_batch_complete_def Let_def opt_or_def)
  next
    case Op_terminal
    then show ?thesis using assms(5) obs [of Terminal] by (auto simp: terminal_def Let_def opt_or_def)
  qed
qed

definition blind_evaluator :: evaluator where
  "blind_evaluator = fst (model_call_complete default_token_usage demo_readings demo_evaluator)"

theorem strict_policy_stops_witness:
  "blind blind_evaluator TotalTokens \<and>
   map_option ex_reason (snd (terminal demo_readings blind_evaluator)) = Some MetricUnavailable"
proof -
  have fwd: "forward demo_evaluator blind_evaluator"
    using apply_op_forward [OF demo_ok, of "Op_model_call_complete default_token_usage" demo_readings]
    by (simp add: blind_evaluator_def)
  then have ok: "ev_ok blind_evaluator" and lim: "ev_limits blind_evaluator = demo_limits"
    by (simp_all add: forward_def usage_le_def demo_evaluator_def)
  let ?t = "observe_total default_token_usage demo_evaluator"
  let ?u = "observe_token_usage default_token_usage demo_evaluator"
  have t: "ev_ok ?t" and u: "ev_ok ?u"
    using observe_total_forward [OF demo_ok] observe_token_usage_forward [OF demo_ok] by (simp_all add: forward_def)
  have "btree_contains TotalTokens (unavailable ?t)"
    by (simp add: observe_total_def default_token_usage_def latch_unavailable_def btree_contains_def
        btree_get_or_insert)
  then have "btree_contains TotalTokens (unavailable ?u)"
    using forward_contains [OF observe_uncached_forward [OF t]] by (simp add: observe_token_usage_def)
  then have "btree_contains TotalTokens (unavailable blind_evaluator)"
    using forward_contains [OF observe_boundary_forward [OF u]]
    by (simp add: blind_evaluator_def model_call_complete_def Let_def)
  then have b: "blind blind_evaluator TotalTokens" by (simp add: blind_def lim demo_limits_def)
  have "unavailable_metric_policy (ev_limits blind_evaluator) = Stop" by (simp add: lim demo_limits_def)
  from strict_policy_stops [OF ok this b, of Op_terminal demo_readings]
  show ?thesis using b by (cases "terminal demo_readings blind_evaluator") auto
qed



text \<open>
  A run resumes where it stopped: the snapshot of a well-formed evaluator is valid when its
  counters are in the wire range and its tool names are not blank, and an evaluator built from it has
  the same usage and the same records of unavailable dimensions, with the elapsed time as its base.
\<close>

theorem snapshot_resume:
  assumes "ev_ok ev" and "cycles ev \<le> MAX_WIRE_INTEGER" and "tool_calls ev \<le> MAX_WIRE_INTEGER"
    and "list_all (\<lambda>(name, n). \<not> is_blank name \<and> n \<le> MAX_WIRE_INTEGER) (tool_calls_by_name ev)"
  shows "with_clock (ev_limits ev) m (Some (snapshot ev)) now =
    Inr (ev\<lparr>ev_has_meter := m, started_ns := now, base_elapsed_ms := elapsed_ms ev\<rparr>)"
proof -
  have "limits_validate (ev_limits ev) = Inr ()" "has_limits (ev_limits ev)" "latch_ok (unavailable ev)"
    using assms(1) by (simp_all add: ev_ok_def limits_ok_def)
  then show ?thesis
    using snapshot_valid [OF assms]
      unavailable_of_snapshot [of "unavailable ev" "\<lambda>u. dimension_precedence (ud_dimension u)"]
    by (cases ev) (simp add: with_clock_def Let_def, simp add: snapshot_def)
qed

theorem snapshot_resume_witness:
  "with_clock demo_limits True (Some (snapshot (demo_evaluator\<lparr>elapsed_ms := 20\<rparr>))) 99 =
     Inr (demo_evaluator\<lparr>elapsed_ms := 20, ev_has_meter := True, started_ns := 99, base_elapsed_ms := 20\<rparr>)"
proof -
  have "ev_ok (demo_evaluator\<lparr>elapsed_ms := 20\<rparr>)"
    using observe_boundary_forward [OF demo_ok, of demo_readings] by (simp add: demo_observed forward_def)
  then show ?thesis
    using snapshot_resume [of "demo_evaluator\<lparr>elapsed_ms := 20\<rparr>" True 99]
    by (simp add: demo_evaluator_def MAX_WIRE_INTEGER_def)
qed

text \<open>
  The first exhaustion of a run is final: the answers of the controller to any sequence of
  operations are a run of admissions followed by that one exhaustion for ever, and at most one event
  reports it, as the last event of the run.
\<close>

theorem exhaustion_is_final:
  "\<exists>k x. fst (snd (ct_run ops (controller_new ev))) = replicate k None @ replicate (length ops - k) (Some x) \<and>
    k \<le> length ops \<and>
    list_all (\<lambda>lg. bl_exhaustion lg = None) (butlast (snd (snd (ct_run ops (controller_new ev)))))"
proof -
  have "\<exists>k x. fst (snd (ct_run ops c)) = replicate k None @ replicate (length ops - k) (Some x) \<and>
    k \<le> length ops \<and> list_all (\<lambda>lg. bl_exhaustion lg = None) (butlast (snd (snd (ct_run ops c))))"
    if "ct_exhaustion c = None" for c
    using that
  proof (induction ops arbitrary: c)
    case (Cons o' ops)
    obtain op rd where o': "o' = (op, rd)" by force
    obtain c' y logs where a: "ct_apply op rd c = (c', y, logs)" by (metis surj_pair)
    note res = ct_apply_result [OF a]
    show ?case
    proof (cases y)
      case None
      then obtain k x where k: "fst (snd (ct_run ops c')) = replicate k None @ replicate (length ops - k) (Some x)"
          "k \<le> length ops" "list_all (\<lambda>lg. bl_exhaustion lg = None) (butlast (snd (snd (ct_run ops c'))))"
        using Cons.IH [of c'] res by auto
      have "list_all (\<lambda>lg. bl_exhaustion lg = None) (butlast (logs @ snd (snd (ct_run ops c'))))"
        using res None k(3) by (auto simp: butlast_append list_all_iff dest: in_set_butlastD)
      with None k(1,2) show ?thesis
        by (intro exI [of _ "Suc k"] exI [of _ x]) (cases "ct_run ops c'", simp add: o' a)
    next
      case (Some x)
      then have run: "ct_run ops c' = (c', replicate (length ops) (Some x), [])"
        using res by (intro ct_run_exhausted) simp
      have "butlast logs = []" using res by (cases logs) simp_all
      with Some run show ?thesis
        by (intro exI [of _ 0] exI [of _ x]) (simp add: o' a)
    qed
  qed simp
  from this [of "controller_new ev"] show ?thesis by (simp add: controller_new_def)
qed

end
