(* ===== verification/Checkpoint_Types.thy ===== *)
theory Checkpoint_Types
  imports Budget "HOL-Library.Option_ord" "HOL-Library.Product_Lexorder"
begin

text \<open>
  The values of the checkpoint protocol (\<open>checkpoint.rs\<close>, \<open>checkpoint/canonical.rs\<close>,
  \<open>checkpoint/deferred.rs\<close>, \<open>runtime/state.rs\<close>, \<open>runtime/state/journal.rs\<close>,
  \<open>runtime/state/history.rs\<close>, \<open>types/tool_calls.rs\<close>) with their validators. A
  \<open>CheckpointError\<close> is modelled by its code; the message is text for the reader.
\<close>

section \<open>Errors and checks\<close>

type_synonym err = string

text \<open>A sequence of checks, of which the first that fails is returned.\<close>

definition all_ok :: "(err + unit) list \<Rightarrow> err + unit" where
  "all_ok cs = for_each (\<lambda>c. c) cs"

lemma all_ok_Nil [simp]: "all_ok [] = Inr ()"
  by (simp add: all_ok_def)

lemma all_ok_Cons [simp]: "all_ok (c # cs) = and_then c (\<lambda>_. all_ok cs)"
  by (simp add: all_ok_def)

lemma all_ok_Inr: "all_ok cs = Inr () \<longleftrightarrow> (\<forall>c \<in> set cs. c = Inr ())"
  by (simp add: all_ok_def for_each_Inr_iff)

text \<open>\<open>if let Some(x) = ... { check(x)? }\<close> is \<open>validate_some\<close>; \<open>exact_fields\<close> is the test for missing or unknown keys.\<close>

definition exact_fields :: "string list \<Rightarrow> fields \<Rightarrow> bool" where
  "exact_fields names m \<longleftrightarrow> length m = length names \<and> list_all (\<lambda>k. btree_contains k m) names"

definition get_str :: "string \<Rightarrow> fields \<Rightarrow> string option" where
  "get_str k m = Option.bind (btree_get k m) as_str"

definition required_string :: "fields \<Rightarrow> string \<Rightarrow> err \<Rightarrow> err + string" where
  "required_string m k code = ok_or (get_str k m) code"

section \<open>Enumerations\<close>

datatype tool_idempotency = Idem_Supported | Idem_Unsupported | Idem_Unknown

datatype operation_kind = Model | Tool

datatype operation_state = Planned | Started | Deferred | Succeeded | Failed | Ambiguous

datatype claim_mode = Continue | Recovery

datatype checkpoint_status = StPending | StRunning | StDeferred | StHostInteraction | StSuspended
  | StWaitUser | StCompleted | StFailed | StMaxCycles | StReconciliationRequired

definition is_terminal :: "checkpoint_status \<Rightarrow> bool" where
  "is_terminal s \<longleftrightarrow> s \<in> {StWaitUser, StCompleted, StFailed, StMaxCycles}"

datatype renewal_outcome =
    Renewed u64
  | CancelRequested u64
  | ClaimLost u64

section \<open>The environment\<close>

text \<open>
  Functions that the protocol calls and that are given here by their interface: the canonical JSON
  encoder and the hash of third-party crates, and the codecs of the event, tool-result, agent-result
  and cycle types, which belong to other components. An event constructor returns the members of the
  serialised event, or an error when the event id is not a valid one.
\<close>

datatype tool_result_status = RsSuccess | RsError | RsWaitResponse | RsRunning | RsPendingCompress

datatype truncation_reason = OutputLimit | ReadLimit

record artifact_ref =
  ar_path :: string
  ar_media_type :: string
  ar_encoding :: string
  ar_size_bytes :: u64
  ar_sha256 :: string

record result_cursor =
  rc_kind :: string
  rc_path :: string
  rc_offset_chars :: u64
  rc_sha256 :: string

record tool_result =
  tr_tool_call_id :: string
  tr_content :: string
  tr_status :: tool_result_status
  tr_directive :: string
  tr_error_code :: "string option"
  tr_metadata :: fields
  tr_image_url :: "string option"
  tr_image_path :: "string option"
  tr_truncated :: bool
  tr_truncation_reason :: "truncation_reason option"
  tr_original_bytes :: "u64 option"
  tr_visible_bytes :: "u64 option"
  tr_artifact :: "artifact_ref option"
  tr_cursor :: "result_cursor option"

text \<open>A cycle record: the index, the identities of its tool calls, its tool results, and the rest as it was encoded.\<close>

record cycle_record =
  cy_index :: u32
  cy_tool_calls :: "string list"
  cy_tool_results :: "tool_result list"
  cy_rest :: json

datatype message_role = RoleSystem | RoleUser | RoleAssistant | RoleTool

record tool_call =
  tc_id :: string
  tc_name :: string
  tc_arguments :: fields
  tc_extra_content :: "json option"

record message =
  ms_role :: message_role
  ms_content :: string
  ms_name :: "string option"
  ms_tool_call_id :: "string option"
  ms_tool_calls :: "tool_call list"
  ms_reasoning_content :: "string option"
  ms_image_url :: "string option"
  ms_metadata :: fields
  ms_artifact_ref :: "artifact_ref option"

definition message_new :: "message_role \<Rightarrow> string \<Rightarrow> message" where
  "message_new role content = \<lparr>ms_role = role, ms_content = content, ms_name = None, ms_tool_call_id = None,
     ms_tool_calls = [], ms_reasoning_content = None, ms_image_url = None, ms_metadata = [], ms_artifact_ref = None\<rparr>"

record resume_observation =
  ro_operation_id :: string
  ro_operation_kind :: operation_kind
  ro_cycle_index :: u64
  ro_state :: operation_state
  ro_risk :: string
  ro_idempotency_support :: "tool_idempotency option"

text \<open>
  \<open>AgentResult\<close>, with the fields that the protocol does not name as they were encoded: tool name,
  partial output and budget exhaustion of the completion, the final answer and the wait reason.
\<close>

datatype completion_reason = CrToolFinish | CrNoToolFinish | CrStopOnFirstTool | CrStopAtToolName | CrWaitUser
  | CrMaxCycles | CrCancelled | CrFailed | CrBudgetExhausted

record result_error =
  er_code :: string
  er_message :: string
  er_retryable :: bool

datatype agent_status = AsPending | AsRunning | AsDeferred | AsHostInteraction | AsWaitUser
  | AsCompleted | AsFailed | AsMaxCycles | AsReconciliationRequired

record agent_result =
  ag_status :: agent_status
  ag_messages :: "message list"
  ag_cycles :: "cycle_record list"
  ag_completion_reason :: "completion_reason option"
  ag_budget_usage :: "usage_snapshot option"
  ag_checkpoint_key :: "string option"
  ag_resume_observations :: "resume_observation list"
  ag_error :: "result_error option"
  ag_error_code :: "string option"
  ag_shared_state :: fields
  ag_token_usage :: task_usage
  ag_rest :: json

text \<open>Run events, by the payloads that the protocol distinguishes.\<close>

record call_identity =
  ci_call_id :: string
  ci_operation_id :: string
  ci_attempt :: u64
  ci_operation :: model_call_operation
  ci_backend :: string
  ci_model :: string

datatype failure_outcome = Definitive | AmbiguousOutcome

datatype event_payload =
    ModelCallStarted call_identity
  | ModelCallCompleted call_identity token_usage
  | ModelCallFailed call_identity token_usage failure_outcome string
  | BudgetSnapshotEvent boundary
  | BudgetExhaustedEvent boundary
  | OtherPayload json

record run_event =
  re_event_id :: string
  re_cycle_index :: "u32 option"
  re_payload :: event_payload
  re_rest :: json

record deferred_handle =
  dh_schema_version :: string
  dh_checkpoint_key :: string
  dh_operation_id :: string
  dh_attempt :: u64
  dh_request_digest :: string

text \<open>The events that the controller stages.\<close>

datatype control_payload =
    RunStateChanged string
  | CancelRequestedTransition
  | CheckpointResumed string u64
  | RunCancelled string
  | RunFailed string
  | HostInteractionRequested string u64 string u64 string string string string
  | HostInteractionResponseConsumed string u64 string u64 string string string string string u64

record env =
  canonicalize :: "json \<Rightarrow> string option"
  sha256_hex :: "string \<Rightarrow> string"
  decode_event :: "json \<Rightarrow> run_event option"
  encode_event :: "run_event \<Rightarrow> json option"
  decode_tool_result :: "json \<Rightarrow> tool_result option"
  encode_tool_result :: "tool_result \<Rightarrow> json"
  decode_agent_result :: "json \<Rightarrow> agent_result option"
  encode_agent_result :: "agent_result \<Rightarrow> json"
  encode_cycle :: "cycle_record \<Rightarrow> json"
  decode_cycle :: "json \<Rightarrow> cycle_record option"
  strict_json_value :: "string \<Rightarrow> json option"
  validate_run_definition :: "json \<Rightarrow> err + unit"
  run_definition_digest :: "json \<Rightarrow> err + string"
  validate_compaction_metadata :: "fields \<Rightarrow> bool"
  tool_completed_event :: "string \<Rightarrow> string \<Rightarrow> string \<Rightarrow> u32 \<Rightarrow> string \<Rightarrow> string \<Rightarrow> string \<Rightarrow> u32 \<Rightarrow>
    tool_result \<Rightarrow> string \<Rightarrow> err + fields"
  tool_deferred_event :: "string \<Rightarrow> string \<Rightarrow> string \<Rightarrow> u32 \<Rightarrow> string \<Rightarrow> string \<Rightarrow> string \<Rightarrow> u32 \<Rightarrow>
    deferred_handle \<Rightarrow> string \<Rightarrow> err + fields"
  reconciliation_resolved_event :: "string \<Rightarrow> string \<Rightarrow> string \<Rightarrow> u32 \<Rightarrow> string \<Rightarrow> string \<Rightarrow> string \<Rightarrow> err + fields"
  cycle_aborted_event :: "string \<Rightarrow> string \<Rightarrow> string \<Rightarrow> u32 \<Rightarrow> u64 \<Rightarrow> string \<Rightarrow> err + json"
  control_event_value :: "string \<Rightarrow> string \<Rightarrow> u32 option \<Rightarrow> control_payload \<Rightarrow> agent_result option \<Rightarrow> string \<Rightarrow> json option"

section \<open>Canonical JSON and identifiers\<close>

fun validate_number :: "number \<Rightarrow> err + unit" where
  "validate_number (PosInt n) = ensure (n \<le> MAX_WIRE_INTEGER) ''checkpoint_definition_not_i_json''"
| "validate_number (NegInt i) = ensure (nat (abs i) \<le> MAX_WIRE_INTEGER) ''checkpoint_definition_not_i_json''"
| "validate_number (Float _ _) = Inr ()"

fun validate_i_json :: "json \<Rightarrow> err + unit" where
  "validate_i_json JNull = Inr ()"
| "validate_i_json (JBool _) = Inr ()"
| "validate_i_json (JStr _) = Inr ()"
| "validate_i_json (JNum n) = validate_number n"
| "validate_i_json (JArr xs) = all_ok (map validate_i_json xs)"
| "validate_i_json (JObj m) = all_ok (map (\<lambda>(_, v). validate_i_json v) m)"

lemma validate_i_json_object:
  assumes "list_all (\<lambda>(_, v). validate_i_json v = Inr ()) kvs"
  shows "validate_i_json (object_of kvs) = Inr ()"
  using assms btree_collect_sub by (fastforce simp: object_of_def list_all_iff all_ok_Inr)

definition canonical_json_bytes :: "env \<Rightarrow> json \<Rightarrow> err + string" where
  "canonical_json_bytes E v =
    and_then (validate_i_json v) (\<lambda>_. ok_or (canonicalize E v) ''checkpoint_canonicalization_invalid'')"

definition sha256_canonical :: "env \<Rightarrow> json \<Rightarrow> err + string" where
  "sha256_canonical E v = and_then (canonical_json_bytes E v) (\<lambda>b. Inr (sha256_hex E b))"

definition validate_json :: "env \<Rightarrow> json \<Rightarrow> err + unit" where
  "validate_json E v = and_then (canonical_json_bytes E v) (\<lambda>_. Inr ())"

definition event_payload_digest :: "env \<Rightarrow> json \<Rightarrow> err + string" where
  "event_payload_digest E event =
    and_then (ensure (is_object event) ''event_payload_invalid'') (\<lambda>_. sha256_canonical E event)"

text \<open>\<open>is_ascii_hexdigit\<close> without the upper-case letters, on 64 bytes.\<close>

definition lower_hex :: "char \<Rightarrow> bool" where
  "lower_hex c \<longleftrightarrow> (let n = (of_char c :: nat) in (48 \<le> n \<and> n \<le> 57) \<or> (97 \<le> n \<and> n \<le> 102))"

definition is_sha256 :: "string \<Rightarrow> bool" where
  "is_sha256 s \<longleftrightarrow> length s = 64 \<and> list_all lower_hex s"

definition validate_sha256 :: "string \<Rightarrow> err + unit" where
  "validate_sha256 s = ensure (is_sha256 s) ''checkpoint_digest_invalid''"

definition validate_checkpoint_key :: "string \<Rightarrow> err + unit" where
  "validate_checkpoint_key k = ensure (\<not> is_blank k \<and> length k \<le> 512) ''checkpoint_key_invalid''"

definition ascii_lower_or_digit :: "char \<Rightarrow> bool" where
  "ascii_lower_or_digit c \<longleftrightarrow> (let n = (of_char c :: nat) in (97 \<le> n \<and> n \<le> 122) \<or> (48 \<le> n \<and> n \<le> 57))"

definition validate_extension_namespace :: "string \<Rightarrow> err + unit" where
  "validate_extension_namespace ns = ensure
    (ns \<noteq> [] \<and> list_all (\<lambda>c. (of_char c :: nat) < 128) ns \<and> length ns \<le> 128 \<and>
     ascii_lower_or_digit (hd ns) \<and> CHR ''.'' \<in> set ns \<and>
     list_all (\<lambda>c. ascii_lower_or_digit c \<or> c \<in> {CHR ''.'', CHR ''_'', CHR ''-''}) ns)
    ''checkpoint_extension_namespace_invalid''"

definition require_non_empty :: "string \<Rightarrow> err + unit" where
  "require_non_empty s = ensure (\<not> is_blank s) ''checkpoint_value_invalid''"

definition require_positive :: "u64 \<Rightarrow> err + unit" where
  "require_positive n = ensure (n \<noteq> 0 \<and> n \<le> MAX_WIRE_INTEGER) ''checkpoint_integer_invalid''"

definition tool_receipt_identity_key :: "env \<Rightarrow> string \<Rightarrow> string \<Rightarrow> u64 \<Rightarrow> string \<Rightarrow> string \<Rightarrow> err + string" where
  "tool_receipt_identity_key E checkpoint_key operation_id attempt tool_call_id request_digest =
    sha256_canonical E (object_of
      [(''attempt'', json_u64 attempt), (''checkpoint_key'', JStr checkpoint_key),
       (''operation_id'', JStr operation_id), (''request_digest'', JStr request_digest),
       (''tool_call_id'', JStr tool_call_id)])"

section \<open>Tool results\<close>

fun split_on :: "char \<Rightarrow> string \<Rightarrow> string list" where
  "split_on d [] = [[]]"
| "split_on d (c # cs) = (if c = d then [] # split_on d cs
     else case split_on d cs of s # ss \<Rightarrow> (c # s) # ss | [] \<Rightarrow> [[c]])"

definition ascii_alnum :: "char \<Rightarrow> bool" where
  "ascii_alnum c \<longleftrightarrow> ascii_lower_or_digit c \<or> (let n = (of_char c :: nat) in 65 \<le> n \<and> n \<le> 90)"

definition artifact_prefix :: string where
  "artifact_prefix = ''.vv-agent/artifacts/''"

definition valid_artifact_path :: "string \<Rightarrow> bool" where
  "valid_artifact_path p \<longleftrightarrow>
    length p \<le> 512 \<and> take (length artifact_prefix) p = artifact_prefix \<and>
    CHR 0x5C \<notin> set p \<and> CHR 0x00 \<notin> set p \<and>
    list_all (\<lambda>seg. seg \<noteq> [] \<and> length seg \<le> 128 \<and> ascii_alnum (hd seg) \<and>
        list_all (\<lambda>c. ascii_alnum c \<or> c \<in> {CHR ''.'', CHR ''_'', CHR ''-''}) seg)
      (split_on CHR ''/'' (drop (length artifact_prefix) p))"

definition artifact_validate :: "artifact_ref \<Rightarrow> err + unit" where
  "artifact_validate a = all_ok
    [ensure (valid_artifact_path (ar_path a)) ''artifact_path_invalid'',
     ensure (ar_media_type a = ''text/plain'' \<and> ar_encoding a = ''utf-8'') ''tool_result_invalid'',
     ensure (is_sha256 (ar_sha256 a)) ''tool_result_invalid'']"

definition result_cursor_validate :: "result_cursor \<Rightarrow> err + unit" where
  "result_cursor_validate c = ensure
    (rc_kind c = ''read_file'' \<and> \<not> is_blank (rc_path c) \<and> CHR 0x5C \<notin> set (rc_path c) \<and>
     CHR 0x00 \<notin> set (rc_path c) \<and> rc_offset_chars c \<le> MAX_WIRE_INTEGER \<and> is_sha256 (rc_sha256 c))
    ''tool_result_invalid''"

definition tool_result_validate :: "tool_result \<Rightarrow> err + unit" where
  "tool_result_validate r = all_ok
    [ensure (\<not> (tr_status r = RsSuccess \<and> tr_error_code r \<noteq> None)) ''tool_result_invalid'',
     ensure (\<not> list_ex (\<lambda>k. btree_contains k (tr_metadata r))
       [''content'', ''instructions'', ''output'', ''stderr'', ''stdout'']) ''tool_result_invalid'',
     (if \<not> tr_truncated r
      then ensure (tr_truncation_reason r = None \<and> tr_original_bytes r = None \<and> tr_visible_bytes r = None \<and>
        tr_artifact r = None \<and> tr_cursor r = None) ''tool_result_invalid''
      else case (tr_truncation_reason r, tr_original_bytes r, tr_visible_bytes r) of
        (Some reason, Some original, Some visible) \<Rightarrow> all_ok
          [ensure (visible = length (tr_content r) \<and> visible \<le> original) ''tool_result_invalid'',
           (case reason of
              OutputLimit \<Rightarrow>
                (case tr_artifact r of
                   None \<Rightarrow> Inl ''tool_result_invalid''
                 | Some a \<Rightarrow> all_ok [ensure (tr_cursor r = None) ''tool_result_invalid'', artifact_validate a])
            | ReadLimit \<Rightarrow>
                (case tr_cursor r of
                   None \<Rightarrow> Inl ''tool_result_invalid''
                 | Some c \<Rightarrow> all_ok [ensure (tr_artifact r = None) ''tool_result_invalid'', result_cursor_validate c]))]
      | _ \<Rightarrow> Inl ''tool_result_invalid'')]"

definition tool_result_digest :: "env \<Rightarrow> tool_result \<Rightarrow> err + string" where
  "tool_result_digest E r =
    and_then (map_err (\<lambda>_. ''tool_result_invalid'') (tool_result_validate r)) (\<lambda>_.
      sha256_canonical E (encode_tool_result E r))"

definition get_bool_or_false :: "string \<Rightarrow> fields \<Rightarrow> bool" where
  "get_bool_or_false k m = (case Option.bind (btree_get k m) as_bool of None \<Rightarrow> False | Some b \<Rightarrow> b)"

definition is_ambiguous_tool_result :: "tool_result \<Rightarrow> bool" where
  "is_ambiguous_tool_result r \<longleftrightarrow> tr_status r = RsError \<and>
    (case tr_error_code r of None \<Rightarrow> False | Some c \<Rightarrow>
       c \<in> {''tool_timeout'', ''tool_cancelled'', ''tool_connection_lost'', ''tool_execution_failed'',
            ''tool_orchestrator_error''}) \<and>
    \<not> get_bool_or_false ''definitive_outcome'' (tr_metadata r)"

definition validate_definitive_result :: "tool_result \<Rightarrow> err + unit" where
  "validate_definitive_result r = all_ok
    [ensure (\<not> (tr_status r = RsSuccess \<and> tr_error_code r \<noteq> None)) ''tool_result_invalid'',
     map_err (\<lambda>_. ''deferred_resolution_result_invalid'') (tool_result_validate r),
     ensure (tr_status r = RsSuccess \<or> tr_status r = RsError) ''deferred_resolution_result_invalid'',
     ensure (\<not> is_ambiguous_tool_result r) ''deferred_resolution_result_invalid'']"

section \<open>Operation journal\<close>

record operation_error =
  oe_code :: string
  oe_message :: string
  oe_retryable :: bool

definition operation_error_validate :: "operation_error \<Rightarrow> err + unit" where
  "operation_error_validate e = ensure (\<not> is_blank (oe_code e) \<and> \<not> is_blank (oe_message e)) ''operation_error_invalid''"

definition operation_error_to_value :: "operation_error \<Rightarrow> json" where
  "operation_error_to_value e = object_of
    [(''code'', JStr (oe_code e)), (''message'', JStr (oe_message e)), (''retryable'', JBool (oe_retryable e))]"

definition operation_error_from_value :: "json \<Rightarrow> err + operation_error" where
  "operation_error_from_value v =
    and_then (ok_or (as_object v) ''operation_error_invalid'') (\<lambda>m.
    and_then (ensure (list_all (\<lambda>(k, _). k \<in> {''code'', ''message'', ''retryable''}) m) ''operation_error_invalid'') (\<lambda>_.
    and_then (required_string m ''code'' ''operation_error_invalid'') (\<lambda>code.
    and_then (required_string m ''message'' ''operation_error_invalid'') (\<lambda>message.
    and_then (ok_or (Option.bind (btree_get ''retryable'' m) as_bool) ''operation_error_invalid'') (\<lambda>retryable.
    let e = \<lparr>oe_code = code, oe_message = message, oe_retryable = retryable\<rparr>
    in and_then (operation_error_validate e) (\<lambda>_. Inr e))))))"

text \<open>The typed error that a failed tool result projects to.\<close>

definition operation_error_from_tool_result :: "tool_result \<Rightarrow> operation_error" where
  "operation_error_from_tool_result r =
    \<lparr>oe_code = (case tr_error_code r of
        Some c \<Rightarrow> if c \<noteq> [] then c else ''tool_operation_failed''
      | None \<Rightarrow> ''tool_operation_failed''),
     oe_message = (if tr_content r = [] then ''tool operation failed'' else tr_content r),
     oe_retryable = get_bool_or_false ''retryable'' (tr_metadata r)\<rparr>"

definition DEFERRED_HANDLE_SCHEMA :: string where
  "DEFERRED_HANDLE_SCHEMA = ''vv-agent.deferred-tool-handle.v2''"

definition handle_validate :: "deferred_handle \<Rightarrow> err + unit" where
  "handle_validate h = all_ok
    [ensure (dh_schema_version h = DEFERRED_HANDLE_SCHEMA) ''deferred_handle_schema_unsupported'',
     ensure (\<not> is_blank (dh_checkpoint_key h)) ''deferred_handle_invalid'',
     ensure (\<not> is_blank (dh_operation_id h)) ''deferred_handle_invalid'',
     ensure (dh_attempt h \<noteq> 0 \<and> dh_attempt h \<le> MAX_WIRE_INTEGER) ''deferred_handle_invalid'',
     validate_sha256 (dh_request_digest h)]"

definition observation_validate :: "resume_observation \<Rightarrow> err + unit" where
  "observation_validate ob = all_ok
    [require_non_empty (ro_operation_id ob), require_positive (ro_cycle_index ob),
     ensure (ro_state ob = Ambiguous) ''checkpoint_resume_observation_invalid'',
     require_non_empty (ro_risk ob)]"

record journal_entry =
  oj_kind :: operation_kind
  oj_operation_id :: string
  oj_cycle_index :: u64
  oj_attempt :: u64
  oj_state :: operation_state
  oj_request_digest :: string
  oj_idempotency_key :: "string option"
  oj_identity_key :: "string option"
  oj_result_digest :: "string option"
  oj_response :: "json option"
  oj_error :: "operation_error option"
  oj_tool_call_id :: "string option"
  oj_tool_name :: "string option"
  oj_arguments :: "fields option"
  oj_idempotency_support :: "tool_idempotency option"
  oj_result :: "json option"
  oj_deferred_handle :: "deferred_handle option"
  oj_resume_observation :: "resume_observation option"
  oj_model_operation :: "model_call_operation option"
  oj_backend :: "string option"
  oj_model :: "string option"
  oj_call_id :: "string option"

definition model_entry ::
  "string \<Rightarrow> u64 \<Rightarrow> u64 \<Rightarrow> string \<Rightarrow> model_call_operation \<Rightarrow> string \<Rightarrow> string \<Rightarrow> string \<Rightarrow> journal_entry" where
  "model_entry operation_id cycle_index attempt request_digest model_operation backend model call_id =
    \<lparr>oj_kind = Model, oj_operation_id = operation_id, oj_cycle_index = cycle_index, oj_attempt = attempt,
     oj_state = Planned, oj_request_digest = request_digest, oj_idempotency_key = None,
     oj_identity_key = None, oj_result_digest = None, oj_response = None, oj_error = None,
     oj_tool_call_id = None, oj_tool_name = None, oj_arguments = None, oj_idempotency_support = None,
     oj_result = None, oj_deferred_handle = None, oj_resume_observation = None,
     oj_model_operation = Some model_operation, oj_backend = Some backend, oj_model = Some model,
     oj_call_id = Some call_id\<rparr>"

definition tool_entry ::
  "string \<Rightarrow> u64 \<Rightarrow> u64 \<Rightarrow> string \<Rightarrow> string \<Rightarrow> string \<Rightarrow> fields \<Rightarrow> string option \<Rightarrow> tool_idempotency \<Rightarrow> journal_entry" where
  "tool_entry operation_id cycle_index attempt request_digest tool_call_id tool_name arguments
      idempotency_key idempotency_support =
    \<lparr>oj_kind = Tool, oj_operation_id = operation_id, oj_cycle_index = cycle_index, oj_attempt = attempt,
     oj_state = Planned, oj_request_digest = request_digest, oj_idempotency_key = idempotency_key,
     oj_identity_key = None, oj_result_digest = None, oj_response = None, oj_error = None,
     oj_tool_call_id = Some tool_call_id, oj_tool_name = Some tool_name, oj_arguments = Some arguments,
     oj_idempotency_support = Some idempotency_support, oj_result = None, oj_deferred_handle = None,
     oj_resume_observation = None, oj_model_operation = None, oj_backend = None, oj_model = None,
     oj_call_id = None\<rparr>"

definition some_non_blank :: "string option \<Rightarrow> bool" where
  "some_non_blank x = (case x of None \<Rightarrow> False | Some s \<Rightarrow> \<not> is_blank s)"

definition some_non_empty :: "string option \<Rightarrow> bool" where
  "some_non_empty x = (case x of None \<Rightarrow> False | Some s \<Rightarrow> s \<noteq> [])"

text \<open>The fields that each kind of entry may carry.\<close>

definition kind_fields_validate :: "env \<Rightarrow> journal_entry \<Rightarrow> err + unit" where
  "kind_fields_validate E e =
    (case oj_kind e of
       Model \<Rightarrow> all_ok
         [ensure (oj_identity_key e = None \<and> oj_result_digest e = None \<and> oj_resume_observation e = None)
            ''operation_kind_fields_invalid'',
          ensure (oj_tool_call_id e = None \<and> oj_tool_name e = None \<and> oj_arguments e = None \<and>
            oj_idempotency_support e = None \<and> oj_result e = None \<and> oj_deferred_handle e = None)
            ''operation_kind_fields_invalid'',
          ensure (oj_model_operation e \<noteq> None \<and> some_non_blank (oj_backend e) \<and> some_non_blank (oj_model e) \<and>
            some_non_blank (oj_call_id e)) ''model_identity_invalid'']
     | Tool \<Rightarrow> all_ok
         [ensure (oj_model_operation e = None \<and> oj_backend e = None \<and> oj_model e = None \<and> oj_call_id e = None)
            ''operation_kind_fields_invalid'',
          ensure (some_non_empty (oj_tool_call_id e) \<and> some_non_empty (oj_tool_name e) \<and>
            oj_arguments e \<noteq> None \<and> oj_idempotency_support e \<noteq> None) ''tool_idempotency_key_required'',
          (case oj_idempotency_support e of
             Some Idem_Unsupported \<Rightarrow> ensure (oj_idempotency_key e = None) ''tool_idempotency_key_invalid''
           | _ \<Rightarrow> ensure (some_non_empty (oj_idempotency_key e)) ''tool_idempotency_key_required''),
          ensure (oj_response e = None) ''operation_kind_fields_invalid'',
          ensure (\<not> (oj_state e = Deferred \<and> oj_deferred_handle e = None)) ''operation_deferred_handle_required'',
          ensure (\<not> (oj_state e \<noteq> Deferred \<and> oj_deferred_handle e \<noteq> None)) ''operation_deferred_handle_invalid'',
          (case oj_arguments e of None \<Rightarrow> Inr () | Some m \<Rightarrow> validate_json E (JObj m))])"

text \<open>The receipt of a closed tool operation: canonical, and bound to its digest.\<close>

definition succeeded_validate :: "env \<Rightarrow> journal_entry \<Rightarrow> err + unit" where
  "succeeded_validate E e =
    (let receipt = (case oj_kind e of Model \<Rightarrow> oj_response e \<noteq> None | Tool \<Rightarrow> oj_result e \<noteq> None)
     in all_ok
       [ensure (receipt \<and> oj_error e = None) ''operation_receipt_required'',
        (if oj_kind e = Tool then
           (case oj_result e of
              None \<Rightarrow> Inr ()
            | Some result \<Rightarrow>
                and_then (ensure (oj_identity_key e \<noteq> None \<and> oj_result_digest e \<noteq> None)
                  ''operation_receipt_identity_required'') (\<lambda>_.
                and_then (ok_or (decode_tool_result E result) ''operation_receipt_invalid'') (\<lambda>r.
                and_then (ensure (encode_tool_result E r = result) ''operation_receipt_invalid'') (\<lambda>_.
                and_then (tool_result_digest E r) (\<lambda>d.
                ensure (oj_result_digest e = Some d) ''tool_receipt_digest_invalid'')))))
         else Inr ())])"

definition failed_receipt_validate :: "env \<Rightarrow> journal_entry \<Rightarrow> operation_error \<Rightarrow> err + unit" where
  "failed_receipt_validate E e error =
    and_then (ok_or (oj_result e) ''operation_result_required'') (\<lambda>value.
    and_then (ensure (Option.bind (json_get ''status_code'' value) as_str = Some ''ERROR'')
      ''operation_failed_result_status_invalid'') (\<lambda>_.
    and_then (ok_or (decode_tool_result E value) ''operation_result_invalid'') (\<lambda>r.
    and_then (ensure (encode_tool_result E r = value) ''operation_result_invalid'') (\<lambda>_.
    and_then (ok_or (oj_result_digest e) ''operation_result_digest_required'') (\<lambda>digest.
    and_then (tool_result_digest E r) (\<lambda>expected.
    and_then (ensure (digest = expected) ''operation_result_digest_mismatch'') (\<lambda>_.
    and_then (ensure (error = operation_error_from_tool_result r) ''operation_error_projection_mismatch'') (\<lambda>_.
    if oe_code error = ''tool_outcome_unknown''
    then ensure (oj_resume_observation e \<noteq> None) ''operation_resume_observation_required''
    else ensure (oj_resume_observation e = None) ''operation_resume_observation_forbidden''))))))))"

definition failed_validate :: "env \<Rightarrow> journal_entry \<Rightarrow> err + unit" where
  "failed_validate E e =
    and_then (ensure (oj_error e \<noteq> None \<and> oj_response e = None) ''operation_error_required'') (\<lambda>_.
    case (oj_kind e, oj_error e) of
      (Tool, Some error) \<Rightarrow>
        and_then (ensure (oj_identity_key e \<noteq> None) ''operation_receipt_identity_required'') (\<lambda>_.
        if oe_code error = ''tool_cancelled'' \<and> oj_result e = None
        then all_ok
          [ensure (oj_result_digest e = None) ''operation_closure_receipt_forbidden'',
           ensure (oj_resume_observation e \<noteq> None) ''operation_resume_observation_required'']
        else failed_receipt_validate E e error)
    | _ \<Rightarrow> Inr ())"

definition state_fields_validate :: "env \<Rightarrow> journal_entry \<Rightarrow> err + unit" where
  "state_fields_validate E e =
    (case oj_state e of
       Succeeded \<Rightarrow> succeeded_validate E e
     | Failed \<Rightarrow> failed_validate E e
     | Deferred \<Rightarrow> ensure (oj_result e = None \<and> oj_error e = None \<and> oj_deferred_handle e \<noteq> None \<and>
         oj_identity_key e = None \<and> oj_result_digest e = None \<and> oj_resume_observation e = None)
         ''operation_deferred_invalid''
     | _ \<Rightarrow> ensure (oj_response e = None \<and> oj_result e = None \<and> oj_error e = None \<and>
         oj_identity_key e = None \<and> oj_result_digest e = None \<and> oj_resume_observation e = None)
         ''operation_receipt_unexpected'')"

definition journal_validate :: "env \<Rightarrow> journal_entry \<Rightarrow> err + unit" where
  "journal_validate E e = all_ok
    [ensure (\<not> is_blank (oj_operation_id e)) ''operation_id_invalid'',
     ensure (oj_cycle_index e \<noteq> 0 \<and> oj_cycle_index e \<le> MAX_WIRE_INTEGER) ''operation_cycle_invalid'',
     ensure (oj_attempt e \<noteq> 0 \<and> oj_attempt e \<le> MAX_WIRE_INTEGER) ''operation_attempt_invalid'',
     map_err (\<lambda>_. ''operation_request_digest_invalid'') (validate_sha256 (oj_request_digest e)),
     validate_some (validate_json E) (oj_response e),
     validate_some (validate_json E) (oj_result e),
     validate_some validate_sha256 (oj_identity_key e),
     validate_some validate_sha256 (oj_result_digest e),
     validate_some observation_validate (oj_resume_observation e),
     validate_some (\<lambda>h. all_ok [handle_validate h,
       ensure (oj_kind e = Tool) ''operation_kind_fields_invalid'']) (oj_deferred_handle e),
     validate_some operation_error_validate (oj_error e),
     kind_fields_validate E e,
     state_fields_validate E e]"

section \<open>Event outbox\<close>

record capability_ref =
  cap_id :: string
  cap_version :: string

definition validate_capability_ref :: "capability_ref \<Rightarrow> err + unit" where
  "validate_capability_ref r =
    ensure (\<not> is_blank (cap_id r) \<and> \<not> is_blank (cap_version r)) ''checkpoint_capability_ref_invalid''"

record event_cursor =
  ec_schema_version :: string
  ec_store_ref :: capability_ref
  ec_value :: json
  ec_last_event_id :: "string option"

definition EVENT_CURSOR_SCHEMA :: string where
  "EVENT_CURSOR_SCHEMA = ''vv-agent.event-cursor.v1''"

definition cursor_validate :: "event_cursor \<Rightarrow> err + unit" where
  "cursor_validate c = all_ok
    [ensure (ec_schema_version c = EVENT_CURSOR_SCHEMA) ''checkpoint_event_cursor_schema_unsupported'',
     validate_capability_ref (ec_store_ref c),
     validate_i_json (ec_value c),
     validate_some (\<lambda>s. ensure (\<not> is_blank s) ''checkpoint_event_cursor_invalid'') (ec_last_event_id c)]"

definition cursor_to_value :: "event_cursor \<Rightarrow> json" where
  "cursor_to_value c = object_of
    [(''schema_version'', JStr (ec_schema_version c)),
     (''store_ref'', object_of [(''id'', JStr (cap_id (ec_store_ref c))), (''version'', JStr (cap_version (ec_store_ref c)))]),
     (''value'', ec_value c),
     (''last_event_id'', encode_option JStr (ec_last_event_id c))]"

text \<open>\<open>CapabilityRef::from_dict\<close>: both members are strings and not blank.\<close>

definition capability_ref_from_fields :: "fields \<Rightarrow> capability_ref option" where
  "capability_ref_from_fields m =
    (case (get_str ''id'' m, get_str ''version'' m) of
       (Some i, Some v) \<Rightarrow> if is_blank i \<or> is_blank v then None else Some \<lparr>cap_id = i, cap_version = v\<rparr>
     | _ \<Rightarrow> None)"

definition cursor_from_value :: "json \<Rightarrow> err + event_cursor" where
  "cursor_from_value v =
    (let bad = ''checkpoint_event_cursor_invalid'' in
     and_then (ok_or (as_object v) bad) (\<lambda>m.
     and_then (ensure (exact_fields [''schema_version'', ''store_ref'', ''value'', ''last_event_id''] m) bad) (\<lambda>_.
     and_then (ok_or (get_str ''schema_version'' m) bad) (\<lambda>schema.
     and_then (ok_or (Option.bind (btree_get ''store_ref'' m) as_object) bad) (\<lambda>sm.
     and_then (ensure (exact_fields [''id'', ''version''] sm) bad) (\<lambda>_.
     and_then (ok_or (capability_ref_from_fields sm) bad) (\<lambda>store.
     and_then (ok_or (Option.bind (btree_get ''last_event_id'' m) (decode_option as_str)) bad) (\<lambda>last.
     and_then (ok_or (btree_get ''value'' m) bad) (\<lambda>value.
     let c = \<lparr>ec_schema_version = schema, ec_store_ref = store, ec_value = value, ec_last_event_id = last\<rparr>
     in and_then (cursor_validate c) (\<lambda>_. Inr c))))))))))"

record outbox_entry =
  ob_event_id :: string
  ob_payload_digest :: string
  ob_state :: string
  ob_event :: json
  ob_cursor :: "json option"

definition outbox_validate :: "env \<Rightarrow> outbox_entry \<Rightarrow> err + unit" where
  "outbox_validate E b = all_ok
    [ensure (\<not> is_blank (ob_event_id b)) ''checkpoint_event_outbox_invalid'',
     validate_sha256 (ob_payload_digest b),
     ensure (ob_state b = ''pending'' \<or> ob_state b = ''delivered'') ''checkpoint_event_outbox_invalid'',
     ensure (is_object (ob_event b)) ''checkpoint_event_outbox_invalid'',
     (case decode_event E (ob_event b) of
        None \<Rightarrow> Inl ''checkpoint_event_invalid''
      | Some event \<Rightarrow> all_ok
          [ensure (re_event_id event = ob_event_id b) ''event_identity_conflict'',
           ensure (encode_event E event = Some (ob_event b)) ''checkpoint_event_invalid'']),
     ensure (\<not> (ob_state b = ''pending'' \<and> ob_cursor b \<noteq> None \<or> ob_state b = ''delivered'' \<and> ob_cursor b = None))
       ''checkpoint_event_outbox_invalid'',
     validate_some (\<lambda>c. and_then (cursor_from_value c) (\<lambda>_. Inr ())) (ob_cursor b)]"

definition verify_payload :: "env \<Rightarrow> outbox_entry \<Rightarrow> err + unit" where
  "verify_payload E b =
    and_then (outbox_validate E b) (\<lambda>_.
    and_then (event_payload_digest E (ob_event b)) (\<lambda>d.
    ensure (d = ob_payload_digest b) ''event_identity_conflict''))"

definition pending_entry :: "env \<Rightarrow> string \<Rightarrow> json \<Rightarrow> err + outbox_entry" where
  "pending_entry E event_id event =
    and_then (event_payload_digest E event) (\<lambda>d.
    let b = \<lparr>ob_event_id = event_id, ob_payload_digest = d, ob_state = ''pending'', ob_event = event, ob_cursor = None\<rparr>
    in and_then (outbox_validate E b) (\<lambda>_. Inr b))"

definition outbox_to_value :: "outbox_entry \<Rightarrow> json" where
  "outbox_to_value b = object_of
    [(''event_id'', JStr (ob_event_id b)), (''payload_digest'', JStr (ob_payload_digest b)),
     (''state'', JStr (ob_state b)), (''event'', ob_event b), (''cursor'', encode_option (\<lambda>c. c) (ob_cursor b))]"

definition outbox_from_value :: "env \<Rightarrow> json \<Rightarrow> err + outbox_entry" where
  "outbox_from_value E v =
    (let bad = ''checkpoint_event_outbox_invalid'' in
     and_then (ok_or (as_object v) bad) (\<lambda>m.
     and_then (ensure (exact_fields [''event_id'', ''payload_digest'', ''state'', ''event'', ''cursor''] m) bad) (\<lambda>_.
     and_then (required_string m ''event_id'' bad) (\<lambda>i.
     and_then (required_string m ''payload_digest'' bad) (\<lambda>d.
     and_then (required_string m ''state'' bad) (\<lambda>s.
     and_then (ok_or (btree_get ''event'' m) bad) (\<lambda>event.
     let b = \<lparr>ob_event_id = i, ob_payload_digest = d, ob_state = s, ob_event = event,
           ob_cursor = (case btree_get ''cursor'' m of None \<Rightarrow> None | Some JNull \<Rightarrow> None | Some c \<Rightarrow> Some c)\<rparr>
     in and_then (outbox_validate E b) (\<lambda>_. Inr b))))))))"

text \<open>
  Appending an event whose identity is present already is a replay: the candidate takes over the
  creation time of the retained event and then has to be the same event.
\<close>

definition append_event_outbox_once :: "env \<Rightarrow> outbox_entry list \<Rightarrow> outbox_entry \<Rightarrow> err + outbox_entry list" where
  "append_event_outbox_once E outbox candidate =
    (case find (\<lambda>b. ob_event_id b = ob_event_id candidate) outbox of
       None \<Rightarrow> Inr (outbox @ [candidate])
     | Some existing \<Rightarrow>
         and_then (verify_payload E existing) (\<lambda>_.
         and_then
           (case json_get ''created_at'' (ob_event existing) of
              None \<Rightarrow> Inr candidate
            | Some created_at \<Rightarrow>
                (case as_object (ob_event candidate) of
                   None \<Rightarrow> Inl ''checkpoint_event_invalid''
                 | Some m \<Rightarrow>
                     (let event = JObj (btree_insert ''created_at'' created_at m)
                      in and_then (event_payload_digest E event) (\<lambda>d.
                         let c = candidate\<lparr>ob_event := event, ob_payload_digest := d\<rparr>
                         in and_then (outbox_validate E c) (\<lambda>_. Inr c))))) (\<lambda>c.
         if ob_event existing = ob_event c \<and> ob_payload_digest existing = ob_payload_digest c
         then Inr outbox else Inl ''event_identity_conflict'')))"

section \<open>Host interactions, extensions, history\<close>

record host_request =
  hr_schema_version :: string
  hr_interaction_id :: string
  hr_logical_cycle :: u64
  hr_operation_id :: string
  hr_tool_call_id :: string
  hr_request_digest :: string
  hr_prompt :: string

definition HOST_INTERACTION_REQUEST_SCHEMA :: string where
  "HOST_INTERACTION_REQUEST_SCHEMA = ''vv-agent.host-interaction-request.v1''"

definition host_request_to_value_without_digest :: "host_request \<Rightarrow> json" where
  "host_request_to_value_without_digest r = object_of
    [(''interaction_id'', JStr (hr_interaction_id r)), (''logical_cycle'', json_u64 (hr_logical_cycle r)),
     (''operation_id'', JStr (hr_operation_id r)), (''prompt'', JStr (hr_prompt r)),
     (''schema_version'', JStr (hr_schema_version r)), (''tool_call_id'', JStr (hr_tool_call_id r))]"

text \<open>\<open>computed_digest\<close> removes the digest field from the wire value before it hashes.\<close>

definition host_request_digest :: "env \<Rightarrow> host_request \<Rightarrow> err + string" where
  "host_request_digest E r = sha256_canonical E (host_request_to_value_without_digest r)"

definition host_request_validate :: "env \<Rightarrow> host_request \<Rightarrow> err + unit" where
  "host_request_validate E r = all_ok
    [ensure (hr_schema_version r = HOST_INTERACTION_REQUEST_SCHEMA) ''host_interaction_fields_invalid'',
     all_ok (map (\<lambda>s. ensure (\<not> is_blank s \<and> length s \<le> 512) ''host_interaction_fields_invalid'')
       [hr_interaction_id r, hr_operation_id r, hr_tool_call_id r]),
     ensure (hr_logical_cycle r \<noteq> 0 \<and> hr_logical_cycle r \<le> MAX_WIRE_INTEGER) ''host_interaction_fields_invalid'',
     ensure (\<not> is_blank (hr_prompt r)) ''host_interaction_fields_invalid'',
     ensure (length (hr_prompt r) \<le> 65536) ''host_interaction_content_too_large'',
     map_err (\<lambda>_. ''host_interaction_fields_invalid'') (validate_sha256 (hr_request_digest r)),
     and_then (host_request_digest E r) (\<lambda>d.
       ensure (d = hr_request_digest r) ''host_interaction_fields_invalid'')]"

record suspended_origin =
  so_status :: string
  so_active_host_interaction :: "host_request option"

definition suspended_origin_validate :: "env \<Rightarrow> suspended_origin \<Rightarrow> err + unit" where
  "suspended_origin_validate E x =
    (if so_status x \<in> {''running'', ''deferred''} \<and> so_active_host_interaction x = None then Inr ()
     else case (so_status x = ''host_interaction'', so_active_host_interaction x) of
       (True, Some r) \<Rightarrow> host_request_validate E r
     | _ \<Rightarrow> Inl ''checkpoint_status_invalid'')"

record extension_entry =
  ex_version :: string
  ex_required :: bool
  ex_state :: json

definition extension_validate :: "env \<Rightarrow> extension_entry \<Rightarrow> err + unit" where
  "extension_validate E x = all_ok
    [ensure (\<not> is_blank (ex_version x)) ''checkpoint_extension_state_invalid'', validate_json E (ex_state x)]"

definition extension_to_value :: "extension_entry \<Rightarrow> json" where
  "extension_to_value x = object_of
    [(''version'', JStr (ex_version x)), (''required'', JBool (ex_required x)), (''state'', ex_state x)]"

definition extension_from_value :: "env \<Rightarrow> json \<Rightarrow> err + extension_entry" where
  "extension_from_value E v =
    (let bad = ''checkpoint_extension_state_invalid'' in
     and_then (ok_or (as_object v) bad) (\<lambda>m.
     and_then (ensure (exact_fields [''version'', ''required'', ''state''] m) bad) (\<lambda>_.
     and_then (required_string m ''version'' bad) (\<lambda>ver.
     and_then (ok_or (Option.bind (btree_get ''required'' m) as_bool) bad) (\<lambda>req.
     and_then (ok_or (btree_get ''state'' m) bad) (\<lambda>st.
     let x = \<lparr>ex_version = ver, ex_required = req, ex_state = st\<rparr>
     in and_then (extension_validate E x) (\<lambda>_. Inr x)))))))"

text \<open>The loop of \<open>validate_extension_state_size\<close>, with the running total of bytes.\<close>

fun extension_size :: "env \<Rightarrow> (string \<times> extension_entry) list \<Rightarrow> u64 \<Rightarrow> err + u64" where
  "extension_size E [] tot = Inr tot"
| "extension_size E ((_, x) # xs) tot =
     and_then (canonical_json_bytes E (extension_to_value x)) (\<lambda>bytes.
     and_then (ensure (length bytes \<le> 65536) ''checkpoint_extension_entry_too_large'') (\<lambda>_.
     and_then (ok_or (checked_add tot (length bytes)) ''checkpoint_extension_state_too_large'')
       (extension_size E xs)))"

definition validate_extension_state_size :: "env \<Rightarrow> (string, extension_entry) btree \<Rightarrow> u64 \<Rightarrow> err + unit" where
  "validate_extension_state_size E xs max_total =
    and_then (extension_size E xs 0) (\<lambda>tot. ensure (tot \<le> max_total) ''checkpoint_extension_state_too_large'')"

record previous_input =
  pi_cycle_index :: u32
  pi_input_tokens :: "u64 option"

record history =
  hi_sequence :: u64
  hi_cycle_count :: u64
  hi_model_call_count :: u64
  hi_head_digest :: "string option"
  hi_usage :: usage_totals
  hi_previous_agent_input :: "previous_input option"

definition default_history :: history where
  "default_history = \<lparr>hi_sequence = 0, hi_cycle_count = 0, hi_model_call_count = 0, hi_head_digest = None,
     hi_usage = default_totals, hi_previous_agent_input = None\<rparr>"

definition history_validate :: "history \<Rightarrow> err + unit" where
  "history_validate h =
    (let bad = ''checkpoint_history_invalid'' in all_ok
      [ensure (hi_sequence h \<le> MAX_WIRE_INTEGER \<and> hi_cycle_count h \<le> MAX_WIRE_INTEGER \<and>
         hi_model_call_count h \<le> MAX_WIRE_INTEGER \<and> (hi_sequence h = 0) = (hi_head_digest h = None)) bad,
       validate_some validate_sha256 (hi_head_digest h),
       ensure (\<not> (hi_sequence h = 0 \<and> h \<noteq> default_history)) bad,
       ensure (\<not> (hi_sequence h > 0 \<and> hi_cycle_count h + hi_model_call_count h = 0)) bad,
       ensure (cu_source (to_cache_usage (hi_usage h)) = Some ''aggregate'') bad,
       all_ok (map (validate_some (\<lambda>n. ensure (n \<le> MAX_WIRE_INTEGER) bad))
         [to_input_tokens (hi_usage h), to_output_tokens (hi_usage h), to_total_tokens (hi_usage h),
          to_reasoning_tokens (hi_usage h), Option.bind (hi_previous_agent_input h) pi_input_tokens]),
       validate_some (\<lambda>p. ensure (pi_cycle_index p \<noteq> 0) bad) (hi_previous_agent_input h)])"

section \<open>The checkpoint\<close>

record checkpoint =
  cp_schema_version :: string
  cp_run_definition_schema :: string
  cp_run_definition :: json
  cp_key :: string
  cp_task_id :: string
  cp_root_run_id :: string
  cp_trace_id :: string
  cp_run_definition_digest :: string
  cp_resume_attempt :: u64
  cp_cycle_index :: u64
  cp_status :: checkpoint_status
  cp_cancel_requested :: bool
  cp_active_host_interaction :: "host_request option"
  cp_suspended_origin :: "suspended_origin option"
  cp_messages :: "message list"
  cp_cycles :: "cycle_record list"
  cp_model_calls :: "model_call list"
  cp_history :: history
  cp_shared_state :: fields
  cp_budget_usage :: "usage_snapshot option"
  cp_event_cursor :: "event_cursor option"
  cp_event_outbox :: "outbox_entry list"
  cp_extension_state :: "(string, extension_entry) btree"
  cp_model_call_journal :: "journal_entry list"
  cp_tool_journal :: "journal_entry list"
  cp_revision :: u64
  cp_claim_token :: "string option"
  cp_claimed_cycle :: "u64 option"
  cp_lease_expires_at_ms :: "u64 option"
  cp_terminal_result :: "json option"
  cp_terminal_acknowledged :: bool

definition CHECKPOINT_SCHEMA :: string where
  "CHECKPOINT_SCHEMA = ''vv-agent.checkpoint.v12''"

definition RUN_DEFINITION_SCHEMA :: string where
  "RUN_DEFINITION_SCHEMA = ''vv-agent.run-definition.v5''"

definition default_checkpoint :: checkpoint where
  "default_checkpoint = \<lparr>cp_schema_version = CHECKPOINT_SCHEMA, cp_run_definition_schema = RUN_DEFINITION_SCHEMA,
     cp_run_definition = JObj [], cp_key = [], cp_task_id = [], cp_root_run_id = [], cp_trace_id = [],
     cp_run_definition_digest = [], cp_resume_attempt = 1, cp_cycle_index = 0, cp_status = StRunning,
     cp_cancel_requested = False, cp_active_host_interaction = None, cp_suspended_origin = None,
     cp_messages = [], cp_cycles = [], cp_model_calls = [], cp_history = default_history,
     cp_shared_state = [], cp_budget_usage = None, cp_event_cursor = None, cp_event_outbox = [],
     cp_extension_state = [], cp_model_call_journal = [], cp_tool_journal = [], cp_revision = 0,
     cp_claim_token = None, cp_claimed_cycle = None, cp_lease_expires_at_ms = None,
     cp_terminal_result = None, cp_terminal_acknowledged = False\<rparr>"

definition journal_entries :: "checkpoint \<Rightarrow> journal_entry list" where
  "journal_entries c = cp_model_call_journal c @ cp_tool_journal c"

definition has_ambiguous_operation :: "checkpoint \<Rightarrow> bool" where
  "has_ambiguous_operation c = list_ex (\<lambda>e. oj_state e = Ambiguous) (journal_entries c)"

definition active_cycle :: "checkpoint \<Rightarrow> err + u64" where
  "active_cycle c =
    (case (case cp_claimed_cycle c of Some n \<Rightarrow> Some n | None \<Rightarrow> checked_add (cp_cycle_index c) 1) of
       None \<Rightarrow> Inl ''checkpoint_cycle_invalid''
     | Some n \<Rightarrow> if n = 0 \<or> n > MAX_WIRE_INTEGER then Inl ''checkpoint_cycle_invalid'' else Inr n)"

end
