(* ===== verification/Operation_Journal.thy ===== *)
theory Operation_Journal
  imports Checkpoint_Types
begin

text \<open>
  The journal of external operations (\<open>runtime/state/journal.rs\<close>): the life cycle of an entry, its
  wire form, and the wire forms of the values an entry carries (\<open>checkpoint.rs\<close>,
  \<open>checkpoint/deferred.rs\<close>). An entry is planned, started, and closed by a receipt; an operation
  that was started and whose outcome is not known is ambiguous until it is retried, closed or handed
  over to a deferred provider.
\<close>

section \<open>Wire forms\<close>

definition idempotency_name :: "tool_idempotency \<Rightarrow> string" where
  "idempotency_name t = (case t of Idem_Supported \<Rightarrow> ''supported'' | Idem_Unsupported \<Rightarrow> ''unsupported''
     | Idem_Unknown \<Rightarrow> ''unknown'')"

definition kind_name :: "operation_kind \<Rightarrow> string" where
  "kind_name k = (case k of Model \<Rightarrow> ''model'' | Tool \<Rightarrow> ''tool'')"

definition state_name :: "operation_state \<Rightarrow> string" where
  "state_name s = (case s of Planned \<Rightarrow> ''planned'' | Started \<Rightarrow> ''started'' | Deferred \<Rightarrow> ''deferred''
     | Succeeded \<Rightarrow> ''succeeded'' | Failed \<Rightarrow> ''failed'' | Ambiguous \<Rightarrow> ''ambiguous'')"

definition observation_to_value :: "resume_observation \<Rightarrow> json" where
  "observation_to_value ob = object_of
    [(''operation_id'', JStr (ro_operation_id ob)), (''operation_kind'', JStr (kind_name (ro_operation_kind ob))),
     (''cycle_index'', json_u64 (ro_cycle_index ob)), (''state'', JStr (state_name (ro_state ob))),
     (''risk'', JStr (ro_risk ob)),
     (''idempotency_support'', encode_option (\<lambda>t. JStr (idempotency_name t)) (ro_idempotency_support ob))]"

definition decode_idempotency :: "json \<Rightarrow> tool_idempotency option" where
  "decode_idempotency v =
    Option.bind (unit_variant v) (\<lambda>n. find (\<lambda>t. idempotency_name t = n) [Idem_Supported, Idem_Unsupported, Idem_Unknown])"

definition decode_kind :: "json \<Rightarrow> operation_kind option" where
  "decode_kind v = Option.bind (unit_variant v) (\<lambda>n. find (\<lambda>k. kind_name k = n) [Model, Tool])"

definition decode_state :: "json \<Rightarrow> operation_state option" where
  "decode_state v =
    Option.bind (unit_variant v) (\<lambda>n. find (\<lambda>s. state_name s = n)
      [Planned, Started, Deferred, Succeeded, Failed, Ambiguous])"

text \<open>
  The derived reader of \<open>ResumeObservation\<close>. An object may omit the one optional member; an array
  has one element per member.
\<close>

definition observation_members :: "string list" where
  "observation_members = [''operation_id'', ''operation_kind'', ''cycle_index'', ''state'', ''risk'', ''idempotency_support'']"

fun observation_values :: "json \<Rightarrow> json list option" where
  "observation_values (JObj m) =
     (if list_all (\<lambda>(k, _). k \<in> set observation_members) m
      then those (map (\<lambda>k. if k = ''idempotency_support'' \<and> btree_get k m = None then Some JNull else btree_get k m)
        observation_members)
      else None)"
| "observation_values (JArr xs) = (if length xs = 6 then Some xs else None)"
| "observation_values _ = None"

definition observation_from_value :: "json \<Rightarrow> resume_observation option" where
  "observation_from_value v =
    (case observation_values v of
       Some [i, k, cy, st, ri, su] \<Rightarrow>
         Option.bind (as_str i) (\<lambda>i.
         Option.bind (decode_kind k) (\<lambda>k.
         Option.bind (as_u64 cy) (\<lambda>cy.
         Option.bind (decode_state st) (\<lambda>st.
         Option.bind (as_str ri) (\<lambda>ri.
         Option.bind (decode_option decode_idempotency su) (\<lambda>su.
           Some \<lparr>ro_operation_id = i, ro_operation_kind = k, ro_cycle_index = cy, ro_state = st, ro_risk = ri,
             ro_idempotency_support = su\<rparr>))))))
     | _ \<Rightarrow> None)"

definition handle_to_value :: "deferred_handle \<Rightarrow> json" where
  "handle_to_value h = object_of
    [(''schema_version'', JStr (dh_schema_version h)), (''checkpoint_key'', JStr (dh_checkpoint_key h)),
     (''operation_id'', JStr (dh_operation_id h)), (''attempt'', json_u64 (dh_attempt h)),
     (''request_digest'', JStr (dh_request_digest h))]"

definition handle_from_value :: "json \<Rightarrow> err + deferred_handle" where
  "handle_from_value v =
    (let bad = ''deferred_handle_invalid'';
         names = [''schema_version'', ''checkpoint_key'', ''operation_id'', ''attempt'', ''request_digest'']
     in and_then (ok_or (as_object v) bad) (\<lambda>m.
     and_then (ensure (get_str ''schema_version'' m = Some DEFERRED_HANDLE_SCHEMA) ''deferred_handle_schema_unsupported'') (\<lambda>_.
     and_then (ensure (list_all (\<lambda>(k, _). k \<in> set names) m) ''deferred_handle_unknown_field'') (\<lambda>_.
     and_then (ensure (list_all (\<lambda>k. btree_contains k m) names) bad) (\<lambda>_.
     and_then (required_string m ''checkpoint_key'' bad) (\<lambda>key.
     and_then (required_string m ''operation_id'' bad) (\<lambda>operation_id.
     and_then (ok_or (Option.bind (btree_get ''attempt'' m) as_u64) bad) (\<lambda>attempt.
     and_then (required_string m ''request_digest'' bad) (\<lambda>digest.
     let h = \<lparr>dh_schema_version = DEFERRED_HANDLE_SCHEMA, dh_checkpoint_key = key, dh_operation_id = operation_id,
           dh_attempt = attempt, dh_request_digest = digest\<rparr>
     in and_then (handle_validate h) (\<lambda>_. Inr h))))))))))"

definition CHECKPOINT_RENEWAL_SCHEMA :: string where
  "CHECKPOINT_RENEWAL_SCHEMA = ''vv-agent.checkpoint-renewal.v1''"

fun renewal_to_value :: "renewal_outcome \<Rightarrow> json" where
  "renewal_to_value (Renewed lease) = object_of
    [(''schema_version'', JStr CHECKPOINT_RENEWAL_SCHEMA), (''outcome'', JStr ''renewed''), (''lease_expires_at_ms'', json_u64 lease)]"
| "renewal_to_value (CancelRequested lease) = object_of
    [(''schema_version'', JStr CHECKPOINT_RENEWAL_SCHEMA), (''outcome'', JStr ''cancel_requested''),
     (''lease_expires_at_ms'', json_u64 lease)]"
| "renewal_to_value (ClaimLost revision) = object_of
    [(''schema_version'', JStr CHECKPOINT_RENEWAL_SCHEMA), (''outcome'', JStr ''claim_lost''), (''revision'', json_u64 revision)]"

definition renewal_integer :: "fields \<Rightarrow> string \<Rightarrow> err + u64" where
  "renewal_integer m k =
    and_then (ok_or (Option.bind (btree_get k m) as_u64) ''checkpoint_renewal_invalid'') (\<lambda>n.
    and_then (ensure (n \<le> MAX_WIRE_INTEGER) ''checkpoint_renewal_invalid'') (\<lambda>_. Inr n))"

definition renewal_from_value :: "json \<Rightarrow> err + renewal_outcome" where
  "renewal_from_value v =
    (let bad = ''checkpoint_renewal_invalid'';
         names = (\<lambda>k. [''schema_version'', ''outcome'', k])
     in and_then (ok_or (as_object v) bad) (\<lambda>m.
     and_then (required_string m ''outcome'' bad) (\<lambda>outcome.
     and_then (required_string m ''schema_version'' bad) (\<lambda>schema.
     and_then (ensure (schema = CHECKPOINT_RENEWAL_SCHEMA) ''checkpoint_renewal_schema_unsupported'') (\<lambda>_.
     if outcome \<in> {''renewed'', ''cancel_requested''}
     then and_then (ensure (exact_fields (names ''lease_expires_at_ms'') m) bad) (\<lambda>_.
          and_then (renewal_integer m ''lease_expires_at_ms'') (\<lambda>lease.
          Inr (if outcome = ''renewed'' then Renewed lease else CancelRequested lease)))
     else if outcome = ''claim_lost''
     then and_then (ensure (exact_fields (names ''revision'') m) bad) (\<lambda>_.
          and_then (renewal_integer m ''revision'') (\<lambda>revision. Inr (ClaimLost revision)))
     else Inl bad)))))"

text \<open>
  The members of an entry: those every entry has, those that are left out when they are absent, and
  those of its kind. An entry of a model call has an operation, which validation guarantees.
\<close>

definition present :: "string \<Rightarrow> json option \<Rightarrow> (string \<times> json) list" where
  "present k x = (case x of None \<Rightarrow> [] | Some v \<Rightarrow> [(k, v)])"

definition journal_members :: "journal_entry \<Rightarrow> (string \<times> json) list" where
  "journal_members e =
    [(''kind'', JStr (kind_name (oj_kind e))), (''operation_id'', JStr (oj_operation_id e)),
     (''cycle_index'', json_u64 (oj_cycle_index e)), (''attempt'', json_u64 (oj_attempt e)),
     (''state'', JStr (state_name (oj_state e))), (''request_digest'', JStr (oj_request_digest e)),
     (''idempotency_key'', encode_option JStr (oj_idempotency_key e))] @
    present ''identity_key'' (map_option JStr (oj_identity_key e)) @
    present ''result_digest'' (map_option JStr (oj_result_digest e)) @
    (case oj_kind e of
       Model \<Rightarrow>
         [(''response'', encode_option (\<lambda>v. v) (oj_response e)),
          (''model_operation'', encode_option (\<lambda>x. JStr (operation_name x)) (oj_model_operation e)),
          (''backend'', encode_option JStr (oj_backend e)), (''model'', encode_option JStr (oj_model e)),
          (''call_id'', encode_option JStr (oj_call_id e))]
     | Tool \<Rightarrow>
         [(''tool_call_id'', encode_option JStr (oj_tool_call_id e)), (''tool_name'', encode_option JStr (oj_tool_name e)),
          (''arguments'', encode_option JObj (oj_arguments e)),
          (''idempotency_support'', encode_option (\<lambda>t. JStr (idempotency_name t)) (oj_idempotency_support e)),
          (''result'', encode_option (\<lambda>v. v) (oj_result e))] @
         present ''deferred_handle'' (map_option handle_to_value (oj_deferred_handle e)) @
         present ''resume_observation'' (map_option observation_to_value (oj_resume_observation e))) @
    [(''error'', encode_option operation_error_to_value (oj_error e))]"

definition journal_to_value :: "journal_entry \<Rightarrow> json" where
  "journal_to_value e = object_of (journal_members e)"

definition optional_string :: "fields \<Rightarrow> string \<Rightarrow> err + string option" where
  "optional_string m k =
    (case btree_get k m of
       None \<Rightarrow> Inr None
     | Some JNull \<Rightarrow> Inr None
     | Some (JStr s) \<Rightarrow> Inr (Some s)
     | Some _ \<Rightarrow> Inl ''operation_kind_fields_invalid'')"

text \<open>\<open>object.get(k).filter(|v| !v.is_null())\<close>, and the same followed by a reader and \<open>transpose\<close>.\<close>

definition non_null :: "fields \<Rightarrow> string \<Rightarrow> json option" where
  "non_null m k = (case btree_get k m of None \<Rightarrow> None | Some v \<Rightarrow> if v = JNull then None else Some v)"

definition optional_with :: "fields \<Rightarrow> string \<Rightarrow> (json \<Rightarrow> err + 'a) \<Rightarrow> err + 'a option" where
  "optional_with m k f = (case non_null m k of None \<Rightarrow> Inr None | Some v \<Rightarrow> and_then (f v) (\<lambda>a. Inr (Some a)))"

definition journal_fields :: "string list" where
  "journal_fields = [''kind'', ''operation_id'', ''cycle_index'', ''attempt'', ''request_digest'', ''tool_call_id'',
     ''tool_name'', ''arguments'', ''idempotency_key'', ''identity_key'', ''result_digest'', ''idempotency_support'',
     ''state'', ''response'', ''result'', ''error'', ''deferred_handle'', ''resume_observation'',
     ''model_operation'', ''backend'', ''model'', ''call_id'']"

definition journal_from_fields :: "fields \<Rightarrow> err + journal_entry" where
  "journal_from_fields m =
    (let bad = ''operation_journal_invalid'' in
     and_then (ok_or (Option.bind (btree_get ''kind'' m) decode_kind) bad) (\<lambda>kind.
     and_then (ok_or (Option.bind (btree_get ''state'' m) decode_state) bad) (\<lambda>state.
     and_then (required_string m ''operation_id'' bad) (\<lambda>operation_id.
     and_then (ok_or (Option.bind (btree_get ''cycle_index'' m) as_u64) ''operation_cycle_invalid'') (\<lambda>cycle_index.
     and_then (ok_or (Option.bind (btree_get ''attempt'' m) as_u64) ''operation_attempt_invalid'') (\<lambda>attempt.
     and_then (required_string m ''request_digest'' ''operation_request_digest_invalid'') (\<lambda>request_digest.
     and_then (optional_string m ''idempotency_key'') (\<lambda>idempotency_key.
     and_then (optional_string m ''identity_key'') (\<lambda>identity_key.
     and_then (optional_string m ''result_digest'') (\<lambda>result_digest.
     and_then (optional_with m ''error'' operation_error_from_value) (\<lambda>error.
     and_then (optional_string m ''tool_call_id'') (\<lambda>tool_call_id.
     and_then (optional_string m ''tool_name'') (\<lambda>tool_name.
     and_then (optional_with m ''arguments'' (\<lambda>v. ok_or (as_object v) ''operation_kind_fields_invalid'')) (\<lambda>arguments.
     and_then (optional_with m ''idempotency_support''
       (\<lambda>v. ok_or (decode_idempotency v) ''operation_kind_fields_invalid'')) (\<lambda>support.
     and_then (optional_with m ''deferred_handle''
       (\<lambda>v. map_err (\<lambda>_. ''operation_deferred_handle_invalid'') (handle_from_value v))) (\<lambda>handle.
     and_then (optional_with m ''resume_observation''
       (\<lambda>v. ok_or (observation_from_value v) ''operation_resume_observation_invalid'')) (\<lambda>observation.
     and_then (optional_with m ''model_operation'' (\<lambda>v. ok_or (decode_operation v) ''model_identity_invalid'')) (\<lambda>operation.
     and_then (optional_string m ''backend'') (\<lambda>backend.
     and_then (optional_string m ''model'') (\<lambda>model.
     and_then (optional_string m ''call_id'') (\<lambda>call_id.
     Inr \<lparr>oj_kind = kind, oj_operation_id = operation_id, oj_cycle_index = cycle_index, oj_attempt = attempt,
       oj_state = state, oj_request_digest = request_digest, oj_idempotency_key = idempotency_key,
       oj_identity_key = identity_key, oj_result_digest = result_digest, oj_response = non_null m ''response'',
       oj_error = error, oj_tool_call_id = tool_call_id, oj_tool_name = tool_name, oj_arguments = arguments,
       oj_idempotency_support = support, oj_result = non_null m ''result'', oj_deferred_handle = handle,
       oj_resume_observation = observation, oj_model_operation = operation, oj_backend = backend,
       oj_model = model, oj_call_id = call_id\<rparr>)))))))))))))))))))))"

definition journal_from_value :: "env \<Rightarrow> json \<Rightarrow> err + journal_entry" where
  "journal_from_value E v =
    and_then (ok_or (as_object v) ''operation_journal_invalid'') (\<lambda>m.
    and_then (ensure (list_all (\<lambda>(k, _). k \<in> set journal_fields) m) ''operation_entry_unknown_field'') (\<lambda>_.
    and_then (journal_from_fields m) (\<lambda>e.
    and_then (journal_validate E e) (\<lambda>_. Inr e))))"

section \<open>The life cycle of an entry\<close>

fun transition_allowed :: "operation_state \<Rightarrow> operation_state \<Rightarrow> bool" where
  "transition_allowed Planned next = (next \<in> {Failed, Started})"
| "transition_allowed Started next = (next \<in> {Succeeded, Failed, Ambiguous, Deferred})"
| "transition_allowed Ambiguous next = (next \<in> {Planned, Succeeded, Failed, Deferred})"
| "transition_allowed Deferred next = (next \<in> {Succeeded, Failed})"
| "transition_allowed _ next = False"

text \<open>The entry after the call, and the value that the call returns; an entry that fails validation has moved.\<close>

definition transition_to :: "env \<Rightarrow> operation_state \<Rightarrow> journal_entry \<Rightarrow> journal_entry \<times> (err + unit)" where
  "transition_to E next e =
    (if \<not> transition_allowed (oj_state e) next then (e, Inl ''operation_transition_invalid'')
     else let e' = e\<lparr>oj_state := next\<rparr> in (e', journal_validate E e'))"

definition journal_retry :: "env \<Rightarrow> journal_entry \<Rightarrow> journal_entry \<times> (err + unit)" where
  "journal_retry E e =
    (if oj_state e \<noteq> Ambiguous then (e, Inl ''operation_transition_invalid'')
     else case checked_add (oj_attempt e) 1 of
       None \<Rightarrow> (e, Inl ''operation_attempt_invalid'')
     | Some attempt \<Rightarrow>
         (let e' = e\<lparr>oj_attempt := attempt,
                oj_call_id := (if oj_kind e = Model then Some (oj_operation_id e @ '':attempt:'' @ decimal attempt) else oj_call_id e),
                oj_state := Planned\<rparr>
          in (e', journal_validate E e')))"

definition mark_ambiguous :: "env \<Rightarrow> journal_entry \<Rightarrow> journal_entry \<times> (err + unit)" where
  "mark_ambiguous E e = transition_to E Ambiguous e"

section \<open>Round trips\<close>

lemma decode_kind_name [simp]: "decode_kind (JStr (kind_name k)) = Some k"
  by (cases k) (simp_all add: decode_kind_def kind_name_def)

lemma decode_state_name [simp]: "decode_state (JStr (state_name s)) = Some s"
  by (cases s) (simp_all add: decode_state_def state_name_def)

lemma decode_idempotency_name [simp]: "decode_idempotency (JStr (idempotency_name t)) = Some t"
  by (cases t) (simp_all add: decode_idempotency_def idempotency_name_def)

declare decode_operation_name [simp]

lemma decode_option_idempotency [simp]:
  "decode_option decode_idempotency (encode_option (\<lambda>t. JStr (idempotency_name t)) x) = Some x"
  by (rule decode_encode_option) simp

lemma exact_fields_object:
  assumes "distinct (map fst kvs)" and "names = map fst kvs"
  shows "exact_fields names (btree_collect kvs)"
proof -
  have "list_all (\<lambda>k. btree_contains k (btree_collect kvs)) names"
    using assms by (auto simp: list_all_iff btree_contains_def btree_get_object weak_map_of_SomeI)
  then show ?thesis using assms by (simp add: exact_fields_def length_btree_collect)
qed

lemma operation_error_roundtrip:
  assumes "operation_error_validate e = Inr ()"
  shows "operation_error_from_value (operation_error_to_value e) = Inr e"
proof -
  let ?kvs = "[(''code'', JStr (oe_code e)), (''message'', JStr (oe_message e)), (''retryable'', JBool (oe_retryable e))]"
  have keys: "list_all (\<lambda>(k, _). k \<in> {''code'', ''message'', ''retryable''}) (btree_collect ?kvs)"
    by (rule list_all_collect_keys) auto
  have e: "\<lparr>oe_code = oe_code e, oe_message = oe_message e, oe_retryable = oe_retryable e\<rparr> = e"
    by simp
  show ?thesis
    using assms keys
    by (simp add: operation_error_from_value_def operation_error_to_value_def object_of_def required_string_def
        get_str_def btree_get_object Let_def e)
qed

lemma handle_roundtrip:
  assumes "handle_validate h = Inr ()"
  shows "handle_from_value (handle_to_value h) = Inr h"
proof -
  let ?kvs = "[(''schema_version'', JStr (dh_schema_version h)), (''checkpoint_key'', JStr (dh_checkpoint_key h)),
     (''operation_id'', JStr (dh_operation_id h)), (''attempt'', json_u64 (dh_attempt h)),
     (''request_digest'', JStr (dh_request_digest h))]"
  let ?names = "[''schema_version'', ''checkpoint_key'', ''operation_id'', ''attempt'', ''request_digest'']"
  have keys: "list_all (\<lambda>(k, _). k \<in> set ?names) (btree_collect ?kvs)"
    by (rule list_all_collect_keys) auto
  have schema: "dh_schema_version h = DEFERRED_HANDLE_SCHEMA"
    using assms by (simp add: handle_validate_def and_then_Inr_iff)
  have h: "\<lparr>dh_schema_version = DEFERRED_HANDLE_SCHEMA, dh_checkpoint_key = dh_checkpoint_key h,
      dh_operation_id = dh_operation_id h, dh_attempt = dh_attempt h, dh_request_digest = dh_request_digest h\<rparr> = h"
    using schema by simp
  show ?thesis
    using assms keys schema
    by (simp add: handle_from_value_def handle_to_value_def object_of_def required_string_def
        get_str_def btree_get_object btree_contains_def Let_def h)
qed

lemma observation_roundtrip: "observation_from_value (observation_to_value ob) = Some ob"
proof -
  let ?kvs = "[(''operation_id'', JStr (ro_operation_id ob)), (''operation_kind'', JStr (kind_name (ro_operation_kind ob))),
     (''cycle_index'', json_u64 (ro_cycle_index ob)), (''state'', JStr (state_name (ro_state ob))),
     (''risk'', JStr (ro_risk ob)),
     (''idempotency_support'', encode_option (\<lambda>t. JStr (idempotency_name t)) (ro_idempotency_support ob))]"
  have keys: "list_all (\<lambda>(k, _). k \<in> set observation_members) (btree_collect ?kvs)"
    by (rule list_all_collect_keys) (auto simp: observation_members_def)
  have vals: "observation_values (observation_to_value ob) = Some (map snd ?kvs)"
    using keys by (simp add: observation_to_value_def object_of_def btree_get_object observation_members_def)
  show ?thesis
    unfolding observation_from_value_def vals by simp
qed

lemma map_of_present [simp]:
  "map_of (present k x @ ys) q = (if q = k \<and> x \<noteq> None then x else map_of ys q)"
  by (cases x) (simp_all add: present_def)

lemma fst_present [simp]: "map fst (present k x) = (if x = None then [] else [k])"
  by (cases x) (simp_all add: present_def)

lemma journal_members_distinct: "distinct (map fst (journal_members e))"
  by (cases "oj_kind e") (simp_all add: journal_members_def)

lemma journal_members_keys: "fst ` set (journal_members e) \<subseteq> set journal_fields"
proof -
  have "set (map fst (journal_members e)) \<subseteq> set journal_fields"
    by (cases "oj_kind e") (simp_all add: journal_members_def journal_fields_def)
  then show ?thesis by simp
qed

lemma optional_string_encoded: "btree_get k m = Some (encode_option JStr x) \<Longrightarrow> optional_string m k = Inr x"
  by (cases x) (simp_all add: optional_string_def encode_option_def)

lemma optional_string_present: "btree_get k m = map_option JStr x \<Longrightarrow> optional_string m k = Inr x"
  by (cases x) (simp_all add: optional_string_def)

lemma non_null_encoded:
  "btree_get k m = Some (encode_option f x) \<Longrightarrow> opt_all (\<lambda>a. f a \<noteq> JNull) x \<Longrightarrow> non_null m k = map_option f x"
  by (cases x) (simp_all add: non_null_def encode_option_def)

lemma non_null_present:
  "btree_get k m = map_option f x \<Longrightarrow> opt_all (\<lambda>a. f a \<noteq> JNull) x \<Longrightarrow> non_null m k = map_option f x"
  by (cases x) (simp_all add: non_null_def)

lemma optional_with_map:
  "non_null m k = map_option f x \<Longrightarrow> opt_all (\<lambda>a. d (f a) = Inr a) x \<Longrightarrow> optional_with m k d = Inr x"
  by (cases x) (simp_all add: optional_with_def)


lemma journal_common_fields:
  fixes e :: journal_entry
  defines "m \<equiv> btree_collect (journal_members e)"
  shows "Option.bind (btree_get ''kind'' m) decode_kind = Some (oj_kind e)"
    and "Option.bind (btree_get ''state'' m) decode_state = Some (oj_state e)"
    and "get_str ''operation_id'' m = Some (oj_operation_id e)"
    and "Option.bind (btree_get ''cycle_index'' m) as_u64 = Some (oj_cycle_index e)"
    and "Option.bind (btree_get ''attempt'' m) as_u64 = Some (oj_attempt e)"
    and "get_str ''request_digest'' m = Some (oj_request_digest e)"
    and "optional_string m ''idempotency_key'' = Inr (oj_idempotency_key e)"
    and "optional_string m ''identity_key'' = Inr (oj_identity_key e)"
    and "optional_string m ''result_digest'' = Inr (oj_result_digest e)"
    and "opt_all (\<lambda>x. operation_error_validate x = Inr ()) (oj_error e) \<Longrightarrow>
      optional_with m ''error'' operation_error_from_value = Inr (oj_error e)"
proof -
  have g: "btree_get k m = map_of (journal_members e) k" for k
    unfolding m_def by (rule btree_get_object [OF journal_members_distinct])
  show "Option.bind (btree_get ''kind'' m) decode_kind = Some (oj_kind e)"
    "Option.bind (btree_get ''state'' m) decode_state = Some (oj_state e)"
    "get_str ''operation_id'' m = Some (oj_operation_id e)"
    "Option.bind (btree_get ''cycle_index'' m) as_u64 = Some (oj_cycle_index e)"
    "Option.bind (btree_get ''attempt'' m) as_u64 = Some (oj_attempt e)"
    "get_str ''request_digest'' m = Some (oj_request_digest e)"
    by (simp_all del: map_of_append add: g journal_members_def get_str_def)
  show "optional_string m ''idempotency_key'' = Inr (oj_idempotency_key e)"
    by (rule optional_string_encoded) (simp del: map_of_append add: g journal_members_def)
  show "optional_string m ''identity_key'' = Inr (oj_identity_key e)"
    "optional_string m ''result_digest'' = Inr (oj_result_digest e)"
    by (rule optional_string_present; cases "oj_kind e"; simp del: map_of_append add: g journal_members_def)+
  have err: "btree_get ''error'' m = Some (encode_option operation_error_to_value (oj_error e))"
    by (cases "oj_kind e") (simp_all del: map_of_append add: g journal_members_def)
  have nn: "non_null m ''error'' = map_option operation_error_to_value (oj_error e)"
    by (rule non_null_encoded [OF err]) (simp add: opt_all_def operation_error_to_value_def object_of_def split: option.splits)
  show "optional_with m ''error'' operation_error_from_value = Inr (oj_error e)"
    if "opt_all (\<lambda>x. operation_error_validate x = Inr ()) (oj_error e)"
    by (rule optional_with_map [OF nn]) (use that in \<open>cases "oj_error e"; simp add: operation_error_roundtrip\<close>)
qed

lemma optional_string_absent: "btree_get k m = None \<Longrightarrow> optional_string m k = Inr None"
  by (simp add: optional_string_def)

lemma optional_with_absent: "btree_get k m = None \<Longrightarrow> optional_with m k d = Inr None"
  by (simp add: optional_with_def non_null_def)

lemma optional_with_encoded:
  assumes "btree_get k m = Some (encode_option f x)"
    and "opt_all (\<lambda>a. f a \<noteq> JNull) x" and "opt_all (\<lambda>a. d (f a) = Inr a) x"
  shows "optional_with m k d = Inr x"
  using optional_with_map [OF non_null_encoded] assms .

lemma optional_with_present:
  assumes "btree_get k m = map_option f x"
    and "opt_all (\<lambda>a. f a \<noteq> JNull) x" and "opt_all (\<lambda>a. d (f a) = Inr a) x"
  shows "optional_with m k d = Inr x"
  using optional_with_map [OF non_null_present] assms .

lemma journal_from_fields_model:
  assumes k: "oj_kind e = Model" and "kind_fields_validate E e = Inr ()"
    and err: "opt_all (\<lambda>x. operation_error_validate x = Inr ()) (oj_error e)"
    and resp: "oj_response e \<noteq> Some JNull"
  shows "journal_from_fields (btree_collect (journal_members e)) = Inr e"
proof -
  define m where "m = btree_collect (journal_members e)"
  have g: "btree_get q m = map_of (journal_members e) q" for q
    unfolding m_def by (rule btree_get_object [OF journal_members_distinct])
  have none: "oj_tool_call_id e = None" "oj_tool_name e = None" "oj_arguments e = None"
    "oj_idempotency_support e = None" "oj_result e = None" "oj_deferred_handle e = None"
    "oj_identity_key e = None" "oj_result_digest e = None" "oj_resume_observation e = None"
    using assms(1,2) by (simp_all add: kind_fields_validate_def and_then_Inr_iff)
  have str: "optional_string m ''tool_call_id'' = Inr None" "optional_string m ''tool_name'' = Inr None"
    by (rule optional_string_absent; simp del: map_of_append add: g journal_members_def k none present_def)+
  have wth: "optional_with m ''arguments'' d = Inr None" "optional_with m ''idempotency_support'' d' = Inr None"
    "optional_with m ''deferred_handle'' d'' = Inr None" "optional_with m ''resume_observation'' d3 = Inr None"
    for d d' d'' d3
    by (rule optional_with_absent; simp del: map_of_append add: g journal_members_def k none present_def)+
  have ids: "optional_string m ''backend'' = Inr (oj_backend e)" "optional_string m ''model'' = Inr (oj_model e)"
    "optional_string m ''call_id'' = Inr (oj_call_id e)"
    by (rule optional_string_encoded; simp del: map_of_append add: g journal_members_def k none present_def)+
  have op: "optional_with m ''model_operation'' (\<lambda>v. ok_or (decode_operation v) ''model_identity_invalid'') = Inr (oj_model_operation e)"
    by (rule optional_with_encoded [where f = "\<lambda>x. JStr (operation_name x)"])
      (simp_all del: map_of_append add: g journal_members_def k none present_def opt_all_def split: option.splits)
  have vals: "non_null m ''response'' = oj_response e" "non_null m ''result'' = None"
    using resp by (cases "oj_response e"; simp del: map_of_append add: non_null_def g journal_members_def k none present_def encode_option_def)+
  show ?thesis
    unfolding journal_from_fields_def Let_def required_string_def m_def [symmetric]
    by (simp only: journal_common_fields [where e = e, folded m_def] str wth ids op vals err and_then_simps ok_or_simps)
      (intro arg_cong [where f = Inr] journal_entry.equality; simp add: none)
qed

lemma object_not_null [simp]: "object_of kvs \<noteq> JNull"
  by (simp add: object_of_def)

lemma handle_to_value_not_null [simp]: "handle_to_value h \<noteq> JNull"
  by (simp add: handle_to_value_def)

lemma observation_to_value_not_null [simp]: "observation_to_value ob \<noteq> JNull"
  by (simp add: observation_to_value_def)

lemma journal_from_fields_tool:
  assumes k: "oj_kind e = Tool" and "kind_fields_validate E e = Inr ()"
    and err: "opt_all (\<lambda>x. operation_error_validate x = Inr ()) (oj_error e)"
    and han: "opt_all (\<lambda>h. handle_validate h = Inr ()) (oj_deferred_handle e)"
    and res: "oj_result e \<noteq> Some JNull"
  shows "journal_from_fields (btree_collect (journal_members e)) = Inr e"
proof -
  define m where "m = btree_collect (journal_members e)"
  have g: "btree_get q m = map_of (journal_members e) q" for q
    unfolding m_def by (rule btree_get_object [OF journal_members_distinct])
  have none: "oj_model_operation e = None" "oj_backend e = None" "oj_model e = None" "oj_call_id e = None"
    "oj_response e = None"
    using assms(1,2) by (simp_all add: kind_fields_validate_def and_then_Inr_iff)
  have str: "optional_string m ''backend'' = Inr None" "optional_string m ''model'' = Inr None"
    "optional_string m ''call_id'' = Inr None"
    by (rule optional_string_absent; simp del: map_of_append add: g journal_members_def k)+
  have ids: "optional_string m ''tool_call_id'' = Inr (oj_tool_call_id e)"
    "optional_string m ''tool_name'' = Inr (oj_tool_name e)"
    by (rule optional_string_encoded; simp del: map_of_append add: g journal_members_def k)+
  have op: "optional_with m ''model_operation'' d = Inr None" for d
    by (rule optional_with_absent; simp del: map_of_append add: g journal_members_def k)
  have args: "optional_with m ''arguments'' (\<lambda>v. ok_or (as_object v) ''operation_kind_fields_invalid'') = Inr (oj_arguments e)"
    by (rule optional_with_encoded [where f = JObj])
      (auto intro!: opt_allI simp del: map_of_append simp: g journal_members_def k)
  have supp: "optional_with m ''idempotency_support'' (\<lambda>v. ok_or (decode_idempotency v) ''operation_kind_fields_invalid'') =
      Inr (oj_idempotency_support e)"
    by (rule optional_with_encoded [where f = "\<lambda>t. JStr (idempotency_name t)"])
      (auto intro!: opt_allI simp del: map_of_append simp: g journal_members_def k)
  have hand: "optional_with m ''deferred_handle''
      (\<lambda>v. map_err (\<lambda>_. ''operation_deferred_handle_invalid'') (handle_from_value v)) = Inr (oj_deferred_handle e)"
    by (rule optional_with_present [where f = handle_to_value])
      (use han in \<open>auto intro!: opt_allI simp del: map_of_append simp: g journal_members_def k handle_roundtrip\<close>)
  have obs: "optional_with m ''resume_observation''
      (\<lambda>v. ok_or (observation_from_value v) ''operation_resume_observation_invalid'') = Inr (oj_resume_observation e)"
    by (rule optional_with_present [where f = observation_to_value])
      (auto intro!: opt_allI simp del: map_of_append simp: g journal_members_def k observation_roundtrip)
  have vals: "non_null m ''response'' = None" "non_null m ''result'' = oj_result e"
    using res by (cases "oj_result e"; simp del: map_of_append add: non_null_def g journal_members_def k encode_option_def)+
  show ?thesis
    unfolding journal_from_fields_def Let_def required_string_def m_def [symmetric]
    by (simp only: journal_common_fields [where e = e, folded m_def] str ids op args supp hand obs vals err
        and_then_simps ok_or_simps)
      (intro arg_cong [where f = Inr] journal_entry.equality; simp add: none)
qed

text \<open>
  C8. Round trip of the journal: an entry that validates and carries no JSON null as its receipt is
  read back from its wire form as it was, field by field and for both kinds.
\<close>

theorem journal_roundtrip:
  assumes valid: "journal_validate E e = Inr ()"
    and receipts: "oj_response e \<noteq> Some JNull" "oj_result e \<noteq> Some JNull"
  shows "journal_from_value E (journal_to_value e) = Inr e"
proof -
  have parts: "kind_fields_validate E e = Inr ()" "opt_all (\<lambda>x. operation_error_validate x = Inr ()) (oj_error e)"
    "opt_all (\<lambda>h. handle_validate h = Inr ()) (oj_deferred_handle e)"
    using valid by (auto simp: journal_validate_def and_then_Inr_iff intro!: opt_allI)
  have "journal_from_fields (btree_collect (journal_members e)) = Inr e"
    using parts receipts journal_from_fields_model [of e E] journal_from_fields_tool [of e E]
    by (cases "oj_kind e") simp_all
  moreover have "list_all (\<lambda>(k, _). k \<in> set journal_fields) (btree_collect (journal_members e))"
    by (rule list_all_collect_keys [OF journal_members_keys])
  ultimately show ?thesis
    using valid by (simp add: journal_from_value_def journal_to_value_def object_of_def)
qed

section \<open>A concrete environment\<close>

text \<open>An environment with simple functions, on which the hypotheses of the properties are evaluated.\<close>

definition demo_digest :: string where
  "demo_digest = replicate 64 CHR ''a''"

definition demo_digest_2 :: string where
  "demo_digest_2 = replicate 64 CHR ''b''"

definition demo_event :: "string \<Rightarrow> err + fields" where
  "demo_event event_id = Inr [(''event_id'', JStr event_id)]"

definition demo_decode_event :: "json \<Rightarrow> run_event option" where
  "demo_decode_event v = map_option (\<lambda>i. \<lparr>re_event_id = i, re_cycle_index = None, re_payload = OtherPayload JNull, re_rest = v\<rparr>)
     (Option.bind (json_get ''event_id'' v) as_str)"

definition demo_result :: "string \<Rightarrow> tool_result" where
  "demo_result tool_call_id = \<lparr>tr_tool_call_id = tool_call_id, tr_content = ''ok'', tr_status = RsSuccess,
     tr_directive = ''continue'', tr_error_code = None, tr_metadata = [], tr_image_url = None, tr_image_path = None,
     tr_truncated = False, tr_truncation_reason = None, tr_original_bytes = None, tr_visible_bytes = None,
     tr_artifact = None, tr_cursor = None\<rparr>"

definition demo_agent_result :: "json \<Rightarrow> agent_result" where
  "demo_agent_result v = \<lparr>ag_status = AsCompleted, ag_messages = [], ag_cycles = [], ag_completion_reason = None,
     ag_budget_usage = None, ag_checkpoint_key = None, ag_resume_observations = [], ag_error = None, ag_error_code = None,
     ag_shared_state = [], ag_token_usage = default_task_usage, ag_rest = v\<rparr>"

definition demo_env :: env where
  "demo_env = \<lparr>canonicalize = (\<lambda>v. Some (case v of JStr s \<Rightarrow> s | _ \<Rightarrow> ''{}'')), sha256_hex = (\<lambda>s. if s = ''other'' then demo_digest_2 else demo_digest),
     decode_event = demo_decode_event, encode_event = (\<lambda>ev. Some (re_rest ev)),
     decode_tool_result = (\<lambda>v. map_option demo_result (as_str v)), encode_tool_result = (\<lambda>r. JStr (tr_tool_call_id r)),
     decode_agent_result = (\<lambda>v. Some (demo_agent_result v)),
     encode_agent_result = ag_rest,
     encode_cycle = (\<lambda>y. json_u64 (cy_index y)),
     decode_cycle = (\<lambda>v. map_option (\<lambda>i. \<lparr>cy_index = i, cy_tool_calls = [], cy_tool_results = [], cy_rest = JNull\<rparr>) (as_u64 v)),
     strict_json_value = (\<lambda>s. Some (JStr s)),
     validate_run_definition = (\<lambda>_. Inr ()), run_definition_digest = (\<lambda>_. Inr demo_digest),
     validate_compaction_metadata = (\<lambda>_. True),
     tool_completed_event = (\<lambda>_ _ _ _ _ _ _ _ _. demo_event),
     tool_deferred_event = (\<lambda>_ _ _ _ _ _ _ _ _. demo_event),
     reconciliation_resolved_event = (\<lambda>_ _ _ _ _ _. demo_event),
     cycle_aborted_event = (\<lambda>_ _ _ _ _ _. Inr (JObj [(''event_id'', JStr ''evt_cycle_aborted_cancelled'')])),
     control_event_value = (\<lambda>_ _ _ _ _ i. Some (JObj [(''event_id'', JStr i)]))\<rparr>"

lemma demo_digest_sha256 [simp]: "is_sha256 demo_digest" "validate_sha256 demo_digest = Inr ()"
  by (simp_all add: validate_sha256_def is_sha256_def demo_digest_def list_all_iff lower_hex_def)

lemma demo_digests_differ [simp]: "demo_digest \<noteq> demo_digest_2" "demo_digest_2 \<noteq> demo_digest"
  by (simp_all add: demo_digest_def demo_digest_2_def)

lemma demo_env_simps [simp]:
  "canonicalize demo_env v = Some (case v of JStr s \<Rightarrow> s | _ \<Rightarrow> ''{}'')" "sha256_hex demo_env s = (if s = ''other'' then demo_digest_2 else demo_digest)"
  "decode_event demo_env = demo_decode_event" "encode_event demo_env ev = Some (re_rest ev)"
  "decode_tool_result demo_env v = map_option demo_result (as_str v)"
  "encode_tool_result demo_env r = JStr (tr_tool_call_id r)"
  "validate_run_definition demo_env v = Inr ()" "run_definition_digest demo_env v = Inr demo_digest"
  "validate_compaction_metadata demo_env = (\<lambda>_. True)"
  "tool_completed_event demo_env a b c i d f g j r = demo_event"
  "tool_deferred_event demo_env a b c i d f g j h = demo_event"
  "reconciliation_resolved_event demo_env a b c i d f = demo_event"
  by (simp_all add: demo_env_def)

definition demo_handle :: deferred_handle where
  "demo_handle = \<lparr>dh_schema_version = DEFERRED_HANDLE_SCHEMA, dh_checkpoint_key = ''k'', dh_operation_id = ''op'',
     dh_attempt = 1, dh_request_digest = demo_digest\<rparr>"

definition demo_tool_entry :: "operation_state \<Rightarrow> journal_entry" where
  "demo_tool_entry s = (tool_entry ''op'' 1 1 demo_digest ''call'' ''grep'' [] None Idem_Unsupported)\<lparr>oj_state := s\<rparr>"

definition demo_deferred_entry :: journal_entry where
  "demo_deferred_entry = (demo_tool_entry Deferred)\<lparr>oj_deferred_handle := Some demo_handle\<rparr>"

lemmas demo_entry_defs = demo_deferred_entry_def demo_tool_entry_def tool_entry_def demo_handle_def DEFERRED_HANDLE_SCHEMA_def

lemmas blank_eval = is_blank_def trim_def ws1_def ws2_def ws3_def

lemma one_wire [simp]: "Suc 0 \<le> MAX_WIRE_INTEGER" "(1::nat) \<le> MAX_WIRE_INTEGER"
  by (simp_all add: MAX_WIRE_INTEGER_def)

lemma demo_handle_valid [simp]: "handle_validate demo_handle = Inr ()"
  by (simp add: handle_validate_def demo_handle_def blank_eval)

lemma demo_deferred_entry_valid: "journal_validate demo_env demo_deferred_entry = Inr ()"
  by (simp add: journal_validate_def demo_deferred_entry_def demo_tool_entry_def tool_entry_def kind_fields_validate_def
      state_fields_validate_def some_non_empty_def validate_json_def canonical_json_bytes_def
      and_then_Inr_iff blank_eval)

theorem journal_roundtrip_witness:
  "journal_from_value demo_env (journal_to_value demo_deferred_entry) = Inr demo_deferred_entry"
  by (rule journal_roundtrip [OF demo_deferred_entry_valid]) (simp_all add: demo_entry_defs)

section \<open>Dispatch at most once per attempt\<close>

text \<open>
  The calls on one entry, with the attempts that were dispatched so far: the state is moved, the
  operation is retried, or the holder of the entry writes receipt fields. The step back from
  ambiguous to planned without a new attempt, which the table of transitions admits, has no caller.
\<close>

inductive journal_step :: "env \<Rightarrow> journal_entry \<times> u64 list \<Rightarrow> journal_entry \<times> u64 list \<Rightarrow> bool" for E where
  move: "\<lbrakk>transition_to E target e = (e', Inr ()); target \<noteq> Planned\<rbrakk> \<Longrightarrow>
    journal_step E (e, starts) (e', if target = Started then starts @ [oj_attempt e] else starts)"
| retry: "journal_retry E e = (e', Inr ()) \<Longrightarrow> journal_step E (e, starts) (e', starts)"
| receipt: "journal_step E (e, starts) (e\<lparr>oj_identity_key := a, oj_result_digest := b, oj_response := c, oj_error := d,
    oj_result := f, oj_deferred_handle := g, oj_resume_observation := h\<rparr>, starts)"

definition starts_ok :: "u64 \<Rightarrow> journal_entry \<times> u64 list \<Rightarrow> bool" where
  "starts_ok first s \<longleftrightarrow>
     first \<le> oj_attempt (fst s) \<and> sorted_wrt (<) (snd s) \<and>
     list_all (\<lambda>a. first \<le> a \<and> a \<le> oj_attempt (fst s)) (snd s) \<and>
     (oj_state (fst s) = Planned \<longrightarrow> oj_attempt (fst s) \<notin> set (snd s))"

lemma transition_to_Inr:
  "transition_to E target e = (e', Inr ()) \<Longrightarrow> transition_allowed (oj_state e) target \<and> e' = e\<lparr>oj_state := target\<rparr>"
  by (auto simp: transition_to_def Let_def split: if_splits)

lemma journal_retry_Inr:
  "journal_retry E e = (e', Inr ()) \<Longrightarrow> oj_attempt e' = oj_attempt e + 1 \<and> oj_state e' = Planned"
  by (auto simp: journal_retry_def Let_def checked_add_Some_iff split: if_splits option.splits)

lemma transition_to_Started: "transition_allowed s Started \<longleftrightarrow> s = Planned"
  by (cases s) simp_all

lemma starts_ok_step:
  assumes "starts_ok first s" and "journal_step E s t"
  shows "starts_ok first t"
  using assms(2,1)
proof (cases rule: journal_step.cases)
  case (move target e e' starts)
  note tr = transition_to_Inr [OF move(3)]
  show ?thesis
  proof (cases "target = Started")
    case True
    have "\<forall>a \<in> set starts. a < oj_attempt e"
      using assms(1) tr True move(1) by (auto simp: starts_ok_def transition_to_Started list_all_iff le_less)
    then show ?thesis
      using assms(1) tr True move(1,2) by (auto simp: starts_ok_def sorted_wrt_append list_all_iff)
  next
    case False
    then show ?thesis using assms(1) tr move by (simp add: starts_ok_def)
  qed
next
  case (retry e e' starts)
  then show ?thesis
    using assms(1) journal_retry_Inr [OF retry(3)] by (auto simp: starts_ok_def list_all_iff)
qed (use assms(1) in \<open>simp add: starts_ok_def\<close>)

interpretation oj: state_machine "\<lambda>s. starts_ok first s" "journal_step E" "starts_ok first" for first E
  by unfold_locales (auto intro: starts_ok_step)


lemma demo_tool_entry_valid:
  assumes "s \<in> {Planned, Started, Ambiguous}" and "n \<noteq> 0" and "n \<le> MAX_WIRE_INTEGER"
  shows "journal_validate demo_env ((demo_tool_entry s')\<lparr>oj_attempt := n, oj_state := s\<rparr>) = Inr ()"
  using assms
  by (auto simp: journal_validate_def demo_tool_entry_def tool_entry_def kind_fields_validate_def
      state_fields_validate_def some_non_empty_def validate_json_def canonical_json_bytes_def
      and_then_Inr_iff blank_eval)

definition demo_at :: "u64 \<Rightarrow> operation_state \<Rightarrow> journal_entry" where
  "demo_at n s = (demo_tool_entry Planned)\<lparr>oj_attempt := n, oj_state := s\<rparr>"

lemma two_wire [simp]: "2 \<le> MAX_WIRE_INTEGER"
  by (simp add: MAX_WIRE_INTEGER_def)

lemma demo_moves:
  assumes "n = 1 \<or> n = 2"
  shows "transition_to demo_env Started (demo_at n Planned) = (demo_at n Started, Inr ())"
    and "transition_to demo_env Ambiguous (demo_at n Started) = (demo_at n Ambiguous, Inr ())"
  using assms demo_tool_entry_valid [of _ n Planned] by (auto simp: transition_to_def demo_at_def Let_def)

lemma demo_retry: "journal_retry demo_env (demo_at 1 Ambiguous) = (demo_at 2 Planned, Inr ())"
proof -
  have "checked_add 1 1 = Some 2" by (simp add: checked_add_def u64_max_def)
  moreover have "oj_kind (demo_tool_entry Planned) = Tool" by (simp add: demo_tool_entry_def tool_entry_def)
  ultimately show ?thesis
    using demo_tool_entry_valid [of Planned 2 Planned] by (simp add: journal_retry_def demo_at_def Let_def)
qed

lemma demo_run: "(journal_step demo_env)\<^sup>*\<^sup>* (demo_at 1 Planned, []) (demo_at 2 Started, [1, 2])"
proof -
  let ?r = "journal_step demo_env"
  have "?r (demo_at 1 Planned, []) (demo_at 1 Started, [1])"
    using journal_step.move [OF demo_moves(1) [of 1], where starts = "[]"] by (simp add: demo_at_def)
  moreover have "?r (demo_at 1 Started, [1]) (demo_at 1 Ambiguous, [1])"
    using journal_step.move [OF demo_moves(2) [of 1], where starts = "[1]"] by simp
  moreover have "?r (demo_at 1 Ambiguous, [1]) (demo_at 2 Planned, [1])"
    by (rule journal_step.retry [OF demo_retry])
  moreover have "?r (demo_at 2 Planned, [1]) (demo_at 2 Started, [1, 2])"
    using journal_step.move [OF demo_moves(1) [of 2], where starts = "[1]"] by (simp add: demo_at_def)
  ultimately show ?thesis by (meson converse_rtranclp_into_rtranclp rtranclp.rtrancl_refl)
qed


end
