(* ===== verification/Checkpoint_Rules.thy ===== *)
theory Checkpoint_Rules
  imports Operation_Journal
begin

text \<open>
  The rules of the checkpoint protocol as pure functions: validation
  (\<open>runtime/state/validation.rs\<close>) and the transitions that every store applies
  (\<open>runtime/state/transitions.rs\<close>). A transition returns \<open>Inr None\<close> when the caller's view is stale,
  the new checkpoint when it is applied, and an error code otherwise.
\<close>

section \<open>Accounting of model calls\<close>

text \<open>
  Every journal entry of a model call has its evidence in the ledger and in the outbox: the identity
  of an attempt, as the journal, the ledger and an event state it.
\<close>

record accounting_identity =
  ai_call_id :: string
  ai_operation_id :: string
  ai_attempt :: u64
  ai_operation :: model_call_operation
  ai_cycle_index :: u64
  ai_backend :: string
  ai_model :: string

abbreviation accounting_error :: err where
  "accounting_error \<equiv> ''checkpoint_status_invalid''"

definition model_journal_identity :: "journal_entry \<Rightarrow> err + accounting_identity" where
  "model_journal_identity e =
    (case (oj_call_id e, oj_model_operation e, oj_backend e, oj_model e) of
       (Some call_id, Some operation, Some backend, Some model) \<Rightarrow>
         Inr \<lparr>ai_call_id = call_id, ai_operation_id = oj_operation_id e, ai_attempt = oj_attempt e,
              ai_operation = operation, ai_cycle_index = oj_cycle_index e, ai_backend = backend,
              ai_model = model\<rparr>
     | _ \<Rightarrow> Inl accounting_error)"

definition model_record_identity :: "model_call \<Rightarrow> accounting_identity" where
  "model_record_identity r =
    \<lparr>ai_call_id = mc_call_id r, ai_operation_id = mc_operation_id r, ai_attempt = mc_attempt r,
     ai_operation = mc_operation r, ai_cycle_index = mc_cycle_index r, ai_backend = mc_backend r,
     ai_model = mc_model r\<rparr>"

fun payload_identity :: "event_payload \<Rightarrow> call_identity option" where
  "payload_identity (ModelCallStarted i) = Some i"
| "payload_identity (ModelCallCompleted i _) = Some i"
| "payload_identity (ModelCallFailed i _ _ _) = Some i"
| "payload_identity _ = None"

definition model_event_identity :: "run_event \<Rightarrow> accounting_identity option" where
  "model_event_identity ev =
    Option.bind (payload_identity (re_payload ev)) (\<lambda>i.
    map_option (\<lambda>cycle.
      \<lparr>ai_call_id = ci_call_id i, ai_operation_id = ci_operation_id i, ai_attempt = ci_attempt i,
       ai_operation = ci_operation i, ai_cycle_index = cycle, ai_backend = ci_backend i,
       ai_model = ci_model i\<rparr>) (re_cycle_index ev))"

text \<open>The events of the outbox that claim the same call or the same attempt, with their positions.\<close>

fun event_candidates ::
  "env \<Rightarrow> accounting_identity \<Rightarrow> nat \<Rightarrow> outbox_entry list \<Rightarrow> err + (nat \<times> run_event \<times> accounting_identity) list" where
  "event_candidates E i n [] = Inr []"
| "event_candidates E i n (b # bs) =
     and_then (verify_payload E b) (\<lambda>_.
     and_then (ok_or (decode_event E (ob_event b)) ''checkpoint_event_outbox_invalid'') (\<lambda>event.
     and_then (event_candidates E i (Suc n) bs) (\<lambda>rest.
     Inr (case model_event_identity event of
            None \<Rightarrow> rest
          | Some j \<Rightarrow>
              if ai_call_id j = ai_call_id i \<or>
                 (ai_operation_id j = ai_operation_id i \<and> ai_attempt j = ai_attempt i)
              then (n, event, j) # rest else rest))))"

definition is_started_event :: "run_event \<Rightarrow> bool" where
  "is_started_event ev = (case re_payload ev of ModelCallStarted _ \<Rightarrow> True | _ \<Rightarrow> False)"

definition is_terminal_event :: "run_event \<Rightarrow> bool" where
  "is_terminal_event ev =
    (case re_payload ev of ModelCallCompleted _ _ \<Rightarrow> True | ModelCallFailed _ _ _ _ \<Rightarrow> True | _ \<Rightarrow> False)"

definition require_model_identity :: "accounting_identity \<Rightarrow> accounting_identity \<Rightarrow> err + unit" where
  "require_model_identity expected observed = ensure (expected = observed) accounting_error"

definition is_model_budget_event :: "run_event \<Rightarrow> bool" where
  "is_model_budget_event ev =
    (case re_payload ev of
       BudgetSnapshotEvent b \<Rightarrow> b = ModelCallComplete
     | BudgetExhaustedEvent b \<Rightarrow> b = ModelCallComplete
     | _ \<Rightarrow> False)"

text \<open>The event at a position, \<open>None\<close> past the end, an error when it does not decode.\<close>

definition event_at :: "env \<Rightarrow> checkpoint \<Rightarrow> nat \<Rightarrow> err + run_event option" where
  "event_at E c i =
    (if i < length (cp_event_outbox c)
     then and_then (ok_or (decode_event E (ob_event (cp_event_outbox c ! i)))
       ''checkpoint_event_outbox_invalid'') (\<lambda>ev. Inr (Some ev))
     else Inr None)"

definition validate_terminal_budget_event_order :: "env \<Rightarrow> checkpoint \<Rightarrow> nat \<Rightarrow> err + unit" where
  "validate_terminal_budget_event_order E c i =
    (let budget_configured =
           (case json_get ''budget_limits'' (cp_run_definition c) of None \<Rightarrow> False | Some v \<Rightarrow> v \<noteq> JNull);
         is_budget = (\<lambda>x. case x of None \<Rightarrow> False | Some ev \<Rightarrow> is_model_budget_event ev)
     in and_then (event_at E c (i + 1)) (\<lambda>next_event.
        and_then (ensure (budget_configured = is_budget next_event) accounting_error) (\<lambda>_.
        if is_budget next_event
        then and_then (event_at E c (i + 2)) (\<lambda>second. ensure (\<not> is_budget second) accounting_error)
        else Inr ())))"

definition status_matches :: "operation_state \<Rightarrow> model_call_status \<Rightarrow> bool" where
  "status_matches st ms =
    (case st of
       Succeeded \<Rightarrow> ms = McCompleted \<or> ms = McAmbiguous
     | Failed \<Rightarrow> ms = McFailed \<or> ms = McAmbiguous
     | Ambiguous \<Rightarrow> ms = McAmbiguous
     | _ \<Rightarrow> False)"

text \<open>The terminal event of an attempt against its ledger record.\<close>

definition terminal_event_matches :: "model_call \<Rightarrow> event_payload \<Rightarrow> err + unit" where
  "terminal_event_matches r p =
    (case p of
       ModelCallCompleted _ usage \<Rightarrow> all_ok
         [ensure (mc_status r = McCompleted) accounting_error,
          ensure (usage = mc_usage r) accounting_error]
     | ModelCallFailed _ usage outcome error_code \<Rightarrow> all_ok
         [ensure (mc_status r = McFailed \<or> mc_status r = McAmbiguous) accounting_error,
          ensure (usage = mc_usage r) accounting_error,
          ensure (outcome = (if mc_status r = McAmbiguous then AmbiguousOutcome else Definitive) \<and>
            mc_error_code r = Some error_code) accounting_error]
     | _ \<Rightarrow> Inl accounting_error)"

definition validate_closed_accounting ::
  "env \<Rightarrow> checkpoint \<Rightarrow> accounting_identity \<Rightarrow> operation_state \<Rightarrow> model_call \<Rightarrow>
   nat \<times> run_event \<times> accounting_identity \<Rightarrow> nat \<times> run_event \<times> accounting_identity \<Rightarrow> err + unit" where
  "validate_closed_accounting E c i st r started term = all_ok
    [require_model_identity i (model_record_identity r),
     require_model_identity i (snd (snd started)),
     require_model_identity i (snd (snd term)),
     ensure (status_matches st (mc_status r)) accounting_error,
     terminal_event_matches r (re_payload (fst (snd term))),
     validate_terminal_budget_event_order E c (fst term)]"

definition validate_model_journal_entry_accounting :: "env \<Rightarrow> checkpoint \<Rightarrow> journal_entry \<Rightarrow> err + unit" where
  "validate_model_journal_entry_accounting E c e =
    and_then (journal_validate E e) (\<lambda>_.
    and_then (model_journal_identity e) (\<lambda>i.
    and_then (event_candidates E i 0 (cp_event_outbox c)) (\<lambda>cands.
    let records = filter (\<lambda>r. mc_call_id r = ai_call_id i \<or>
          (mc_operation_id r = ai_operation_id i \<and> mc_attempt r = ai_attempt i)) (cp_model_calls c);
        started = filter (\<lambda>(_, ev, _). is_started_event ev) cands;
        terminals = filter (\<lambda>(_, ev, _). is_terminal_event ev) cands
    in and_then (ensure (length records \<le> 1 \<and> length started \<le> 1 \<and> length terminals \<le> 1) accounting_error) (\<lambda>_.
       case oj_state e of
         Planned \<Rightarrow> ensure (records = [] \<and> started = [] \<and> terminals = []) accounting_error
       | Started \<Rightarrow>
           (case (records, started, terminals) of
              ([], [s], []) \<Rightarrow> require_model_identity i (snd (snd s))
            | _ \<Rightarrow> Inl accounting_error)
       | Deferred \<Rightarrow> Inl accounting_error
       | st \<Rightarrow>
           if st = Failed \<and> records = [] \<and> started = [] \<and> terminals = [] then Inr ()
           else case (records, started, terminals) of
             ([r], [s], [t]) \<Rightarrow> validate_closed_accounting E c i st r s t
           | _ \<Rightarrow> Inl accounting_error))))"

definition validate_model_journal_accounting :: "env \<Rightarrow> checkpoint \<Rightarrow> err + unit" where
  "validate_model_journal_accounting E c =
    for_each (\<lambda>e. and_then (ensure (oj_kind e = Model) ''operation_kind_fields_invalid'') (\<lambda>_.
      validate_model_journal_entry_accounting E c e)) (cp_model_call_journal c)"

section \<open>Validation\<close>

fun agent_status_matches_checkpoint :: "agent_status \<Rightarrow> checkpoint_status \<Rightarrow> bool" where
  "agent_status_matches_checkpoint AsPending s = (s = StPending)"
| "agent_status_matches_checkpoint AsRunning s = (s = StRunning)"
| "agent_status_matches_checkpoint AsWaitUser s = (s = StWaitUser)"
| "agent_status_matches_checkpoint AsCompleted s = (s = StCompleted)"
| "agent_status_matches_checkpoint AsFailed s = (s = StFailed)"
| "agent_status_matches_checkpoint AsMaxCycles s = (s = StMaxCycles)"
| "agent_status_matches_checkpoint AsReconciliationRequired s = (s = StReconciliationRequired)"
| "agent_status_matches_checkpoint AsDeferred s = (s = StDeferred)"
| "agent_status_matches_checkpoint AsHostInteraction s = (s = StHostInteraction)"

definition validate_cycles :: "checkpoint \<Rightarrow> err + unit" where
  "validate_cycles c = ensure
    (list_all (\<lambda>y. cy_index y \<noteq> 0 \<and> cy_index y \<le> saturating_add (cp_cycle_index c) 1) (cp_cycles c) \<and>
     sorted_wrt (<) (map cy_index (cp_cycles c))) ''checkpoint_history_invalid''"

definition validate_claim :: "checkpoint \<Rightarrow> err + unit" where
  "validate_claim c =
    (case (cp_claim_token c, cp_claimed_cycle c, cp_lease_expires_at_ms c) of
       (None, None, None) \<Rightarrow> Inr ()
     | (Some token, Some cycle, Some lease) \<Rightarrow> all_ok
         [ensure (\<not> is_blank token) ''checkpoint_claim_invalid'',
          ensure (checked_add (cp_cycle_index c) 1 = Some cycle \<and> cycle \<noteq> 0 \<and> cycle \<le> MAX_WIRE_INTEGER)
            ''checkpoint_claim_invalid'',
          ensure (lease \<le> MAX_WIRE_INTEGER) ''checkpoint_claim_invalid'']
     | _ \<Rightarrow> Inl ''checkpoint_claim_invalid'')"

definition validate_status :: "checkpoint \<Rightarrow> err + unit" where
  "validate_status c = all_ok
    [ensure (\<not> (cp_terminal_result c \<noteq> None \<and> cp_claim_token c \<noteq> None)) ''checkpoint_status_invalid'',
     ensure (\<not> (cp_terminal_acknowledged c \<and> cp_terminal_result c = None)) ''checkpoint_status_invalid'',
     ensure (cp_terminal_result c = None \<longrightarrow> cp_status c \<in> {StPending, StRunning, StHostInteraction,
       StSuspended, StDeferred, StReconciliationRequired}) ''checkpoint_status_invalid'',
     ensure (cp_terminal_result c \<noteq> None \<longrightarrow> is_terminal (cp_status c)) ''checkpoint_status_invalid'']"

definition validate_host_interaction :: "env \<Rightarrow> checkpoint \<Rightarrow> err + unit" where
  "validate_host_interaction E c = all_ok
    [(case (case cp_active_host_interaction c of
              Some r \<Rightarrow> Some r
            | None \<Rightarrow> Option.bind (cp_suspended_origin c) so_active_host_interaction) of
        None \<Rightarrow> Inr ()
      | Some r \<Rightarrow>
          and_then (host_request_validate E r) (\<lambda>_.
          and_then (ok_or (checked_add (cp_cycle_index c) 1) ''checkpoint_status_invalid'') (\<lambda>expected.
          ensure (hr_logical_cycle r = expected \<or>
            (hr_logical_cycle r = cp_cycle_index c \<and>
             list_ex (\<lambda>y. cy_index y = hr_logical_cycle r \<and> hr_tool_call_id r \<in> set (map tr_tool_call_id (cy_tool_results y))) (cp_cycles c)))
            ''checkpoint_status_invalid''))),
     validate_some (suspended_origin_validate E) (cp_suspended_origin c),
     ensure
       (case cp_status c of
          StHostInteraction \<Rightarrow> cp_active_host_interaction c \<noteq> None \<and> cp_suspended_origin c = None \<and> cp_claim_token c = None
        | StSuspended \<Rightarrow> cp_active_host_interaction c = None \<and> cp_suspended_origin c \<noteq> None \<and> cp_claim_token c = None
        | _ \<Rightarrow> cp_active_host_interaction c = None \<and> cp_suspended_origin c = None) ''checkpoint_status_invalid'']"

definition validate_journal_entry :: "env \<Rightarrow> checkpoint \<Rightarrow> u64 \<Rightarrow> journal_entry \<Rightarrow> err + unit" where
  "validate_journal_entry E c cycle e = all_ok
    [journal_validate E e,
     ensure (oj_cycle_index e = cycle) ''checkpoint_journal_cycle_invalid'',
     (if oj_kind e = Tool \<and> (oj_state e = Succeeded \<or> oj_state e = Failed)
      then and_then (ok_or (oj_tool_call_id e) ''operation_receipt_identity_invalid'') (\<lambda>tool_call_id.
           and_then (tool_receipt_identity_key E (cp_key c) (oj_operation_id e) (oj_attempt e) tool_call_id
             (oj_request_digest e)) (\<lambda>expected.
           and_then (ensure (oj_identity_key e = Some expected) ''operation_receipt_identity_invalid'') (\<lambda>_.
           case oj_result e of
             None \<Rightarrow> Inr ()
           | Some v \<Rightarrow>
               and_then (ok_or (decode_tool_result E v) ''operation_receipt_identity_invalid'') (\<lambda>r.
               ensure (tr_tool_call_id r = tool_call_id) ''operation_receipt_identity_invalid''))))
      else Inr ())]"

fun validate_outbox :: "env \<Rightarrow> string list \<Rightarrow> outbox_entry list \<Rightarrow> err + unit" where
  "validate_outbox E seen [] = Inr ()"
| "validate_outbox E seen (b # bs) =
     and_then (verify_payload E b) (\<lambda>_.
     and_then (ensure (ob_event_id b \<notin> set seen) ''event_identity_conflict'') (\<lambda>_.
     validate_outbox E (ob_event_id b # seen) bs))"

definition validate_deferred :: "checkpoint \<Rightarrow> err + unit" where
  "validate_deferred c =
    (let deferred = filter (\<lambda>e. oj_state e = Deferred) (cp_tool_journal c) in all_ok
      [ensure (\<not> (cp_status c = StDeferred \<and> (deferred = [] \<or> cp_claim_token c \<noteq> None))) ''checkpoint_status_invalid'',
       for_each (\<lambda>e. case oj_deferred_handle e of
          None \<Rightarrow> Inl ''checkpoint_status_invalid''
        | Some h \<Rightarrow> ensure (dh_checkpoint_key h = cp_key c \<and> dh_operation_id h = oj_operation_id e \<and>
            dh_attempt h = oj_attempt e \<and> dh_request_digest h = oj_request_digest e) ''checkpoint_status_invalid'') deferred])"

definition is_active_state :: "operation_state \<Rightarrow> bool" where
  "is_active_state s \<longleftrightarrow> s \<in> {Planned, Started, Deferred, Ambiguous}"

definition validate_terminal :: "env \<Rightarrow> checkpoint \<Rightarrow> err + unit" where
  "validate_terminal E c =
    (case cp_terminal_result c of
       None \<Rightarrow> Inr ()
     | Some v \<Rightarrow> all_ok
         [ensure (\<not> list_ex (\<lambda>e. is_active_state (oj_state e)) (journal_entries c)) ''checkpoint_status_invalid'',
          validate_json E v,
          and_then (ok_or (decode_agent_result E v) ''checkpoint_status_invalid'') (\<lambda>r. all_ok
            [ensure (agent_status_matches_checkpoint (ag_status r) (cp_status c)) ''checkpoint_status_invalid'',
             validate_some (\<lambda>k. ensure (k = cp_key c) ''checkpoint_status_invalid'') (ag_checkpoint_key r),
             ensure (tk_model_calls (ag_token_usage r) = cp_model_calls c) ''checkpoint_status_invalid''])])"

definition validate_checkpoint :: "env \<Rightarrow> checkpoint \<Rightarrow> err + unit" where
  "validate_checkpoint E c = all_ok
    [history_validate (cp_history c),
     for_each (\<lambda>m. ensure (validate_compaction_metadata E (ms_metadata m)) ''checkpoint_messages_invalid'') (cp_messages c),
     validate_cycles c,
     ensure (cp_schema_version c = CHECKPOINT_SCHEMA) ''checkpoint_schema_unsupported'',
     ensure (cp_run_definition_schema c = RUN_DEFINITION_SCHEMA) ''checkpoint_definition_schema_unsupported'',
     validate_run_definition E (cp_run_definition c),
     map_err (\<lambda>_. ''checkpoint_definition_digest_invalid'') (validate_sha256 (cp_run_definition_digest c)),
     and_then (run_definition_digest E (cp_run_definition c)) (\<lambda>d.
       ensure (d = cp_run_definition_digest c) ''checkpoint_definition_mismatch''),
     validate_checkpoint_key (cp_key c),
     for_each (\<lambda>s. ensure (\<not> is_blank s) ''checkpoint_value_invalid'') [cp_task_id c, cp_root_run_id c, cp_trace_id c],
     ensure (cp_resume_attempt c \<noteq> 0 \<and> cp_resume_attempt c \<le> MAX_WIRE_INTEGER) ''checkpoint_resume_attempt_invalid'',
     ensure (cp_cycle_index c \<le> MAX_WIRE_INTEGER \<and> cp_revision c \<le> MAX_WIRE_INTEGER) ''checkpoint_integer_invalid'',
     validate_claim c,
     validate_status c,
     validate_host_interaction E c,
     ensure (distinct (map mc_call_id (cp_model_calls c))) ''checkpoint_status_invalid'',
     and_then (active_cycle c) (\<lambda>cycle. for_each (validate_journal_entry E c cycle) (journal_entries c)),
     ensure (list_all (\<lambda>e. oj_kind e = Model) (cp_model_call_journal c) \<and>
       list_all (\<lambda>e. oj_kind e = Tool) (cp_tool_journal c)) ''checkpoint_journal_kind_invalid'',
     for_each (\<lambda>(ns, x). all_ok [validate_extension_namespace ns, extension_validate E x]) (cp_extension_state c),
     validate_extension_state_size E (cp_extension_state c) MAX_WIRE_INTEGER,
     validate_some cursor_validate (cp_event_cursor c),
     validate_outbox E [] (cp_event_outbox c),
     validate_model_journal_accounting E c,
     for_each (\<lambda>(_, v). validate_json E v) (cp_shared_state c),
     ensure (\<not> (cp_status c = StReconciliationRequired \<and> (\<not> has_ambiguous_operation c \<or> cp_claim_token c \<noteq> None)))
       ''checkpoint_status_invalid'',
     validate_deferred c,
     ensure (\<not> (cp_status c = StRunning \<and> has_ambiguous_operation c \<and> cp_claim_token c = None))
       ''checkpoint_status_invalid'',
     validate_terminal E c]"

text \<open>The event that a creation may stage: its own lifecycle event.\<close>

definition is_creation_event :: "checkpoint \<Rightarrow> outbox_entry \<Rightarrow> bool" where
  "is_creation_event c b \<longleftrightarrow> ob_state b = ''pending'' \<and> ob_cursor b = None \<and>
     Option.bind (json_get ''type'' (ob_event b)) as_str = Some ''checkpoint_created'' \<and>
     Option.bind (json_get ''cycle_index'' (ob_event b)) as_u64 = Some 0 \<and>
     Option.bind (json_get ''checkpoint_key'' (ob_event b)) as_str = Some (cp_key c) \<and>
     Option.bind (json_get ''resume_attempt'' (ob_event b)) as_u64 = Some 1"

definition validate_checkpoint_creation :: "env \<Rightarrow> checkpoint \<Rightarrow> err + unit" where
  "validate_checkpoint_creation E c =
    (let invalid = ''checkpoint_initial_invalid'' in all_ok
      [validate_checkpoint E c,
       ensure (cp_revision c = 0) invalid,
       ensure (cp_resume_attempt c = 1) invalid,
       ensure (cp_history c = default_history) invalid,
       ensure (cp_claim_token c = None \<and> cp_claimed_cycle c = None \<and> cp_lease_expires_at_ms c = None) invalid,
       ensure (\<not> is_terminal (cp_status c) \<and> cp_terminal_result c = None \<and> \<not> cp_terminal_acknowledged c) invalid,
       ensure (\<not> cp_cancel_requested c \<and> cp_active_host_interaction c = None \<and> cp_suspended_origin c = None \<and>
         cp_event_cursor c = None \<and> cp_cycles c = [] \<and> cp_model_calls c = [] \<and>
         (case cp_event_outbox c of [] \<Rightarrow> True | [b] \<Rightarrow> is_creation_event c b | _ \<Rightarrow> False) \<and>
         cp_model_call_journal c = [] \<and> cp_tool_journal c = []) invalid])"

section \<open>Claims\<close>

definition claim_candidate :: "checkpoint \<Rightarrow> u64 \<Rightarrow> u64 \<Rightarrow> claim_mode \<Rightarrow> err + bool" where
  "claim_candidate c cycle_index now_ms mode =
    (if cycle_index = 0 \<or> cycle_index > MAX_WIRE_INTEGER then Inl ''checkpoint_claim_invalid''
     else if now_ms > MAX_WIRE_INTEGER then Inl ''checkpoint_claim_invalid''
     else Inr
       (\<not> (cp_terminal_result c \<noteq> None \<or> is_terminal (cp_status c)) \<and>
        (cp_status c = StRunning \<or> cp_status c = StReconciliationRequired) \<and>
        checked_add (cp_cycle_index c) 1 = Some cycle_index \<and>
        \<not> ((cp_status c = StReconciliationRequired \<or> has_ambiguous_operation c) \<and> mode \<noteq> Recovery) \<and>
        (case cp_lease_expires_at_ms c of
           None \<Rightarrow> True
         | Some expiry \<Rightarrow> \<not> expiry > now_ms \<and> mode = Recovery)))"

definition bump_revision :: "u64 \<Rightarrow> err + u64" where
  "bump_revision n = ok_or (checked_add n 1) ''checkpoint_revision_overflow''"

definition apply_claim :: "checkpoint \<Rightarrow> u64 \<Rightarrow> string \<Rightarrow> u64 \<Rightarrow> claim_mode \<Rightarrow> err + checkpoint" where
  "apply_claim c cycle_index token lease mode =
    and_then (ensure (\<not> is_blank token \<and> lease \<le> MAX_WIRE_INTEGER) ''checkpoint_claim_invalid'') (\<lambda>_.
    and_then (bump_revision (cp_revision c)) (\<lambda>rev.
    and_then (if mode = Recovery
      then ok_or (checked_add (cp_resume_attempt c) 1) ''checkpoint_resume_attempt_invalid''
      else Inr (cp_resume_attempt c)) (\<lambda>attempt.
    Inr (c\<lparr>cp_revision := rev, cp_resume_attempt := attempt, cp_status := StRunning,
      cp_claim_token := Some token, cp_claimed_cycle := Some cycle_index,
      cp_lease_expires_at_ms := Some lease\<rparr>))))"

text \<open>The snapshot continues the stored checkpoint: the committed part is the same and new records belong to the active cycle.\<close>

definition is_prefix :: "'a list \<Rightarrow> 'a list \<Rightarrow> bool" where
  "is_prefix xs ys \<longleftrightarrow> take (length xs) ys = xs"

definition committed_cycles :: "checkpoint \<Rightarrow> cycle_record list" where
  "committed_cycles c = takeWhile (\<lambda>y. cy_index y \<le> cp_cycle_index c) (cp_cycles c)"

definition checkpoint_definition_matches :: "checkpoint \<Rightarrow> checkpoint \<Rightarrow> bool" where
  "checkpoint_definition_matches cur snap \<longleftrightarrow>
    (let committed = committed_cycles cur; active = checked_add (cp_cycle_index cur) 1 in
     cp_schema_version cur = cp_schema_version snap \<and>
     cp_run_definition_schema cur = cp_run_definition_schema snap \<and>
     cp_key cur = cp_key snap \<and> cp_task_id cur = cp_task_id snap \<and>
     cp_root_run_id cur = cp_root_run_id snap \<and> cp_trace_id cur = cp_trace_id snap \<and>
     cp_run_definition_digest cur = cp_run_definition_digest snap \<and>
     cp_run_definition cur = cp_run_definition snap \<and>
     cp_resume_attempt cur = cp_resume_attempt snap \<and>
     cp_terminal_acknowledged cur = cp_terminal_acknowledged snap \<and>
     cp_history cur = cp_history snap \<and>
     is_prefix (cp_model_calls cur) (cp_model_calls snap) \<and>
     list_all (\<lambda>r. Some (mc_cycle_index r) = active) (drop (length (cp_model_calls cur)) (cp_model_calls snap)) \<and>
     is_prefix committed (cp_cycles snap) \<and>
     list_all (\<lambda>y. Some (cy_index y) = active) (drop (length committed) (cp_cycles snap)))"

definition claim_matches :: "checkpoint \<Rightarrow> checkpoint \<Rightarrow> string \<Rightarrow> u64 \<Rightarrow> bool" where
  "claim_matches cur snap token expected_revision \<longleftrightarrow>
     cp_revision cur = expected_revision \<and> cp_revision snap = expected_revision \<and>
     cp_claim_token cur = Some token \<and> cp_claimed_cycle cur = cp_claimed_cycle snap \<and>
     cp_key cur = cp_key snap \<and> cp_terminal_result cur = None \<and> checkpoint_definition_matches cur snap"

section \<open>Transitions\<close>

fun append_all_once :: "env \<Rightarrow> outbox_entry list \<Rightarrow> outbox_entry list \<Rightarrow> err + outbox_entry list" where
  "append_all_once E outbox [] = Inr outbox"
| "append_all_once E outbox (b # bs) =
     and_then (append_event_outbox_once E outbox b) (\<lambda>outbox'. append_all_once E outbox' bs)"

definition merge_authoritative_fields :: "env \<Rightarrow> checkpoint \<Rightarrow> checkpoint \<Rightarrow> err + checkpoint" where
  "merge_authoritative_fields E cur snap =
    and_then (append_all_once E (cp_event_outbox cur) (cp_event_outbox snap)) (\<lambda>outbox.
    Inr (snap\<lparr>cp_cancel_requested := cp_cancel_requested snap \<or> cp_cancel_requested cur,
      cp_event_outbox := outbox, cp_event_cursor := cp_event_cursor cur\<rparr>))"

text \<open>The last steps of every transition: the next revision, then validation.\<close>

definition seal :: "env \<Rightarrow> u64 \<Rightarrow> checkpoint \<Rightarrow> err + checkpoint" where
  "seal E expected_revision snap =
    and_then (bump_revision expected_revision) (\<lambda>rev.
    let c = snap\<lparr>cp_revision := rev\<rparr> in and_then (validate_checkpoint E c) (\<lambda>_. Inr c))"

definition ok_some :: "'e + 'a \<Rightarrow> 'e + 'a option" where
  "ok_some r = and_then r (\<lambda>a. Inr (Some a))"

definition prepare_progress :: "env \<Rightarrow> checkpoint \<Rightarrow> checkpoint \<Rightarrow> string \<Rightarrow> u64 \<Rightarrow> err + checkpoint option" where
  "prepare_progress E cur snap token expected_revision =
    (if \<not> claim_matches cur snap token expected_revision then Inr None
     else ok_some
       (and_then (merge_authoritative_fields E cur (snap\<lparr>cp_claim_token := cp_claim_token cur,
          cp_claimed_cycle := cp_claimed_cycle cur, cp_lease_expires_at_ms := cp_lease_expires_at_ms cur\<rparr>))
        (seal E expected_revision)))"

definition release_claim :: "checkpoint \<Rightarrow> checkpoint" where
  "release_claim c = c\<lparr>cp_claim_token := None, cp_claimed_cycle := None, cp_lease_expires_at_ms := None\<rparr>"

definition prepare_suspend :: "env \<Rightarrow> checkpoint \<Rightarrow> checkpoint \<Rightarrow> string \<Rightarrow> u64 \<Rightarrow> err + checkpoint option" where
  "prepare_suspend E cur snap token expected_revision =
    (if \<not> claim_matches cur snap token expected_revision \<or> \<not> has_ambiguous_operation snap then Inr None
     else ok_some
       (and_then (merge_authoritative_fields E cur snap) (\<lambda>m.
        seal E expected_revision (release_claim (m\<lparr>cp_status := StReconciliationRequired\<rparr>)))))"

definition prepare_commit :: "env \<Rightarrow> checkpoint \<Rightarrow> checkpoint \<Rightarrow> string \<Rightarrow> u64 \<Rightarrow> err + checkpoint option" where
  "prepare_commit E cur snap token expected_revision =
    (if \<not> claim_matches cur snap token expected_revision then Inr None
     else if cp_cancel_requested cur \<or> cp_cancel_requested snap then Inl ''checkpoint_cycle_cancel_requested''
     else if Some (cp_cycle_index snap) \<noteq> cp_claimed_cycle cur then Inr None
     else if list_ex (\<lambda>e. oj_state e \<in> {Started, Deferred, Ambiguous}) (journal_entries snap)
     then Inl ''checkpoint_cycle_unresolved''
     else ok_some
       (and_then (validate_model_journal_accounting E snap) (\<lambda>_.
        seal E expected_revision (release_claim (snap\<lparr>
          cp_event_outbox := filter (\<lambda>b. ob_state b = ''pending'') (cp_event_outbox snap),
          cp_model_call_journal := [], cp_tool_journal := [], cp_cancel_requested := False\<rparr>)))))"

section \<open>Terminal snapshots\<close>

definition terminal_error_code :: "checkpoint \<Rightarrow> string option" where
  "terminal_error_code c =
    Option.bind (cp_terminal_result c) (\<lambda>v.
    Option.bind (as_object v) (\<lambda>m.
    Option.bind (btree_get ''error'' m) (\<lambda>error.
    Option.bind (as_object error) (get_str ''code''))))"

definition terminal_closure_reason :: "checkpoint \<Rightarrow> string option" where
  "terminal_closure_reason c =
    (case terminal_error_code c of
       None \<Rightarrow> None
     | Some code \<Rightarrow>
         if code = ''operator_abort_with_unknown_outcome'' then Some ''operator_abort''
         else if code \<in> {''cancelled'', ''cancelled_with_unknown_outcome''} then Some ''cancelled''
         else if code \<in> {''checkpoint_lease_lost'', ''lease_lost'', ''lease_lost_with_unknown_outcome''}
         then Some ''lease_lost'' else None)"

type_synonym observation_key = "string \<times> nat \<times> nat"

definition observation_key_of :: "json \<Rightarrow> observation_key option" where
  "observation_key_of v =
    (case (Option.bind (json_get ''operation_id'' v) as_str,
           Option.bind (json_get ''operation_kind'' v) as_str,
           Option.bind (json_get ''cycle_index'' v) as_u64) of
       (Some i, Some kind, Some cycle) \<Rightarrow>
         if kind = ''model'' then Some (i, 0, cycle)
         else if kind = ''tool'' then Some (i, 1, cycle) else None
     | _ \<Rightarrow> None)"

definition unknown_tool_observation :: "journal_entry \<Rightarrow> resume_observation" where
  "unknown_tool_observation e =
    \<lparr>ro_operation_id = oj_operation_id e, ro_operation_kind = Tool, ro_cycle_index = oj_cycle_index e,
     ro_state = Ambiguous, ro_risk = ''unknown_tool_side_effect'',
     ro_idempotency_support = oj_idempotency_support e\<rparr>"

definition string_or_empty :: "string option \<Rightarrow> string" where
  "string_or_empty x = (case x of None \<Rightarrow> [] | Some s \<Rightarrow> s)"

definition tool_cancelled_error :: operation_error where
  "tool_cancelled_error = \<lparr>oe_code = ''tool_cancelled'',
     oe_message = ''Tool execution ended before a definitive receipt; external effect remains unknown.'',
     oe_retryable = False\<rparr>"

text \<open>One unresolved tool operation is closed as failed, with the observation that its effect is unknown.\<close>

definition close_entry :: "env \<Rightarrow> string \<Rightarrow> journal_entry \<Rightarrow> err + journal_entry" where
  "close_entry E key e =
    and_then (tool_receipt_identity_key E key (oj_operation_id e) (oj_attempt e)
      (string_or_empty (oj_tool_call_id e)) (oj_request_digest e)) (\<lambda>identity.
    let e' = e\<lparr>oj_identity_key := Some identity, oj_result_digest := None,
          oj_resume_observation := Some (unknown_tool_observation e), oj_deferred_handle := None,
          oj_state := Failed, oj_result := None, oj_error := Some tool_cancelled_error\<rparr>
    in and_then (journal_validate E e') (\<lambda>_. Inr e'))"

fun close_entries :: "env \<Rightarrow> string \<Rightarrow> journal_entry list \<Rightarrow> err + journal_entry list" where
  "close_entries E key [] = Inr []"
| "close_entries E key (e # es) =
     and_then (if is_active_state (oj_state e) then close_entry E key e else Inr e) (\<lambda>e'.
     and_then (close_entries E key es) (\<lambda>es'. Inr (e' # es')))"

text \<open>\<open>Vec::dedup_by\<close>: of neighbours with the same key the first stays.\<close>

fun dedup_key :: "('a \<Rightarrow> 'k) \<Rightarrow> 'a list \<Rightarrow> 'a list" where
  "dedup_key f [] = []"
| "dedup_key f [x] = [x]"
| "dedup_key f (x # y # xs) = (if f x = f y then dedup_key f (x # xs) else x # dedup_key f (y # xs))"

definition is_run_end_event :: "json \<Rightarrow> bool" where
  "is_run_end_event event \<longleftrightarrow>
    (case Option.bind (json_get ''type'' event) as_str of
       None \<Rightarrow> False
     | Some t \<Rightarrow> t \<in> {''run_cancelled'', ''run_completed'', ''run_failed''} \<or>
         (t = ''run_state_changed'' \<and>
          (case Option.bind (json_get ''state'' event) as_str of None \<Rightarrow> False | Some s \<Rightarrow> s \<noteq> ''running'')))"

text \<open>A new event is placed before the event that ends the run, if there is one.\<close>

definition append_event_once :: "env \<Rightarrow> checkpoint \<Rightarrow> string \<Rightarrow> json \<Rightarrow> err + checkpoint" where
  "append_event_once E c event_id event =
    and_then (pending_entry E event_id event) (\<lambda>b.
    and_then (append_event_outbox_once E (cp_event_outbox c) b) (\<lambda>outbox.
    if length outbox = length (cp_event_outbox c) then Inr (c\<lparr>cp_event_outbox := outbox\<rparr>)
    else let entry = last outbox; rest = butlast outbox
         in case position (\<lambda>x. is_run_end_event (ob_event x)) rest of
              Some i \<Rightarrow> Inr (c\<lparr>cp_event_outbox := take i rest @ entry # drop i rest\<rparr>)
            | None \<Rightarrow> Inr (c\<lparr>cp_event_outbox := rest @ [entry]\<rparr>)))"

definition terminal_observations :: "checkpoint \<Rightarrow> json list" where
  "terminal_observations c =
    (case Option.bind (Option.bind (cp_terminal_result c) (json_get ''resume_observations'')) as_array of
       None \<Rightarrow> [] | Some xs \<Rightarrow> xs)"

text \<open>The observations of the result, with those of the closed operations in place of older ones, sorted and without repetition.\<close>

definition merge_observations :: "json list \<Rightarrow> journal_entry list \<Rightarrow> json list" where
  "merge_observations observations closed =
    (let keys = map (\<lambda>e. (oj_operation_id e, 1, oj_cycle_index e)) closed;
         kept = filter (\<lambda>v. case observation_key_of v of None \<Rightarrow> True | Some k \<Rightarrow> k \<notin> set keys) observations;
         added = map (\<lambda>e. observation_to_value (unknown_tool_observation e)) closed
     in dedup_key observation_key_of (sort_key observation_key_of (kept @ added)))"

definition close_unresolved_tools :: "env \<Rightarrow> checkpoint \<Rightarrow> string \<Rightarrow> err + checkpoint" where
  "close_unresolved_tools E c reason =
    (let closed = filter (\<lambda>e. is_active_state (oj_state e)) (cp_tool_journal c);
         observations = terminal_observations c;
         event_id = ''evt_cycle_aborted_'' @ reason
     in and_then (active_cycle c) (\<lambda>logical_cycle.
        and_then (close_entries E (cp_key c) (cp_tool_journal c)) (\<lambda>journal.
        and_then
          (if closed \<noteq> [] \<or> observations \<noteq> []
           then and_then (ensure (saturating_sub logical_cycle 1 \<le> u32_max) ''checkpoint_cycle_invalid'') (\<lambda>_.
                and_then (cycle_aborted_event E (cp_root_run_id c) (cp_trace_id c) (cp_task_id c)
                  (saturating_sub logical_cycle 1) logical_cycle reason) (\<lambda>event.
                append_event_once E (c\<lparr>cp_tool_journal := journal\<rparr>) event_id event))
           else Inr (c\<lparr>cp_tool_journal := journal\<rparr>)) (\<lambda>c'.
        Inr (case Option.bind (cp_terminal_result c') as_object of
               None \<Rightarrow> c'
             | Some m \<Rightarrow> c'\<lparr>cp_terminal_result := Some (JObj (btree_insert ''resume_observations''
                 (JArr (merge_observations observations closed)) m))\<rparr>)))))"

definition retained_at_end :: "outbox_entry \<Rightarrow> bool" where
  "retained_at_end b \<longleftrightarrow> ob_state b = ''pending'' \<or>
    (case Option.bind (json_get ''type'' (ob_event b)) as_str of
       None \<Rightarrow> False
     | Some t \<Rightarrow> t \<in> {''tool_call_completed'', ''run_state_changed'', ''run_cancelled'', ''run_failed'', ''cycle_aborted''})"

definition prepare_terminal_snapshot :: "env \<Rightarrow> checkpoint \<Rightarrow> u64 \<Rightarrow> err + checkpoint" where
  "prepare_terminal_snapshot E snap expected_revision =
    (if cp_terminal_result snap = None then Inl ''checkpoint_terminal_result_required''
     else if \<not> is_terminal (cp_status snap) then Inl ''checkpoint_status_invalid''
     else
       and_then
         (case terminal_closure_reason snap of
            None \<Rightarrow> Inr snap
          | Some reason \<Rightarrow>
              and_then (close_unresolved_tools E
                (case cp_claimed_cycle snap of
                   None \<Rightarrow> snap
                 | Some n \<Rightarrow> snap\<lparr>cp_cycle_index := saturating_sub n 1\<rparr>) reason) (\<lambda>c.
              Inr (c\<lparr>cp_model_call_journal := []\<rparr>))) (\<lambda>c.
       and_then (validate_model_journal_accounting E c) (\<lambda>_.
       let c = c\<lparr>cp_event_outbox := filter retained_at_end (cp_event_outbox c)\<rparr>;
           c = (if terminal_closure_reason snap = None
                then c\<lparr>cp_model_call_journal := [], cp_tool_journal := []\<rparr> else c)
       in seal E expected_revision (release_claim c))))"

definition prepare_finalize :: "env \<Rightarrow> checkpoint \<Rightarrow> checkpoint \<Rightarrow> u64 \<Rightarrow> err + checkpoint option" where
  "prepare_finalize E cur snap expected_revision =
    (if cp_revision cur \<noteq> expected_revision \<or> cp_revision snap \<noteq> expected_revision \<or>
        \<not> checkpoint_definition_matches cur snap \<or> cp_claim_token cur \<noteq> None \<or> cp_terminal_result cur \<noteq> None
     then Inr None
     else ok_some (and_then (merge_authoritative_fields E cur snap) (\<lambda>m. prepare_terminal_snapshot E m expected_revision)))"

definition prepare_finalize_claimed :: "env \<Rightarrow> checkpoint \<Rightarrow> checkpoint \<Rightarrow> string \<Rightarrow> u64 \<Rightarrow> err + checkpoint option" where
  "prepare_finalize_claimed E cur snap token expected_revision =
    (if \<not> claim_matches cur snap token expected_revision then Inr None
     else ok_some (and_then (merge_authoritative_fields E cur snap) (\<lambda>m. prepare_terminal_snapshot E m expected_revision)))"

definition prepare_ack :: "env \<Rightarrow> checkpoint \<Rightarrow> u64 \<Rightarrow> err + checkpoint option" where
  "prepare_ack E cur expected_revision =
    (if cp_revision cur \<noteq> expected_revision \<or> cp_terminal_result cur = None \<or> cp_claim_token cur \<noteq> None \<or>
        cp_terminal_acknowledged cur
     then Inr None
     else ok_some (seal E expected_revision (cur\<lparr>cp_terminal_acknowledged := True\<rparr>)))"

section \<open>Event delivery and tool receipts\<close>

fun positions :: "('a \<Rightarrow> bool) \<Rightarrow> nat \<Rightarrow> 'a list \<Rightarrow> nat list" where
  "positions p n [] = []"
| "positions p n (x # xs) = (if p x then n # positions p (Suc n) xs else positions p (Suc n) xs)"

definition prepare_event_delivery ::
  "env \<Rightarrow> checkpoint \<Rightarrow> string option \<Rightarrow> u64 \<Rightarrow> string \<Rightarrow> string \<Rightarrow> event_cursor \<Rightarrow> err + checkpoint option" where
  "prepare_event_delivery E cur token expected_revision event_id digest cursor =
    and_then (all_ok
      [ensure (\<not> is_blank event_id) ''checkpoint_event_outbox_invalid'',
       validate_sha256 digest,
       cursor_validate cursor,
       ensure (ec_last_event_id cursor = Some event_id) ''checkpoint_event_cursor_invalid'']) (\<lambda>_.
    if cp_revision cur \<noteq> expected_revision \<or> cp_claim_token cur \<noteq> token then Inr None
    else case positions (\<lambda>b. ob_event_id b = event_id) 0 (cp_event_outbox cur) of
      [i] \<Rightarrow>
        (let entry = cp_event_outbox cur ! i
         in if ob_state entry \<noteq> ''pending'' \<or> ob_payload_digest entry \<noteq> digest then Inr None
            else ok_some (seal E expected_revision
              (cur\<lparr>cp_event_outbox := (cp_event_outbox cur)[i := entry\<lparr>ob_state := ''delivered'',
                 ob_cursor := Some (cursor_to_value cursor)\<rparr>],
                 cp_event_cursor := Some cursor\<rparr>)))
    | _ \<Rightarrow> Inr None)"

text \<open>An event of the checkpoint is staged without the name of an agent.\<close>

definition stage_event :: "env \<Rightarrow> fields \<Rightarrow> err + outbox_entry" where
  "stage_event E m = pending_entry E (string_or_empty (get_str ''event_id'' m)) (JObj m)"

definition outbox_of :: "env \<Rightarrow> fields \<Rightarrow> err + outbox_entry" where
  "outbox_of E m = stage_event E (btree_remove ''agent_name'' m)"

definition receipt_event :: "env \<Rightarrow> checkpoint \<Rightarrow> journal_entry \<Rightarrow> tool_result \<Rightarrow> err + outbox_entry" where
  "receipt_event E c e r =
    and_then (ok_or (oj_tool_call_id e) ''tool_receipt_identity_invalid'') (\<lambda>tool_call_id.
    and_then (ensure (tool_call_id = tr_tool_call_id r) ''tool_receipt_identity_invalid'') (\<lambda>_.
    and_then (tool_receipt_identity_key E (cp_key c) (oj_operation_id e) (oj_attempt e) tool_call_id
      (oj_request_digest e)) (\<lambda>identity.
    and_then (tool_completed_event E (cp_root_run_id c) (cp_trace_id c) (cp_task_id c) (as_u32 (oj_cycle_index e))
      tool_call_id (string_or_empty (oj_tool_name e)) (oj_operation_id e) (as_u32 (oj_attempt e)) r
      (''evt_receipt_'' @ identity)) (outbox_of E))))"

text \<open>The journal entry that a receipt closes.\<close>

definition receipt_target :: "string \<Rightarrow> u64 \<Rightarrow> string \<Rightarrow> string \<Rightarrow> u64 \<Rightarrow> journal_entry \<Rightarrow> bool" where
  "receipt_target operation_id attempt tool_call_id request_digest cycle e \<longleftrightarrow>
     oj_operation_id e = operation_id \<and> oj_attempt e = attempt \<and> oj_tool_call_id e = Some tool_call_id \<and>
     oj_request_digest e = request_digest \<and> oj_cycle_index e = cycle \<and>
     (oj_state e = Started \<or> oj_state e = Ambiguous)"

definition receipt_observation ::
  "checkpoint \<Rightarrow> journal_entry \<Rightarrow> tool_result \<Rightarrow> string \<Rightarrow> u64 \<Rightarrow> string \<Rightarrow> string \<Rightarrow> u64 \<Rightarrow> err + resume_observation option" where
  "receipt_observation snap e r operation_id attempt tool_call_id request_digest cycle =
    (if tr_error_code r = Some ''tool_outcome_unknown''
     then let expected = unknown_tool_observation e;
              source = find (\<lambda>s. oj_kind s = oj_kind e \<and> oj_operation_id s = operation_id \<and> oj_attempt s = attempt \<and>
                oj_tool_call_id s = Some tool_call_id \<and> oj_request_digest s = request_digest \<and>
                oj_cycle_index s = cycle \<and> oj_state s = Ambiguous) (cp_tool_journal snap)
          in if Option.bind source oj_resume_observation \<noteq> Some expected
             then Inl ''checkpoint_journal_integrity_mismatch'' else Inr (Some expected)
     else Inr None)"

definition close_with_receipt ::
  "env \<Rightarrow> journal_entry \<Rightarrow> tool_result \<Rightarrow> string \<Rightarrow> string \<Rightarrow> resume_observation option \<Rightarrow> err + journal_entry" where
  "close_with_receipt E e r identity digest observation =
    (let e = e\<lparr>oj_identity_key := Some identity, oj_result_digest := Some digest, oj_deferred_handle := None,
           oj_resume_observation := observation, oj_result := Some (encode_tool_result E r)\<rparr>;
         e = (if tr_status r = RsSuccess then e\<lparr>oj_state := Succeeded, oj_error := None\<rparr>
              else e\<lparr>oj_state := Failed, oj_error := Some (operation_error_from_tool_result r)\<rparr>)
     in and_then (journal_validate E e) (\<lambda>_. Inr e))"

definition prepare_tool_receipt ::
  "env \<Rightarrow> checkpoint \<Rightarrow> checkpoint \<Rightarrow> string \<Rightarrow> u64 \<Rightarrow> string \<Rightarrow> string \<Rightarrow> tool_result \<Rightarrow> string \<Rightarrow> u64 \<Rightarrow> u64 \<Rightarrow>
   err + checkpoint option" where
  "prepare_tool_receipt E cur snap operation_id attempt tool_call_id request_digest r token expected_revision cycle =
    (if is_blank token \<or> cp_claim_token cur = None \<or> cp_claim_token snap = None then Inl ''checkpoint_claim_required''
     else if cp_claim_token cur \<noteq> Some token \<or> cp_claim_token snap \<noteq> Some token \<or>
       cp_claimed_cycle cur \<noteq> Some cycle \<or> cp_claimed_cycle snap \<noteq> Some cycle then Inl ''checkpoint_claim_conflict''
     else if cp_revision cur \<noteq> expected_revision \<or> cp_revision snap \<noteq> expected_revision
     then Inl ''checkpoint_revision_conflict''
     else if cp_status cur \<noteq> StRunning \<or> cp_terminal_result cur \<noteq> None \<or> \<not> checkpoint_definition_matches cur snap
     then Inr None
     else case position (receipt_target operation_id attempt tool_call_id request_digest cycle) (cp_tool_journal cur) of
       None \<Rightarrow> Inr None
     | Some i \<Rightarrow>
         (let e = cp_tool_journal cur ! i in ok_some
           (and_then (validate_definitive_result r) (\<lambda>_.
            and_then (tool_receipt_identity_key E (cp_key cur) operation_id attempt tool_call_id request_digest) (\<lambda>identity.
            and_then (tool_result_digest E r) (\<lambda>digest.
            and_then (receipt_observation snap e r operation_id attempt tool_call_id request_digest cycle) (\<lambda>observation.
            and_then (close_with_receipt E e r identity digest observation) (\<lambda>e'.
            let updated = cur\<lparr>cp_tool_journal := (cp_tool_journal cur)[i := e']\<rparr> in
            and_then (receipt_event E updated e' r) (\<lambda>event.
            and_then (append_all_once E (cp_event_outbox cur @ [event]) (cp_event_outbox snap)) (\<lambda>outbox.
            seal E expected_revision (updated\<lparr>cp_event_outbox := outbox\<rparr>)))))))))))"

end
