(* ===== verification/Checkpoint_Deferred.thy ===== *)
theory Checkpoint_Deferred
  imports Checkpoint_Rules
begin

text \<open>
  Deferred tools (\<open>checkpoint/deferred.rs\<close>, \<open>runtime/state/deferred.rs\<close>): a batch of started tools
  is handed over to providers that answer later. Admission releases the claim and leaves one handle
  per tool; each handle is resolved at most once by a definitive receipt.
\<close>

section \<open>Values\<close>

definition handle_key :: "env \<Rightarrow> deferred_handle \<Rightarrow> err + string" where
  "handle_key E h = and_then (handle_validate h) (\<lambda>_. sha256_canonical E (handle_to_value h))"

datatype tool_outcome =
    OutcomeCompleted tool_result
  | OutcomeDeferred deferred_handle
  | OutcomeHostInteraction tool_result host_request

fun outcome_validate :: "env \<Rightarrow> tool_outcome \<Rightarrow> err + unit" where
  "outcome_validate E (OutcomeCompleted r) =
     map_err (\<lambda>_. if tr_status r = RsSuccess \<and> tr_error_code r \<noteq> None then ''tool_result_invalid''
       else ''tool_call_outcome_invalid'') (tool_result_validate r)"
| "outcome_validate E (OutcomeDeferred h) = handle_validate h"
| "outcome_validate E (OutcomeHostInteraction r q) = all_ok
     [host_request_validate E q,
      map_err (\<lambda>_. ''tool_call_outcome_invalid'') (validate_definitive_result r),
      ensure (tr_directive r = ''continue'' \<and> tr_tool_call_id r = hr_tool_call_id q) ''tool_call_outcome_invalid'']"

datatype receipt_status = ReceiptSucceeded | ReceiptFailed

record deferred_receipt =
  dr_handle_key :: string
  dr_handle :: deferred_handle
  dr_result :: tool_result
  dr_result_digest :: string
  dr_event_id :: string
  dr_event_payload_digest :: string
  dr_status :: receipt_status

text \<open>The digest of a result as it is serialised, which validates the result first.\<close>

definition result_digest :: "env \<Rightarrow> tool_result \<Rightarrow> err + string" where
  "result_digest E r =
    and_then (map_err (\<lambda>_. ''deferred_receipt_invalid'') (tool_result_validate r)) (\<lambda>_.
      sha256_canonical E (encode_tool_result E r))"

definition receipt_status_of :: "tool_result \<Rightarrow> receipt_status" where
  "receipt_status_of r = (if tr_status r = RsSuccess then ReceiptSucceeded else ReceiptFailed)"

definition receipt_validate :: "env \<Rightarrow> deferred_receipt \<Rightarrow> err + unit" where
  "receipt_validate E d = all_ok
    [handle_validate (dr_handle d),
     and_then (handle_key E (dr_handle d)) (\<lambda>k. ensure (dr_handle_key d = k) ''deferred_receipt_identity_invalid''),
     validate_definitive_result (dr_result d),
     and_then (tool_receipt_identity_key E (dh_checkpoint_key (dr_handle d)) (dh_operation_id (dr_handle d))
       (dh_attempt (dr_handle d)) (tr_tool_call_id (dr_result d)) (dh_request_digest (dr_handle d))) (\<lambda>identity.
       ensure (dr_event_id d = ''evt_receipt_'' @ identity) ''deferred_receipt_identity_invalid''),
     and_then (result_digest E (dr_result d)) (\<lambda>digest. ensure (dr_result_digest d = digest) ''deferred_receipt_invalid''),
     validate_sha256 (dr_event_payload_digest d),
     ensure (\<not> is_blank (dr_event_id d)) ''deferred_receipt_invalid'',
     ensure (dr_status d = receipt_status_of (dr_result d)) ''deferred_receipt_invalid'']"

definition receipt_new :: "env \<Rightarrow> deferred_handle \<Rightarrow> tool_result \<Rightarrow> string \<Rightarrow> string \<Rightarrow> err + deferred_receipt" where
  "receipt_new E h r event_id event_digest =
    and_then (handle_validate h) (\<lambda>_.
    and_then (validate_definitive_result r) (\<lambda>_.
    and_then (result_digest E r) (\<lambda>digest.
    and_then (handle_key E h) (\<lambda>key.
    let d = \<lparr>dr_handle_key = key, dr_handle = h, dr_result = r, dr_result_digest = digest, dr_event_id = event_id,
          dr_event_payload_digest = event_digest, dr_status = receipt_status_of r\<rparr>
    in and_then (receipt_validate E d) (\<lambda>_. Inr d)))))"

datatype resolve_decision =
    AppliedReady deferred_receipt
  | AppliedWaiting deferred_receipt
  | Replayed deferred_receipt
  | NotAdmitted string
  | ReconciliationNeeded

record accept_decision =
  ad_schema_version :: string
  ad_kind :: string
  ad_handle :: deferred_handle

definition RECONCILIATION_DECISION_SCHEMA :: string where
  "RECONCILIATION_DECISION_SCHEMA = ''vv-agent.reconciliation-decision.v1''"

definition accept_validate :: "accept_decision \<Rightarrow> err + unit" where
  "accept_validate d = all_ok
    [ensure (ad_schema_version d = RECONCILIATION_DECISION_SCHEMA \<and> ad_kind d = ''accept_deferred'')
       ''reconciliation_decision_invalid'',
     handle_validate (ad_handle d)]"

record batch_entry =
  be_operation_id :: string
  be_cycle_index :: u64
  be_attempt :: u64
  be_request_digest :: string
  be_tool_call_id :: string
  be_tool_name :: string
  be_idempotency_key :: "string option"
  be_idempotency_support :: tool_idempotency
  be_outcome :: tool_outcome

definition batch_validate :: "env \<Rightarrow> batch_entry \<Rightarrow> err + unit" where
  "batch_validate E b = all_ok
    [ensure (\<not> (is_blank (be_operation_id b) \<or> is_blank (be_tool_call_id b) \<or> is_blank (be_tool_name b)))
       ''deferred_batch_entry_invalid'',
     ensure (be_cycle_index b \<noteq> 0 \<and> be_attempt b \<noteq> 0) ''deferred_batch_entry_invalid'',
     validate_sha256 (be_request_digest b),
     outcome_validate E (be_outcome b)]"

section \<open>Events\<close>

text \<open>The deferred event names the checkpoint and the kind of the operation beside its own members.\<close>

definition deferred_event :: "env \<Rightarrow> checkpoint \<Rightarrow> u64 \<Rightarrow> string \<Rightarrow> string \<Rightarrow> string \<Rightarrow> u64 \<Rightarrow> deferred_handle \<Rightarrow> err + outbox_entry" where
  "deferred_event E c cycle_index tool_call_id tool_name operation_id attempt h =
    and_then (tool_deferred_event E (cp_root_run_id c) (cp_trace_id c) (cp_task_id c) (as_u32 cycle_index)
      tool_call_id tool_name operation_id (as_u32 attempt) h (''evt_deferred_'' @ tool_call_id @ ''_deferred'')) (\<lambda>m.
    stage_event E (btree_insert ''operation_kind'' (JStr ''tool'')
      (btree_insert ''checkpoint_key'' (JStr (cp_key c)) (btree_remove ''agent_name'' m))))"

definition deferred_event_from_journal :: "env \<Rightarrow> checkpoint \<Rightarrow> journal_entry \<Rightarrow> err + outbox_entry" where
  "deferred_event_from_journal E c e =
    and_then (ok_or (oj_deferred_handle e) ''operation_deferred_handle_required'') (\<lambda>h.
    deferred_event E c (oj_cycle_index e) (string_or_empty (oj_tool_call_id e)) (string_or_empty (oj_tool_name e))
      (oj_operation_id e) (oj_attempt e) h)"

definition reconciliation_event :: "env \<Rightarrow> checkpoint \<Rightarrow> journal_entry \<Rightarrow> err + outbox_entry" where
  "reconciliation_event E c e =
    and_then (reconciliation_resolved_event E (cp_root_run_id c) (cp_trace_id c) (cp_task_id c)
      (as_u32 (oj_cycle_index e)) (cp_key c) (oj_operation_id e)
      (''evt_deferred_'' @ (case oj_tool_call_id e of None \<Rightarrow> oj_operation_id e | Some s \<Rightarrow> s) @ ''_reconciliation''))
      (outbox_of E)"

section \<open>Admission\<close>

definition has_current_cycle_state :: "journal_entry list \<Rightarrow> u64 \<Rightarrow> operation_state list \<Rightarrow> bool" where
  "has_current_cycle_state es cycle states =
    list_ex (\<lambda>e. oj_cycle_index e = cycle \<and> oj_state e \<in> set states) es"

definition push_event :: "outbox_entry \<Rightarrow> checkpoint \<Rightarrow> checkpoint" where
  "push_event b c = c\<lparr>cp_event_outbox := cp_event_outbox c @ [b]\<rparr>"

definition defer_entry :: "nat \<Rightarrow> deferred_handle \<Rightarrow> checkpoint \<Rightarrow> checkpoint" where
  "defer_entry i h c =
    c\<lparr>cp_tool_journal := (cp_tool_journal c)[i := (cp_tool_journal c ! i)\<lparr>oj_state := Deferred, oj_deferred_handle := Some h\<rparr>]\<rparr>"

definition batch_target :: "batch_entry \<Rightarrow> journal_entry \<Rightarrow> bool" where
  "batch_target b e \<longleftrightarrow>
     oj_operation_id e = be_operation_id b \<and> oj_cycle_index e = be_cycle_index b \<and> oj_attempt e = be_attempt b \<and>
     oj_request_digest e = be_request_digest b \<and> oj_tool_call_id e = Some (be_tool_call_id b) \<and>
     oj_tool_name e = Some (be_tool_name b)"

text \<open>One turn of the admission loop. The test that repeats the search condition is on the state alone.\<close>

definition admit_entry :: "env \<Rightarrow> batch_entry \<Rightarrow> checkpoint \<Rightarrow> err + (checkpoint \<times> deferred_handle)" where
  "admit_entry E b c =
    and_then (batch_validate E b) (\<lambda>_.
    and_then (ok_or (position (batch_target b) (cp_tool_journal c)) ''deferred_batch_not_admitted'') (\<lambda>i.
    and_then (ensure (oj_state (cp_tool_journal c ! i) = Started) ''deferred_batch_not_admitted'') (\<lambda>_.
    case be_outcome b of
      OutcomeHostInteraction _ _ \<Rightarrow> Inl ''deferred_batch_not_admitted''
    | OutcomeCompleted _ \<Rightarrow> Inl ''deferred_admission_completed_outcome_invalid''
    | OutcomeDeferred h \<Rightarrow>
        and_then (ensure (dh_checkpoint_key h = cp_key c \<and> dh_operation_id h = be_operation_id b \<and>
          dh_attempt h = be_attempt b \<and> dh_request_digest h = be_request_digest b) ''deferred_handle_invalid'') (\<lambda>_.
        let c' = defer_entry i h c in
        and_then (deferred_event E c' (be_cycle_index b) (be_tool_call_id b) (be_tool_name b) (be_operation_id b)
          (be_attempt b) h) (\<lambda>event.
        Inr (push_event event c', h))))))"

fun admit_loop :: "env \<Rightarrow> batch_entry list \<Rightarrow> checkpoint \<Rightarrow> deferred_handle list \<Rightarrow> err + (checkpoint \<times> deferred_handle list)" where
  "admit_loop E [] c hs = Inr (c, hs)"
| "admit_loop E (b # bs) c hs = and_then (admit_entry E b c) (\<lambda>(c', h). admit_loop E bs c' (hs @ [h]))"

text \<open>The checkpoint waits for the providers without an owner.\<close>

definition wait_deferred :: "checkpoint \<Rightarrow> checkpoint" where
  "wait_deferred c = release_claim (c\<lparr>cp_status := StDeferred\<rparr>)"

definition admit_batch ::
  "env \<Rightarrow> checkpoint \<Rightarrow> u64 \<Rightarrow> string \<Rightarrow> u64 \<Rightarrow> batch_entry list \<Rightarrow> err + (checkpoint \<times> deferred_handle list)" where
  "admit_batch E cur expected token cycle bs =
    (if cp_revision cur \<noteq> expected \<or> cp_claim_token cur \<noteq> Some token \<or> cp_claimed_cycle cur \<noteq> Some cycle \<or>
        cp_status cur \<noteq> StRunning \<or> bs = []
     then Inr (cur, [])
     else
       and_then (admit_loop E bs cur []) (\<lambda>(c, hs).
       and_then (ensure (\<not> has_current_cycle_state (journal_entries c) cycle [Started]) ''deferred_batch_incomplete'') (\<lambda>_.
       and_then (seal E expected (if hs \<noteq> [] then wait_deferred c else c)) (\<lambda>c'.
       Inr (c', hs)))))"

section \<open>Acceptance of ambiguous operations\<close>

type_synonym decision_key = "string \<times> u64 \<times> string"

definition decision_key :: "deferred_handle \<Rightarrow> decision_key" where
  "decision_key h = (dh_operation_id h, dh_attempt h, dh_request_digest h)"

definition accept_target :: "deferred_handle \<Rightarrow> u64 \<Rightarrow> journal_entry \<Rightarrow> bool" where
  "accept_target h cycle e \<longleftrightarrow>
     oj_operation_id e = dh_operation_id h \<and> oj_cycle_index e = cycle \<and> oj_attempt e = dh_attempt h \<and>
     oj_request_digest e = dh_request_digest h \<and> oj_state e = Ambiguous"

fun accept_loop :: "env \<Rightarrow> u64 \<Rightarrow> decision_key list \<Rightarrow> accept_decision list \<Rightarrow> checkpoint \<Rightarrow> err + checkpoint" where
  "accept_loop E cycle seen [] c = Inr c"
| "accept_loop E cycle seen (d # ds) c =
     (let h = ad_handle d in
      and_then (accept_validate d) (\<lambda>_.
      and_then (ensure (decision_key h \<notin> set seen) ''reconciliation_required'') (\<lambda>_.
      and_then (ok_or (position (accept_target h cycle) (cp_tool_journal c)) ''reconciliation_required'') (\<lambda>i.
      and_then (ensure (dh_checkpoint_key h = cp_key c) ''reconciliation_required'') (\<lambda>_.
      let c' = defer_entry i h c; e = cp_tool_journal c' ! i in
      and_then (reconciliation_event E c' e) (\<lambda>b1.
      and_then (deferred_event_from_journal E c' e) (\<lambda>b2.
      accept_loop E cycle (decision_key h # seen) ds (push_event b2 (push_event b1 c')))))))))"

abbreviation unresolved_states :: "operation_state list" where
  "unresolved_states \<equiv> [Planned, Started, Ambiguous]"

definition accept_batch ::
  "env \<Rightarrow> checkpoint \<Rightarrow> u64 \<Rightarrow> string \<Rightarrow> u64 \<Rightarrow> accept_decision list \<Rightarrow> err + checkpoint option" where
  "accept_batch E cur expected token cycle ds =
    (if cp_revision cur \<noteq> expected \<or> cp_claim_token cur \<noteq> Some token \<or> cp_claimed_cycle cur \<noteq> Some cycle \<or>
        cp_resume_attempt cur \<le> 1 \<or> ds = []
     then Inr None
     else if has_current_cycle_state (cp_model_call_journal cur) cycle unresolved_states
     then Inl ''reconciliation_required''
     else ok_some
       (and_then (accept_loop E cycle [] ds cur) (\<lambda>c.
        and_then (ensure (\<not> has_current_cycle_state (journal_entries c) cycle unresolved_states) ''reconciliation_required'') (\<lambda>_.
        seal E expected (wait_deferred c)))))"

text \<open>A batch whose handles are exactly those of the deferred entries has been accepted before.\<close>

definition deferred_batch_is_idempotent :: "checkpoint \<Rightarrow> accept_decision list \<Rightarrow> bool" where
  "deferred_batch_is_idempotent c ds \<longleftrightarrow>
    (let keys = map (\<lambda>d. decision_key (ad_handle d)) ds;
         deferred = filter (\<lambda>e. oj_state e = Deferred) (cp_tool_journal c)
     in ds \<noteq> [] \<and> distinct keys \<and> length deferred = length ds \<and>
        list_all (\<lambda>e. case oj_deferred_handle e of
          None \<Rightarrow> False
        | Some h \<Rightarrow> decision_key h \<in> set keys \<and> list_ex (\<lambda>d. ad_handle d = h) ds) deferred)"

section \<open>Resolution\<close>

text \<open>The journal entry that a definitive result closes.\<close>

definition resolve_entry :: "env \<Rightarrow> checkpoint \<Rightarrow> journal_entry \<Rightarrow> tool_result \<Rightarrow> err + journal_entry" where
  "resolve_entry E c e r =
    and_then (tool_receipt_identity_key E (cp_key c) (oj_operation_id e) (oj_attempt e)
      (string_or_empty (oj_tool_call_id e)) (oj_request_digest e)) (\<lambda>identity.
    and_then (tool_result_digest E r) (\<lambda>digest.
    let e = e\<lparr>oj_identity_key := Some identity, oj_result_digest := Some digest,
          oj_result := Some (encode_tool_result E r), oj_deferred_handle := None\<rparr>
    in Inr (if tr_status r = RsSuccess then e\<lparr>oj_state := Succeeded\<rparr>
            else e\<lparr>oj_state := Failed, oj_error := Some (operation_error_from_tool_result r),
                   oj_resume_observation := (if tr_error_code r = Some ''tool_outcome_unknown''
                     then Some (unknown_tool_observation e) else oj_resume_observation e)\<rparr>)))"

definition resolve_status :: "checkpoint \<Rightarrow> checkpoint_status" where
  "resolve_status c =
    (if cp_status c = StSuspended then StSuspended
     else if list_ex (\<lambda>e. oj_state e = Deferred) (cp_tool_journal c) then StDeferred else StRunning)"

definition resolve_checkpoint :: "env \<Rightarrow> checkpoint \<Rightarrow> nat \<Rightarrow> tool_result \<Rightarrow> err + (checkpoint \<times> outbox_entry)" where
  "resolve_checkpoint E c i r =
    (let e = cp_tool_journal c ! i in
     and_then (receipt_event E c e r) (\<lambda>event.
     and_then (resolve_entry E c e r) (\<lambda>e'.
     let c' = push_event event (c\<lparr>cp_tool_journal := (cp_tool_journal c)[i := e']\<rparr>) in
     and_then (seal E (cp_revision c) (c'\<lparr>cp_status := resolve_status c'\<rparr>)) (\<lambda>c''.
     Inr (c'', event)))))"

end
