(* ===== verification/Controller_Types.thy ===== *)
theory Controller_Types
  imports Checkpoint_Deferred
begin

text \<open>
  The wires of the controller (\<open>checkpoint/controller.rs\<close> and the files it includes,
  \<open>controller_host.rs\<close>, \<open>controller_command.rs\<close>, \<open>controller_command_wake.rs\<close>,
  \<open>controller_recovery.rs\<close>): commands with their receipts and wakes, host interactions with their
  records, responses and notifications, each with its validation and its digest.
\<close>

section \<open>Checks and digests\<close>

definition HOST_INTERACTION_RESPONSE_SCHEMA :: string where
  "HOST_INTERACTION_RESPONSE_SCHEMA = ''vv-agent.host-interaction-response.v1''"

definition HOST_INTERACTION_OUTCOME_SCHEMA :: string where
  "HOST_INTERACTION_OUTCOME_SCHEMA = ''vv-agent.host-interaction-outcome.v1''"

definition HOST_INTERACTION_RECORD_SCHEMA :: string where
  "HOST_INTERACTION_RECORD_SCHEMA = ''vv-agent.host-interaction-record.v1''"

definition HOST_INTERACTION_RECOVERY_SCHEMA :: string where
  "HOST_INTERACTION_RECOVERY_SCHEMA = ''vv-agent.host-interaction-recovery.v1''"

definition HOST_INTERACTION_RECOVERY_RESULT_SCHEMA :: string where
  "HOST_INTERACTION_RECOVERY_RESULT_SCHEMA = ''vv-agent.host-interaction-recovery-result.v1''"

definition HOST_INTERACTION_NOTIFICATION_SCHEMA :: string where
  "HOST_INTERACTION_NOTIFICATION_SCHEMA = ''vv-agent.host-interaction-notification.v1''"

definition CONTROLLER_COMMAND_SCHEMA :: string where
  "CONTROLLER_COMMAND_SCHEMA = ''vv-agent.controller-command.v1''"

definition CONTROLLER_COMMAND_RECEIPT_SCHEMA :: string where
  "CONTROLLER_COMMAND_RECEIPT_SCHEMA = ''vv-agent.controller-command-receipt.v1''"

definition CONTROLLER_COMMAND_RESOLUTION_SCHEMA :: string where
  "CONTROLLER_COMMAND_RESOLUTION_SCHEMA = ''vv-agent.controller-command-resolution.v1''"

definition COMMAND_MAX :: nat where
  "COMMAND_MAX = 512"

definition HOST_MAX :: nat where
  "HOST_MAX = 512"

definition CONTENT_MAX :: nat where
  "CONTENT_MAX = 65536"

lemmas controller_limits [simp] = COMMAND_MAX_def HOST_MAX_def CONTENT_MAX_def

text \<open>An identity: not blank, and within a number of bytes.\<close>

definition fits :: "nat \<Rightarrow> string \<Rightarrow> bool" where
  "fits n s \<longleftrightarrow> \<not> is_blank s \<and> length s \<le> n"

definition wire_opt :: "u64 option \<Rightarrow> bool" where
  "wire_opt x \<longleftrightarrow> (case x of None \<Rightarrow> True | Some n \<Rightarrow> n \<le> MAX_WIRE_INTEGER)"

definition opt_str :: "string option \<Rightarrow> json" where
  "opt_str = encode_option JStr"

definition opt_u64 :: "u64 option \<Rightarrow> json" where
  "opt_u64 = encode_option json_u64"

definition required_non_empty_string :: "fields \<Rightarrow> string \<Rightarrow> nat \<Rightarrow> err \<Rightarrow> err + string" where
  "required_non_empty_string m k n code =
    and_then (required_string m k code) (\<lambda>s. and_then (ensure (fits n s) code) (\<lambda>_. Inr s))"

definition optional_text :: "fields \<Rightarrow> string \<Rightarrow> nat \<Rightarrow> err \<Rightarrow> err + string option" where
  "optional_text m k n code =
    (case btree_get k m of
       None \<Rightarrow> Inr None
     | Some JNull \<Rightarrow> Inr None
     | Some v \<Rightarrow> and_then (ok_or (as_str v) code) (\<lambda>s. and_then (ensure (length s \<le> n) code) (\<lambda>_. Inr (Some s))))"

definition optional_integer :: "fields \<Rightarrow> string \<Rightarrow> bool \<Rightarrow> err \<Rightarrow> err + u64 option" where
  "optional_integer m k positive code =
    (case btree_get k m of
       None \<Rightarrow> Inr None
     | Some JNull \<Rightarrow> Inr None
     | Some v \<Rightarrow> and_then (ok_or (as_u64 v) code) (\<lambda>n.
         and_then (ensure (n \<le> MAX_WIRE_INTEGER \<and> \<not> (positive \<and> n = 0)) code) (\<lambda>_. Inr (Some n))))"

definition required_integer :: "fields \<Rightarrow> string \<Rightarrow> bool \<Rightarrow> err + u64" where
  "required_integer m k positive =
    (let code = ''host_interaction_fields_invalid'' in
     and_then (ok_or (Option.bind (btree_get k m) as_u64) code) (\<lambda>n.
     and_then (ensure (n \<le> MAX_WIRE_INTEGER \<and> \<not> (positive \<and> n = 0)) code) (\<lambda>_. Inr n)))"

definition required_digest :: "fields \<Rightarrow> string \<Rightarrow> err + string" where
  "required_digest m k =
    and_then (required_non_empty_string m k 64 ''host_interaction_fields_invalid'') (\<lambda>s.
    and_then (map_err (\<lambda>_. ''host_interaction_fields_invalid'') (validate_sha256 s)) (\<lambda>_. Inr s))"

text \<open>\<open>canonical_digest\<close> removes the digest field from the wire value before it hashes.\<close>

definition canonical_digest :: "env \<Rightarrow> json \<Rightarrow> string \<Rightarrow> err + string" where
  "canonical_digest E v field =
    and_then (ok_or (as_object v) ''host_interaction_fields_invalid'') (\<lambda>m.
    sha256_canonical E (JObj (btree_remove field m)))"

definition controller_receipt_outbox_id :: "env \<Rightarrow> string \<Rightarrow> string \<Rightarrow> err + string" where
  "controller_receipt_outbox_id E command_id command_digest =
    canonical_digest E (object_of
      [(''command_digest'', JStr command_digest), (''command_id'', JStr command_id),
       (''schema_version'', JStr CONTROLLER_COMMAND_RECEIPT_SCHEMA)]) ''controller receipt outbox id''"

section \<open>Handles and admissions\<close>

record controller_handle =
  ch_checkpoint_key :: string
  ch_run_id :: string
  ch_trace_id :: string

definition controller_handle_validate :: "controller_handle \<Rightarrow> err + unit" where
  "controller_handle_validate h =
    for_each (\<lambda>s. ensure (fits COMMAND_MAX s) ''controller_command_invalid_state'')
      [ch_checkpoint_key h, ch_run_id h, ch_trace_id h]"

definition controller_handle_to_value :: "controller_handle \<Rightarrow> json" where
  "controller_handle_to_value h = object_of
    [(''checkpoint_key'', JStr (ch_checkpoint_key h)), (''run_id'', JStr (ch_run_id h)),
     (''trace_id'', JStr (ch_trace_id h))]"

definition controller_handle_from_value :: "json \<Rightarrow> err + controller_handle" where
  "controller_handle_from_value v =
    (let bad = ''controller_command_invalid_state'' in
     and_then (ok_or (as_object v) bad) (\<lambda>m.
     and_then (ensure (exact_fields [''checkpoint_key'', ''run_id'', ''trace_id''] m) bad) (\<lambda>_.
     and_then (required_non_empty_string m ''checkpoint_key'' COMMAND_MAX bad) (\<lambda>k.
     and_then (required_non_empty_string m ''run_id'' COMMAND_MAX bad) (\<lambda>r.
     and_then (required_non_empty_string m ''trace_id'' COMMAND_MAX bad) (\<lambda>t.
     let h = \<lparr>ch_checkpoint_key = k, ch_run_id = r, ch_trace_id = t\<rparr>
     in and_then (controller_handle_validate h) (\<lambda>_. Inr h)))))))"

record admission_context =
  ac_checkpoint_key :: string
  ac_expected_revision :: u64
  ac_claim_token :: string
  ac_claimed_cycle :: u64
  ac_now_ms :: u64
  ac_lease_expires_at_ms :: u64
  ac_cycle_snapshot :: "checkpoint option"

definition admission_validate :: "admission_context \<Rightarrow> err + unit" where
  "admission_validate x = for_each (\<lambda>b. ensure b ''host_interaction_claim_required'')
    [fits COMMAND_MAX (ac_checkpoint_key x), fits COMMAND_MAX (ac_claim_token x),
     ac_claimed_cycle x \<noteq> 0 \<and> ac_claimed_cycle x \<le> MAX_WIRE_INTEGER,
     ac_expected_revision x \<le> MAX_WIRE_INTEGER \<and> ac_now_ms x \<le> MAX_WIRE_INTEGER \<and>
       ac_lease_expires_at_ms x \<le> MAX_WIRE_INTEGER,
     ac_lease_expires_at_ms x \<noteq> 0]"

definition validate_live_lease :: "admission_context \<Rightarrow> err + unit" where
  "validate_live_lease x = ensure (\<not> ac_lease_expires_at_ms x \<le> ac_now_ms x) ''host_interaction_claim_required''"

section \<open>Host interactions\<close>

definition host_request_to_value :: "host_request \<Rightarrow> json" where
  "host_request_to_value r = object_of
    [(''schema_version'', JStr (hr_schema_version r)), (''interaction_id'', JStr (hr_interaction_id r)),
     (''logical_cycle'', json_u64 (hr_logical_cycle r)), (''operation_id'', JStr (hr_operation_id r)),
     (''tool_call_id'', JStr (hr_tool_call_id r)), (''request_digest'', JStr (hr_request_digest r)),
     (''prompt'', JStr (hr_prompt r))]"

record host_message =
  hm_role :: string
  hm_content :: string

definition host_message_validate :: "host_message \<Rightarrow> err + unit" where
  "host_message_validate m = all_ok
    [ensure (hm_role m = ''user'') ''host_interaction_response_missing'',
     ensure (\<not> is_blank (hm_content m)) ''host_interaction_response_missing'',
     ensure (length (hm_content m) \<le> CONTENT_MAX) ''host_interaction_content_too_large'']"

definition host_message_user :: "string \<Rightarrow> err + host_message" where
  "host_message_user content =
    (let m = \<lparr>hm_role = ''user'', hm_content = content\<rparr> in and_then (host_message_validate m) (\<lambda>_. Inr m))"

definition host_message_to_value :: "host_message \<Rightarrow> json" where
  "host_message_to_value m = object_of [(''role'', JStr (hm_role m)), (''content'', JStr (hm_content m))]"

definition host_message_from_value :: "json \<Rightarrow> err + host_message" where
  "host_message_from_value v =
    (let bad = ''host_interaction_response_missing'' in
     and_then (ok_or (as_object v) bad) (\<lambda>m.
     and_then (ensure (exact_fields [''role'', ''content''] m) ''host_interaction_fields_invalid'') (\<lambda>_.
     and_then (required_string m ''role'' bad) (\<lambda>r.
     and_then (required_string m ''content'' bad) (\<lambda>c.
     let x = \<lparr>hm_role = r, hm_content = c\<rparr> in and_then (host_message_validate x) (\<lambda>_. Inr x))))))"

record host_response =
  hp_schema_version :: string
  hp_interaction_id :: string
  hp_logical_cycle :: u64
  hp_operation_id :: string
  hp_tool_call_id :: string
  hp_request_digest :: string
  hp_command_id :: string
  hp_response :: host_message
  hp_response_digest :: string

definition host_response_to_value :: "host_response \<Rightarrow> json" where
  "host_response_to_value p = object_of
    [(''command_id'', JStr (hp_command_id p)), (''interaction_id'', JStr (hp_interaction_id p)),
     (''logical_cycle'', json_u64 (hp_logical_cycle p)), (''operation_id'', JStr (hp_operation_id p)),
     (''request_digest'', JStr (hp_request_digest p)), (''response'', host_message_to_value (hp_response p)),
     (''schema_version'', JStr (hp_schema_version p)), (''tool_call_id'', JStr (hp_tool_call_id p)),
     (''response_digest'', JStr (hp_response_digest p))]"

definition host_response_digest :: "env \<Rightarrow> host_response \<Rightarrow> err + string" where
  "host_response_digest E p = canonical_digest E (host_response_to_value p) ''response_digest''"

definition host_response_validate :: "env \<Rightarrow> host_response \<Rightarrow> err + unit" where
  "host_response_validate E p =
    (let bad = ''host_interaction_fields_invalid'' in all_ok
      [ensure (hp_schema_version p = HOST_INTERACTION_RESPONSE_SCHEMA) bad,
       for_each (\<lambda>s. ensure (fits HOST_MAX s) bad)
         [hp_interaction_id p, hp_operation_id p, hp_tool_call_id p, hp_command_id p],
       ensure (hp_logical_cycle p \<noteq> 0 \<and> hp_logical_cycle p \<le> MAX_WIRE_INTEGER) bad,
       map_err (\<lambda>_. bad) (validate_sha256 (hp_request_digest p)),
       map_err (\<lambda>_. bad) (validate_sha256 (hp_response_digest p)),
       host_message_validate (hp_response p),
       and_then (host_response_digest E p) (\<lambda>d. ensure (d = hp_response_digest p) bad)])"

definition host_response_new ::
  "env \<Rightarrow> string \<Rightarrow> u64 \<Rightarrow> string \<Rightarrow> string \<Rightarrow> string \<Rightarrow> string \<Rightarrow> host_message \<Rightarrow> err + host_response" where
  "host_response_new E interaction_id logical_cycle operation_id tool_call_id request_digest command_id response =
    and_then (host_message_validate response) (\<lambda>_.
    and_then (host_message_user (hm_content response)) (\<lambda>message.
    let p = \<lparr>hp_schema_version = HOST_INTERACTION_RESPONSE_SCHEMA, hp_interaction_id = interaction_id,
          hp_logical_cycle = logical_cycle, hp_operation_id = operation_id, hp_tool_call_id = tool_call_id,
          hp_request_digest = request_digest, hp_command_id = command_id, hp_response = message,
          hp_response_digest = []\<rparr>
    in and_then (host_response_digest E p) (\<lambda>d.
       let p = p\<lparr>hp_response_digest := d\<rparr> in and_then (host_response_validate E p) (\<lambda>_. Inr p))))"

text \<open>
  The identities of records and notifications are hashes of their owners; the canonical JSON of
  these small objects is expected to exist, and a failure of it is the error \<open>panic\<close>.
\<close>

definition record_id_for :: "env \<Rightarrow> string \<Rightarrow> host_request \<Rightarrow> err + string" where
  "record_id_for E key r = map_err (\<lambda>_. ''panic'') (sha256_canonical E (object_of
    [(''schema_version'', JStr HOST_INTERACTION_RECORD_SCHEMA), (''checkpoint_key'', JStr key),
     (''interaction_id'', JStr (hr_interaction_id r)), (''logical_cycle'', json_u64 (hr_logical_cycle r)),
     (''request_digest'', JStr (hr_request_digest r))]))"

definition notification_id_for :: "env \<Rightarrow> string \<Rightarrow> err + string" where
  "notification_id_for E record_id = map_err (\<lambda>_. ''panic'') (sha256_canonical E (object_of
    [(''schema_version'', JStr HOST_INTERACTION_NOTIFICATION_SCHEMA), (''record_id'', JStr record_id),
     (''transition'', JStr ''host_interaction_requested'')]))"

record host_record =
  hc_schema_version :: string
  hc_record_id :: string
  hc_checkpoint_key :: string
  hc_interaction_id :: string
  hc_logical_cycle :: u64
  hc_attempt :: u64
  hc_claim_token :: "string option"
  hc_lease_expires_at_ms :: "u64 option"
  hc_request :: host_request
  hc_request_digest :: string
  hc_state :: string
  hc_response :: "host_response option"
  hc_response_digest :: "string option"
  hc_command_id :: "string option"
  hc_resolved_revision :: "u64 option"
  hc_consumed_revision :: "u64 option"
  hc_last_error :: "string option"

text \<open>Which fields a state of the record has: the response, the consumption and the claim.\<close>

definition host_record_state_ok :: "host_record \<Rightarrow> bool" where
  "host_record_state_ok c \<longleftrightarrow>
    (let resolved = hc_response c \<noteq> None \<and> hc_response_digest c \<noteq> None \<and> hc_command_id c \<noteq> None \<and>
           hc_resolved_revision c \<noteq> None;
         unresolved = hc_response c = None \<and> hc_response_digest c = None \<and> hc_command_id c = None \<and>
           hc_resolved_revision c = None;
         unclaimed = hc_claim_token c = None \<and> hc_lease_expires_at_ms c = None
     in if hc_state c = ''active'' then unresolved \<and> hc_consumed_revision c = None \<and> unclaimed
        else if hc_state c = ''resolved_pending'' then resolved \<and> hc_consumed_revision c = None \<and> unclaimed
        else if hc_state c = ''resolved_claimed''
        then resolved \<and> hc_consumed_revision c = None \<and> hc_claim_token c \<noteq> None \<and> hc_lease_expires_at_ms c \<noteq> None
        else if hc_state c = ''consumed'' then resolved \<and> hc_consumed_revision c \<noteq> None \<and> unclaimed
        else False)"

definition host_record_validate :: "env \<Rightarrow> host_record \<Rightarrow> err + unit" where
  "host_record_validate E c =
    (let bad = ''host_interaction_fields_invalid'' in all_ok
      [ensure (hc_schema_version c = HOST_INTERACTION_RECORD_SCHEMA) bad,
       ensure (fits COMMAND_MAX (hc_record_id c) \<and> fits COMMAND_MAX (hc_checkpoint_key c)) bad,
       ensure (hc_logical_cycle c \<noteq> 0 \<and> hc_attempt c \<le> MAX_WIRE_INTEGER) bad,
       host_request_validate E (hc_request c),
       and_then (record_id_for E (hc_checkpoint_key c) (hc_request c)) (\<lambda>i. ensure (hc_record_id c = i) bad),
       ensure (hr_interaction_id (hc_request c) = hc_interaction_id c \<and> hr_logical_cycle (hc_request c) = hc_logical_cycle c \<and>
         hc_request_digest c = hr_request_digest (hc_request c)) bad,
       map_err (\<lambda>_. bad) (validate_sha256 (hc_request_digest c)),
       ensure (host_record_state_ok c) bad,
       validate_some (\<lambda>p. all_ok
         [host_response_validate E p,
          ensure (hp_interaction_id p = hc_interaction_id c \<and> hp_logical_cycle p = hc_logical_cycle c \<and>
            hp_request_digest p = hc_request_digest c \<and> hc_response_digest c = Some (hp_response_digest p) \<and>
            hc_command_id c = Some (hp_command_id p)) bad]) (hc_response c),
       ensure (hc_claim_token c \<noteq> Some [] \<and> wire_opt (hc_lease_expires_at_ms c)) bad,
       ensure ((hc_claim_token c \<noteq> None) = (hc_lease_expires_at_ms c \<noteq> None)) bad])"

record host_outcome =
  ho_schema_version :: string
  ho_interaction_id :: string
  ho_logical_cycle :: u64
  ho_checkpoint_revision :: u64
  ho_status :: string
  ho_outbox_state :: string
  ho_record_id :: string
  ho_notification_id :: string
  ho_notification_payload_digest :: string
  ho_notification_outbox_action :: string
  ho_notification_outbox_destination :: string

definition host_outcome_validate :: "host_outcome \<Rightarrow> err + unit" where
  "host_outcome_validate x = for_each (\<lambda>b. ensure b ''host_interaction_fields_invalid'')
    [ho_schema_version x = HOST_INTERACTION_OUTCOME_SCHEMA,
     ho_logical_cycle x \<noteq> 0 \<and> ho_checkpoint_revision x \<le> MAX_WIRE_INTEGER,
     ho_status x \<in> {''admitted'', ''replayed''} \<and> ho_outbox_state x = ''pending'' \<and>
       ho_notification_outbox_action x = ''host_interaction_notification'' \<and>
       ho_notification_outbox_destination x = ''host_interaction_observer'',
     fits HOST_MAX (ho_interaction_id x),
     list_all (fits COMMAND_MAX) [ho_record_id x, ho_notification_id x, ho_notification_outbox_action x,
       ho_notification_outbox_destination x],
     is_sha256 (ho_notification_payload_digest x)]"

section \<open>Notifications\<close>

record notification_payload =
  np_schema_version :: string
  np_notification_id :: string
  np_record_id :: string
  np_interaction_id :: string
  np_logical_cycle :: u64
  np_status :: string
  np_wait_reason :: string
  np_prompt :: string

definition notification_payload_validate :: "env \<Rightarrow> notification_payload \<Rightarrow> err + unit" where
  "notification_payload_validate E x =
    (let bad = ''host_interaction_fields_invalid'' in all_ok
      [ensure (np_schema_version x = HOST_INTERACTION_NOTIFICATION_SCHEMA \<and> np_status x = ''host_interaction'' \<and>
         np_wait_reason x = ''host_interaction'') bad,
       for_each (\<lambda>s. ensure (fits COMMAND_MAX s) bad) [np_notification_id x, np_record_id x, np_interaction_id x],
       ensure (np_logical_cycle x \<noteq> 0 \<and> np_logical_cycle x \<le> MAX_WIRE_INTEGER \<and> fits CONTENT_MAX (np_prompt x) \<and>
         length (np_wait_reason x) \<le> COMMAND_MAX) bad,
       and_then (notification_id_for E (np_record_id x)) (\<lambda>i. ensure (np_notification_id x = i) ''notification_conflict'')])"

definition notification_payload_to_value :: "notification_payload \<Rightarrow> json" where
  "notification_payload_to_value x = object_of
    [(''schema_version'', JStr (np_schema_version x)), (''notification_id'', JStr (np_notification_id x)),
     (''record_id'', JStr (np_record_id x)), (''interaction_id'', JStr (np_interaction_id x)),
     (''logical_cycle'', json_u64 (np_logical_cycle x)), (''status'', JStr (np_status x)),
     (''wait_reason'', JStr (np_wait_reason x)), (''prompt'', JStr (np_prompt x))]"

definition notification_payload_digest :: "env \<Rightarrow> notification_payload \<Rightarrow> err + string" where
  "notification_payload_digest E x = sha256_canonical E (notification_payload_to_value x)"

datatype notification_state = NPending | NClaimed | NDelivered | NAmbiguous | NAborted

record notification_record =
  nr_notification_id :: string
  nr_checkpoint_key :: string
  nr_record_id :: string
  nr_payload :: notification_payload
  nr_payload_digest :: string
  nr_outbox_state :: notification_state
  nr_claim_token :: "string option"
  nr_lease_expires_at_ms :: "u64 option"
  nr_attempt :: u64
  nr_delivered_at_ms :: "u64 option"
  nr_aborted_at_ms :: "u64 option"
  nr_abort_reason :: "string option"
  nr_last_error :: "string option"

definition notification_lifecycle_ok :: "notification_record \<Rightarrow> bool" where
  "notification_lifecycle_ok x \<longleftrightarrow>
    (case nr_outbox_state x of
       NPending \<Rightarrow> nr_claim_token x = None \<and> nr_delivered_at_ms x = None \<and> nr_aborted_at_ms x = None \<and> nr_abort_reason x = None
     | NAmbiguous \<Rightarrow> nr_claim_token x = None \<and> nr_delivered_at_ms x = None \<and> nr_aborted_at_ms x = None \<and> nr_abort_reason x = None
     | NClaimed \<Rightarrow> nr_claim_token x \<noteq> None \<and> nr_lease_expires_at_ms x \<noteq> None \<and> nr_delivered_at_ms x = None \<and>
         nr_aborted_at_ms x = None \<and> nr_abort_reason x = None \<and> nr_attempt x \<noteq> 0
     | NDelivered \<Rightarrow> nr_claim_token x = None \<and> nr_delivered_at_ms x \<noteq> None \<and> nr_aborted_at_ms x = None \<and> nr_abort_reason x = None
     | NAborted \<Rightarrow> nr_claim_token x = None \<and> nr_delivered_at_ms x = None \<and> nr_aborted_at_ms x \<noteq> None \<and> some_non_blank (nr_abort_reason x))"

definition notification_validate :: "env \<Rightarrow> notification_record \<Rightarrow> err + unit" where
  "notification_validate E x =
    (let bad = ''notification_conflict'' in all_ok
      [notification_payload_validate E (nr_payload x),
       (if nr_notification_id x \<noteq> np_notification_id (nr_payload x) \<or> nr_record_id x \<noteq> np_record_id (nr_payload x) then Inl bad
        else and_then (notification_payload_digest E (nr_payload x)) (\<lambda>d. ensure (nr_payload_digest x = d) bad)),
       map_err (\<lambda>_. bad) (validate_sha256 (nr_payload_digest x)),
       ensure ((nr_claim_token x \<noteq> None) = (nr_lease_expires_at_ms x \<noteq> None)) bad,
       ensure (nr_attempt x \<le> MAX_WIRE_INTEGER \<and> wire_opt (nr_lease_expires_at_ms x) \<and> wire_opt (nr_delivered_at_ms x) \<and>
         wire_opt (nr_aborted_at_ms x)) bad,
       ensure ((case nr_abort_reason x of None \<Rightarrow> True | Some s \<Rightarrow> fits CONTENT_MAX s) \<and>
         (case nr_last_error x of None \<Rightarrow> True | Some s \<Rightarrow> length s \<le> CONTENT_MAX)) bad,
       ensure (notification_lifecycle_ok x) bad])"

section \<open>Commands\<close>

datatype command_kind =
    HostInteractionResponse string u64 string string string host_message
  | Suspend_Command
  | Resume_Command
  | Cancel_Command
  | Abort_Command

fun command_kind_to_value :: "command_kind \<Rightarrow> json" where
  "command_kind_to_value (HostInteractionResponse interaction_id logical_cycle operation_id tool_call_id request_digest response) =
     object_of [(''kind'', JStr ''host_interaction_response''), (''interaction_id'', JStr interaction_id),
       (''logical_cycle'', json_u64 logical_cycle), (''operation_id'', JStr operation_id),
       (''tool_call_id'', JStr tool_call_id), (''request_digest'', JStr request_digest),
       (''response'', host_message_to_value response)]"
| "command_kind_to_value Suspend_Command = object_of [(''kind'', JStr ''suspend'')]"
| "command_kind_to_value Resume_Command = object_of [(''kind'', JStr ''resume'')]"
| "command_kind_to_value Cancel_Command = object_of [(''kind'', JStr ''cancel'')]"
| "command_kind_to_value Abort_Command = object_of [(''kind'', JStr ''abort'')]"

definition response_kind_from_fields :: "fields \<Rightarrow> err + command_kind" where
  "response_kind_from_fields m =
    (let bad = ''controller_command_invalid_state'' in
     and_then (ensure (exact_fields [''kind'', ''interaction_id'', ''logical_cycle'', ''operation_id'', ''tool_call_id'',
       ''request_digest'', ''response''] m) bad) (\<lambda>_.
     and_then (ok_or (btree_get ''response'' m) ''panic'') (\<lambda>v.
     and_then (host_message_from_value v) (\<lambda>response.
     and_then (required_non_empty_string m ''interaction_id'' HOST_MAX bad) (\<lambda>interaction_id.
     and_then (required_integer m ''logical_cycle'' True) (\<lambda>logical_cycle.
     and_then (required_non_empty_string m ''operation_id'' HOST_MAX bad) (\<lambda>operation_id.
     and_then (required_non_empty_string m ''tool_call_id'' HOST_MAX bad) (\<lambda>tool_call_id.
     and_then (required_digest m ''request_digest'') (\<lambda>request_digest.
     Inr (HostInteractionResponse interaction_id logical_cycle operation_id tool_call_id request_digest response))))))))))"

definition command_kind_from_value :: "json \<Rightarrow> err + command_kind" where
  "command_kind_from_value v =
    (let bad = ''controller_command_invalid_state'';
         bare = (\<lambda>m k. and_then (ensure (exact_fields [''kind''] m) bad) (\<lambda>_. Inr k))
     in and_then (ok_or (as_object v) bad) (\<lambda>m.
        and_then (required_string m ''kind'' bad) (\<lambda>kind.
        if kind = ''host_interaction_response'' then response_kind_from_fields m
        else if kind = ''suspend'' then bare m Suspend_Command
        else if kind = ''resume'' then bare m Resume_Command
        else if kind = ''cancel'' then bare m Cancel_Command
        else if kind = ''abort'' then bare m Abort_Command
        else Inl bad)))"

record controller_command =
  cc_schema_version :: string
  cc_command_id :: string
  cc_command_digest :: string
  cc_handle :: controller_handle
  cc_resume_attempt :: u64
  cc_expected_revision :: u64
  cc_command :: command_kind

definition command_to_value :: "controller_command \<Rightarrow> json" where
  "command_to_value c = object_of
    [(''command'', command_kind_to_value (cc_command c)), (''expected_revision'', json_u64 (cc_expected_revision c)),
     (''handle'', controller_handle_to_value (cc_handle c)), (''resume_attempt'', json_u64 (cc_resume_attempt c)),
     (''schema_version'', JStr (cc_schema_version c)), (''command_id'', JStr (cc_command_id c)),
     (''command_digest'', JStr (cc_command_digest c))]"

definition command_computed_digest :: "env \<Rightarrow> controller_command \<Rightarrow> err + string" where
  "command_computed_digest E c = canonical_digest E (command_to_value c) ''command_digest''"

fun command_kind_validate :: "command_kind \<Rightarrow> err + unit" where
  "command_kind_validate (HostInteractionResponse interaction_id logical_cycle operation_id tool_call_id request_digest response) =
     all_ok
      [for_each (\<lambda>s. ensure (fits HOST_MAX s) ''controller_command_invalid_state'') [interaction_id, operation_id, tool_call_id],
       ensure (logical_cycle \<noteq> 0 \<and> logical_cycle \<le> MAX_WIRE_INTEGER) ''controller_command_invalid_state'',
       map_err (\<lambda>_. ''controller_command_invalid_state'') (validate_sha256 request_digest),
       host_message_validate response]"
| "command_kind_validate _ = Inr ()"

definition command_validate :: "env \<Rightarrow> controller_command \<Rightarrow> err + unit" where
  "command_validate E c =
    (let bad = ''controller_command_digest_invalid'' in all_ok
      [ensure (cc_schema_version c = CONTROLLER_COMMAND_SCHEMA) bad,
       ensure (fits COMMAND_MAX (cc_command_id c)) bad,
       controller_handle_validate (cc_handle c),
       ensure (cc_resume_attempt c \<noteq> 0 \<and> cc_resume_attempt c \<le> MAX_WIRE_INTEGER \<and>
         cc_expected_revision c \<le> MAX_WIRE_INTEGER) bad,
       command_kind_validate (cc_command c),
       map_err (\<lambda>_. bad) (validate_sha256 (cc_command_digest c)),
       and_then (command_computed_digest E c) (\<lambda>d. ensure (d = cc_command_digest c) bad)])"

definition command_new :: "env \<Rightarrow> string \<Rightarrow> controller_handle \<Rightarrow> u64 \<Rightarrow> u64 \<Rightarrow> command_kind \<Rightarrow> err + controller_command" where
  "command_new E command_id handle resume_attempt expected_revision command =
    (let c = \<lparr>cc_schema_version = CONTROLLER_COMMAND_SCHEMA, cc_command_id = command_id, cc_command_digest = [],
           cc_handle = handle, cc_resume_attempt = resume_attempt, cc_expected_revision = expected_revision,
           cc_command = command\<rparr>
     in and_then (command_computed_digest E c) (\<lambda>d.
        let c = c\<lparr>cc_command_digest := d\<rparr> in and_then (command_validate E c) (\<lambda>_. Inr c)))"

definition command_from_value :: "env \<Rightarrow> json \<Rightarrow> err + controller_command" where
  "command_from_value E v =
    (let bad = ''controller_command_digest_invalid'' in
     and_then (ok_or (as_object v) bad) (\<lambda>m.
     and_then (ensure (exact_fields [''schema_version'', ''command_id'', ''command_digest'', ''handle'', ''resume_attempt'',
       ''expected_revision'', ''command''] m) bad) (\<lambda>_.
     and_then (required_string m ''schema_version'' bad) (\<lambda>schema_version.
     and_then (required_non_empty_string m ''command_id'' COMMAND_MAX bad) (\<lambda>command_id.
     and_then (required_digest m ''command_digest'') (\<lambda>command_digest.
     and_then (ok_or (btree_get ''handle'' m) ''panic'') (\<lambda>h.
     and_then (controller_handle_from_value h) (\<lambda>handle.
     and_then (required_integer m ''resume_attempt'' True) (\<lambda>resume_attempt.
     and_then (required_integer m ''expected_revision'' False) (\<lambda>expected_revision.
     and_then (ok_or (btree_get ''command'' m) ''panic'') (\<lambda>k.
     and_then (command_kind_from_value k) (\<lambda>command.
     let c = \<lparr>cc_schema_version = schema_version, cc_command_id = command_id, cc_command_digest = command_digest,
           cc_handle = handle, cc_resume_attempt = resume_attempt, cc_expected_revision = expected_revision,
           cc_command = command\<rparr>
     in and_then (command_validate E c) (\<lambda>_. Inr c)))))))))))))"

section \<open>Receipts, wakes and resolutions\<close>

record command_receipt =
  kr_schema_version :: string
  kr_command_id :: string
  kr_command_digest :: string
  kr_handle :: controller_handle
  kr_resume_attempt :: u64
  kr_expected_revision :: u64
  kr_resulting_revision :: u64
  kr_resulting_status :: string
  kr_outbox_state :: string
  kr_outbox_action :: string
  kr_outbox_destination :: "string option"
  kr_outbox_attempt :: u64

text \<open>The two pairs of action and destination of an outbox.\<close>

definition canonical_route :: "string \<Rightarrow> string option \<Rightarrow> bool" where
  "canonical_route action destination \<longleftrightarrow>
     action = ''none'' \<and> destination = None \<or> action = ''recovery_dispatch'' \<and> destination = Some ''distributed_advance''"

definition command_receipt_validate :: "command_receipt \<Rightarrow> err + unit" where
  "command_receipt_validate r =
    (let bad = ''controller_command_invalid_state'' in all_ok
      [ensure (kr_schema_version r = CONTROLLER_COMMAND_RECEIPT_SCHEMA) bad,
       ensure (fits COMMAND_MAX (kr_command_id r)) bad,
       map_err (\<lambda>_. bad) (validate_sha256 (kr_command_digest r)),
       controller_handle_validate (kr_handle r),
       ensure (kr_resume_attempt r \<noteq> 0 \<and> kr_resume_attempt r \<le> MAX_WIRE_INTEGER \<and>
         kr_expected_revision r \<le> MAX_WIRE_INTEGER \<and> kr_resulting_revision r \<le> MAX_WIRE_INTEGER \<and>
         kr_outbox_attempt r \<le> MAX_WIRE_INTEGER) bad,
       ensure (kr_outbox_state r \<in> {''pending'', ''claimed'', ''delivered'', ''ambiguous''}) bad,
       ensure (fits COMMAND_MAX (kr_resulting_status r)) bad,
       ensure (case kr_outbox_destination r of None \<Rightarrow> True | Some s \<Rightarrow> length s \<le> COMMAND_MAX) bad,
       ensure (canonical_route (kr_outbox_action r) (kr_outbox_destination r)) bad,
       ensure (\<not> (kr_outbox_action r = ''none'' \<and> kr_outbox_state r \<noteq> ''delivered'')) bad])"

record command_wake =
  wk_action :: string
  wk_destination :: "string option"
  wk_logical_cycle :: u64
  wk_claim_mode :: string

definition wake_none :: command_wake where
  "wake_none = \<lparr>wk_action = ''none'', wk_destination = None, wk_logical_cycle = 0, wk_claim_mode = ''none''\<rparr>"

definition wake_recovery :: "u64 \<Rightarrow> command_wake" where
  "wake_recovery logical_cycle = \<lparr>wk_action = ''recovery_dispatch'', wk_destination = Some ''distributed_advance'',
     wk_logical_cycle = logical_cycle, wk_claim_mode = ''recovery''\<rparr>"

definition wake_validate :: "command_wake \<Rightarrow> err + unit" where
  "wake_validate w = ensure
    (wk_action w = ''none'' \<and> wk_destination w = None \<and> wk_claim_mode w = ''none'' \<or>
     wk_action w = ''recovery_dispatch'' \<and> wk_destination w = Some ''distributed_advance'' \<and>
       wk_claim_mode w = ''recovery'' \<and> wk_logical_cycle w > 0) ''controller_command_invalid_state''"

datatype command_resolution =
    CommandApplied command_receipt command_wake
  | CommandReplayed command_receipt command_wake
  | CommandRejected err

record wake_record =
  wr_command_id :: string
  wr_command_digest :: string
  wr_checkpoint_key :: string
  wr_handle :: controller_handle
  wr_resume_attempt :: u64
  wr_expected_revision :: u64
  wr_resulting_revision :: u64
  wr_resulting_status :: string
  wr_outbox_id :: string
  wr_outbox_state :: string
  wr_outbox_action :: string
  wr_outbox_destination :: "string option"
  wr_attempt :: u64
  wr_claim_token :: "string option"
  wr_lease_expires_at_ms :: "u64 option"
  wr_delivered_at_ms :: "u64 option"
  wr_last_error :: "string option"

definition wake_record_validate :: "env \<Rightarrow> wake_record \<Rightarrow> err + unit" where
  "wake_record_validate E w =
    (let bad = ''controller_command_outbox_invalid'' in all_ok
      [ensure (fits COMMAND_MAX (wr_command_id w) \<and> fits COMMAND_MAX (wr_checkpoint_key w)) bad,
       map_err (\<lambda>_. bad) (validate_sha256 (wr_command_digest w)),
       controller_handle_validate (wr_handle w),
       (if ch_checkpoint_key (wr_handle w) \<noteq> wr_checkpoint_key w then Inl bad
        else and_then (controller_receipt_outbox_id E (wr_command_id w) (wr_command_digest w)) (\<lambda>i.
             ensure (wr_outbox_id w = i) bad)),
       ensure (wr_resume_attempt w \<noteq> 0 \<and> wr_resume_attempt w \<le> MAX_WIRE_INTEGER \<and>
         wr_expected_revision w \<le> MAX_WIRE_INTEGER \<and> wr_resulting_revision w \<le> MAX_WIRE_INTEGER \<and>
         wr_attempt w \<le> MAX_WIRE_INTEGER) bad,
       ensure (fits COMMAND_MAX (wr_resulting_status w)) bad,
       ensure (wr_outbox_state w \<in> {''pending'', ''claimed'', ''delivered'', ''ambiguous''}) bad,
       ensure (canonical_route (wr_outbox_action w) (wr_outbox_destination w)) bad,
       ensure (if wr_outbox_action w = ''none'' then wr_outbox_state w = ''delivered'' \<and> wr_attempt w = 0
         else \<not> (wr_outbox_state w \<noteq> ''pending'' \<and> wr_attempt w = 0)) bad,
       ensure ((wr_claim_token w \<noteq> None) = (wr_lease_expires_at_ms w \<noteq> None)) bad,
       ensure (\<not> (wr_outbox_state w = ''claimed'' \<and> wr_claim_token w = None)) bad,
       ensure (\<not> (wr_outbox_state w \<noteq> ''claimed'' \<and> wr_claim_token w \<noteq> None)) bad,
       ensure ((case wr_claim_token w of None \<Rightarrow> True | Some s \<Rightarrow> fits COMMAND_MAX s) \<and>
         wire_opt (wr_lease_expires_at_ms w) \<and> wire_opt (wr_delivered_at_ms w)) bad,
       ensure (case wr_last_error w of None \<Rightarrow> True | Some s \<Rightarrow> length s \<le> CONTENT_MAX) bad])"

text \<open>The record of a wake without an owner, which is how the store hands one out.\<close>

definition from_receipt_lifecycle ::
  "env \<Rightarrow> command_receipt \<Rightarrow> string \<Rightarrow> u64 \<Rightarrow> string option \<Rightarrow> u64 option \<Rightarrow> u64 option \<Rightarrow> string option \<Rightarrow> err + wake_record" where
  "from_receipt_lifecycle E r outbox_id attempt claim_token lease delivered_at last_error =
    and_then (command_receipt_validate r) (\<lambda>_.
    and_then (ensure (attempt = kr_outbox_attempt r) ''controller_command_outbox_invalid'') (\<lambda>_.
    let w = \<lparr>wr_command_id = kr_command_id r, wr_command_digest = kr_command_digest r,
          wr_checkpoint_key = ch_checkpoint_key (kr_handle r), wr_handle = kr_handle r,
          wr_resume_attempt = kr_resume_attempt r, wr_expected_revision = kr_expected_revision r,
          wr_resulting_revision = kr_resulting_revision r, wr_resulting_status = kr_resulting_status r,
          wr_outbox_id = outbox_id, wr_outbox_state = kr_outbox_state r, wr_outbox_action = kr_outbox_action r,
          wr_outbox_destination = kr_outbox_destination r, wr_attempt = attempt, wr_claim_token = claim_token,
          wr_lease_expires_at_ms = lease, wr_delivered_at_ms = delivered_at, wr_last_error = last_error\<rparr>
    in and_then (wake_record_validate E w) (\<lambda>_. Inr w)))"

section \<open>Recovery\<close>

record recovery_envelope =
  rv_schema_version :: string
  rv_record_id :: string
  rv_checkpoint_key :: string
  rv_run_id :: string
  rv_trace_id :: string
  rv_claim_mode :: string
  rv_resume_attempt :: u64
  rv_expected_revision :: u64
  rv_logical_cycle :: u64
  rv_interaction_id :: string
  rv_operation_id :: string
  rv_tool_call_id :: string
  rv_request_digest :: string
  rv_command_id :: string

definition recovery_envelope_validate :: "recovery_envelope \<Rightarrow> err + unit" where
  "recovery_envelope_validate x = for_each (\<lambda>b. ensure b ''host_interaction_recovery_stale'')
    [rv_schema_version x = HOST_INTERACTION_RECOVERY_SCHEMA \<and> rv_claim_mode x = ''recovery'',
     list_all (fits COMMAND_MAX) [rv_record_id x, rv_checkpoint_key x, rv_run_id x, rv_trace_id x, rv_interaction_id x,
       rv_operation_id x, rv_tool_call_id x, rv_command_id x],
     rv_resume_attempt x \<noteq> 0 \<and> rv_resume_attempt x \<le> MAX_WIRE_INTEGER \<and> rv_expected_revision x \<le> MAX_WIRE_INTEGER \<and>
       rv_logical_cycle x \<noteq> 0 \<and> rv_logical_cycle x \<le> MAX_WIRE_INTEGER,
     is_sha256 (rv_request_digest x)]"

record recovery_result =
  rs_schema_version :: string
  rs_kind :: string
  rs_record_id :: string
  rs_checkpoint_revision :: "u64 option"
  rs_consumed_revision :: "u64 option"
  rs_claim_mode :: string
  rs_resume_attempt :: "u64 option"
  rs_injection_count :: u64
  rs_claim_state :: string
  rs_error :: "string option"

definition recovery_result_validate :: "recovery_result \<Rightarrow> err + unit" where
  "recovery_result_validate x = for_each (\<lambda>b. ensure b ''host_interaction_recovery_stale'')
    [rs_schema_version x = HOST_INTERACTION_RECOVERY_RESULT_SCHEMA \<and> rs_claim_mode x = ''recovery'',
     rs_kind x \<in> {''applied'', ''replayed'', ''rejected''} \<and> \<not> is_blank (rs_record_id x),
     rs_injection_count x \<le> 1,
     rs_claim_state x \<in> {''retained'', ''released'', ''not_acquired''},
     wire_opt (rs_checkpoint_revision x), wire_opt (rs_consumed_revision x),
     rs_resume_attempt x \<noteq> Some 0 \<and> wire_opt (rs_resume_attempt x),
     (if rs_kind x = ''rejected''
      then rs_checkpoint_revision x = None \<and> rs_consumed_revision x = None \<and> rs_resume_attempt x = None \<and>
        rs_injection_count x = 0 \<and> rs_claim_state x = ''not_acquired'' \<and> some_non_blank (rs_error x)
      else rs_checkpoint_revision x \<noteq> None \<and> rs_consumed_revision x \<noteq> None \<and> rs_resume_attempt x \<noteq> None \<and>
        rs_injection_count x = 1 \<and> (rs_kind x = ''applied'' \<longrightarrow> rs_claim_state x = ''retained'') \<and> rs_error x = None)]"

end
