(* ===== verification/Checkpoint_Store.thy ===== *)
theory Checkpoint_Store
  imports Controller_Types
begin

text \<open>
  The in-memory checkpoint store (\<open>runtime/stores/memory.rs\<close>, \<open>memory_impl_core.rs\<close>) with its
  archive of completed history (\<open>runtime/state/history.rs\<close>). Every operation holds the store's lock
  from its first read to its last write, so an operation is one step of the store. The store also
  keeps the ledger of the controller, whose operations are in \<open>Controller_Store\<close>.
\<close>

section \<open>History\<close>

definition retained_cycle :: "checkpoint \<Rightarrow> u64 option" where
  "retained_cycle c =
    (if cp_terminal_result c \<noteq> None
     then (if cp_cycles c = [] then None else Some (cy_index (last (cp_cycles c))))
     else let is = filter (\<lambda>i. i \<le> cp_cycle_index c) (map cy_index (cp_cycles c))
          in if is = [] then None else Some (fold max is 0))"

definition archived_call :: "checkpoint \<Rightarrow> u64 \<Rightarrow> model_call \<Rightarrow> bool" where
  "archived_call c retained r \<longleftrightarrow>
     mc_cycle_index r < retained \<and> Some (mc_call_id r) \<notin> set (map oj_call_id (cp_model_call_journal c))"

text \<open>The aggregate of the archive after one more model call.\<close>

definition history_append :: "model_call \<Rightarrow> history \<Rightarrow> history" where
  "history_append r h =
    h\<lparr>hi_usage := append_totals (hi_usage h) r (hi_model_call_count h = 0),
      hi_model_call_count := hi_model_call_count h + 1,
      hi_previous_agent_input :=
        (if mc_operation r = AgentCycle \<and> mc_status r = McCompleted
         then Some \<lparr>pi_cycle_index = mc_cycle_index r, pi_input_tokens = tu_input_tokens (mc_usage r)\<rparr>
         else hi_previous_agent_input h)\<rparr>"

record history_batch =
  hb_payload :: json
  hb_payload_digest :: string
  hb_sequence :: u64

definition history_payload :: "env \<Rightarrow> string \<Rightarrow> u64 \<Rightarrow> string option \<Rightarrow> cycle_record list \<Rightarrow> model_call list \<Rightarrow> json" where
  "history_payload E key sequence previous ys calls = object_of
    [(''schema_version'', JStr ''vv-agent.checkpoint-history.v1''), (''checkpoint_key'', JStr key),
     (''sequence'', json_u64 sequence), (''previous_digest'', encode_option JStr previous),
     (''cycles'', JArr (map (encode_cycle E) ys)), (''model_calls'', JArr (map model_call_to_value calls))]"

text \<open>The terminal result keeps only the records that stay active; \<open>expect\<close> of the summary is the error \<open>panic\<close>.\<close>

definition trim_terminal_result :: "env \<Rightarrow> checkpoint \<Rightarrow> err + checkpoint" where
  "trim_terminal_result E c =
    (case cp_terminal_result c of
       None \<Rightarrow> Inr c
     | Some v \<Rightarrow>
         and_then (ok_or (decode_agent_result E v) ''checkpoint_history_invalid'') (\<lambda>r.
         and_then (map_err (\<lambda>_. ''panic'') (summarize_task_token_usage (cp_model_calls c))) (\<lambda>usage.
         Inr (c\<lparr>cp_terminal_result := Some (encode_agent_result E
           (r\<lparr>ag_cycles := cp_cycles c, ag_token_usage := usage\<rparr>))\<rparr>))))"

definition archive_records :: "env \<Rightarrow> checkpoint \<Rightarrow> u64 \<Rightarrow> err + checkpoint \<times> history_batch option" where
  "archive_records E c retained =
    (let ys = filter (\<lambda>y. cy_index y < retained) (cp_cycles c);
         calls = filter (archived_call c retained) (cp_model_calls c);
         h = cp_history c
     in if ys = [] \<and> calls = [] then Inr (c, None)
        else and_then (ok_or (Option.bind (checked_add (hi_sequence h) 1)
               (\<lambda>n. if n \<le> MAX_WIRE_INTEGER then Some n else None)) ''checkpoint_history_invalid'') (\<lambda>sequence.
             let payload = history_payload E (cp_key c) sequence (hi_head_digest h) ys calls in
             and_then (sha256_canonical E payload) (\<lambda>digest.
             let h' = (fold history_append calls (h\<lparr>hi_cycle_count := hi_cycle_count h + length ys\<rparr>))
                   \<lparr>hi_sequence := sequence, hi_head_digest := Some digest\<rparr>;
                 c' = c\<lparr>cp_cycles := filter (\<lambda>y. \<not> cy_index y < retained) (cp_cycles c),
                        cp_model_calls := filter (\<lambda>r. \<not> archived_call c retained r) (cp_model_calls c),
                        cp_history := h'\<rparr>
             in and_then (trim_terminal_result E c') (\<lambda>c''.
                and_then (validate_checkpoint E c'') (\<lambda>_.
                Inr (c'', Some \<lparr>hb_payload = payload, hb_payload_digest = digest, hb_sequence = sequence\<rparr>))))))"

definition normalize_checkpoint_history :: "env \<Rightarrow> checkpoint \<Rightarrow> err + checkpoint \<times> history_batch option" where
  "normalize_checkpoint_history E c =
    (case retained_cycle c of None \<Rightarrow> Inr (c, None) | Some retained \<Rightarrow> archive_records E c retained)"

section \<open>The store\<close>

record archive =
  av_payloads :: "string list"
  av_call_ids :: "string list"

definition empty_archive :: archive where
  "empty_archive = \<lparr>av_payloads = [], av_call_ids = []\<rparr>"

record wake_lease =
  wl_claim_token :: string
  wl_lease_expires_at_ms :: u64

record ledger =
  le_host_interactions :: "(string, host_record) btree"
  le_notifications :: "(string, notification_record) btree"
  le_command_receipts :: "(string, command_receipt \<times> command_resolution) btree"
  le_commands :: "(string, controller_command) btree"
  le_wake_leases :: "(string, wake_lease) btree"

definition empty_ledger :: ledger where
  "empty_ledger = \<lparr>le_host_interactions = [], le_notifications = [], le_command_receipts = [], le_commands = [],
     le_wake_leases = []\<rparr>"

lemma empty_ledger_simps [simp]:
  "le_host_interactions empty_ledger = []" "le_notifications empty_ledger = []" "le_command_receipts empty_ledger = []"
  "le_commands empty_ledger = []" "le_wake_leases empty_ledger = []"
  by (simp_all add: empty_ledger_def)

record store =
  sto_checkpoints :: "(string, checkpoint) btree"
  sto_history :: "(string, archive) btree"
  sto_receipts :: "(string, deferred_receipt) btree"
  sto_ledger :: ledger

definition empty_store :: store where
  "empty_store = \<lparr>sto_checkpoints = [], sto_history = [], sto_receipts = [], sto_ledger = empty_ledger\<rparr>"

definition archive_of :: "store \<Rightarrow> string \<Rightarrow> archive" where
  "archive_of st key = (case btree_get key (sto_history st) of None \<Rightarrow> empty_archive | Some a \<Rightarrow> a)"

definition persist_history :: "env \<Rightarrow> store \<Rightarrow> checkpoint \<Rightarrow> store \<times> (err + checkpoint)" where
  "persist_history E st c =
    (let archive = archive_of st (cp_key c) in
     if list_ex (\<lambda>r. mc_call_id r \<in> set (av_call_ids archive)) (cp_model_calls c)
     then (st, Inl ''checkpoint_history_invalid'')
     else case normalize_checkpoint_history E c of
       Inl e \<Rightarrow> (st, Inl e)
     | Inr (c', None) \<Rightarrow> (st, Inr c')
     | Inr (c', Some batch) \<Rightarrow>
         if length (av_payloads archive) + 1 \<noteq> hb_sequence batch
         then (st\<lparr>sto_history := btree_or_insert (cp_key c') empty_archive (sto_history st)\<rparr>,
               Inl ''checkpoint_history_invalid'')
         else case canonical_json_bytes E (hb_payload batch) of
           Inl e \<Rightarrow> (st\<lparr>sto_history := btree_or_insert (cp_key c') empty_archive (sto_history st)\<rparr>, Inl e)
         | Inr payload \<Rightarrow>
             (let calls = (case retained_cycle c of None \<Rightarrow> []
                    | Some retained \<Rightarrow> filter (archived_call c retained) (cp_model_calls c))
              in (st\<lparr>sto_history := btree_insert (cp_key c')
                   \<lparr>av_payloads = av_payloads archive @ [payload],
                    av_call_ids = av_call_ids archive @ map mc_call_id calls\<rparr> (sto_history st)\<rparr>, Inr c')))"

definition put_checkpoint :: "string \<Rightarrow> checkpoint \<Rightarrow> store \<Rightarrow> store" where
  "put_checkpoint key c st = st\<lparr>sto_checkpoints := btree_insert key c (sto_checkpoints st)\<rparr>"

text \<open>The common tail of the writing operations: archive what is complete, then replace the checkpoint.\<close>

definition persist_and_put :: "env \<Rightarrow> store \<Rightarrow> (checkpoint \<Rightarrow> string) \<Rightarrow> checkpoint \<Rightarrow> store \<times> (err + bool)" where
  "persist_and_put E st dest c =
    (case persist_history E st c of
       (st', Inl e) \<Rightarrow> (st', Inl e)
     | (st', Inr c') \<Rightarrow> (put_checkpoint (dest c') c' st', Inr True))"

definition cas_write ::
  "env \<Rightarrow> store \<Rightarrow> string \<Rightarrow> (checkpoint \<Rightarrow> string) \<Rightarrow> (checkpoint \<Rightarrow> err + checkpoint option) \<Rightarrow> store \<times> (err + bool)" where
  "cas_write E st key dest prepare =
    (case btree_get key (sto_checkpoints st) of
       None \<Rightarrow> (st, Inr False)
     | Some current \<Rightarrow>
         (case prepare current of
            Inl e \<Rightarrow> (st, Inl e)
          | Inr None \<Rightarrow> (st, Inr False)
          | Inr (Some updated) \<Rightarrow> persist_and_put E st dest updated))"

definition create_checkpoint :: "env \<Rightarrow> store \<Rightarrow> checkpoint \<Rightarrow> store \<times> (err + bool)" where
  "create_checkpoint E st c =
    (case validate_checkpoint_creation E c of
       Inl e \<Rightarrow> (st, Inl e)
     | Inr _ \<Rightarrow>
         if btree_contains (cp_key c) (sto_checkpoints st) then (st, Inr False)
         else (put_checkpoint (cp_key c) c st, Inr True))"

definition load_checkpoint :: "store \<Rightarrow> string \<Rightarrow> checkpoint option" where
  "load_checkpoint st key = btree_get key (sto_checkpoints st)"

definition list_checkpoints :: "store \<Rightarrow> string list" where
  "list_checkpoints st = map fst (sto_checkpoints st)"

definition claim_checkpoint ::
  "env \<Rightarrow> store \<Rightarrow> string \<Rightarrow> u64 \<Rightarrow> string \<Rightarrow> u64 \<Rightarrow> u64 \<Rightarrow> claim_mode \<Rightarrow> store \<times> (err + checkpoint option)" where
  "claim_checkpoint E st key cycle_index token lease now mode =
    (if is_blank token \<or> lease \<le> now then (st, Inl ''checkpoint_claim_invalid'')
     else case btree_get key (sto_checkpoints st) of
       None \<Rightarrow> (st, Inr None)
     | Some current \<Rightarrow>
         if list_ex (\<lambda>(_, h). hc_checkpoint_key h = key \<and> hc_state h \<in> {''resolved_pending'', ''resolved_claimed''})
              (le_host_interactions (sto_ledger st))
         then (st, Inl ''host_interaction_recovery_required'')
         else case claim_candidate current cycle_index now mode of
           Inl e \<Rightarrow> (st, Inl e)
         | Inr False \<Rightarrow> (st, Inr None)
         | Inr True \<Rightarrow>
             (case and_then (apply_claim current cycle_index token lease mode) (\<lambda>claimed.
                    and_then (validate_checkpoint E claimed) (\<lambda>_. Inr claimed)) of
                Inl e \<Rightarrow> (st, Inl e)
              | Inr claimed \<Rightarrow> (put_checkpoint key claimed st, Inr (Some claimed))))"

definition progress_checkpoint :: "env \<Rightarrow> store \<Rightarrow> checkpoint \<Rightarrow> string \<Rightarrow> u64 \<Rightarrow> store \<times> (err + bool)" where
  "progress_checkpoint E st snap token expected = cas_write E st (cp_key snap) cp_key (\<lambda>cur. prepare_progress E cur snap token expected)"

definition suspend_checkpoint :: "env \<Rightarrow> store \<Rightarrow> checkpoint \<Rightarrow> string \<Rightarrow> u64 \<Rightarrow> store \<times> (err + bool)" where
  "suspend_checkpoint E st snap token expected = cas_write E st (cp_key snap) cp_key (\<lambda>cur. prepare_suspend E cur snap token expected)"

definition commit_checkpoint :: "env \<Rightarrow> store \<Rightarrow> checkpoint \<Rightarrow> string \<Rightarrow> u64 \<Rightarrow> store \<times> (err + bool)" where
  "commit_checkpoint E st snap token expected = cas_write E st (cp_key snap) cp_key (\<lambda>cur. prepare_commit E cur snap token expected)"

definition finalize_checkpoint :: "env \<Rightarrow> store \<Rightarrow> checkpoint \<Rightarrow> u64 \<Rightarrow> store \<times> (err + bool)" where
  "finalize_checkpoint E st snap expected = cas_write E st (cp_key snap) cp_key (\<lambda>cur. prepare_finalize E cur snap expected)"

definition finalize_claimed_checkpoint :: "env \<Rightarrow> store \<Rightarrow> checkpoint \<Rightarrow> string \<Rightarrow> u64 \<Rightarrow> store \<times> (err + bool)" where
  "finalize_claimed_checkpoint E st snap token expected =
     cas_write E st (cp_key snap) cp_key (\<lambda>cur. prepare_finalize_claimed E cur snap token expected)"

definition acknowledge_terminal :: "env \<Rightarrow> store \<Rightarrow> string \<Rightarrow> u64 \<Rightarrow> store \<times> (err + bool)" where
  "acknowledge_terminal E st key expected = cas_write E st key (\<lambda>_. key) (\<lambda>cur. prepare_ack E cur expected)"

definition record_event_delivery ::
  "env \<Rightarrow> store \<Rightarrow> string \<Rightarrow> string option \<Rightarrow> u64 \<Rightarrow> string \<Rightarrow> string \<Rightarrow> event_cursor \<Rightarrow> store \<times> (err + bool)" where
  "record_event_delivery E st key token expected event_id digest cursor =
     cas_write E st key (\<lambda>_. key) (\<lambda>cur. prepare_event_delivery E cur token expected event_id digest cursor)"

definition renew_checkpoint_claim :: "store \<Rightarrow> string \<Rightarrow> string \<Rightarrow> u64 \<Rightarrow> u64 \<Rightarrow> store \<times> (err + renewal_outcome)" where
  "renew_checkpoint_claim st key token lease now =
    (if is_blank token \<or> lease \<le> now then (st, Inl ''checkpoint_claim_invalid'')
     else case btree_get key (sto_checkpoints st) of
       None \<Rightarrow> (st, Inr (ClaimLost 0))
     | Some c \<Rightarrow>
         if cp_claim_token c \<noteq> Some token \<or>
            (case cp_lease_expires_at_ms c of None \<Rightarrow> True | Some expiry \<Rightarrow> expiry \<le> now)
         then (st, Inr (ClaimLost (cp_revision c)))
         else (put_checkpoint key (c\<lparr>cp_lease_expires_at_ms := Some lease\<rparr>) st,
               Inr (if cp_cancel_requested c then CancelRequested lease else Renewed lease)))"

definition record_tool_receipt ::
  "env \<Rightarrow> store \<Rightarrow> checkpoint \<Rightarrow> string \<Rightarrow> u64 \<Rightarrow> string \<Rightarrow> string \<Rightarrow> tool_result \<Rightarrow> string \<Rightarrow> u64 \<Rightarrow> u64 \<Rightarrow>
   store \<times> (err + bool)" where
  "record_tool_receipt E st snap operation_id attempt tool_call_id request_digest r token expected cycle =
    (case and_then (validate_definitive_result r) (\<lambda>_.
          and_then (tool_receipt_identity_key E (cp_key snap) operation_id attempt tool_call_id request_digest) (\<lambda>identity.
          and_then (tool_result_digest E r) (\<lambda>digest. Inr (identity, digest)))) of
       Inl e \<Rightarrow> (st, Inl e)
     | Inr (identity, digest) \<Rightarrow>
         (case btree_get (cp_key snap) (sto_checkpoints st) of
            None \<Rightarrow> (st, Inr False)
          | Some cur \<Rightarrow>
              (case find (\<lambda>e. oj_identity_key e = Some identity) (cp_tool_journal cur) of
                 Some existing \<Rightarrow>
                   (st, if oj_result_digest existing = Some digest then Inr True else Inl ''tool_receipt_conflict'')
               | None \<Rightarrow> cas_write E st (cp_key snap) cp_key (\<lambda>cur. prepare_tool_receipt E cur snap operation_id attempt
                   tool_call_id request_digest r token expected cycle))))"

text \<open>
  The operations on deferred tools. An admission or acceptance whose precondition fails is an error;
  an acceptance that was applied before answers as it did then.
\<close>

definition persist_admission ::
  "env \<Rightarrow> store \<Rightarrow> string \<Rightarrow> checkpoint \<Rightarrow> deferred_handle list \<Rightarrow> store \<times> (err + checkpoint \<times> deferred_handle list)" where
  "persist_admission E st key updated hs =
    (case persist_history E st updated of
       (st', Inl e) \<Rightarrow> (st', Inl e)
     | (st', Inr c) \<Rightarrow> (put_checkpoint key c st', Inr (c, hs)))"

definition admit_deferred_batch ::
  "env \<Rightarrow> store \<Rightarrow> string \<Rightarrow> u64 \<Rightarrow> string \<Rightarrow> u64 \<Rightarrow> batch_entry list \<Rightarrow> store \<times> (err + checkpoint \<times> deferred_handle list)" where
  "admit_deferred_batch E st key expected token cycle bs =
    (case btree_get key (sto_checkpoints st) of
       None \<Rightarrow> (st, Inl ''checkpoint_not_found'')
     | Some current \<Rightarrow>
         (case admit_batch E current expected token cycle bs of
            Inl e \<Rightarrow> (st, Inl e)
          | Inr (updated, hs) \<Rightarrow>
              if cp_revision updated = cp_revision current then (st, Inl ''checkpoint_revision_conflict'')
              else persist_admission E st key updated hs))"

definition accept_deferred_batch ::
  "env \<Rightarrow> store \<Rightarrow> string \<Rightarrow> u64 \<Rightarrow> string \<Rightarrow> u64 \<Rightarrow> accept_decision list \<Rightarrow> store \<times> (err + checkpoint \<times> deferred_handle list)" where
  "accept_deferred_batch E st key expected token cycle ds =
    (case btree_get key (sto_checkpoints st) of
       None \<Rightarrow> (st, Inl ''checkpoint_not_found'')
     | Some current \<Rightarrow>
         if deferred_batch_is_idempotent current ds then (st, Inr (current, map ad_handle ds))
         else case accept_batch E current expected token cycle ds of
           Inl e \<Rightarrow> (st, Inl e)
         | Inr None \<Rightarrow> (st, Inl ''reconciliation_required'')
         | Inr (Some updated) \<Rightarrow> persist_admission E st key updated (map ad_handle ds))"

text \<open>What a handle finds in the journal of its checkpoint: an answer at once, or the entry to close.\<close>

definition resolve_lookup :: "checkpoint \<Rightarrow> deferred_handle \<Rightarrow> tool_result \<Rightarrow> err + (resolve_decision + nat)" where
  "resolve_lookup c h r =
    (case position (\<lambda>e. oj_operation_id e = dh_operation_id h \<and> oj_attempt e = dh_attempt h \<and>
       oj_request_digest e = dh_request_digest h) (cp_tool_journal c) of
       None \<Rightarrow> Inl ''deferred_resolution_stale''
     | Some i \<Rightarrow>
         (let e = cp_tool_journal c ! i in
          if oj_state e = Started then Inr (Inl (NotAdmitted ''deferred_resolution_not_admitted''))
          else if oj_state e = Ambiguous then Inr (Inl ReconciliationNeeded)
          else if cp_claim_token c \<noteq> None then Inl ''deferred_checkpoint_claimed''
          else if oj_state e \<noteq> Deferred \<or> oj_deferred_handle e \<noteq> Some h then Inl ''deferred_resolution_stale''
          else if oj_tool_call_id e \<noteq> Some (tr_tool_call_id r) then Inl ''deferred_resolution_stale''
          else Inr (Inr i)))"

definition resolve_apply ::
  "env \<Rightarrow> store \<Rightarrow> string \<Rightarrow> checkpoint \<Rightarrow> nat \<Rightarrow> deferred_handle \<Rightarrow> tool_result \<Rightarrow> store \<times> (err + resolve_decision)" where
  "resolve_apply E st key c i h r =
    (case and_then (resolve_checkpoint E c i r) (\<lambda>(updated, event).
          and_then (receipt_new E h r (ob_event_id event) (ob_payload_digest event)) (\<lambda>receipt.
          Inr (updated, receipt))) of
       Inl e \<Rightarrow> (st, Inl e)
     | Inr (updated, receipt) \<Rightarrow>
         (case persist_history E st updated of
            (st', Inl e) \<Rightarrow> (st', Inl e)
          | (st', Inr c') \<Rightarrow>
              (put_checkpoint (cp_key c') c' (st'\<lparr>sto_receipts := btree_insert key receipt (sto_receipts st')\<rparr>),
               Inr (if cp_status updated = StRunning then AppliedReady receipt else AppliedWaiting receipt))))"

definition resolve_deferred :: "env \<Rightarrow> store \<Rightarrow> deferred_handle \<Rightarrow> tool_result \<Rightarrow> store \<times> (err + resolve_decision)" where
  "resolve_deferred E st h r =
    (case and_then (validate_definitive_result r) (\<lambda>_. handle_key E h) of
       Inl e \<Rightarrow> (st, Inl e)
     | Inr key \<Rightarrow>
         (case btree_get key (sto_receipts st) of
            Some receipt \<Rightarrow>
              (st, and_then (result_digest E (dr_result receipt)) (\<lambda>d1.
                   and_then (result_digest E r) (\<lambda>d2.
                   if d1 = d2 then Inr (Replayed receipt) else Inl ''deferred_resolution_conflict'')))
          | None \<Rightarrow>
              (case btree_get (dh_checkpoint_key h) (sto_checkpoints st) of
                 None \<Rightarrow> (st, Inl ''deferred_resolution_stale'')
               | Some c \<Rightarrow>
                   (case resolve_lookup c h r of
                      Inl e \<Rightarrow> (st, Inl e)
                    | Inr (Inl decision) \<Rightarrow> (st, Inr decision)
                    | Inr (Inr i) \<Rightarrow> resolve_apply E st key c i h r))))"

text \<open>\<open>delete_checkpoint\<close> also drops what the controller ledger holds for the key.\<close>

definition delete_from_ledger :: "string \<Rightarrow> ledger \<Rightarrow> ledger" where
  "delete_from_ledger key l =
    (let receipts = filter (\<lambda>(_, r, _). ch_checkpoint_key (kr_handle r) \<noteq> key) (le_command_receipts l) in
     \<lparr>le_host_interactions = filter (\<lambda>(_, h). hc_checkpoint_key h \<noteq> key) (le_host_interactions l),
      le_notifications = filter (\<lambda>(_, n). nr_checkpoint_key n \<noteq> key) (le_notifications l),
      le_command_receipts = receipts,
      le_commands = filter (\<lambda>(_, c). ch_checkpoint_key (cc_handle c) \<noteq> key) (le_commands l),
      le_wake_leases = filter (\<lambda>(i, _). i \<in> set (map fst receipts)) (le_wake_leases l)\<rparr>)"

definition delete_checkpoint :: "store \<Rightarrow> string \<Rightarrow> store" where
  "delete_checkpoint st key =
    st\<lparr>sto_checkpoints := btree_remove key (sto_checkpoints st), sto_history := btree_remove key (sto_history st),
       sto_receipts := filter (\<lambda>(_, d). dh_checkpoint_key (dr_handle d) \<noteq> key) (sto_receipts st),
       sto_ledger := delete_from_ledger key (sto_ledger st)\<rparr>"

definition save_checkpoint :: "env \<Rightarrow> store \<Rightarrow> checkpoint \<Rightarrow> store \<times> (err + bool)" where
  "save_checkpoint E st c =
    (case validate_checkpoint E c of Inl e \<Rightarrow> (st, Inl e) | Inr _ \<Rightarrow> persist_and_put E st cp_key c)"

end
