(* ===== verification/Checkpoint_Laws.thy ===== *)
theory Checkpoint_Laws
  imports Checkpoint_Store
begin

text \<open>
  The operations of the checkpoint store as labels of one transition function, what a label may
  write, and the properties of the store that follow: stored checkpoints stay valid, every write
  advances the revision by one, an unexpired lease protects its owner, a finished run stays as it
  is, and a call that fails changes no checkpoint.
\<close>

section \<open>Labels\<close>

datatype store_op =
    Create checkpoint
  | Claim string u64 string u64 u64 claim_mode
  | Progress checkpoint string u64
  | Suspend checkpoint string u64
  | Commit checkpoint string u64
  | Finalize checkpoint u64
  | FinalizeClaimed checkpoint string u64
  | Acknowledge string u64
  | Deliver string "string option" u64 string string event_cursor
  | Renew string string u64 u64
  | Receipt checkpoint string u64 string string tool_result string u64 u64
  | Admit string u64 string u64 "batch_entry list"
  | Accept string u64 string u64 "accept_decision list"
  | Resolve deferred_handle tool_result
  | Delete string

fun exec :: "env \<Rightarrow> store_op \<Rightarrow> store \<Rightarrow> store" where
  "exec E (Create c) st = fst (create_checkpoint E st c)"
| "exec E (Claim key cycle token lease now mode) st = fst (claim_checkpoint E st key cycle token lease now mode)"
| "exec E (Progress snap token n) st = fst (progress_checkpoint E st snap token n)"
| "exec E (Suspend snap token n) st = fst (suspend_checkpoint E st snap token n)"
| "exec E (Commit snap token n) st = fst (commit_checkpoint E st snap token n)"
| "exec E (Finalize snap n) st = fst (finalize_checkpoint E st snap n)"
| "exec E (FinalizeClaimed snap token n) st = fst (finalize_claimed_checkpoint E st snap token n)"
| "exec E (Acknowledge key n) st = fst (acknowledge_terminal E st key n)"
| "exec E (Deliver key token n event_id digest cursor) st = fst (record_event_delivery E st key token n event_id digest cursor)"
| "exec E (Renew key token lease now) st = fst (renew_checkpoint_claim st key token lease now)"
| "exec E (Receipt snap op n call digest r token expected cycle) st =
     fst (record_tool_receipt E st snap op n call digest r token expected cycle)"
| "exec E (Admit key n token cycle bs) st = fst (admit_deferred_batch E st key n token cycle bs)"
| "exec E (Accept key n token cycle ds) st = fst (accept_deferred_batch E st key n token cycle ds)"
| "exec E (Resolve h r) st = fst (resolve_deferred E st h r)"
| "exec E (Delete key) st = delete_checkpoint st key"

text \<open>The checkpoint that a label prepares from the stored one, before completed history is archived.\<close>

fun prepare :: "env \<Rightarrow> store_op \<Rightarrow> checkpoint \<Rightarrow> err + checkpoint option" where
  "prepare E (Progress snap token n) cur = prepare_progress E cur snap token n"
| "prepare E (Suspend snap token n) cur = prepare_suspend E cur snap token n"
| "prepare E (Commit snap token n) cur = prepare_commit E cur snap token n"
| "prepare E (Finalize snap n) cur = prepare_finalize E cur snap n"
| "prepare E (FinalizeClaimed snap token n) cur = prepare_finalize_claimed E cur snap token n"
| "prepare E (Acknowledge key n) cur = prepare_ack E cur n"
| "prepare E (Deliver key token n event_id digest cursor) cur = prepare_event_delivery E cur token n event_id digest cursor"
| "prepare E (Receipt snap op n call digest r token expected cycle) cur =
     prepare_tool_receipt E cur snap op n call digest r token expected cycle"
| "prepare E (Admit key n token cycle bs) cur =
     and_then (admit_batch E cur n token cycle bs) (\<lambda>(c, _). Inr (if cp_revision c = cp_revision cur then None else Some c))"
| "prepare E (Accept key n token cycle ds) cur = accept_batch E cur n token cycle ds"
| "prepare E (Resolve h r) cur =
     and_then (resolve_lookup cur h r) (\<lambda>x. case x of
       Inl _ \<Rightarrow> Inr None
     | Inr i \<Rightarrow> and_then (resolve_checkpoint E cur i r) (\<lambda>(c, _). Inr (Some c)))"
| "prepare E _ cur = Inr None"

fun op_key :: "store_op \<Rightarrow> string" where
  "op_key (Create c) = cp_key c"
| "op_key (Claim key cycle token lease now mode) = key"
| "op_key (Progress snap token n) = cp_key snap"
| "op_key (Suspend snap token n) = cp_key snap"
| "op_key (Commit snap token n) = cp_key snap"
| "op_key (Finalize snap n) = cp_key snap"
| "op_key (FinalizeClaimed snap token n) = cp_key snap"
| "op_key (Acknowledge key n) = key"
| "op_key (Deliver key token n event_id digest cursor) = key"
| "op_key (Renew key token lease now) = key"
| "op_key (Receipt snap op n call digest r token expected cycle) = cp_key snap"
| "op_key (Admit key n token cycle bs) = key"
| "op_key (Accept key n token cycle ds) = key"
| "op_key (Resolve h r) = dh_checkpoint_key h"
| "op_key (Delete key) = key"

text \<open>What a label writes over the stored checkpoint of its key.\<close>

inductive writes :: "env \<Rightarrow> store_op \<Rightarrow> checkpoint option \<Rightarrow> checkpoint \<Rightarrow> bool" for E where
  create: "validate_checkpoint_creation E c = Inr () \<Longrightarrow> writes E (Create c) None c"
| claim: "\<lbrakk>claim_candidate cur cycle now mode = Inr True; now < lease; apply_claim cur cycle token lease mode = Inr c;
    validate_checkpoint E c = Inr ()\<rbrakk> \<Longrightarrow> writes E (Claim key cycle token lease now mode) (Some cur) c"
| renew: "\<lbrakk>cp_claim_token cur = Some token; cp_lease_expires_at_ms cur = Some expiry; now < expiry; now < lease\<rbrakk> \<Longrightarrow>
    writes E (Renew key token lease now) (Some cur) (cur\<lparr>cp_lease_expires_at_ms := Some lease\<rparr>)"
| prepared: "\<lbrakk>prepare E op cur = Inr (Some u); normalize_checkpoint_history E u = Inr (c, b)\<rbrakk> \<Longrightarrow> writes E op (Some cur) c"

section \<open>Leases on versioned slots\<close>

text \<open>
  What the \<open>CheckpointStore\<close> trait promises of one key, without the contents: a slot has a version,
  possibly an owner with the end of its lease, and a mark that its run is finished. A slot is
  acquired when it is free or its lease has run out, extended by its owner before that, updated or
  released by whoever holds it, and every change except an extension advances the version by one.
\<close>

record slot =
  sl_version :: u64
  sl_owner :: "(string \<times> u64) option"
  sl_done :: bool

datatype lease_op =
    New
  | Acquire string u64 u64
  | Extend string u64 u64
  | Update "string option"
  | Release "string option"
  | Remove

inductive lease_step :: "lease_op \<Rightarrow> slot option \<Rightarrow> slot option \<Rightarrow> bool" where
  new: "lease_step New None (Some \<lparr>sl_version = 0, sl_owner = None, sl_done = False\<rparr>)"
| acquire: "\<lbrakk>\<not> sl_done s; sl_owner s = None \<or> (\<exists>t l. sl_owner s = Some (t, l) \<and> l \<le> now); now < lease\<rbrakk> \<Longrightarrow>
    lease_step (Acquire token lease now) (Some s)
      (Some \<lparr>sl_version = sl_version s + 1, sl_owner = Some (token, lease), sl_done = False\<rparr>)"
| extend: "\<lbrakk>sl_owner s = Some (token, expiry); now < expiry; now < lease\<rbrakk> \<Longrightarrow>
    lease_step (Extend token lease now) (Some s) (Some (s\<lparr>sl_owner := Some (token, lease)\<rparr>))"
| update: "map_option fst (sl_owner s) = who \<Longrightarrow>
    lease_step (Update who) (Some s) (Some (s\<lparr>sl_version := sl_version s + 1\<rparr>))"
| release: "\<lbrakk>map_option fst (sl_owner s) = who; \<not> sl_done s\<rbrakk> \<Longrightarrow>
    lease_step (Release who) (Some s) (Some \<lparr>sl_version = sl_version s + 1, sl_owner = None, sl_done = d\<rparr>)"
| remove: "lease_step Remove s None"

inductive_cases lease_stepE [elim]: "lease_step a s t"

text \<open>A label that an owner's rival can issue while the lease runs.\<close>

fun rival :: "string \<Rightarrow> u64 \<Rightarrow> lease_op \<Rightarrow> bool" where
  "rival token expiry New = True"
| "rival token expiry (Acquire t lease now) = (now < expiry)"
| "rival token expiry (Extend t lease now) = (t \<noteq> token)"
| "rival token expiry (Update who) = (who \<noteq> Some token)"
| "rival token expiry (Release who) = (who \<noteq> Some token)"
| "rival token expiry Remove = False"

lemma rival_stuck:
  assumes "rival token expiry a" and "sl_owner s = Some (token, expiry)"
  shows "\<not> lease_step a (Some s) t"
  using assms by (cases a) auto

text \<open>A label that leaves a finished run in place.\<close>

lemma done_step:
  assumes "lease_step a (Some s) t" and "sl_done s" and "a \<noteq> Remove"
  shows "\<exists>s'. t = Some s' \<and> sl_done s' \<and> sl_version s \<le> sl_version s' \<and>
    ((\<exists>who. a = Update who) \<or> (\<exists>token lease now. a = Extend token lease now))"
  using assms by (auto elim!: lease_step.cases)

lemma version_step:
  assumes "lease_step a (Some s) (Some s')"
  shows "sl_version s' = sl_version s + 1 \<or> (\<exists>token lease now. a = Extend token lease now \<and> sl_version s' = sl_version s)"
  using assms by (auto elim!: lease_step.cases)

locale lease_store =
  fixes exec :: "'op \<Rightarrow> 's \<Rightarrow> 's"
    and load :: "'s \<Rightarrow> 'k \<Rightarrow> 'c option"
    and slot_of :: "'c \<Rightarrow> slot"
    and key_of :: "'op \<Rightarrow> 'k"
    and label :: "'op \<Rightarrow> lease_op"
    and allowed :: "'op \<Rightarrow> bool"
    and inv :: "'s \<Rightarrow> bool"
  assumes inv_exec: "inv st \<Longrightarrow> allowed op \<Longrightarrow> inv (exec op st)"
    and refines: "inv st \<Longrightarrow> load (exec op st) = load st \<or>
      (\<exists>x. load (exec op st) = (load st)(key_of op := x) \<and>
        lease_step (label op) (map_option slot_of (load st (key_of op))) (map_option slot_of x))"
begin

lemma inv_run: "inv st \<Longrightarrow> list_all allowed ops \<Longrightarrow> inv (fold exec ops st)"
  by (induction ops arbitrary: st) (simp_all add: inv_exec)

text \<open>While a lease runs, nothing but the owner's own calls and removal change what is stored.\<close>

lemma lease_protects:
  assumes "inv st" and "load st k = Some c" and "sl_owner (slot_of c) = Some (token, expiry)"
    and "list_all allowed ops" and "list_all (\<lambda>op. key_of op = k \<longrightarrow> rival token expiry (label op)) ops"
  shows "load (fold exec ops st) k = Some c"
  using assms(1,2,4,5)
proof (induction ops arbitrary: st)
  case (Cons op ops)
  have "load (exec op st) k = Some c"
  proof (rule disjE [OF refines [OF Cons.prems(1), of op]])
    assume "load (exec op st) = load st"
    then show ?thesis using Cons.prems(2) by simp
  next
    assume "\<exists>x. load (exec op st) = (load st)(key_of op := x) \<and>
      lease_step (label op) (map_option slot_of (load st (key_of op))) (map_option slot_of x)"
    then obtain x where x: "load (exec op st) = (load st)(key_of op := x)"
      "lease_step (label op) (map_option slot_of (load st (key_of op))) (map_option slot_of x)" by blast
    have "key_of op \<noteq> k"
      using x(2) rival_stuck assms(3) Cons.prems(2,4) by fastforce
    then show ?thesis using x(1) Cons.prems(2) by simp
  qed
  then show ?case using Cons.IH [of "exec op st"] Cons.prems inv_exec by simp
qed simp

text \<open>A finished run stays finished and its version never goes back.\<close>

lemma done_stays:
  assumes "inv st" and "load st k = Some c" and "sl_done (slot_of c)"
    and "list_all allowed ops" and "list_all (\<lambda>op. key_of op = k \<longrightarrow> label op \<noteq> Remove) ops"
  shows "\<exists>c'. load (fold exec ops st) k = Some c' \<and> sl_done (slot_of c') \<and> sl_version (slot_of c) \<le> sl_version (slot_of c')"
  using assms
proof (induction ops arbitrary: st c)
  case (Cons op ops)
  have "\<exists>c'. load (exec op st) k = Some c' \<and> sl_done (slot_of c') \<and> sl_version (slot_of c) \<le> sl_version (slot_of c')"
  proof (rule disjE [OF refines [OF Cons.prems(1), of op]])
    assume "\<exists>x. load (exec op st) = (load st)(key_of op := x) \<and>
      lease_step (label op) (map_option slot_of (load st (key_of op))) (map_option slot_of x)"
    then obtain x where x: "load (exec op st) = (load st)(key_of op := x)"
      "lease_step (label op) (map_option slot_of (load st (key_of op))) (map_option slot_of x)" by blast
    show ?thesis
    proof (cases "key_of op = k")
      case True
      then show ?thesis
        using x done_step [of "label op" "slot_of c" "map_option slot_of x"] Cons.prems by (cases x) auto
    next
      case False
      then show ?thesis using x(1) Cons.prems by simp
    qed
  qed (use Cons.prems in simp)
  then obtain c' where c': "load (exec op st) k = Some c'" "sl_done (slot_of c')"
    "sl_version (slot_of c) \<le> sl_version (slot_of c')" by blast
  then show ?case
    using Cons.IH [of "exec op st" c'] Cons.prems inv_exec [of st op] by auto
qed auto

end

section \<open>What the transitions keep\<close>

lemma seal_Inr:
  "seal E n s = Inr c \<longleftrightarrow> c = s\<lparr>cp_revision := n + 1\<rparr> \<and> n + 1 \<le> u64_max \<and> validate_checkpoint E c = Inr ()"
  by (auto simp: seal_def bump_revision_def Let_def and_then_Inr_iff checked_add_Some_iff)

lemma ok_some_Inr: "ok_some r = Inr x \<longleftrightarrow> (\<exists>a. r = Inr a \<and> x = Some a)"
  by (auto simp: ok_some_def and_then_Inr_iff)

lemma claim_matchesD:
  assumes "claim_matches cur snap token n"
  shows "cp_revision cur = n \<and> cp_claim_token cur = Some token \<and> cp_key snap = cp_key cur \<and>
    cp_terminal_result cur = None \<and> cp_claimed_cycle snap = cp_claimed_cycle cur"
  using assms by (simp add: claim_matches_def)

lemma definition_matchesD: "checkpoint_definition_matches cur snap \<Longrightarrow> cp_key snap = cp_key cur"
  by (simp add: checkpoint_definition_matches_def Let_def)

lemma merge_Inr:
  assumes "merge_authoritative_fields E cur snap = Inr m"
  shows "cp_key m = cp_key snap \<and> cp_claim_token m = cp_claim_token snap \<and> cp_claimed_cycle m = cp_claimed_cycle snap \<and>
    cp_lease_expires_at_ms m = cp_lease_expires_at_ms snap \<and> cp_terminal_result m = cp_terminal_result snap"
  using assms by (auto simp: merge_authoritative_fields_def and_then_Inr_iff)

text \<open>A written checkpoint: the same key, the next revision, valid.\<close>

definition advances :: "env \<Rightarrow> checkpoint \<Rightarrow> checkpoint \<Rightarrow> bool" where
  "advances E cur c \<longleftrightarrow> cp_key c = cp_key cur \<and> cp_revision c = cp_revision cur + 1 \<and> validate_checkpoint E c = Inr ()"

text \<open>The claim of a checkpoint as a triple, and the two things a transition does with it.\<close>

definition claim_of :: "checkpoint \<Rightarrow> string option \<times> u64 option \<times> u64 option" where
  "claim_of c = (cp_claim_token c, cp_claimed_cycle c, cp_lease_expires_at_ms c)"

lemma progress_advances:
  assumes "prepare_progress E cur snap token n = Inr (Some u)"
  shows "advances E cur u \<and> cp_claim_token cur = Some token \<and> claim_of u = claim_of cur \<and> cp_terminal_result cur = None"
  using assms
  by (auto simp: prepare_progress_def ok_some_Inr and_then_Inr_iff seal_Inr advances_def claim_of_def
      split: if_splits dest!: claim_matchesD merge_Inr)

lemma suspend_advances:
  assumes "prepare_suspend E cur snap token n = Inr (Some u)"
  shows "advances E cur u \<and> cp_claim_token cur = Some token \<and> claim_of u = (None, None, None) \<and> cp_terminal_result cur = None"
  using assms
  by (auto simp: prepare_suspend_def ok_some_Inr and_then_Inr_iff seal_Inr advances_def claim_of_def release_claim_def
      split: if_splits dest!: claim_matchesD merge_Inr)

lemma commit_advances:
  assumes "prepare_commit E cur snap token n = Inr (Some u)"
  shows "advances E cur u \<and> cp_claim_token cur = Some token \<and> claim_of u = (None, None, None) \<and> cp_terminal_result cur = None"
  using assms
  by (auto simp: prepare_commit_def ok_some_Inr and_then_Inr_iff seal_Inr advances_def claim_of_def release_claim_def
      split: if_splits dest!: claim_matchesD)

lemma append_event_once_key: "append_event_once E c i ev = Inr c' \<Longrightarrow> \<exists>x. c' = c\<lparr>cp_event_outbox := x\<rparr>"
  by (auto simp: append_event_once_def and_then_Inr_iff Let_def split: if_splits option.splits)

lemma and_then_InrE:
  assumes "and_then r f = Inr b" obtains a where "r = Inr a" "f a = Inr b"
  using assms by (auto simp: and_then_Inr_iff)

lemma close_unresolved_tools_frame:
  assumes "close_unresolved_tools E c reason = Inr c'"
  shows "\<exists>x y z. c' = c\<lparr>cp_tool_journal := x, cp_event_outbox := y, cp_terminal_result := z\<rparr>"
  using assms unfolding close_unresolved_tools_def Let_def
proof (elim and_then_InrE)
  fix l j c1
  let ?b = "filter (\<lambda>e. is_active_state (oj_state e)) (cp_tool_journal c) \<noteq> [] \<or> terminal_observations c \<noteq> []"
  assume c1: "(if ?b then and_then (ensure (saturating_sub l 1 \<le> u32_max) ''checkpoint_cycle_invalid'') (\<lambda>_.
      and_then (cycle_aborted_event E (cp_root_run_id c) (cp_trace_id c) (cp_task_id c) (saturating_sub l 1) l reason) 
        (append_event_once E (c\<lparr>cp_tool_journal := j\<rparr>) (''evt_cycle_aborted_'' @ reason)))
      else Inr (c\<lparr>cp_tool_journal := j\<rparr>)) = Inr c1"
    and c': "Inr (case Option.bind (cp_terminal_result c1) as_object of None \<Rightarrow> c1
      | Some m \<Rightarrow> c1\<lparr>cp_terminal_result := Some (JObj (btree_insert ''resume_observations''
          (JArr (merge_observations (terminal_observations c) (filter (\<lambda>e. is_active_state (oj_state e)) (cp_tool_journal c)))) m))\<rparr>) = Inr c'"
  have "\<exists>x y. c1 = c\<lparr>cp_tool_journal := x, cp_event_outbox := y\<rparr>"
  proof (cases ?b)
    case True
    from c1 [unfolded if_P [OF True]] obtain y where "c1 = (c\<lparr>cp_tool_journal := j\<rparr>)\<lparr>cp_event_outbox := y\<rparr>"
      by (elim and_then_InrE) (blast dest: append_event_once_key)
    then show ?thesis by auto
  next
    case False
    from c1 [unfolded if_not_P [OF False]] have "c1 = c\<lparr>cp_tool_journal := j, cp_event_outbox := cp_event_outbox c\<rparr>"
      by (cases c) auto
    then show ?thesis by blast
  qed
  then obtain x y where 1: "c1 = c\<lparr>cp_tool_journal := x, cp_event_outbox := y\<rparr>" by blast
  have "\<exists>z. c' = c1\<lparr>cp_terminal_result := z\<rparr>"
  proof (cases "Option.bind (cp_terminal_result c1) as_object")
    case None
    then have "c' = c1\<lparr>cp_terminal_result := cp_terminal_result c1\<rparr>" using c' by simp
    then show ?thesis by blast
  next
    case (Some m)
    then show ?thesis using c' by auto
  qed
  then show ?thesis using 1 by blast
qed

lemma close_unresolved_tools_key: "close_unresolved_tools E c reason = Inr c' \<Longrightarrow> cp_key c' = cp_key c"
  by (auto dest!: close_unresolved_tools_frame)

lemma terminal_snapshot_Inr:
  assumes "prepare_terminal_snapshot E snap n = Inr u"
  shows "cp_key u = cp_key snap \<and> cp_revision u = n + 1 \<and> validate_checkpoint E u = Inr () \<and> claim_of u = (None, None, None)"
  using assms
  by (auto simp: prepare_terminal_snapshot_def and_then_Inr_iff seal_Inr claim_of_def release_claim_def Let_def
      split: if_splits option.splits dest!: close_unresolved_tools_key)

lemma finalize_advances:
  assumes "prepare_finalize E cur snap n = Inr (Some u)"
  shows "advances E cur u \<and> cp_claim_token cur = None \<and> claim_of u = (None, None, None) \<and> cp_terminal_result cur = None"
  using assms
  by (auto simp: prepare_finalize_def ok_some_Inr and_then_Inr_iff advances_def
      split: if_splits dest!: definition_matchesD merge_Inr terminal_snapshot_Inr)

lemma finalize_claimed_advances:
  assumes "prepare_finalize_claimed E cur snap token n = Inr (Some u)"
  shows "advances E cur u \<and> cp_claim_token cur = Some token \<and> claim_of u = (None, None, None) \<and> cp_terminal_result cur = None"
  using assms
  by (auto simp: prepare_finalize_claimed_def ok_some_Inr and_then_Inr_iff advances_def
      split: if_splits dest!: claim_matchesD merge_Inr terminal_snapshot_Inr)

lemma ack_advances:
  assumes "prepare_ack E cur n = Inr (Some u)"
  shows "advances E cur u \<and> cp_claim_token cur = None \<and> u = cur\<lparr>cp_terminal_acknowledged := True, cp_revision := n + 1\<rparr>"
  using assms
  by (auto simp: prepare_ack_def ok_some_Inr seal_Inr advances_def split: if_splits)

lemma delivery_advances:
  assumes "prepare_event_delivery E cur token n event_id digest cursor = Inr (Some u)"
  shows "advances E cur u \<and> cp_claim_token cur = token \<and>
    (\<exists>x. u = cur\<lparr>cp_event_outbox := x, cp_event_cursor := Some cursor, cp_revision := n + 1\<rparr>)"
  using assms
  by (auto simp: prepare_event_delivery_def ok_some_Inr and_then_Inr_iff seal_Inr advances_def Let_def
      split: if_splits list.splits)

lemma receipt_advances:
  assumes "prepare_tool_receipt E cur snap op n call digest r token expected cycle = Inr (Some u)"
  shows "advances E cur u \<and> cp_claim_token cur = Some token \<and> cp_terminal_result cur = None \<and>
    (\<exists>x y. u = cur\<lparr>cp_tool_journal := x, cp_event_outbox := y, cp_revision := expected + 1\<rparr>)"
  using assms
  by (auto simp: prepare_tool_receipt_def ok_some_Inr and_then_Inr_iff seal_Inr advances_def Let_def
      split: if_splits option.splits)

text \<open>Only the tool journal and the outbox differ.\<close>

definition journal_only :: "checkpoint \<Rightarrow> checkpoint \<Rightarrow> bool" where
  "journal_only c c' \<longleftrightarrow> c' = c\<lparr>cp_tool_journal := cp_tool_journal c', cp_event_outbox := cp_event_outbox c'\<rparr>"

lemma journal_only_refl: "journal_only c c"
  by (simp add: journal_only_def)

lemma journal_only_trans: "journal_only a b \<Longrightarrow> journal_only b c \<Longrightarrow> journal_only a c"
  by (cases a; cases b; cases c) (simp add: journal_only_def)

lemma journal_only_push_defer: "journal_only c (push_event b (defer_entry i h c))" "journal_only c (push_event b c)"
  by (simp_all add: journal_only_def push_event_def defer_entry_def)

lemma journal_onlyD:
  assumes "journal_only c c'"
  shows "cp_key c' = cp_key c \<and> cp_claim_token c' = cp_claim_token c \<and> cp_claimed_cycle c' = cp_claimed_cycle c \<and>
    cp_lease_expires_at_ms c' = cp_lease_expires_at_ms c \<and> cp_terminal_result c' = cp_terminal_result c \<and>
    cp_revision c' = cp_revision c \<and> cp_status c' = cp_status c"
  using assms by (cases c; cases c') (simp add: journal_only_def)

lemma admit_entry_Inr: "admit_entry E b c = Inr (c', h) \<Longrightarrow> journal_only c c'"
  by (cases "be_outcome b")
    (auto simp: admit_entry_def and_then_Inr_iff Let_def intro: journal_only_push_defer)

lemma admit_loop_Inr: "admit_loop E bs c hs = Inr (c', hs') \<Longrightarrow> journal_only c c'"
proof (induction bs arbitrary: c hs)
  case (Cons b bs)
  then obtain c1 h where 1: "admit_entry E b c = Inr (c1, h)" "admit_loop E bs c1 (hs @ [h]) = Inr (c', hs')"
    by (auto simp: and_then_Inr_iff)
  then show ?case using Cons.IH [OF 1(2)] admit_entry_Inr [OF 1(1)] journal_only_trans by blast
qed (simp add: journal_only_refl)

lemma admit_loop_handles: "admit_loop E bs c hs = Inr (c', hs') \<Longrightarrow> length hs' = length hs + length bs"
  by (induction bs arbitrary: c hs) (fastforce simp: and_then_Inr_iff)+

lemma admit_advances:
  assumes "admit_batch E cur n token cycle bs = Inr (u, hs)" and "cp_revision u \<noteq> cp_revision cur"
  shows "advances E cur u \<and> cp_claim_token cur = Some token \<and> claim_of u = (None, None, None) \<and>
    cp_terminal_result u = cp_terminal_result cur \<and> cp_status u = StDeferred \<and> length hs = length bs"
proof -
  have guard: "cp_revision cur = n" "cp_claim_token cur = Some token" "bs \<noteq> []"
    using assms by (auto simp: admit_batch_def split: if_splits)
  obtain c where c: "admit_loop E bs cur [] = Inr (c, hs)"
    and u: "seal E n (if hs \<noteq> [] then wait_deferred c else c) = Inr u"
    using assms by (auto simp: admit_batch_def and_then_Inr_iff split: if_splits)
  have hs: "length hs = length bs" using admit_loop_handles [OF c] by simp
  then have "hs \<noteq> []" using guard(3) by auto
  then show ?thesis
    using u guard hs journal_onlyD [OF admit_loop_Inr [OF c]]
    by (auto simp: seal_Inr advances_def claim_of_def wait_deferred_def release_claim_def)
qed

lemma accept_loop_Inr: "accept_loop E cycle seen ds c = Inr c' \<Longrightarrow> journal_only c c'"
proof (induction ds arbitrary: seen c)
  case (Cons d ds)
  then obtain i b1 b2 where "accept_loop E cycle (decision_key (ad_handle d) # seen) ds
      (push_event b2 (push_event b1 (defer_entry i (ad_handle d) c))) = Inr c'"
    by (auto simp: and_then_Inr_iff Let_def)
  from Cons.IH [OF this] show ?case by (meson journal_only_push_defer journal_only_trans)
qed (simp add: journal_only_refl)

lemma accept_advances:
  assumes "accept_batch E cur n token cycle ds = Inr (Some u)"
  shows "advances E cur u \<and> cp_claim_token cur = Some token \<and> claim_of u = (None, None, None) \<and>
    cp_terminal_result u = cp_terminal_result cur"
  using assms
  by (auto simp: accept_batch_def ok_some_Inr and_then_Inr_iff seal_Inr advances_def claim_of_def wait_deferred_def
      release_claim_def split: if_splits dest!: accept_loop_Inr journal_onlyD)

lemma resolve_lookup_Inr:
  assumes "resolve_lookup c h r = Inr (Inr i)"
  shows "i < length (cp_tool_journal c) \<and> oj_state (cp_tool_journal c ! i) = Deferred \<and> cp_claim_token c = None \<and>
    oj_deferred_handle (cp_tool_journal c ! i) = Some h"
  using assms by (auto simp: resolve_lookup_def Let_def split: option.splits if_splits dest!: position_SomeD)

lemma resolve_advances:
  assumes "resolve_checkpoint E cur i r = Inr (u, event)"
  shows "advances E cur u \<and>
    (\<exists>x y s. u = cur\<lparr>cp_tool_journal := x, cp_event_outbox := y, cp_status := s, cp_revision := cp_revision cur + 1\<rparr>)"
  using assms
  by (auto simp: resolve_checkpoint_def and_then_Inr_iff seal_Inr advances_def push_event_def Let_def)

section \<open>Archiving keeps the control state\<close>

definition records_only :: "checkpoint \<Rightarrow> checkpoint \<Rightarrow> bool" where
  "records_only u c \<longleftrightarrow>
     c = u\<lparr>cp_cycles := cp_cycles c, cp_model_calls := cp_model_calls c, cp_history := cp_history c,
           cp_terminal_result := cp_terminal_result c\<rparr> \<and>
     (cp_terminal_result c = None \<longleftrightarrow> cp_terminal_result u = None)"

lemma records_only_refl: "records_only c c"
  by (simp add: records_only_def)

lemma records_onlyD:
  assumes "records_only u c"
  shows "cp_key c = cp_key u \<and> cp_revision c = cp_revision u \<and> claim_of c = claim_of u \<and> cp_status c = cp_status u \<and>
    cp_tool_journal c = cp_tool_journal u \<and> cp_model_call_journal c = cp_model_call_journal u \<and>
    cp_event_outbox c = cp_event_outbox u \<and> cp_cycle_index c = cp_cycle_index u \<and>
    (cp_terminal_result c = None \<longleftrightarrow> cp_terminal_result u = None)"
  using assms by (cases u; cases c) (simp add: records_only_def claim_of_def)

lemma trim_terminal_result_Inr:
  assumes "trim_terminal_result E c = Inr c'"
  shows "c' = c\<lparr>cp_terminal_result := cp_terminal_result c'\<rparr> \<and> (cp_terminal_result c' = None \<longleftrightarrow> cp_terminal_result c = None)"
  using assms by (auto simp: trim_terminal_result_def and_then_Inr_iff split: option.splits)

lemma archive_records_Inr:
  assumes "archive_records E u n = Inr (c, b)"
  shows "records_only u c \<and> (b = None \<longrightarrow> c = u) \<and> (b \<noteq> None \<longrightarrow> validate_checkpoint E c = Inr ())"
proof (cases "filter (\<lambda>y. cy_index y < n) (cp_cycles u) = [] \<and> filter (archived_call u n) (cp_model_calls u) = []")
  case True
  then show ?thesis using assms by (simp add: archive_records_def Let_def records_only_refl)
next
  case False
  have "\<exists>x y z batch. trim_terminal_result E (u\<lparr>cp_cycles := x, cp_model_calls := y, cp_history := z\<rparr>) = Inr c \<and>
      validate_checkpoint E c = Inr () \<and> b = Some batch"
    using assms unfolding archive_records_def Let_def if_not_P [OF False]
    by (elim and_then_InrE) (unfold sum.inject prod.inject, fastforce)
  then show ?thesis
    using trim_terminal_result_Inr by (cases u; cases c) (fastforce simp: records_only_def)
qed

lemma normalize_Inr:
  assumes "normalize_checkpoint_history E u = Inr (c, b)"
  shows "records_only u c \<and> (b = None \<longrightarrow> c = u) \<and> (b \<noteq> None \<longrightarrow> validate_checkpoint E c = Inr ())"
  using assms archive_records_Inr
  by (auto simp: normalize_checkpoint_history_def records_only_refl split: option.splits)

lemma normalize_advances:
  assumes "advances E cur u" and "normalize_checkpoint_history E u = Inr (c, b)"
  shows "advances E cur c"
  using assms(1) normalize_Inr [OF assms(2)] records_onlyD [of u c] by (cases b) (auto simp: advances_def)

section \<open>A label writes one checkpoint at most\<close>

lemma persist_history_checkpoints:
  assumes "persist_history E st u = (st', res)"
  shows "sto_checkpoints st' = sto_checkpoints st \<and> sto_receipts st' = sto_receipts st \<and>
    sto_ledger st' = sto_ledger st \<and>
    (\<forall>c. res = Inr c \<longrightarrow> (\<exists>b. normalize_checkpoint_history E u = Inr (c, b)))"
  using assms by (auto simp: persist_history_def Let_def split: if_splits sum.splits prod.splits option.splits)

lemma persist_and_put_checkpoints:
  assumes "persist_and_put E st dest u = (st', res)"
  shows "(sto_checkpoints st' = sto_checkpoints st \<and> (\<exists>e. res = Inl e)) \<or>
    (\<exists>c b. normalize_checkpoint_history E u = Inr (c, b) \<and> res = Inr True \<and>
      sto_checkpoints st' = btree_insert (dest c) c (sto_checkpoints st))"
  using assms persist_history_checkpoints
  by (fastforce simp: persist_and_put_def put_checkpoint_def split: prod.splits sum.splits)

lemma cas_write_checkpoints:
  assumes "cas_write E st key dest f = (st', res)"
  shows "(sto_checkpoints st' = sto_checkpoints st \<and> res \<noteq> Inr True) \<or>
    (\<exists>cur u c b. btree_get key (sto_checkpoints st) = Some cur \<and> f cur = Inr (Some u) \<and>
      normalize_checkpoint_history E u = Inr (c, b) \<and> res = Inr True \<and>
      sto_checkpoints st' = btree_insert (dest c) c (sto_checkpoints st))"
  using assms persist_and_put_checkpoints
  by (fastforce simp: cas_write_def split: option.splits sum.splits)

lemma prepare_advances:
  assumes "prepare E op cur = Inr (Some u)"
  shows "advances E cur u"
proof (cases op)
  case (Admit key n token cycle bs)
  then show ?thesis
    using assms admit_advances by (auto simp: and_then_Inr_iff split: if_splits)
next
  case (Resolve h r)
  then obtain a :: "resolve_decision + nat" where "(case a of Inl _ \<Rightarrow> Inr None
      | Inr i \<Rightarrow> and_then (resolve_checkpoint E cur i r) (\<lambda>(c, _). Inr (Some c))) = Inr (Some u)"
    using assms by (auto simp: and_then_Inr_iff)
  then show ?thesis
    by (cases a) (auto simp: and_then_Inr_iff dest!: resolve_advances)
qed (use assms in \<open>auto dest!: progress_advances suspend_advances commit_advances finalize_advances finalize_claimed_advances
    ack_advances delivery_advances receipt_advances accept_advances\<close>)

definition well_keyed :: "store \<Rightarrow> bool" where
  "well_keyed st \<longleftrightarrow> btree_ok (sto_checkpoints st) \<and> (\<forall>k c. load_checkpoint st k = Some c \<longrightarrow> cp_key c = k)"

lemma load_insert:
  "sto_checkpoints st' = btree_insert k c (sto_checkpoints st) \<Longrightarrow> load_checkpoint st' = (load_checkpoint st)(k := Some c)"
  by (auto simp: load_checkpoint_def)

lemma load_same: "sto_checkpoints st' = sto_checkpoints st \<Longrightarrow> load_checkpoint st' = load_checkpoint st"
  by (auto simp: load_checkpoint_def)

text \<open>What an execution does to the checkpoints: nothing, one write, or the removal of its key.\<close>

definition outcome :: "env \<Rightarrow> store_op \<Rightarrow> store \<Rightarrow> store \<Rightarrow> bool" where
  "outcome E op st st' \<longleftrightarrow>
     sto_checkpoints st' = sto_checkpoints st \<or>
     (\<exists>c. writes E op (load_checkpoint st (op_key op)) c \<and>
       sto_checkpoints st' = btree_insert (op_key op) c (sto_checkpoints st)) \<or>
     (op = Delete (op_key op) \<and> sto_checkpoints st' = btree_remove (op_key op) (sto_checkpoints st))"

lemma outcome_same: "sto_checkpoints st' = sto_checkpoints st \<Longrightarrow> outcome E op st st'"
  by (simp add: outcome_def)

lemma outcome_prepared:
  assumes "well_keyed st" and "load_checkpoint st (op_key op) = Some cur"
    and "prepare E op cur = Inr (Some u)" and "normalize_checkpoint_history E u = Inr (c, b)"
    and "sto_checkpoints st' = btree_insert key c (sto_checkpoints st)" and "key = op_key op \<or> key = cp_key c"
  shows "outcome E op st st'"
proof -
  have "advances E cur c" using normalize_advances [OF prepare_advances [OF assms(3)] assms(4)] .
  then have "cp_key c = op_key op" using assms(1,2) by (simp add: advances_def well_keyed_def)
  moreover have "writes E op (Some cur) c" by (rule writes.prepared [OF assms(3,4)])
  ultimately show ?thesis using assms by (auto simp: outcome_def)
qed

lemma outcome_cas:
  assumes "well_keyed st" and "dest = cp_key \<or> dest = (\<lambda>_. op_key op)"
  shows "outcome E op st (fst (cas_write E st (op_key op) dest (prepare E op)))"
proof -
  obtain st' res where r: "cas_write E st (op_key op) dest (prepare E op) = (st', res)" by force
  show ?thesis
    using cas_write_checkpoints [OF r] assms
    by (auto simp: r load_checkpoint_def intro: outcome_same outcome_prepared)
qed

lemma outcome_admission:
  assumes "well_keyed st" and "load_checkpoint st (op_key op) = Some cur" and "prepare E op cur = Inr (Some u)"
  shows "outcome E op st (fst (persist_admission E st (op_key op) u hs))"
proof -
  obtain st' res where r: "persist_history E st u = (st', res)" by force
  note p = persist_history_checkpoints [OF r]
  show ?thesis
  proof (cases res)
    case (Inl e)
    then show ?thesis using p by (simp add: persist_admission_def r outcome_same)
  next
    case (Inr c)
    then obtain b where "normalize_checkpoint_history E u = Inr (c, b)" using p by blast
    then show ?thesis
      using outcome_prepared [OF assms, of c b _ "op_key op"] p Inr by (simp add: persist_admission_def r put_checkpoint_def)
  qed
qed

lemma outcome_resolve_apply:
  assumes "well_keyed st" and "load_checkpoint st (dh_checkpoint_key h) = Some cur" and "resolve_lookup cur h r = Inr (Inr i)"
  shows "outcome E (Resolve h r) st (fst (resolve_apply E st key cur i h r))"
proof (cases "and_then (resolve_checkpoint E cur i r) (\<lambda>(updated, event).
    and_then (receipt_new E h r (ob_event_id event) (ob_payload_digest event)) (\<lambda>receipt. Inr (updated, receipt)))")
  case (Inl e)
  then show ?thesis by (simp add: resolve_apply_def outcome_same)
next
  case (Inr x)
  then obtain u receipt event where x: "x = (u, receipt)" "resolve_checkpoint E cur i r = Inr (u, event)"
    by (auto simp: and_then_Inr_iff)
  have pr: "prepare E (Resolve h r) cur = Inr (Some u)" using x(2) assms(3) by simp
  obtain st' res where p: "persist_history E st u = (st', res)" by force
  note pc = persist_history_checkpoints [OF p]
  show ?thesis
  proof (cases res)
    case (Inl e)
    then show ?thesis using pc Inr by (simp add: resolve_apply_def x p outcome_same)
  next
    case (Inr c)
    then obtain b where "normalize_checkpoint_history E u = Inr (c, b)" using pc by blast
    then show ?thesis
      using outcome_prepared [OF assms(1) _ pr, of c b _ "cp_key c"] assms(2) pc \<open>res = Inr c\<close> \<open>and_then _ _ = Inr x\<close>
      by (simp add: resolve_apply_def x p put_checkpoint_def)
  qed
qed

lemma outcome_create: "outcome E (Create c) st (exec E (Create c) st)"
  using writes.create [of E c]
  by (auto simp: outcome_def create_checkpoint_def put_checkpoint_def load_checkpoint_def btree_contains_def
      split: sum.splits if_splits)

lemma outcome_claim: "outcome E (Claim key cycle token lease now mode) st (exec E (Claim key cycle token lease now mode) st)"
proof -
  have "writes E (Claim key cycle token lease now mode) (Some cur) c"
    if "claim_candidate cur cycle now mode = Inr True" "now < lease" "apply_claim cur cycle token lease mode = Inr c"
      "validate_checkpoint E c = Inr ()" for cur c
    using that by (rule writes.claim)
  then show ?thesis
    by (auto simp: outcome_def claim_checkpoint_def put_checkpoint_def load_checkpoint_def and_then_Inr_iff not_le
        split: option.splits sum.splits bool.splits if_splits)
qed

lemma outcome_renew: "outcome E (Renew key token lease now) st (exec E (Renew key token lease now) st)"
proof -
  have "writes E (Renew key token lease now) (Some cur) (cur\<lparr>cp_lease_expires_at_ms := Some lease\<rparr>)"
    if "cp_claim_token cur = Some token" "cp_lease_expires_at_ms cur = Some expiry" "now < expiry" "now < lease" for cur expiry
    using that by (rule writes.renew)
  then show ?thesis
    by (auto simp: outcome_def renew_checkpoint_claim_def put_checkpoint_def load_checkpoint_def not_le
        split: option.splits if_splits)
qed

lemma outcome_receipt:
  assumes "well_keyed st"
  shows "outcome E (Receipt snap op n call digest r token expected cycle) st
    (exec E (Receipt snap op n call digest r token expected cycle) st)"
  using outcome_cas [OF assms, of cp_key "Receipt snap op n call digest r token expected cycle"]
  by (auto simp: record_tool_receipt_def outcome_same prepare.simps [abs_def] split: sum.splits option.splits prod.splits)

lemma outcome_admit:
  assumes "well_keyed st"
  shows "outcome E (Admit key n token cycle bs) st (exec E (Admit key n token cycle bs) st)"
  using outcome_admission [OF assms, of "Admit key n token cycle bs"]
  by (auto simp: admit_deferred_batch_def load_checkpoint_def outcome_same split: sum.splits option.splits prod.splits)

lemma outcome_accept:
  assumes "well_keyed st"
  shows "outcome E (Accept key n token cycle ds) st (exec E (Accept key n token cycle ds) st)"
  using outcome_admission [OF assms, of "Accept key n token cycle ds"]
  by (auto simp: accept_deferred_batch_def load_checkpoint_def outcome_same split: sum.splits option.splits)

lemma outcome_resolve:
  assumes "well_keyed st"
  shows "outcome E (Resolve h r) st (exec E (Resolve h r) st)"
  using outcome_resolve_apply [OF assms, of h _ r]
  by (auto simp: resolve_deferred_def load_checkpoint_def outcome_same split: sum.splits option.splits)

lemma exec_outcome:
  assumes "well_keyed st"
  shows "outcome E op st (exec E op st)"
proof -
  note cas = outcome_cas [OF assms, where op = op and E = E]
  show ?thesis
  proof (cases op)
    case (Delete key)
    then show ?thesis by (simp add: outcome_def delete_checkpoint_def)
  qed (use cas [of cp_key] cas [of "\<lambda>_. op_key op"] outcome_create outcome_claim outcome_renew
      outcome_receipt [OF assms] outcome_admit [OF assms] outcome_accept [OF assms] outcome_resolve [OF assms] in
      \<open>simp_all add: progress_checkpoint_def suspend_checkpoint_def commit_checkpoint_def finalize_checkpoint_def
        finalize_claimed_checkpoint_def acknowledge_terminal_def record_event_delivery_def prepare.simps [abs_def]
        del: exec.simps(1,2,10-14)\<close>)
qed

section \<open>Valid stores\<close>

definition store_valid :: "env \<Rightarrow> store \<Rightarrow> bool" where
  "store_valid E st \<longleftrightarrow> btree_ok (sto_checkpoints st) \<and>
     (\<forall>k c. load_checkpoint st k = Some c \<longrightarrow> cp_key c = k \<and> validate_checkpoint E c = Inr ())"

text \<open>Renewal does not validate what it writes; callers keep the lease within the integers of the wire.\<close>

fun renewal_bounded :: "store_op \<Rightarrow> bool" where
  "renewal_bounded (Renew key token lease now) = (lease \<le> MAX_WIRE_INTEGER)"
| "renewal_bounded _ = True"

lemma store_valid_keyed: "store_valid E st \<Longrightarrow> well_keyed st"
  by (simp add: store_valid_def well_keyed_def)

lemma validate_checkpoint_parts:
  assumes "validate_checkpoint E c = Inr ()"
  shows "validate_claim c = Inr ()" "validate_status c = Inr ()" "validate_terminal E c = Inr ()"
    "cp_revision c \<le> MAX_WIRE_INTEGER" "distinct (map mc_call_id (cp_model_calls c))"
    "validate_outbox E [] (cp_event_outbox c) = Inr ()" "validate_cycles c = Inr ()"
  using assms by (simp_all add: validate_checkpoint_def and_then_Inr_iff)

lemma claimed_not_finished:
  assumes "validate_checkpoint E c = Inr ()" and "cp_claim_token c \<noteq> None"
  shows "cp_terminal_result c = None"
  using validate_checkpoint_parts(2) [OF assms(1)] assms(2) by (auto simp: validate_status_def and_then_Inr_iff)

lemma active_journal_not_finished:
  assumes "validate_checkpoint E c = Inr ()" and "e \<in> set (journal_entries c)" and "is_active_state (oj_state e)"
  shows "cp_terminal_result c = None"
  using validate_checkpoint_parts(3) [OF assms(1)] assms(2,3)
  by (auto simp: validate_terminal_def and_then_Inr_iff list_ex_iff split: option.splits)

text \<open>Of the checks only the one on the claim reads the end of the lease.\<close>

lemma accounting_lease:
  fixes c :: checkpoint and l :: "u64 option"
  defines "c' \<equiv> c\<lparr>cp_lease_expires_at_ms := l\<rparr>"
  shows "validate_closed_accounting E c' = validate_closed_accounting E c"
    and "validate_model_journal_entry_accounting E c' = validate_model_journal_entry_accounting E c"
proof -
  show closed: "validate_closed_accounting E c' = validate_closed_accounting E c"
  proof -
    have "event_at E c' = event_at E c" unfolding c'_def by (intro ext) (simp add: event_at_def)
    then have "validate_terminal_budget_event_order E c' = validate_terminal_budget_event_order E c"
      by (intro ext) (simp add: validate_terminal_budget_event_order_def Let_def cong: if_cong, simp add: c'_def)
    then show ?thesis by (intro ext) (simp add: validate_closed_accounting_def)
  qed
  have same: "cp_event_outbox c' = cp_event_outbox c" "cp_model_calls c' = cp_model_calls c" by (simp_all add: c'_def)
  show "validate_model_journal_entry_accounting E c' = validate_model_journal_entry_accounting E c"
    by (intro ext) (unfold validate_model_journal_entry_accounting_def closed same, rule refl)
qed

lemma validate_pieces_lease:
  fixes c :: checkpoint and l :: "u64 option"
  defines "c' \<equiv> c\<lparr>cp_lease_expires_at_ms := l\<rparr>"
  shows "validate_status c' = validate_status c" "validate_host_interaction E c' = validate_host_interaction E c"
    "validate_cycles c' = validate_cycles c" "active_cycle c' = active_cycle c" "journal_entries c' = journal_entries c"
    "validate_journal_entry E c' = validate_journal_entry E c"
    "validate_deferred c' = validate_deferred c" "validate_terminal E c' = validate_terminal E c"
    "has_ambiguous_operation c' = has_ambiguous_operation c"
    "validate_model_journal_accounting E c' = validate_model_journal_accounting E c"
  unfolding c'_def
  by (simp_all add: validate_status_def validate_host_interaction_def validate_cycles_def active_cycle_def journal_entries_def
      validate_journal_entry_def [abs_def] validate_deferred_def validate_terminal_def has_ambiguous_operation_def
      validate_model_journal_accounting_def accounting_lease cong: if_cong option.case_cong checkpoint_status.case_cong)

lemma renewed_valid:
  assumes "validate_checkpoint E c = Inr ()" and "cp_claim_token c = Some token" and "cp_lease_expires_at_ms c = Some l"
    and "lease \<le> MAX_WIRE_INTEGER"
  shows "validate_checkpoint E (c\<lparr>cp_lease_expires_at_ms := Some lease\<rparr>) = Inr ()"
proof -
  have "validate_claim (c\<lparr>cp_lease_expires_at_ms := Some lease\<rparr>) = Inr ()"
    using validate_checkpoint_parts(1) [OF assms(1)] assms(2-)
    by (auto simp: validate_claim_def and_then_Inr_iff split: option.splits)
  then show ?thesis
    using assms(1) by (simp add: validate_checkpoint_def and_then_Inr_iff validate_pieces_lease)
qed

lemma writes_key: "writes E op (Some cur) c \<Longrightarrow> cp_key c = cp_key cur"
  by (erule writes.cases)
    (auto simp: apply_claim_def and_then_Inr_iff advances_def dest!: prepare_advances dest: normalize_advances)

lemma writes_valid:
  assumes "writes E op old c" and "renewal_bounded op" and "\<And>cur. old = Some cur \<Longrightarrow> validate_checkpoint E cur = Inr ()"
  shows "validate_checkpoint E c = Inr ()"
  using assms
proof cases
  case (prepared cur u b)
  then show ?thesis using normalize_advances [OF prepare_advances] by (auto simp: advances_def)
next
  case (renew cur token expiry now lease key)
  then show ?thesis using renewed_valid assms(2,3) by simp
qed (auto simp: validate_checkpoint_creation_def and_then_Inr_iff Let_def)

lemma load_remove:
  "btree_ok (sto_checkpoints st) \<Longrightarrow> sto_checkpoints st' = btree_remove k (sto_checkpoints st) \<Longrightarrow>
     load_checkpoint st' = (load_checkpoint st)(k := None)"
  by (auto simp: load_checkpoint_def)

lemma writes_create_key: "writes E op None c \<Longrightarrow> op = Create c \<and> op_key op = cp_key c"
  by (erule writes.cases) simp_all

lemma exec_valid:
  assumes v: "store_valid E st" and b: "renewal_bounded op"
  shows "store_valid E (exec E op st)"
proof -
  note o = exec_outcome [OF store_valid_keyed [OF v], of E op, unfolded outcome_def]
  from o show ?thesis
  proof (elim disjE)
    assume "sto_checkpoints (exec E op st) = sto_checkpoints st"
    then show ?thesis using v by (simp add: store_valid_def load_checkpoint_def)
  next
    assume "\<exists>c. writes E op (load_checkpoint st (op_key op)) c \<and>
      sto_checkpoints (exec E op st) = btree_insert (op_key op) c (sto_checkpoints st)"
    then obtain c where c: "writes E op (load_checkpoint st (op_key op)) c"
      "sto_checkpoints (exec E op st) = btree_insert (op_key op) c (sto_checkpoints st)" by blast
    have "validate_checkpoint E c = Inr ()" using writes_valid [OF c(1) b] v by (auto simp: store_valid_def)
    moreover have "cp_key c = op_key op"
      using c(1) v writes_key writes_create_key by (cases "load_checkpoint st (op_key op)") (auto simp: store_valid_def)
    ultimately show ?thesis
      using v c(2) load_insert [OF c(2)] by (auto simp: store_valid_def)
  next
    assume "op = Delete (op_key op) \<and> sto_checkpoints (exec E op st) = btree_remove (op_key op) (sto_checkpoints st)"
    then show ?thesis using v load_remove [of st "exec E op st"] by (auto simp: store_valid_def)
  qed
qed

section \<open>The store refines the lease on a versioned slot\<close>

definition cp_owner :: "checkpoint \<Rightarrow> (string \<times> u64) option" where
  "cp_owner c = Option.bind (cp_claim_token c) (\<lambda>t. map_option (Pair t) (cp_lease_expires_at_ms c))"

definition slot_of :: "checkpoint \<Rightarrow> slot" where
  "slot_of c = \<lparr>sl_version = cp_revision c, sl_owner = cp_owner c, sl_done = (cp_terminal_result c \<noteq> None)\<rparr>"

fun lease_of :: "store_op \<Rightarrow> lease_op" where
  "lease_of (Create c) = New"
| "lease_of (Claim key cycle token lease now mode) = Acquire token lease now"
| "lease_of (Progress snap token n) = Update (Some token)"
| "lease_of (Suspend snap token n) = Release (Some token)"
| "lease_of (Commit snap token n) = Release (Some token)"
| "lease_of (Finalize snap n) = Release None"
| "lease_of (FinalizeClaimed snap token n) = Release (Some token)"
| "lease_of (Acknowledge key n) = Update None"
| "lease_of (Deliver key token n event_id digest cursor) = Update token"
| "lease_of (Renew key token lease now) = Extend token lease now"
| "lease_of (Receipt snap op n call digest r token expected cycle) = Update (Some token)"
| "lease_of (Admit key n token cycle bs) = Release (Some token)"
| "lease_of (Accept key n token cycle ds) = Release (Some token)"
| "lease_of (Resolve h r) = Update None"
| "lease_of (Delete key) = Remove"

lemma owner_token:
  assumes "validate_checkpoint E c = Inr ()"
  shows "map_option fst (cp_owner c) = cp_claim_token c"
  using validate_checkpoint_parts(1) [OF assms] by (auto simp: validate_claim_def cp_owner_def split: option.splits)

lemma owner_claim_of: "claim_of u = claim_of c \<Longrightarrow> cp_owner u = cp_owner c"
  "claim_of u = (None, None, None) \<Longrightarrow> cp_owner u = None"
  by (simp_all add: claim_of_def cp_owner_def)

lemma slot_update:
  assumes "validate_checkpoint E cur = Inr ()" and "advances E cur u" and "claim_of u = claim_of cur"
    and "cp_terminal_result u = None \<longleftrightarrow> cp_terminal_result cur = None" and "cp_claim_token cur = who"
  shows "lease_step (Update who) (Some (slot_of cur)) (Some (slot_of u))"
proof -
  have "slot_of u = (slot_of cur)\<lparr>sl_version := sl_version (slot_of cur) + 1\<rparr>"
    using assms owner_claim_of(1) [OF assms(3)] by (simp add: slot_of_def advances_def)
  then show ?thesis
    using lease_step.update [of "slot_of cur" who] owner_token [OF assms(1)] assms(5) by (simp add: slot_of_def)
qed

lemma slot_release:
  assumes "validate_checkpoint E cur = Inr ()" and "advances E cur u" and "claim_of u = (None, None, None)"
    and "cp_terminal_result cur = None" and "cp_claim_token cur = who"
  shows "lease_step (Release who) (Some (slot_of cur)) (Some (slot_of u))"
proof -
  have "slot_of u = \<lparr>sl_version = sl_version (slot_of cur) + 1, sl_owner = None, sl_done = (cp_terminal_result u \<noteq> None)\<rparr>"
    using assms owner_claim_of(2) [OF assms(3)] by (simp add: slot_of_def advances_def)
  then show ?thesis
    using lease_step.release [of "slot_of cur" who] owner_token [OF assms(1)] assms(4,5) by (simp add: slot_of_def)
qed

lemma prepared_lease_step:
  assumes p: "prepare E op cur = Inr (Some u)" and v: "validate_checkpoint E cur = Inr ()"
  shows "lease_step (lease_of op) (Some (slot_of cur)) (Some (slot_of u))"
proof -
  note adv = prepare_advances [OF p]
  have vu: "validate_checkpoint E u = Inr ()" using adv by (simp add: advances_def)
  show ?thesis
  proof (cases op)
    case (Progress snap token n)
    then have pa: "cp_claim_token cur = Some token" "claim_of u = claim_of cur" "cp_terminal_result cur = None"
      using p progress_advances by auto
    then have "cp_terminal_result u = None" using claimed_not_finished [OF vu] by (simp add: claim_of_def)
    then show ?thesis using slot_update [OF v adv] pa Progress by simp
  next
    case (Acknowledge key n)
    then show ?thesis using p slot_update [OF v adv] by (auto simp: claim_of_def dest!: ack_advances)
  next
    case (Deliver key token n event_id digest cursor)
    then show ?thesis using p slot_update [OF v adv] by (auto simp: claim_of_def dest!: delivery_advances)
  next
    case (Receipt snap op n call digest r token expected cycle)
    then show ?thesis using p slot_update [OF v adv] by (auto simp: claim_of_def dest!: receipt_advances)
  next
    case (Admit key n token cycle bs)
    then obtain hs where "admit_batch E cur n token cycle bs = Inr (u, hs)" "cp_revision u \<noteq> cp_revision cur"
      using p by (auto simp: and_then_Inr_iff split: if_splits)
    from admit_advances [OF this] show ?thesis
      using slot_release [OF v adv] claimed_not_finished [OF v] Admit by simp
  next
    case (Accept key n token cycle ds)
    then show ?thesis
      using p slot_release [OF v adv] claimed_not_finished [OF v] by (auto dest!: accept_advances)
  next
    case (Resolve h r)
    then obtain a :: "resolve_decision + nat" where a: "resolve_lookup cur h r = Inr a" "(case a of Inl _ \<Rightarrow> Inr None
        | Inr i \<Rightarrow> and_then (resolve_checkpoint E cur i r) (\<lambda>(c, _). Inr (Some c))) = Inr (Some u)"
      using p by (auto simp: and_then_Inr_iff)
    then show ?thesis
      using slot_update [OF v adv] Resolve
      by (cases a) (auto simp: and_then_Inr_iff claim_of_def dest!: resolve_advances resolve_lookup_Inr)
  qed (use p slot_release [OF v adv] in
      \<open>auto dest!: suspend_advances commit_advances finalize_advances finalize_claimed_advances\<close>)
qed

lemma slot_of_records: "records_only u c \<Longrightarrow> slot_of c = slot_of u"
  using records_onlyD [of u c] by (simp add: slot_of_def cp_owner_def claim_of_def)

lemma writes_lease_step:
  assumes "writes E op old c" and "\<And>cur. old = Some cur \<Longrightarrow> validate_checkpoint E cur = Inr ()"
  shows "lease_step (lease_of op) (map_option slot_of old) (Some (slot_of c))"
  using assms(1)
proof cases
  case create
  then show ?thesis
    using lease_step.new by (auto simp: validate_checkpoint_creation_def and_then_Inr_iff Let_def slot_of_def cp_owner_def)
next
  case (claim cur cycle now mode lease token key)
  have guard: "cp_terminal_result cur = None" "cp_owner cur = None \<or> (\<exists>t l. cp_owner cur = Some (t, l) \<and> l \<le> now)"
    using claim(3) by (cases "cp_claim_token cur"; auto simp: claim_candidate_def cp_owner_def split: if_splits option.splits)+
  have "slot_of c = \<lparr>sl_version = sl_version (slot_of cur) + 1, sl_owner = Some (token, lease), sl_done = False\<rparr>"
    using claim(5) guard(1)
    by (auto simp: apply_claim_def and_then_Inr_iff bump_revision_def checked_add_Some_iff slot_of_def cp_owner_def)
  then show ?thesis
    using lease_step.acquire [of "slot_of cur" now lease token] guard claim by (simp add: slot_of_def)
next
  case (renew cur token expiry now lease key)
  have "slot_of c = (slot_of cur)\<lparr>sl_owner := Some (token, lease)\<rparr>"
    using renew by (simp add: slot_of_def cp_owner_def)
  then show ?thesis
    using lease_step.extend [of "slot_of cur" token expiry now lease] renew by (simp add: slot_of_def cp_owner_def)
next
  case (prepared cur u b)
  then show ?thesis
    using prepared_lease_step [OF prepared(2)] assms(2) slot_of_records [of u c] normalize_Inr [OF prepared(3)] by simp
qed

interpretation ms: lease_store "exec E" load_checkpoint slot_of op_key lease_of renewal_bounded "store_valid E" for E
proof
  fix st op
  assume v: "store_valid E st"
  show "load_checkpoint (exec E op st) = load_checkpoint st \<or>
    (\<exists>x. load_checkpoint (exec E op st) = (load_checkpoint st)(op_key op := x) \<and>
      lease_step (lease_of op) (map_option slot_of (load_checkpoint st (op_key op))) (map_option slot_of x))"
    using exec_outcome [OF store_valid_keyed [OF v], of E op, unfolded outcome_def]
  proof (elim disjE exE conjE)
    assume "sto_checkpoints (exec E op st) = sto_checkpoints st"
    then show ?thesis by (intro disjI1 load_same)
  next
    fix c assume c: "writes E op (load_checkpoint st (op_key op)) c"
      "sto_checkpoints (exec E op st) = btree_insert (op_key op) c (sto_checkpoints st)"
    have "lease_step (lease_of op) (map_option slot_of (load_checkpoint st (op_key op))) (Some (slot_of c))"
      using writes_lease_step [OF c(1)] v by (auto simp: store_valid_def)
    then show ?thesis using load_insert [OF c(2)] by (metis option.map(2))
  next
    assume d: "op = Delete (op_key op)" "sto_checkpoints (exec E op st) = btree_remove (op_key op) (sto_checkpoints st)"
    have "lease_of op = Remove" using d(1) by (cases op) simp_all
    then show ?thesis
      using load_remove [OF _ d(2)] v lease_step.remove by (auto simp: store_valid_def)
  qed
qed (rule exec_valid)

section \<open>Properties of the store\<close>

lemma empty_store_valid: "store_valid E empty_store"
  by (simp add: store_valid_def empty_store_def load_checkpoint_def)




text \<open>
  C13. A finished run stays finished: once a checkpoint carries its terminal result, every sequence
  of calls that does not delete it leaves a terminal result in place, never a claim, and never a
  smaller revision.
\<close>

theorem finished_stays_finished:
  assumes "store_valid E st" and "load_checkpoint st key = Some c" and "cp_terminal_result c \<noteq> None"
    and "list_all renewal_bounded ops" and "list_all (\<lambda>op. op \<noteq> Delete key) ops"
  shows "\<exists>c'. load_checkpoint (fold (exec E) ops st) key = Some c' \<and> cp_terminal_result c' \<noteq> None \<and>
    cp_claim_token c' = None \<and> cp_revision c \<le> cp_revision c'"
proof -
  have no_remove: "list_all (\<lambda>op. op_key op = key \<longrightarrow> lease_of op \<noteq> Remove) ops"
  proof -
    have "lease_of op \<noteq> Remove" if "op_key op = key" "op \<noteq> Delete key" for op
      using that by (cases op) simp_all
    then show ?thesis using assms(5) by (auto simp: list_all_iff)
  qed
  obtain c' where c': "load_checkpoint (fold (exec E) ops st) key = Some c'" "sl_done (slot_of c')"
    "sl_version (slot_of c) \<le> sl_version (slot_of c')"
    using ms.done_stays [OF assms(1,2) _ assms(4) no_remove] assms(3) by (auto simp: slot_of_def)
  then have "validate_checkpoint E c' = Inr ()"
    using ms.inv_run [OF assms(1,4)] by (auto simp: store_valid_def)
  then have "cp_claim_token c' = None"
    using claimed_not_finished [of E c'] c'(2) by (cases "cp_claim_token c'") (auto simp: slot_of_def)
  then show ?thesis using c' by (auto simp: slot_of_def)
qed

text \<open>
  Fencing: a worker whose claim was taken over, or whose view of the revision is old, writes
  nothing. Its progress, suspension, commit and claimed finalisation answer false and leave the whole
  store, the archive included, as it was.
\<close>

theorem stale_worker_writes_nothing:
  assumes "load_checkpoint st (cp_key snap) = Some cur" and "cp_claim_token cur \<noteq> Some token \<or> cp_revision cur \<noteq> n"
  shows "progress_checkpoint E st snap token n = (st, Inr False) \<and> suspend_checkpoint E st snap token n = (st, Inr False) \<and>
    commit_checkpoint E st snap token n = (st, Inr False) \<and> finalize_claimed_checkpoint E st snap token n = (st, Inr False)"
proof -
  have stale: "\<not> claim_matches cur snap token n" using assms(2) by (auto simp: claim_matches_def)
  have get: "btree_get (cp_key snap) (sto_checkpoints st) = Some cur" using assms(1) by (simp add: load_checkpoint_def)
  show ?thesis
    using get stale
    by (simp add: progress_checkpoint_def suspend_checkpoint_def commit_checkpoint_def finalize_claimed_checkpoint_def
        cas_write_def prepare_progress_def prepare_suspend_def prepare_commit_def prepare_finalize_claimed_def)
qed

text \<open>
  Renewal does not bound the lease: the owner of a running lease that asks for an expiry beyond
  the integers of the wire is told that the claim was renewed, and the checkpoint that is stored then
  fails its own validation. The same expiry is refused when the claim is taken.
\<close>

theorem renewal_accepts_unbounded_lease:
  assumes "store_valid E st" and "load_checkpoint st key = Some c" and "cp_owner c = Some (token, expiry)"
    and "now < expiry" and "MAX_WIRE_INTEGER < lease"
  shows "(\<exists>st' c' out. renew_checkpoint_claim st key token lease now = (st', Inr out) \<and>
      out \<in> {Renewed lease, CancelRequested lease} \<and> load_checkpoint st' key = Some c' \<and>
      validate_checkpoint E c' \<noteq> Inr ()) \<and>
    apply_claim cur cycle token lease mode = Inl ''checkpoint_claim_invalid''"
proof -
  have get: "btree_get key (sto_checkpoints st) = Some c" using assms(2) by (simp add: load_checkpoint_def)
  have claim: "cp_claim_token c = Some token" "cp_lease_expires_at_ms c = Some expiry"
    using assms(3) by (auto simp: cp_owner_def split: bind_splits)
  have "validate_checkpoint E c = Inr ()" using assms(1,2) by (simp add: store_valid_def)
  from validate_checkpoint_parts(1) [OF this] have v: "\<not> is_blank token" "expiry \<le> MAX_WIRE_INTEGER"
    using claim by (auto simp: validate_claim_def and_then_Inr_iff split: option.splits)
  let ?c = "c\<lparr>cp_lease_expires_at_ms := Some lease\<rparr>"
  have "validate_claim ?c \<noteq> Inr ()"
    using claim assms(5) by (auto simp: validate_claim_def and_then_Inr_iff split: option.splits)
  then have bad: "validate_checkpoint E ?c \<noteq> Inr ()" using validate_checkpoint_parts(1) by blast
  have "renew_checkpoint_claim st key token lease now =
    (put_checkpoint key ?c st, Inr (if cp_cancel_requested c then CancelRequested lease else Renewed lease))"
    using get claim v assms(4,5) by (simp add: renew_checkpoint_claim_def)
  moreover have "load_checkpoint (put_checkpoint key ?c st) key = Some ?c"
    by (simp add: load_checkpoint_def put_checkpoint_def)
  ultimately show ?thesis using bad assms(5) by (simp add: apply_claim_def)
qed

section \<open>A concrete run\<close>

definition demo_cp :: checkpoint where
  "demo_cp = default_checkpoint\<lparr>cp_key := ''k'', cp_task_id := ''t'', cp_root_run_id := ''r'', cp_trace_id := ''x'',
     cp_run_definition_digest := demo_digest\<rparr>"

definition demo_claimed :: checkpoint where
  "demo_claimed = demo_cp\<lparr>cp_revision := 1, cp_claim_token := Some ''w'', cp_claimed_cycle := Some 1,
     cp_lease_expires_at_ms := Some 100\<rparr>"

lemmas demo_cp_defs = demo_cp_def demo_claimed_def default_checkpoint_def

lemma small_wire [simp]: "numeral n \<le> MAX_WIRE_INTEGER \<longleftrightarrow> numeral n \<le> (9007199254740991 :: nat)"
  by (simp add: MAX_WIRE_INTEGER_def)

lemma wire_pos [simp]: "0 < MAX_WIRE_INTEGER"
  by (simp add: MAX_WIRE_INTEGER_def)

lemma checked_add_demo [simp]: "checked_add 0 (Suc 0) = Some 1" "checked_add 0 1 = Some 1"
  by (simp_all add: checked_add_def u64_max_def)

lemma default_history_valid [simp]: "history_validate default_history = Inr ()"
  by (simp add: history_validate_def default_history_def Let_def default_totals_def default_task_usage_def
      and_then_Inr_iff)

lemma demo_valid: "validate_checkpoint demo_env demo_cp = Inr ()" "validate_checkpoint demo_env demo_claimed = Inr ()"
  by (simp_all add: validate_checkpoint_def demo_cp_defs validate_cycles_def validate_claim_def validate_status_def
      validate_host_interaction_def validate_deferred_def validate_terminal_def journal_entries_def active_cycle_def
      has_ambiguous_operation_def validate_extension_state_size_def validate_model_journal_accounting_def
      validate_checkpoint_key_def and_then_Inr_iff blank_eval Let_def)

definition demo_store :: "checkpoint \<Rightarrow> store" where
  "demo_store c = empty_store\<lparr>sto_checkpoints := [(''k'', c)]\<rparr>"

lemma load_demo_store [simp]: "load_checkpoint (demo_store c) k = (if k = ''k'' then Some c else None)"
  by (simp add: load_checkpoint_def demo_store_def)

lemma demo_creation: "validate_checkpoint_creation demo_env demo_cp = Inr ()"
  using demo_valid by (simp add: validate_checkpoint_creation_def demo_cp_defs Let_def is_terminal_def and_then_Inr_iff)

lemma demo_create: "exec demo_env (Create demo_cp) empty_store = demo_store demo_cp"
proof -
  have "cp_key demo_cp = ''k''" by (simp add: demo_cp_defs)
  then show ?thesis
    using demo_creation by (simp add: create_checkpoint_def put_checkpoint_def empty_store_def demo_store_def btree_contains_def)
qed

lemma demo_apply_claim: "apply_claim demo_cp 1 ''w'' 100 Continue = Inr demo_claimed"
  by (simp add: apply_claim_def bump_revision_def demo_cp_defs blank_eval)

lemma demo_claim: "exec demo_env (Claim ''k'' 1 ''w'' 100 10 Continue) (demo_store demo_cp) = demo_store demo_claimed"
proof -
  have cand: "claim_candidate demo_cp 1 10 Continue = Inr True"
    by (simp add: claim_candidate_def demo_cp_defs is_terminal_def has_ambiguous_operation_def journal_entries_def not_less)
  have "is_blank ''w'' = False" by (simp add: blank_eval)
  then show ?thesis
    using cand demo_apply_claim demo_valid(2)
    by (simp add: claim_checkpoint_def demo_store_def put_checkpoint_def empty_store_def)
qed

lemma demo_store_valid: "validate_checkpoint demo_env c = Inr () \<Longrightarrow> cp_key c = ''k'' \<Longrightarrow> store_valid demo_env (demo_store c)"
  by (auto simp: store_valid_def) (simp add: demo_store_def btree_ok_def)

lemma demo_claimed_valid: "store_valid demo_env (demo_store demo_claimed)"
  using demo_valid by (intro demo_store_valid) (simp_all add: demo_cp_defs)



lemma demo_owner: "cp_owner demo_claimed = Some (''w'', 100)"
  by (simp add: cp_owner_def demo_claimed_def)


definition demo_finished :: checkpoint where
  "demo_finished = demo_cp\<lparr>cp_status := StCompleted, cp_terminal_result := Some (JObj []), cp_revision := 2\<rparr>"

lemma demo_finished_valid: "validate_checkpoint demo_env demo_finished = Inr ()"
  by (simp add: validate_checkpoint_def demo_cp_defs demo_finished_def validate_cycles_def validate_claim_def validate_status_def
      validate_host_interaction_def validate_deferred_def validate_terminal_def journal_entries_def active_cycle_def
      has_ambiguous_operation_def validate_extension_state_size_def validate_model_journal_accounting_def is_terminal_def
      validate_checkpoint_key_def and_then_Inr_iff blank_eval Let_def validate_json_def canonical_json_bytes_def
      default_task_usage_def demo_env_def demo_agent_result_def)

theorem finished_stays_finished_witness:
  "\<exists>c'. load_checkpoint (fold (exec demo_env) [Acknowledge ''k'' 2, Claim ''k'' 1 ''v'' 200 50 Recovery]
     (demo_store demo_finished)) ''k'' = Some c' \<and> cp_terminal_result c' \<noteq> None \<and> cp_claim_token c' = None \<and>
     cp_revision demo_finished \<le> cp_revision c'"
proof (rule finished_stays_finished)
  show "store_valid demo_env (demo_store demo_finished)"
    using demo_finished_valid by (intro demo_store_valid) (simp_all add: demo_finished_def demo_cp_defs)
qed (simp_all add: demo_finished_def)

theorem stale_worker_writes_nothing_witness:
  "progress_checkpoint demo_env (demo_store demo_claimed) demo_claimed ''v'' 1 = (demo_store demo_claimed, Inr False) \<and>
   suspend_checkpoint demo_env (demo_store demo_claimed) demo_claimed ''v'' 1 = (demo_store demo_claimed, Inr False) \<and>
   commit_checkpoint demo_env (demo_store demo_claimed) demo_claimed ''v'' 1 = (demo_store demo_claimed, Inr False) \<and>
   finalize_claimed_checkpoint demo_env (demo_store demo_claimed) demo_claimed ''v'' 1 = (demo_store demo_claimed, Inr False)"
  by (rule stale_worker_writes_nothing [where cur = demo_claimed]) (simp_all add: demo_cp_defs)

theorem renewal_accepts_unbounded_lease_witness:
  "(\<exists>st' c' out. renew_checkpoint_claim (demo_store demo_claimed) ''k'' ''w'' (2 ^ 53) 10 = (st', Inr out) \<and>
      out \<in> {Renewed (2 ^ 53), CancelRequested (2 ^ 53)} \<and> load_checkpoint st' ''k'' = Some c' \<and>
      validate_checkpoint demo_env c' \<noteq> Inr ()) \<and>
    apply_claim demo_cp 1 ''w'' (2 ^ 53) Continue = Inl ''checkpoint_claim_invalid''"
  by (rule renewal_accepts_unbounded_lease [OF demo_claimed_valid _ demo_owner]) (simp_all add: MAX_WIRE_INTEGER_def)

end
