(* ===== verification/Receipt_Laws.thy ===== *)
theory Receipt_Laws
  imports Checkpoint_Laws
begin

text \<open>
  Effects that happen once: events are staged and delivered once, a tool result is recorded once, a
  deferred handle is resolved once, and a batch of deferred tools is a barrier that opens when its
  last handle is resolved.
\<close>

section \<open>Events\<close>

lemma positions_eq: "positions p n xs = map ((+) n) (filter (\<lambda>i. p (xs ! i)) [0..<length xs])"
proof (induction xs arbitrary: n)
  case (Cons x xs)
  have "filter (\<lambda>i. p ((x # xs) ! i)) [0..<length (x # xs)] =
    (if p x then [0] else []) @ map Suc (filter (\<lambda>i. p (xs ! i)) [0..<length xs])"
    by (simp add: upt_conv_Cons filter_map comp_def del: upt_Suc flip: map_Suc_upt)
  then show ?case using Cons by (simp add: comp_def)
qed simp

lemma positions_0: "positions p 0 xs = filter (\<lambda>i. p (xs ! i)) [0..<length xs]"
  by (simp add: positions_eq map_idI)

text \<open>With one entry at a position, the search finds that position and nothing else, also after an update that keeps the identity.\<close>

lemma positions_update:
  assumes "positions p 0 xs = [i]" and "p x = p (xs ! i)"
  shows "positions p 0 (xs[i := x]) = [i]" and "i < length xs"
proof -
  have i: "filter (\<lambda>j. p (xs ! j)) [0..<length xs] = [i]" using assms(1) by (simp add: positions_0)
  then have "i \<in> set (filter (\<lambda>j. p (xs ! j)) [0..<length xs])" by simp
  then show len: "i < length xs" by simp
  have "filter (\<lambda>j. p (xs[i := x] ! j)) [0..<length xs] = filter (\<lambda>j. p (xs ! j)) [0..<length xs]"
    using assms(2) len by (intro filter_cong) (auto simp: nth_list_update)
  then show "positions p 0 (xs[i := x]) = [i]" using i by (simp add: positions_0)
qed

lemma delivery_Inr:
  assumes "prepare_event_delivery E cur token n event_id digest cursor = Inr (Some u)"
  shows "\<exists>i. positions (\<lambda>b. ob_event_id b = event_id) 0 (cp_event_outbox u) = [i] \<and>
    ob_state (cp_event_outbox u ! i) = ''delivered'' \<and> ob_state (cp_event_outbox cur ! i) = ''pending'' \<and>
    cp_event_outbox u = (cp_event_outbox cur)[i := (cp_event_outbox cur ! i)\<lparr>ob_state := ''delivered'',
      ob_cursor := Some (cursor_to_value cursor)\<rparr>] \<and> cp_event_cursor u = Some cursor"
proof -
  let ?p = "\<lambda>b. ob_event_id b = event_id" and ?xs = "cp_event_outbox cur"
  obtain i where i: "positions ?p 0 ?xs = [i]" and pend: "ob_state (?xs ! i) = ''pending''"
    and u: "cp_event_outbox u = ?xs[i := (?xs ! i)\<lparr>ob_state := ''delivered'', ob_cursor := Some (cursor_to_value cursor)\<rparr>]"
      "cp_event_cursor u = Some cursor"
    using assms
    by (auto simp: prepare_event_delivery_def ok_some_Inr and_then_Inr_iff seal_Inr Let_def split: if_splits list.splits)
  note upd = positions_update [OF i, of "(?xs ! i)\<lparr>ob_state := ''delivered'', ob_cursor := Some (cursor_to_value cursor)\<rparr>"]
  show ?thesis using u pend upd by (intro exI [of _ i]) simp
qed

lemma cas_True:
  assumes "cas_write E st key (\<lambda>_. key) f = (st', Inr True)"
  shows "\<exists>cur u c b. load_checkpoint st key = Some cur \<and> f cur = Inr (Some u) \<and>
    normalize_checkpoint_history E u = Inr (c, b) \<and> load_checkpoint st' key = Some c"
  using cas_write_checkpoints [OF assms] by (auto simp: load_checkpoint_def)


lemma btree_insert_same: "btree_ok m \<Longrightarrow> btree_get k m = Some v \<Longrightarrow> btree_insert k v m = m"
proof (induction k v m rule: btree_insert.induct)
  case (2 k v a w m)
  show ?case
  proof (cases "k = a")
    case True
    then show ?thesis using 2 by simp
  next
    case False
    then have get: "btree_get k m = Some v" using 2(3) by simp
    then have "(k, v) \<in> set m" using btree_get_set [OF btree_ok_tail [OF 2(2)]] by blast
    then have "a < k" using 2(2) by (auto simp: btree_ok_def)
    then show ?thesis using 2(1) False get btree_ok_tail [OF 2(2)] by simp
  qed
qed simp

lemma find_append: "find p (xs @ ys) = (case find p xs of None \<Rightarrow> find p ys | Some x \<Rightarrow> Some x)"
  by (induction xs) simp_all

lemma find_id_None: "find (\<lambda>b. f b = i) xs = None \<longleftrightarrow> i \<notin> f ` set xs"
  by (auto simp: find_None_iff)

text \<open>A valid entry is accepted as a replay of itself.\<close>

lemma append_once_self:
  assumes "find (\<lambda>x. ob_event_id x = ob_event_id b) outbox = Some b" and "verify_payload E b = Inr ()"
    and "ob_event b = JObj m" and "btree_ok m"
  shows "append_event_outbox_once E outbox b = Inr outbox"
proof -
  have ok: "outbox_validate E b = Inr ()" "event_payload_digest E (ob_event b) = Inr (ob_payload_digest b)"
    using assms(2) by (auto simp: verify_payload_def and_then_Inr_iff)
  have same: "JObj (btree_insert ''created_at'' v m) = ob_event b" if "json_get ''created_at'' (ob_event b) = Some v" for v
    using that assms(3,4) btree_insert_same by (simp add: json_get_def)
  have "b\<lparr>ob_event := JObj m\<rparr> = b" using assms(3) by (cases b) simp
  then have "outbox_validate E (b\<lparr>ob_event := JObj m\<rparr>) = Inr ()" by (rule ssubst) (rule ok(1))
  then show ?thesis
    using assms ok same
    by (cases "json_get ''created_at'' (ob_event b)") (simp_all add: append_event_outbox_once_def Let_def)
qed

lemma append_once_cases:
  assumes "append_event_outbox_once E outbox b = Inr outbox'"
  shows "(outbox' = outbox \<and> ob_event_id b \<in> ob_event_id ` set outbox) \<or>
    (outbox' = outbox @ [b] \<and> ob_event_id b \<notin> ob_event_id ` set outbox)"
proof (cases "find (\<lambda>x. ob_event_id x = ob_event_id b) outbox")
  case None
  then have "ob_event_id b \<notin> ob_event_id ` set outbox" by (rule find_id_None [THEN iffD1])
  then show ?thesis using assms None by (auto simp: append_event_outbox_once_def)
next
  case (Some x)
  then have "ob_event_id b \<in> ob_event_id ` set outbox" by (metis find_id_None option.distinct(1))
  then show ?thesis
    using assms Some by (auto simp: append_event_outbox_once_def and_then_Inr_iff split: if_splits)
qed

text \<open>
  Staging an event is idempotent: a staged event is appended when its identity is new and
  otherwise changes nothing, identities stay distinct, and staging the same valid event once more
  succeeds and leaves the outbox as it is.
\<close>

theorem outbox_append_once:
  assumes "append_event_outbox_once E outbox b = Inr outbox'"
    and "verify_payload E b = Inr ()" and "ob_event b = JObj m" and "btree_ok m"
    and "distinct (map ob_event_id outbox)"
  shows "(outbox' = outbox \<or> outbox' = outbox @ [b]) \<and> distinct (map ob_event_id outbox') \<and>
    ob_event_id b \<in> set (map ob_event_id outbox') \<and> append_event_outbox_once E outbox' b = Inr outbox'"
  using append_once_cases [OF assms(1)]
proof (elim disjE conjE)
  assume new: "outbox' = outbox @ [b]" "ob_event_id b \<notin> ob_event_id ` set outbox"
  then have "find (\<lambda>x. ob_event_id x = ob_event_id b) outbox' = Some b"
    by (simp add: find_append find_id_None [THEN iffD2])
  from append_once_self [OF this assms(2-4)] show ?thesis using new assms(5) by simp
next
  assume "outbox' = outbox" "ob_event_id b \<in> ob_event_id ` set outbox"
  then show ?thesis using assms(1,5) by simp
qed

lemma append_all_once_cases:
  "append_all_once E outbox bs = Inr outbox' \<Longrightarrow>
    (\<exists>new. outbox' = outbox @ new \<and> set new \<subseteq> set bs) \<and>
    ob_event_id ` set outbox' = ob_event_id ` set outbox \<union> ob_event_id ` set bs \<and>
    (distinct (map ob_event_id outbox) \<longrightarrow> distinct (map ob_event_id outbox'))"
proof (induction bs arbitrary: outbox)
  case (Cons b bs)
  then obtain o1 where o1: "append_event_outbox_once E outbox b = Inr o1" "append_all_once E o1 bs = Inr outbox'"
    by (auto simp: and_then_Inr_iff)
  note ih = Cons.IH [OF o1(2)]
  from append_once_cases [OF o1(1)] show ?case
  proof (elim disjE conjE)
    assume "o1 = outbox" "ob_event_id b \<in> ob_event_id ` set outbox"
    then show ?thesis using ih by auto
  next
    assume new: "o1 = outbox @ [b]" "ob_event_id b \<notin> ob_event_id ` set outbox"
    obtain new where "outbox' = o1 @ new" "set new \<subseteq> set bs" using ih by blast
    then have "outbox' = outbox @ (b # new) \<and> set (b # new) \<subseteq> set (b # bs)" using new by auto
    moreover have "ob_event_id ` set outbox' = ob_event_id ` set outbox \<union> ob_event_id ` set (b # bs)"
      using ih new by simp
    moreover have "distinct (map ob_event_id outbox) \<longrightarrow> distinct (map ob_event_id outbox')"
      using ih new by simp
    ultimately show ?thesis by blast
  qed
qed simp

text \<open>
  C15. No staged event is lost when a worker's snapshot is merged into the stored checkpoint: the
  stored outbox stays as a prefix, in order and with its delivery marks, the events of the snapshot
  that were not there follow, and the identities of both are all present and still distinct.
\<close>

theorem merge_keeps_staged_events:
  assumes "merge_authoritative_fields E cur snap = Inr m"
  shows "(\<exists>new. cp_event_outbox m = cp_event_outbox cur @ new \<and> set new \<subseteq> set (cp_event_outbox snap)) \<and>
    ob_event_id ` set (cp_event_outbox m) = ob_event_id ` set (cp_event_outbox cur) \<union> ob_event_id ` set (cp_event_outbox snap) \<and>
    (distinct (map ob_event_id (cp_event_outbox cur)) \<longrightarrow> distinct (map ob_event_id (cp_event_outbox m))) \<and>
    cp_event_cursor m = cp_event_cursor cur"
proof -
  obtain outbox where o: "append_all_once E (cp_event_outbox cur) (cp_event_outbox snap) = Inr outbox"
    "cp_event_outbox m = outbox" "cp_event_cursor m = cp_event_cursor cur"
    using assms by (auto simp: merge_authoritative_fields_def and_then_Inr_iff)
  show ?thesis using append_all_once_cases [OF o(1)] o(2,3) by simp
qed

section \<open>Tool receipts\<close>

lemma find_update:
  assumes "find p xs = None" and "i < length xs" and "p x"
  shows "find p (xs[i := x]) = Some x"
proof -
  have "\<forall>y \<in> set (take i xs). \<not> p y" using assms(1) by (auto simp: find_None_iff dest: in_set_takeD)
  then have "find p (take i xs) = None" by (simp add: find_None_iff)
  then show ?thesis using assms(2,3) by (simp add: upd_conv_take_nth_drop find_append)
qed

lemma close_with_receipt_Inr:
  "close_with_receipt E e r identity digest ob = Inr e' \<Longrightarrow>
     oj_identity_key e' = Some identity \<and> oj_result_digest e' = Some digest"
  by (auto simp: close_with_receipt_def Let_def and_then_Inr_iff split: if_splits)

lemma receipt_entry:
  assumes "prepare_tool_receipt E cur snap op n call dig r token expected cycle = Inr (Some u)"
    and "tool_receipt_identity_key E (cp_key cur) op n call dig = Inr identity" and "tool_result_digest E r = Inr digest"
  shows "\<exists>i e'. i < length (cp_tool_journal cur) \<and> cp_tool_journal u = (cp_tool_journal cur)[i := e'] \<and>
    oj_identity_key e' = Some identity \<and> oj_result_digest e' = Some digest"
  using assms
  by (fastforce simp: prepare_tool_receipt_def ok_some_Inr and_then_Inr_iff seal_Inr Let_def
      split: if_splits option.splits dest!: close_with_receipt_Inr position_SomeD)

text \<open>The receipt that a call carries: its identity and the digest of its result.\<close>

definition receipt_of :: "env \<Rightarrow> string \<Rightarrow> string \<Rightarrow> u64 \<Rightarrow> string \<Rightarrow> string \<Rightarrow> tool_result \<Rightarrow> err + (string \<times> string)" where
  "receipt_of E key op n call dig r =
    and_then (validate_definitive_result r) (\<lambda>_.
    and_then (tool_receipt_identity_key E key op n call dig) (\<lambda>identity.
    and_then (tool_result_digest E r) (\<lambda>digest. Inr (identity, digest))))"

lemma record_tool_receipt_stored:
  assumes "load_checkpoint st (cp_key snap) = Some c" and "receipt_of E (cp_key snap) op n call dig r = Inr (identity, digest)"
    and "find (\<lambda>e. oj_identity_key e = Some identity) (cp_tool_journal c) = Some e"
  shows "record_tool_receipt E st snap op n call dig r token expected cycle =
    (st, if oj_result_digest e = Some digest then Inr True else Inl ''tool_receipt_conflict'')"
  using assms by (simp add: record_tool_receipt_def receipt_of_def load_checkpoint_def)

lemma record_tool_receipt_True:
  assumes "well_keyed st" and "record_tool_receipt E st snap op n call dig r token expected cycle = (st', Inr True)"
  shows "\<exists>c identity digest e. load_checkpoint st' (cp_key snap) = Some c \<and>
    receipt_of E (cp_key snap) op n call dig r = Inr (identity, digest) \<and>
    find (\<lambda>e. oj_identity_key e = Some identity) (cp_tool_journal c) = Some e \<and> oj_result_digest e = Some digest"
proof -
  obtain identity digest where rc: "receipt_of E (cp_key snap) op n call dig r = Inr (identity, digest)"
    using assms(2) by (auto simp: record_tool_receipt_def receipt_of_def split: sum.splits)
  then have parts: "tool_receipt_identity_key E (cp_key snap) op n call dig = Inr identity" "tool_result_digest E r = Inr digest"
    by (auto simp: receipt_of_def and_then_Inr_iff)
  obtain cur where cur: "load_checkpoint st (cp_key snap) = Some cur"
    using assms(2) rc by (auto simp: record_tool_receipt_def receipt_of_def load_checkpoint_def split: option.splits)
  show ?thesis
  proof (cases "find (\<lambda>e. oj_identity_key e = Some identity) (cp_tool_journal cur)")
    case (Some e)
    then show ?thesis
      using record_tool_receipt_stored [OF cur rc Some] assms(2) cur rc by (auto split: if_splits)
  next
    case None
    then have "cas_write E st (cp_key snap) cp_key (\<lambda>cur. prepare_tool_receipt E cur snap op n call dig r token expected cycle) =
      (st', Inr True)"
      using assms(2) rc cur by (simp add: record_tool_receipt_def receipt_of_def load_checkpoint_def)
    from cas_write_checkpoints [OF this] obtain u c b where
      u: "prepare_tool_receipt E cur snap op n call dig r token expected cycle = Inr (Some u)"
      "normalize_checkpoint_history E u = Inr (c, b)" "sto_checkpoints st' = btree_insert (cp_key c) c (sto_checkpoints st)"
      using cur by (auto simp: load_checkpoint_def)
    have key: "cp_key cur = cp_key snap" using assms(1) cur by (simp add: well_keyed_def)
    have c: "cp_key c = cp_key snap" "cp_tool_journal c = cp_tool_journal u"
      using records_onlyD normalize_Inr [OF u(2)] receipt_advances [OF u(1)] key by (auto simp: advances_def)
    obtain i e' where e': "i < length (cp_tool_journal cur)" "cp_tool_journal u = (cp_tool_journal cur)[i := e']"
      "oj_identity_key e' = Some identity" "oj_result_digest e' = Some digest"
      using receipt_entry [OF u(1), of identity digest] parts key by auto
    have "find (\<lambda>e. oj_identity_key e = Some identity) (cp_tool_journal c) = Some e'"
      using find_update [OF None e'(1)] e'(2,3) c(2) by simp
    then show ?thesis using load_insert [OF u(3)] c(1) rc e'(4) by auto
  qed
qed

text \<open>
  A tool result is recorded once: when a receipt has been accepted, recording the same result
  for the same operation again, by any worker at any revision, succeeds without any change to the
  store, and recording a different definitive result for it is refused as a conflict.
\<close>

theorem tool_receipt_recorded_once:
  assumes "well_keyed st" and "record_tool_receipt E st snap op n call dig r token expected cycle = (st', Inr True)"
    and "cp_key snap' = cp_key snap"
  shows "record_tool_receipt E st' snap' op n call dig r token' expected' cycle' = (st', Inr True) \<and>
    (validate_definitive_result r' = Inr () \<and> tool_result_digest E r' = Inr d' \<and> tool_result_digest E r \<noteq> Inr d' \<longrightarrow>
     record_tool_receipt E st' snap' op n call dig r' token' expected' cycle' = (st', Inl ''tool_receipt_conflict''))"
proof -
  obtain c identity digest e where c: "load_checkpoint st' (cp_key snap') = Some c"
    "receipt_of E (cp_key snap') op n call dig r = Inr (identity, digest)"
    "find (\<lambda>e. oj_identity_key e = Some identity) (cp_tool_journal c) = Some e" "oj_result_digest e = Some digest"
    using record_tool_receipt_True [OF assms(1,2)] assms(3) by auto
  have "record_tool_receipt E st' snap' op n call dig r token' expected' cycle' = (st', Inr True)"
    using record_tool_receipt_stored [OF c(1-3)] c(4) by simp
  moreover have "record_tool_receipt E st' snap' op n call dig r' token' expected' cycle' = (st', Inl ''tool_receipt_conflict'')"
    if d: "validate_definitive_result r' = Inr ()" "tool_result_digest E r' = Inr d'" "tool_result_digest E r \<noteq> Inr d'"
  proof -
    have "receipt_of E (cp_key snap') op n call dig r' = Inr (identity, d')" "digest \<noteq> d'"
      using c(2) d by (auto simp: receipt_of_def and_then_Inr_iff)
    then show ?thesis using record_tool_receipt_stored [OF c(1) _ c(3)] c(4) by simp
  qed
  ultimately show ?thesis by blast
qed

section \<open>Deferred tools\<close>

lemma receipt_new_Inr:
  assumes "receipt_new E h r event_id event_digest = Inr d"
  shows "dr_handle d = h \<and> dr_result d = r \<and> result_digest E r = Inr (dr_result_digest d) \<and>
    handle_key E h = Inr (dr_handle_key d) \<and> receipt_validate E d = Inr ()"
  using assms by (auto simp: receipt_new_def and_then_Inr_iff Let_def)

lemma btree_get_filter: "btree_get k m = Some v \<Longrightarrow> P (k, v) \<Longrightarrow> btree_get k (filter P m) = Some v"
  by (induction k m rule: btree_get.induct) (auto split: if_splits)

lemma cas_write_receipts: "sto_receipts (fst (cas_write E st key dest f)) = sto_receipts st"
  by (simp add: cas_write_def persist_and_put_def put_checkpoint_def split: option.splits sum.splits prod.splits)
    (metis persist_history_checkpoints)

lemma persist_admission_receipts: "sto_receipts (fst (persist_admission E st key u hs)) = sto_receipts st"
  by (simp add: persist_admission_def put_checkpoint_def split: sum.splits prod.splits)
    (metis persist_history_checkpoints)

lemma resolve_apply_receipts:
  "sto_receipts (fst (resolve_apply E st key c i h r)) = sto_receipts st \<or>
   (\<exists>d. sto_receipts (fst (resolve_apply E st key c i h r)) = btree_insert key d (sto_receipts st))"
  by (simp add: resolve_apply_def put_checkpoint_def split: sum.splits prod.splits)
    (metis persist_history_checkpoints)

text \<open>A receipt of the store survives every call but the deletion of its checkpoint.\<close>

lemma receipt_survives:
  assumes "btree_get k (sto_receipts st) = Some d" and "op \<noteq> Delete (dh_checkpoint_key (dr_handle d))"
  shows "btree_get k (sto_receipts (exec E op st)) = Some d"
proof (cases op)
  case (Delete key)
  then show ?thesis using assms by (auto simp: delete_checkpoint_def intro: btree_get_filter)
next
  case (Create c)
  then show ?thesis using assms by (simp add: create_checkpoint_def put_checkpoint_def split: sum.splits)
next
  case (Claim key cycle token lease now mode)
  then show ?thesis
    using assms by (simp add: claim_checkpoint_def put_checkpoint_def split: option.splits sum.splits bool.splits)
next
  case (Renew key token lease now)
  then show ?thesis using assms by (simp add: renew_checkpoint_claim_def put_checkpoint_def split: option.splits)
next
  case (Receipt snap op n call dig r token expected cycle)
  then show ?thesis
    using assms by (simp add: record_tool_receipt_def cas_write_receipts split: sum.splits prod.splits option.splits)
next
  case (Admit key n token cycle bs)
  then show ?thesis
    using assms by (simp add: admit_deferred_batch_def persist_admission_receipts split: sum.splits prod.splits option.splits)
next
  case (Accept key n token cycle ds)
  then show ?thesis
    using assms by (simp add: accept_deferred_batch_def persist_admission_receipts split: sum.splits option.splits)
next
  case (Resolve h r)
  have "btree_get k (sto_receipts (fst (resolve_apply E st key c i h r))) = Some d"
    if "btree_get key (sto_receipts st) = None" for key c i
    using resolve_apply_receipts [of E st key c i h r] assms(1) that by auto
  then show ?thesis
    using assms(1) Resolve by (simp add: resolve_deferred_def split: sum.splits option.splits)
qed (use assms in \<open>simp_all add: progress_checkpoint_def suspend_checkpoint_def commit_checkpoint_def finalize_checkpoint_def
  finalize_claimed_checkpoint_def acknowledge_terminal_def record_event_delivery_def cas_write_receipts\<close>)

lemma resolve_deferred_replay:
  assumes "validate_definitive_result r = Inr ()" and "handle_key E h = Inr key" and "btree_get key (sto_receipts st) = Some d"
    and "result_digest E (dr_result d) = Inr d1" and "result_digest E r = Inr d2"
  shows "resolve_deferred E st h r = (st, if d1 = d2 then Inr (Replayed d) else Inl ''deferred_resolution_conflict'')"
  using assms by (simp add: resolve_deferred_def)

lemma resolve_deferred_applied:
  assumes "resolve_deferred E st h r = (st', Inr dec)" and "dec = AppliedReady d \<or> dec = AppliedWaiting d"
  shows "\<exists>key c i u event c' b. validate_definitive_result r = Inr () \<and> handle_key E h = Inr key \<and>
    load_checkpoint st (dh_checkpoint_key h) = Some c \<and> resolve_lookup c h r = Inr (Inr i) \<and>
    resolve_checkpoint E c i r = Inr (u, event) \<and> normalize_checkpoint_history E u = Inr (c', b) \<and>
    receipt_new E h r (ob_event_id event) (ob_payload_digest event) = Inr d \<and>
    btree_get key (sto_receipts st') = Some d \<and> load_checkpoint st' (cp_key c') = Some c' \<and>
    (dec = AppliedReady d \<longleftrightarrow> cp_status u = StRunning)"
proof -
  obtain key where key: "validate_definitive_result r = Inr ()" "handle_key E h = Inr key"
    using assms by (auto simp: resolve_deferred_def and_then_def split: sum.splits)
  obtain c where c: "btree_get key (sto_receipts st) = None" "load_checkpoint st (dh_checkpoint_key h) = Some c"
    using assms key by (auto simp: resolve_deferred_def and_then_Inr_iff load_checkpoint_def split: option.splits if_splits)
  obtain i where i: "resolve_lookup c h r = Inr (Inr i)" "resolve_apply E st key c i h r = (st', Inr dec)"
    using assms key c by (auto simp: resolve_deferred_def load_checkpoint_def resolve_lookup_def Let_def
        split: option.splits sum.splits if_splits)
  obtain u event d0 where u: "resolve_checkpoint E c i r = Inr (u, event)"
    "receipt_new E h r (ob_event_id event) (ob_payload_digest event) = Inr d0"
    using i(2) by (auto simp: resolve_apply_def and_then_def split: sum.splits prod.splits)
  obtain st1 res where p: "persist_history E st u = (st1, res)" by force
  obtain c' where c': "res = Inr c'" using i(2) u p by (cases res) (auto simp: resolve_apply_def)
  obtain b where b: "normalize_checkpoint_history E u = Inr (c', b)" using persist_history_checkpoints [OF p] c' by blast
  have "st' = put_checkpoint (cp_key c') c' (st1\<lparr>sto_receipts := btree_insert key d0 (sto_receipts st1)\<rparr>)"
    "dec = (if cp_status u = StRunning then AppliedReady d0 else AppliedWaiting d0)"
    using i(2) u p c' by (auto simp: resolve_apply_def)
  then show ?thesis
    using key c(2) i(1) u b assms(2) by (auto simp: put_checkpoint_def load_checkpoint_def split: if_splits)
qed


section \<open>The barrier of a deferred batch\<close>

definition waits_for :: "checkpoint \<Rightarrow> deferred_handle \<Rightarrow> bool" where
  "waits_for c h \<longleftrightarrow> (\<exists>e \<in> set (cp_tool_journal c). oj_state e = Deferred \<and> oj_deferred_handle e = Some h)"

lemma waits_for_defer:
  assumes "waits_for c h" and "i < length (cp_tool_journal c)" and "oj_state (cp_tool_journal c ! i) = Started"
  shows "waits_for (push_event b (defer_entry i h' c)) h"
proof -
  obtain e j where e: "j < length (cp_tool_journal c)" "e = cp_tool_journal c ! j" "oj_state e = Deferred"
    "oj_deferred_handle e = Some h"
    using assms(1) by (auto simp: waits_for_def in_set_conv_nth)
  then have "j \<noteq> i" using assms(3) by auto
  then have "cp_tool_journal (push_event b (defer_entry i h' c)) ! j = e"
    "j < length (cp_tool_journal (push_event b (defer_entry i h' c)))"
    using e by (simp_all add: push_event_def defer_entry_def)
  then show ?thesis using e(3,4) unfolding waits_for_def by (metis nth_mem)
qed

lemma waits_for_new:
  "i < length (cp_tool_journal c) \<Longrightarrow> waits_for (push_event b (defer_entry i h c)) h"
  by (auto simp: waits_for_def push_event_def defer_entry_def set_update_memI
      intro!: bexI [of _ "(cp_tool_journal c ! i)\<lparr>oj_state := Deferred, oj_deferred_handle := Some h\<rparr>"])

lemma admit_entry_waits:
  assumes "admit_entry E b c = Inr (c', h)"
  shows "be_outcome b = OutcomeDeferred h \<and> waits_for c' h \<and> (\<forall>h'. waits_for c h' \<longrightarrow> waits_for c' h')"
proof -
  obtain i event where i: "position (batch_target b) (cp_tool_journal c) = Some i"
    "oj_state (cp_tool_journal c ! i) = Started" "be_outcome b = OutcomeDeferred h"
    "c' = push_event event (defer_entry i h c)"
    using assms by (cases "be_outcome b") (auto simp: admit_entry_def and_then_Inr_iff Let_def)
  then show ?thesis using waits_for_defer waits_for_new position_SomeD [OF i(1)] by blast
qed

lemma admit_loop_waits:
  "admit_loop E bs c hs = Inr (c', hs') \<Longrightarrow>
     \<exists>new. hs' = hs @ new \<and> map be_outcome bs = map OutcomeDeferred new \<and>
       (\<forall>h. h \<in> set new \<or> waits_for c h \<longrightarrow> waits_for c' h)"
proof (induction bs arbitrary: c hs)
  case (Cons b bs)
  then obtain c1 h where 1: "admit_entry E b c = Inr (c1, h)" "admit_loop E bs c1 (hs @ [h]) = Inr (c', hs')"
    by (auto simp: and_then_Inr_iff)
  obtain new where "hs' = (hs @ [h]) @ new" "map be_outcome bs = map OutcomeDeferred new"
    "\<forall>h. h \<in> set new \<or> waits_for c1 h \<longrightarrow> waits_for c' h"
    using Cons.IH [OF 1(2)] by blast
  then show ?case using admit_entry_waits [OF 1(1)] by (intro exI [of _ "h # new"]) auto
qed simp


lemma valid_running:
  assumes "validate_checkpoint E c = Inr ()" and "cp_status c = StRunning" and "cp_claim_token c = None"
  shows "cp_terminal_result c = None \<and> \<not> has_ambiguous_operation c \<and> cp_lease_expires_at_ms c = None"
proof -
  have "cp_terminal_result c = None"
    using validate_checkpoint_parts(2) [OF assms(1)] assms(2)
    by (cases "cp_terminal_result c") (auto simp: validate_status_def and_then_Inr_iff is_terminal_def)
  moreover have "\<not> has_ambiguous_operation c"
    using assms by (simp add: validate_checkpoint_def and_then_Inr_iff)
  moreover have "cp_lease_expires_at_ms c = None"
    using validate_checkpoint_parts(1) [OF assms(1)] assms(3) by (auto simp: validate_claim_def split: option.splits)
  ultimately show ?thesis by simp
qed

lemma resolve_running:
  assumes "resolve_checkpoint E c i r = Inr (u, event)" and "cp_status u = StRunning"
  shows "list_all (\<lambda>e. oj_state e \<noteq> Deferred) (cp_tool_journal u)"
proof -
  obtain c1 where "seal E (cp_revision c) (c1\<lparr>cp_status := resolve_status c1\<rparr>) = Inr u"
    using assms(1) unfolding resolve_checkpoint_def Let_def by (elim and_then_InrE) auto
  then have "cp_status u = resolve_status c1" "cp_tool_journal u = cp_tool_journal c1" by (auto simp: seal_Inr)
  then show ?thesis using assms(2) by (auto simp: resolve_status_def list_ex_iff list_all_iff split: if_splits)
qed


section \<open>A concrete run\<close>

lemmas demo_validation = validate_checkpoint_def validate_cycles_def validate_claim_def validate_status_def
  validate_host_interaction_def validate_deferred_def validate_terminal_def journal_entries_def active_cycle_def
  has_ambiguous_operation_def validate_extension_state_size_def validate_model_journal_accounting_def
  validate_checkpoint_key_def and_then_Inr_iff blank_eval Let_def validate_journal_entry_def is_terminal_def

lemma demo_cp_sel:
  "cp_event_outbox demo_cp = []" "cp_claim_token demo_cp = None" "cp_revision demo_cp = 0" "cp_cycles demo_cp = []"
  "cp_terminal_result demo_cp = None" "cp_model_calls demo_cp = []" "cp_key demo_cp = ''k''" "cp_status demo_cp = StRunning"
  "cp_tool_journal demo_cp = []" "cp_cycle_index demo_cp = 0"
  by (simp_all add: demo_cp_defs)

definition demo_cursor :: event_cursor where
  "demo_cursor = \<lparr>ec_schema_version = EVENT_CURSOR_SCHEMA, ec_store_ref = \<lparr>cap_id = ''events'', cap_version = ''1''\<rparr>,
     ec_value = JNull, ec_last_event_id = Some ''e''\<rparr>"

definition demo_outbox_entry :: "string \<Rightarrow> outbox_entry" where
  "demo_outbox_entry event_id = \<lparr>ob_event_id = event_id, ob_payload_digest = demo_digest, ob_state = ''pending'',
     ob_event = JObj [(''event_id'', JStr event_id)], ob_cursor = None\<rparr>"

definition demo_staged :: checkpoint where
  "demo_staged = demo_cp\<lparr>cp_event_outbox := [demo_outbox_entry ''e'']\<rparr>"

lemma demo_cursor_valid: "cursor_validate demo_cursor = Inr ()"
  by (simp add: cursor_validate_def demo_cursor_def validate_capability_ref_def blank_eval and_then_Inr_iff)

lemma cursor_roundtrip:
  assumes "cursor_validate c = Inr ()"
  shows "cursor_from_value (cursor_to_value c) = Inr c"
proof -
  have ref: "\<not> is_blank (cap_id (ec_store_ref c))" "\<not> is_blank (cap_version (ec_store_ref c))"
    using assms by (auto simp: cursor_validate_def validate_capability_ref_def and_then_Inr_iff)
  have eta: "(\<lparr>ec_schema_version = ec_schema_version c, ec_store_ref = ec_store_ref c, ec_value = ec_value c,
      ec_last_event_id = ec_last_event_id c\<rparr> :: event_cursor) = c"
    "(\<lparr>cap_id = cap_id (ec_store_ref c), cap_version = cap_version (ec_store_ref c)\<rparr> :: capability_ref) = ec_store_ref c"
    by simp_all
  show ?thesis
    using assms ref
    by (simp add: cursor_from_value_def cursor_to_value_def object_of_def exact_fields_def capability_ref_from_fields_def
        get_str_def btree_get_object length_btree_collect btree_contains_def Let_def eta)
qed

lemma demo_entry_ok: "\<not> is_blank event_id \<Longrightarrow> verify_payload demo_env (demo_outbox_entry event_id) = Inr ()"
  by (simp add: verify_payload_def outbox_validate_def demo_outbox_entry_def event_payload_digest_def sha256_canonical_def
    canonical_json_bytes_def demo_decode_event_def and_then_Inr_iff json_get_def is_object_def)

lemma demo_delivered_ok: "verify_payload demo_env ((demo_outbox_entry ''e'')\<lparr>ob_state := ''delivered'', ob_cursor := Some (cursor_to_value demo_cursor)\<rparr>) = Inr ()"
  using cursor_roundtrip [OF demo_cursor_valid]
  by (auto simp: verify_payload_def outbox_validate_def demo_outbox_entry_def event_payload_digest_def sha256_canonical_def
    canonical_json_bytes_def demo_decode_event_def and_then_Inr_iff json_get_def blank_eval is_object_def)

lemma persist_quiet: "cp_model_calls u = [] \<Longrightarrow> cp_cycles u = [] \<Longrightarrow> persist_history E st u = (st, Inr u)"
  by (simp add: persist_history_def normalize_checkpoint_history_def retained_cycle_def)

lemma demo_delivery:
  "snd (record_event_delivery demo_env (demo_store demo_staged) ''k'' None 0 ''e'' demo_digest demo_cursor) = Inr True"
proof -
  let ?b = "(demo_outbox_entry ''e'')\<lparr>ob_state := ''delivered'', ob_cursor := Some (cursor_to_value demo_cursor)\<rparr>"
  let ?c = "demo_cp\<lparr>cp_event_outbox := [?b], cp_event_cursor := Some demo_cursor, cp_revision := 1\<rparr>"
  have "validate_checkpoint demo_env ?c = Inr ()"
    using demo_delivered_ok demo_cursor_valid by (simp add: demo_validation demo_cp_defs)
  then have "prepare_event_delivery demo_env demo_staged None 0 ''e'' demo_digest demo_cursor = Inr (Some ?c)"
    using demo_cursor_valid
    by (simp add: prepare_event_delivery_def demo_staged_def demo_cp_sel seal_def bump_revision_def demo_outbox_entry_def blank_eval demo_cursor_def Let_def ok_some_def)
  then show ?thesis
    by (simp add: record_event_delivery_def cas_write_def demo_store_def persist_and_put_def persist_quiet demo_cp_sel)
qed

definition demo_running :: "journal_entry \<Rightarrow> checkpoint" where
  "demo_running e = demo_claimed\<lparr>cp_tool_journal := [e]\<rparr>"

lemma demo_result_ok: "validate_definitive_result (demo_result i) = Inr ()" "tool_result_validate (demo_result i) = Inr ()"
  by (simp_all add: validate_definitive_result_def tool_result_validate_def demo_result_def is_ambiguous_tool_result_def and_then_Inr_iff
     btree_contains_def)

lemma demo_sha [simp]: "sha256_canonical demo_env v = (if v = JStr ''other'' then Inr demo_digest_2 else Inr demo_digest)"
  if "validate_i_json v = Inr ()"
  using that by (cases v) (auto simp: sha256_canonical_def canonical_json_bytes_def)

lemma demo_result_sel [simp]:
  "tr_tool_call_id (demo_result i) = i" "tr_status (demo_result i) = RsSuccess" "tr_error_code (demo_result i) = None"
  by (simp_all add: demo_result_def)

lemma object_not_str [simp]: "object_of kvs \<noteq> JStr s"
  by (simp add: object_of_def)

lemma demo_keys:
  "tool_receipt_identity_key demo_env ''k'' ''op'' 1 ''call'' demo_digest = Inr demo_digest"
  "handle_key demo_env demo_handle = Inr demo_digest"
proof -
  have n: "validate_i_json (json_u64 (Suc 0)) = Inr ()" by (simp add: json_u64_def)
  show "tool_receipt_identity_key demo_env ''k'' ''op'' 1 ''call'' demo_digest = Inr demo_digest"
    unfolding tool_receipt_identity_key_def by (subst demo_sha) (auto intro!: validate_i_json_object simp: n)
  show "handle_key demo_env demo_handle = Inr demo_digest"
    unfolding handle_key_def handle_to_value_def  by (simp, subst demo_sha) (auto intro!: validate_i_json_object simp: n demo_handle_def)
qed

lemma demo_digest_of: "tool_result_digest demo_env (demo_result i) = Inr (if i = ''other'' then demo_digest_2 else demo_digest)"
 "result_digest demo_env (demo_result i) = Inr (if i = ''other'' then demo_digest_2 else demo_digest)"
  by (simp_all add: tool_result_digest_def result_digest_def demo_result_ok map_err_def)


lemma demo_stage: "\<not> is_blank i \<Longrightarrow> stage_event demo_env [(''event_id'', JStr i)] = Inr (demo_outbox_entry i)"
  using demo_entry_ok [of i]
  by (simp add: stage_event_def pending_entry_def get_str_def event_payload_digest_def is_object_def demo_outbox_entry_def verify_payload_def and_then_Inr_iff Let_def string_or_empty_def)

lemma receipt_id_not_blank: "\<not> is_blank (''evt_receipt_'' @ demo_digest)"
  by (simp add: blank_eval demo_digest_def numeral_eq_Suc)

definition demo_closed :: journal_entry where
  "demo_closed = (demo_tool_entry Succeeded)\<lparr>oj_identity_key := Some demo_digest, oj_result_digest := Some demo_digest,
     oj_result := Some (JStr ''call'')\<rparr>"

lemma demo_closed_valid: "journal_validate demo_env demo_closed = Inr ()"
  by (simp add: journal_validate_def demo_closed_def demo_tool_entry_def tool_entry_def kind_fields_validate_def
      state_fields_validate_def some_non_empty_def validate_json_def canonical_json_bytes_def
      and_then_Inr_iff blank_eval demo_digest_of demo_result_ok succeeded_validate_def)

lemma demo_closed_sel:
  "oj_operation_id demo_closed = ''op''" "oj_attempt demo_closed = 1" "oj_tool_call_id demo_closed = Some ''call''"
  "oj_request_digest demo_closed = demo_digest" "oj_kind demo_closed = Tool" "oj_state demo_closed = Succeeded"
  "oj_identity_key demo_closed = Some demo_digest" "oj_result demo_closed = Some (JStr ''call'')" "oj_cycle_index demo_closed = 1"
  by (simp_all add: demo_closed_def demo_tool_entry_def tool_entry_def)

lemma demo_closing: "close_with_receipt demo_env (demo_tool_entry Started) (demo_result ''call'') demo_digest demo_digest None = Inr demo_closed"
  using demo_closed_valid
  by (simp add: close_with_receipt_def demo_closed_def demo_tool_entry_def tool_entry_def Let_def)


lemma demo_running_sel:
  "cp_tool_journal (demo_running e) = [e]" "cp_key (demo_running e) = ''k''" "cp_status (demo_running e) = StRunning"
  "cp_event_outbox (demo_running e) = []" "cp_claim_token (demo_running e) = Some ''w''" "cp_revision (demo_running e) = 1"
  "cp_claimed_cycle (demo_running e) = Some 1" "cp_terminal_result (demo_running e) = None" "cp_cycles (demo_running e) = []"
  "cp_model_calls (demo_running e) = []"
  by (simp_all add: demo_running_def demo_cp_defs)

lemma demo_bump: "bump_revision (Suc 0) = Inr 2"
  by (simp add: bump_revision_def checked_add_def u64_max_def)

lemma demo_receipt:
  "snd (record_tool_receipt demo_env (demo_store (demo_running (demo_tool_entry Started))) (demo_running (demo_tool_entry Started)) ''op'' 1 ''call''
     demo_digest (demo_result ''call'') ''w'' 1 1) = Inr True"
proof -
  let ?s = "demo_running (demo_tool_entry Started)"
  let ?b = "demo_outbox_entry (''evt_receipt_'' @ demo_digest)"
  let ?c = "(demo_running demo_closed)\<lparr>cp_event_outbox := [?b], cp_revision := 2\<rparr>"
  have t: "receipt_target ''op'' 1 ''call'' demo_digest 1 (demo_tool_entry Started)" "oj_identity_key (demo_tool_entry Started) = None"
    by (simp_all add: receipt_target_def demo_tool_entry_def tool_entry_def)
  have u: "?s\<lparr>cp_tool_journal := [demo_closed]\<rparr> = demo_running demo_closed" by (simp add: demo_running_def)
  have key: "tool_receipt_identity_key demo_env ''k'' ''op'' (Suc 0) ''call'' demo_digest = Inr demo_digest" using demo_keys by simp
  have valid: "validate_checkpoint demo_env ?c = Inr ()"
    using demo_entry_ok [OF receipt_id_not_blank] demo_closed_valid demo_closed_sel key
    by (simp add: demo_validation demo_cp_defs demo_running_def demo_outbox_entry_def)
  have ev: "receipt_event demo_env (demo_running demo_closed) demo_closed (demo_result ''call'') = Inr ?b"
    using demo_closed_sel key demo_stage [OF receipt_id_not_blank] by (simp add: receipt_event_def demo_running_sel demo_event_def outbox_of_def)
  have "prepare_tool_receipt demo_env ?s ?s ''op'' 1 ''call'' demo_digest (demo_result ''call'') ''w'' 1 1 = Inr (Some ?c)"
    using t ev valid u
    by (simp add: prepare_tool_receipt_def demo_running_sel blank_eval Let_def demo_result_ok key demo_digest_of
      receipt_observation_def demo_closing checkpoint_definition_matches_def seal_def demo_bump ok_some_def is_prefix_def committed_cycles_def)
  then show ?thesis using t
    by (simp add: record_tool_receipt_def cas_write_def demo_store_def persist_and_put_def persist_quiet demo_running_sel
      demo_result_ok key demo_digest_of)
qed


definition demo_waiting :: checkpoint where
  "demo_waiting = demo_cp\<lparr>cp_status := StDeferred, cp_tool_journal := [demo_deferred_entry], cp_revision := 1\<rparr>"

lemma demo_waiting_sel:
  "cp_tool_journal demo_waiting = [demo_deferred_entry]" "cp_status demo_waiting = StDeferred" "cp_revision demo_waiting = Suc 0"
  "cp_event_outbox demo_waiting = []" "cp_claim_token demo_waiting = None" "cp_key demo_waiting = ''k''"
  by (simp_all add: demo_waiting_def demo_cp_defs)

lemma demo_waiting_valid: "validate_checkpoint demo_env demo_waiting = Inr ()"
  using demo_deferred_entry_valid
  by (simp add: demo_validation demo_cp_defs demo_waiting_def demo_entry_defs)

lemma demo_resolve:
  "\<exists>st d c. resolve_deferred demo_env (demo_store demo_waiting) demo_handle (demo_result ''call'') = (st, Inr (AppliedReady d)) \<and>
     load_checkpoint st ''k'' = Some c \<and> cp_cycle_index c = 0"
proof -
  let ?b = "demo_outbox_entry (''evt_receipt_'' @ demo_digest)"
  let ?c = "demo_cp\<lparr>cp_tool_journal := [demo_closed], cp_event_outbox := [?b], cp_revision := 2\<rparr>"
  have key: "tool_receipt_identity_key demo_env ''k'' ''op'' (Suc 0) ''call'' demo_digest = Inr demo_digest" using demo_keys by simp
  have valid: "validate_checkpoint demo_env ?c = Inr ()"
    using demo_entry_ok [OF receipt_id_not_blank] demo_closed_valid demo_closed_sel key
    by (simp add: demo_validation demo_cp_defs demo_outbox_entry_def)
  have entry: "resolve_entry demo_env demo_waiting demo_deferred_entry (demo_result ''call'') = Inr demo_closed"
    by (simp add: resolve_entry_def demo_waiting_def demo_cp_sel demo_entry_defs string_or_empty_def key demo_digest_of demo_closed_def Let_def)
  have ev: "receipt_event demo_env demo_waiting demo_deferred_entry (demo_result ''call'') = Inr ?b"
    using key demo_stage [OF receipt_id_not_blank]
    by (simp add: receipt_event_def demo_waiting_def demo_cp_sel demo_event_def outbox_of_def demo_entry_defs)
  have c: "(push_event ?b (demo_waiting\<lparr>cp_tool_journal := [demo_closed]\<rparr>))\<lparr>cp_status := StRunning, cp_revision := 2\<rparr> = ?c"
    by (simp add: push_event_def demo_waiting_def demo_cp_defs)
  have rc: "resolve_checkpoint demo_env demo_waiting 0 (demo_result ''call'') = Inr (?c, ?b)"
    using entry ev valid c
    by (simp add: resolve_checkpoint_def demo_waiting_sel Let_def resolve_status_def seal_def demo_bump demo_closed_sel push_event_def
       del: append.simps)
  have h: "dh_checkpoint_key demo_handle = ''k''" "dh_operation_id demo_handle = ''op''" "dh_attempt demo_handle = Suc 0"
    "dh_request_digest demo_handle = demo_digest"
    by (simp_all add: demo_handle_def)
  have rn: "\<exists>d. receipt_new demo_env demo_handle (demo_result ''call'') (ob_event_id ?b) (ob_payload_digest ?b) = Inr d"
    using receipt_id_not_blank
    by (simp add: receipt_new_def receipt_validate_def demo_result_ok demo_digest_of demo_keys demo_outbox_entry_def Let_def h key)
  have e: "oj_state demo_deferred_entry = Deferred" "oj_deferred_handle demo_deferred_entry = Some demo_handle"
     "oj_tool_call_id demo_deferred_entry = Some ''call''" "oj_operation_id demo_deferred_entry = dh_operation_id demo_handle"
     "oj_attempt demo_deferred_entry = dh_attempt demo_handle" "oj_request_digest demo_deferred_entry = dh_request_digest demo_handle"
     by (simp_all add: demo_entry_defs)
  show ?thesis
    using rc rn
    by (auto simp: resolve_deferred_def demo_keys demo_result_ok demo_store_def empty_store_def h resolve_apply_def persist_quiet
      resolve_lookup_def demo_waiting_sel e Let_def demo_cp_sel put_checkpoint_def load_checkpoint_def)
qed


definition demo_batch :: batch_entry where
  "demo_batch = \<lparr>be_operation_id = ''op'', be_cycle_index = 1, be_attempt = 1, be_request_digest = demo_digest,
     be_tool_call_id = ''call'', be_tool_name = ''grep'', be_idempotency_key = None,
     be_idempotency_support = Idem_Unsupported, be_outcome = OutcomeDeferred demo_handle\<rparr>"

lemma demo_batch_valid: "batch_validate demo_env demo_batch = Inr ()"
  by (simp add: batch_validate_def demo_batch_def blank_eval)

definition demo_wait_event :: outbox_entry where
  "demo_wait_event = \<lparr>ob_event_id = ''evt_deferred_call_deferred'', ob_payload_digest = demo_digest, ob_state = ''pending'',
     ob_event = JObj [(''checkpoint_key'', JStr ''k''), (''event_id'', JStr ''evt_deferred_call_deferred''),
       (''operation_kind'', JStr ''tool'')], ob_cursor = None\<rparr>"

lemma demo_wait_event_ok: "verify_payload demo_env demo_wait_event = Inr ()"
  by (simp add: verify_payload_def outbox_validate_def demo_wait_event_def event_payload_digest_def
    demo_decode_event_def and_then_Inr_iff json_get_def is_object_def blank_eval)

lemma demo_deferred_event:
  "cp_key c = ''k'' \<Longrightarrow> deferred_event demo_env c (Suc 0) ''call'' ''grep'' ''op'' (Suc 0) demo_handle = Inr demo_wait_event"
  using demo_wait_event_ok
  by (simp add: deferred_event_def demo_event_def stage_event_def pending_entry_def get_str_def event_payload_digest_def
    is_object_def string_or_empty_def Let_def verify_payload_def and_then_Inr_iff demo_wait_event_def)

lemma demo_admission:
  "\<exists>c. snd (admit_deferred_batch demo_env (demo_store (demo_running (demo_tool_entry Started))) ''k'' 1 ''w'' 1 [demo_batch]) =
     Inr (c, [demo_handle])"
proof -
  let ?s = "demo_running (demo_tool_entry Started)"
  let ?c = "push_event demo_wait_event (defer_entry 0 demo_handle ?s)"
  let ?w = "(wait_deferred ?c)\<lparr>cp_revision := 2\<rparr>"
  have w: "?w = demo_waiting\<lparr>cp_event_outbox := [demo_wait_event], cp_revision := 2\<rparr>"
    by (simp add: wait_deferred_def release_claim_def push_event_def defer_entry_def demo_running_def demo_waiting_def
        demo_claimed_def demo_deferred_entry_def demo_cp_defs demo_tool_entry_def)
  have e: "position (batch_target demo_batch) [demo_tool_entry Started] = Some 0" "oj_state (demo_tool_entry Started) = Started"
    by (simp_all add: batch_target_def demo_batch_def demo_tool_entry_def tool_entry_def)
  have "admit_entry demo_env demo_batch ?s = Inr (?c, demo_handle)"
    using e demo_batch_valid demo_deferred_event [of "defer_entry 0 demo_handle ?s"]
    by (simp add: admit_entry_def demo_running_sel Let_def demo_batch_def demo_handle_def defer_entry_def)
  moreover have "\<not> has_current_cycle_state (journal_entries ?c) 1 [Started]"
    by (simp add: has_current_cycle_state_def journal_entries_def push_event_def defer_entry_def demo_running_def demo_cp_defs)
  moreover have "validate_checkpoint demo_env ?w = Inr ()"
    using demo_deferred_entry_valid demo_wait_event_ok unfolding w
    by (simp add: demo_validation demo_cp_defs demo_waiting_def demo_entry_defs)
  ultimately have "admit_batch demo_env ?s 1 ''w'' 1 [demo_batch] = Inr (?w, [demo_handle])"
    by (simp add: admit_batch_def demo_running_sel seal_def demo_bump Let_def)
  moreover have "cp_model_calls ?w = []" "cp_cycles ?w = []" unfolding w by (simp_all add: demo_waiting_def demo_cp_defs)
  ultimately show ?thesis
    by (simp add: admit_deferred_batch_def demo_store_def persist_admission_def persist_quiet demo_running_sel)
qed



theorem outbox_append_once_witness:
  "append_event_outbox_once demo_env [demo_outbox_entry ''e''] (demo_outbox_entry ''e'') = Inr [demo_outbox_entry ''e'']"
proof -
  have "append_event_outbox_once demo_env [] (demo_outbox_entry ''e'') = Inr [demo_outbox_entry ''e'']"
    by (simp add: append_event_outbox_once_def)
  from outbox_append_once [OF this demo_entry_ok] show ?thesis
    by (simp add: demo_outbox_entry_def blank_eval btree_ok_def)
qed

theorem merge_keeps_staged_events_witness:
  "\<exists>m. merge_authoritative_fields demo_env demo_staged demo_cp = Inr m \<and>
    (\<exists>new. cp_event_outbox m = [demo_outbox_entry ''e''] @ new \<and> set new \<subseteq> set (cp_event_outbox demo_cp)) \<and>
    distinct (map ob_event_id (cp_event_outbox m))"
proof -
  have o: "cp_event_outbox demo_staged = [demo_outbox_entry ''e'']" by (simp add: demo_staged_def)
  obtain m where m: "merge_authoritative_fields demo_env demo_staged demo_cp = Inr m"
    by (simp add: merge_authoritative_fields_def demo_cp_sel)
  from merge_keeps_staged_events [OF m] show ?thesis using m o by auto
qed

theorem tool_receipt_recorded_once_witness:
  "let s = demo_running (demo_tool_entry Started);
       st' = fst (record_tool_receipt demo_env (demo_store s) s ''op'' 1 ''call'' demo_digest (demo_result ''call'') ''w'' 1 1)
   in record_tool_receipt demo_env st' s ''op'' 1 ''call'' demo_digest (demo_result ''call'') ''v'' 9 1 = (st', Inr True) \<and>
      record_tool_receipt demo_env st' s ''op'' 1 ''call'' demo_digest (demo_result ''other'') ''v'' 9 1 =
        (st', Inl ''tool_receipt_conflict'')"
proof -
  let ?s = "demo_running (demo_tool_entry Started)"
  let ?x = "record_tool_receipt demo_env (demo_store ?s) ?s ''op'' 1 ''call'' demo_digest (demo_result ''call'') ''w'' 1 1"
  have keyed: "well_keyed (demo_store ?s)"
    by (simp add: well_keyed_def demo_running_sel) (simp add: demo_store_def btree_ok_def)
  have "?x = (fst ?x, Inr True)" using demo_receipt by (metis prod.collapse)
  from tool_receipt_recorded_once [OF keyed this refl, of _ _ _ "demo_result ''other''" demo_digest_2] show ?thesis
    using demo_result_ok demo_digest_of unfolding Let_def by simp
qed




end
