(* ===== verification/History_Archive.thy ===== *)
theory History_Archive
  imports Checkpoint_Laws
begin

text \<open>
  The archive of completed history (\<open>runtime/state/history.rs\<close>): a store moves the cycles and model
  calls of finished cycles out of the active checkpoint into hash-chained batches. This theory holds
  the reader of the archive, shows that it reads a batch that was appended, and states what each
  call of a store does to archive and checkpoint.
\<close>

section \<open>Reading the archive\<close>

record history_records =
  hr_cycles :: "cycle_record list"
  hr_calls :: "model_call list"
  hr_frontier :: history

definition default_records :: history_records where
  "default_records = \<lparr>hr_cycles = [], hr_calls = [], hr_frontier = default_history\<rparr>"

definition history_error :: err where
  "history_error = ''checkpoint_history_invalid''"

fun read_cycles :: "env \<Rightarrow> json list \<Rightarrow> cycle_record list \<Rightarrow> err + cycle_record list" where
  "read_cycles E [] ys = Inr ys"
| "read_cycles E (v # vs) ys =
     and_then (ok_or (decode_cycle E v) history_error) (\<lambda>y.
     and_then (ensure (\<not> (ys \<noteq> [] \<and> cy_index (last ys) \<ge> cy_index y)) history_error) (\<lambda>_.
     read_cycles E vs (ys @ [y])))"

text \<open>The totals of the calls read so far are kept in the frontier of the records.\<close>

fun read_calls :: "model_call list \<Rightarrow> history_records \<Rightarrow> err + history_records" where
  "read_calls [] rs = Inr rs"
| "read_calls (r # calls) rs =
     and_then (ensure (\<not> list_ex (\<lambda>x. mc_call_id x = mc_call_id r) (hr_calls rs)) history_error) (\<lambda>_.
     read_calls calls (rs\<lparr>hr_frontier := history_append r (hr_frontier rs), hr_calls := hr_calls rs @ [r]\<rparr>))"

definition history_fields :: "string list" where
  "history_fields = [''schema_version'', ''checkpoint_key'', ''sequence'', ''previous_digest'', ''cycles'', ''model_calls'']"

text \<open>One turn of the loop over the batches: the chain, the cycles, the calls, and the digest for the next batch.\<close>

definition read_batch ::
  "env \<Rightarrow> string \<Rightarrow> nat \<Rightarrow> string \<Rightarrow> history_records \<times> string option \<Rightarrow> err + history_records \<times> string option" where
  "read_batch E key i raw = (\<lambda>(rs, previous).
    and_then (ok_or (strict_json_value E raw) history_error) (\<lambda>payload.
    and_then (ok_or (as_object payload) history_error) (\<lambda>m.
    and_then (ensure (exact_fields history_fields m \<and>
      btree_get ''schema_version'' m = Some (JStr ''vv-agent.checkpoint-history.v1'') \<and>
      btree_get ''checkpoint_key'' m = Some (JStr key) \<and>
      Option.bind (btree_get ''sequence'' m) as_u64 = Some (i + 1) \<and>
      btree_get ''previous_digest'' m = Some (encode_option JStr previous)) history_error) (\<lambda>_.
    and_then (ok_or (Option.bind (btree_get ''cycles'' m) as_array) history_error) (\<lambda>vs.
    and_then (read_cycles E vs (hr_cycles rs)) (\<lambda>ys.
    and_then (ok_or (Option.bind (btree_get ''model_calls'' m) (decode_list model_call_from_value)) history_error) (\<lambda>calls.
    and_then (ensure (\<not> (calls = [] \<and> vs = [])) history_error) (\<lambda>_.
    and_then (read_calls calls (rs\<lparr>hr_cycles := ys\<rparr>)) (\<lambda>rs'.
    and_then (sha256_canonical E payload) (\<lambda>digest.
    Inr (rs', Some digest)))))))))))"

fun read_batches ::
  "env \<Rightarrow> string \<Rightarrow> nat \<Rightarrow> string list \<Rightarrow> history_records \<times> string option \<Rightarrow> err + history_records \<times> string option" where
  "read_batches E key i [] acc = Inr acc"
| "read_batches E key i (raw # raws) acc = and_then (read_batch E key i raw acc) (read_batches E key (i + 1) raws)"

definition archive_overlaps :: "checkpoint \<Rightarrow> history_records \<Rightarrow> bool" where
  "archive_overlaps c rs \<longleftrightarrow>
     list_ex (\<lambda>y. list_ex (\<lambda>z. cy_index z = cy_index y) (cp_cycles c)) (hr_cycles rs) \<or>
     list_ex (\<lambda>r. list_ex (\<lambda>s. mc_call_id s = mc_call_id r) (cp_model_calls c)) (hr_calls rs)"

definition decode_checkpoint_history :: "env \<Rightarrow> checkpoint \<Rightarrow> string list \<Rightarrow> err + history_records" where
  "decode_checkpoint_history E c payloads =
    and_then (ensure (length payloads = hi_sequence (cp_history c)) history_error) (\<lambda>_.
    and_then (read_batches E (cp_key c) 0 payloads (default_records, None)) (\<lambda>(rs, previous).
    let aggregate = (hr_frontier rs)\<lparr>hi_sequence := length payloads, hi_cycle_count := length (hr_cycles rs),
          hi_head_digest := previous\<rparr> in
    and_then (ensure (aggregate = cp_history c) history_error) (\<lambda>_.
    and_then (ensure (\<not> archive_overlaps c rs) history_error) (\<lambda>_.
    Inr (rs\<lparr>hr_frontier := aggregate\<rparr>)))))"

definition load_checkpoint_history :: "env \<Rightarrow> store \<Rightarrow> string \<Rightarrow> err + history_records" where
  "load_checkpoint_history E st key =
    (case load_checkpoint st key of
       None \<Rightarrow> Inr default_records
     | Some c \<Rightarrow> decode_checkpoint_history E c (av_payloads (archive_of st key)))"

section \<open>The result of a run\<close>

fun hydrate_cycles :: "cycle_record list \<Rightarrow> cycle_record list \<Rightarrow> err + cycle_record list" where
  "hydrate_cycles ys [] = Inr ys"
| "hydrate_cycles ys (y # zs) =
     (case find (\<lambda>x. cy_index x = cy_index y) ys of
        Some x \<Rightarrow> if x \<noteq> y then Inl history_error else hydrate_cycles ys zs
      | None \<Rightarrow> hydrate_cycles (ys @ [y]) zs)"

fun hydrate_calls :: "model_call list \<Rightarrow> model_call list \<Rightarrow> err + model_call list" where
  "hydrate_calls rs [] = Inr rs"
| "hydrate_calls rs (r # ss) =
     (if list_ex (\<lambda>x. mc_call_id x = mc_call_id r) rs then Inl history_error else hydrate_calls (rs @ [r]) ss)"

definition hydrate_checkpoint_result :: "env \<Rightarrow> store \<Rightarrow> checkpoint \<Rightarrow> agent_result \<Rightarrow> err + agent_result" where
  "hydrate_checkpoint_result E st c result =
    (if hi_sequence (cp_history c) = 0 then Inr result
     else
       and_then (load_checkpoint_history E st (cp_key c)) (\<lambda>records.
       and_then (ensure (hr_frontier records = cp_history c) ''checkpoint_history_changed'') (\<lambda>_.
       and_then (hydrate_cycles (hr_cycles records) (ag_cycles result)) (\<lambda>ys.
       and_then (hydrate_calls (hr_calls records) (cp_model_calls c)) (\<lambda>calls.
       and_then (map_err (\<lambda>_. ''panic'') (summarize_task_token_usage calls)) (\<lambda>usage.
       Inr (result\<lparr>ag_cycles := ys, ag_token_usage := usage\<rparr>)))))))"

section \<open>Batches are read back\<close>

lemma read_cycles_decoded:
  "(\<And>z. z \<in> set zs \<Longrightarrow> decode_cycle E (encode_cycle E z) = Some z) \<Longrightarrow> sorted_wrt (<) (map cy_index (ys @ zs)) \<Longrightarrow>
   read_cycles E (map (encode_cycle E) zs) ys = Inr (ys @ zs)"
proof (induction zs arbitrary: ys)
  case (Cons z zs)
  have later: "\<not> (ys \<noteq> [] \<and> cy_index (last ys) \<ge> cy_index z)"
    using Cons.prems(2) by (cases "ys = []") (auto simp: sorted_wrt_append not_le)
  have "read_cycles E (map (encode_cycle E) zs) (ys @ [z]) = Inr (ys @ z # zs)"
    using Cons.IH [of "ys @ [z]"] Cons.prems by simp
  then show ?case using later Cons.prems(1) [of z] by simp
qed simp

definition add_records :: "cycle_record list \<Rightarrow> model_call list \<Rightarrow> history_records \<Rightarrow> history_records" where
  "add_records ys calls rs =
    \<lparr>hr_cycles = hr_cycles rs @ ys, hr_calls = hr_calls rs @ calls, hr_frontier = fold history_append calls (hr_frontier rs)\<rparr>"

lemma read_calls_distinct:
  "distinct (map mc_call_id (hr_calls rs @ calls)) \<Longrightarrow> read_calls calls rs = Inr (add_records [] calls rs)"
proof (induction calls arbitrary: rs)
  case (Cons r calls)
  let ?rs = "rs\<lparr>hr_frontier := history_append r (hr_frontier rs), hr_calls := hr_calls rs @ [r]\<rparr>"
  have "mc_call_id r \<notin> mc_call_id ` set (hr_calls rs)" using Cons.prems by simp
  then have "\<not> list_ex (\<lambda>x. mc_call_id x = mc_call_id r) (hr_calls rs)" unfolding list_ex_iff image_iff by metis
  then show ?case using Cons.IH [of ?rs] Cons.prems by (simp add: add_records_def)
qed (simp add: add_records_def)

lemma read_batches_append:
  "read_batches E key i (raws @ [raw]) acc = and_then (read_batches E key i raws acc) (read_batch E key (i + length raws) raw)"
proof (induction raws arbitrary: i acc)
  case Nil
  then show ?case by (cases "read_batch E key i raw acc") simp_all
next
  case (Cons r raws)
  show ?case by (cases "read_batch E key i r acc") (simp_all add: Cons.IH)
qed

lemma read_batch_payload:
  assumes payload: "payload = history_payload E key (i + 1) previous ys calls"
    and raw: "strict_json_value E raw = Some payload" and digest: "sha256_canonical E payload = Inr digest"
    and cycles: "\<And>z. z \<in> set ys \<Longrightarrow> decode_cycle E (encode_cycle E z) = Some z" "sorted_wrt (<) (map cy_index (hr_cycles rs @ ys))"
    and calls: "\<And>r. r \<in> set calls \<Longrightarrow> model_call_from_value (model_call_to_value r) = Some r"
      "distinct (map mc_call_id (hr_calls rs @ calls))"
    and some: "ys \<noteq> [] \<or> calls \<noteq> []"
  shows "read_batch E key i raw (rs, previous) = Inr (add_records ys calls rs, Some digest)"
proof -
  let ?kvs = "[(''schema_version'', JStr ''vv-agent.checkpoint-history.v1''), (''checkpoint_key'', JStr key),
     (''sequence'', json_u64 (i + 1)), (''previous_digest'', encode_option JStr previous),
     (''cycles'', JArr (map (encode_cycle E) ys)), (''model_calls'', JArr (map model_call_to_value calls))]"
  define m where "m = btree_collect ?kvs"
  have payload_m: "payload = JObj m" unfolding payload history_payload_def object_of_def m_def ..
  have get: "btree_get ''schema_version'' m = Some (JStr ''vv-agent.checkpoint-history.v1'')"
    "btree_get ''checkpoint_key'' m = Some (JStr key)" "btree_get ''sequence'' m = Some (json_u64 (i + 1))"
    "btree_get ''previous_digest'' m = Some (encode_option JStr previous)"
    "btree_get ''cycles'' m = Some (JArr (map (encode_cycle E) ys))"
    "btree_get ''model_calls'' m = Some (JArr (map model_call_to_value calls))"
    by (simp_all add: m_def btree_get_object)
  have "length m = 6" by (simp add: m_def length_btree_collect)
  then have fields: "exact_fields history_fields m"
    by (simp add: exact_fields_def history_fields_def btree_contains_def get)
  have "read_cycles E (map (encode_cycle E) ys) (hr_cycles rs) = Inr (hr_cycles rs @ ys)"
    by (rule read_cycles_decoded [OF cycles(1) cycles(2)])
  moreover have "decode_list model_call_from_value (JArr (map model_call_to_value calls)) = Some calls"
    by (rule decode_list_encode [OF calls(1)])
  moreover have "read_calls calls (rs\<lparr>hr_cycles := hr_cycles rs @ ys\<rparr>) = Inr (add_records ys calls rs)"
    using read_calls_distinct [of "rs\<lparr>hr_cycles := hr_cycles rs @ ys\<rparr>" calls] calls(2) by (simp add: add_records_def)
  moreover have ensured: "\<not> (calls = [] \<and> map (encode_cycle E) ys = [])" using some by auto
  ultimately show ?thesis
    using raw digest fields by (auto simp: read_batch_def payload_m get)
qed

text \<open>The batches of a checkpoint hold these cycles and calls, and its frontier is their summary.\<close>

definition archived_as :: "env \<Rightarrow> checkpoint \<Rightarrow> string list \<Rightarrow> cycle_record list \<Rightarrow> model_call list \<Rightarrow> bool" where
  "archived_as E c payloads ys calls \<longleftrightarrow>
     read_batches E (cp_key c) 0 payloads (default_records, None) =
       Inr (add_records ys calls default_records, hi_head_digest (cp_history c)) \<and>
     cp_history c = (fold history_append calls default_history)\<lparr>hi_sequence := length payloads,
       hi_cycle_count := length ys, hi_head_digest := hi_head_digest (cp_history c)\<rparr>"

lemma history_append_chain:
  "fold history_append calls (h\<lparr>hi_sequence := a, hi_cycle_count := b, hi_head_digest := d\<rparr>) =
   (fold history_append calls h)\<lparr>hi_sequence := a, hi_cycle_count := b, hi_head_digest := d\<rparr>"
proof (induction calls arbitrary: h)
  case (Cons r calls)
  have "history_append r (h\<lparr>hi_sequence := a, hi_cycle_count := b, hi_head_digest := d\<rparr>) =
    (history_append r h)\<lparr>hi_sequence := a, hi_cycle_count := b, hi_head_digest := d\<rparr>"
    by (simp add: history_append_def)
  then show ?case using Cons.IH by simp
qed simp

lemma archived_as_new: "cp_history c = default_history \<Longrightarrow> archived_as E c [] [] []"
  by (simp add: archived_as_def add_records_def default_records_def default_history_def)

lemma archived_as_decodes:
  assumes "archived_as E c payloads ys calls" and "\<not> archive_overlaps c (add_records ys calls default_records)"
  shows "decode_checkpoint_history E c payloads = Inr \<lparr>hr_cycles = ys, hr_calls = calls, hr_frontier = cp_history c\<rparr>"
proof -
  have len: "hi_sequence (cp_history c) = length payloads"
    using assms(1) unfolding archived_as_def by (metis history.select_convs(1) history.surjective history.update_convs(1,2,4))
  have agg: "(hr_frontier (add_records ys calls default_records))\<lparr>hi_sequence := length payloads,
      hi_cycle_count := length (hr_cycles (add_records ys calls default_records)), hi_head_digest := hi_head_digest (cp_history c)\<rparr> =
      cp_history c"
    using assms(1) by (simp add: archived_as_def add_records_def default_records_def)
  show ?thesis
    using assms len agg by (simp add: decode_checkpoint_history_def archived_as_def Let_def) (simp add: add_records_def default_records_def)
qed

lemma archive_records_batch:
  assumes "archive_records E u n = Inr (c, Some b)"
  shows "hb_sequence b = hi_sequence (cp_history u) + 1 \<and>
    hb_payload b = history_payload E (cp_key u) (hb_sequence b) (hi_head_digest (cp_history u))
      (filter (\<lambda>y. cy_index y < n) (cp_cycles u)) (filter (archived_call u n) (cp_model_calls u)) \<and>
    sha256_canonical E (hb_payload b) = Inr (hb_payload_digest b) \<and>
    (filter (\<lambda>y. cy_index y < n) (cp_cycles u) \<noteq> [] \<or> filter (archived_call u n) (cp_model_calls u) \<noteq> []) \<and>
    cp_cycles c = filter (\<lambda>y. \<not> cy_index y < n) (cp_cycles u) \<and>
    cp_model_calls c = filter (\<lambda>r. \<not> archived_call u n r) (cp_model_calls u) \<and>
    cp_history c = (fold history_append (filter (archived_call u n) (cp_model_calls u))
      ((cp_history u)\<lparr>hi_cycle_count := hi_cycle_count (cp_history u) + length (filter (\<lambda>y. cy_index y < n) (cp_cycles u))\<rparr>))
      \<lparr>hi_sequence := hb_sequence b, hi_head_digest := Some (hb_payload_digest b)\<rparr>"
proof -
  have ne: "\<not> (filter (\<lambda>y. cy_index y < n) (cp_cycles u) = [] \<and> filter (archived_call u n) (cp_model_calls u) = [])"
    using assms by (auto simp: archive_records_def Let_def)
  let ?ys = "filter (\<lambda>y. cy_index y < n) (cp_cycles u)" and ?calls = "filter (archived_call u n) (cp_model_calls u)"
  let ?h = "cp_history u"
  obtain s d where s: "Option.bind (checked_add (hi_sequence ?h) 1) (\<lambda>n. if n \<le> MAX_WIRE_INTEGER then Some n else None) = Some s"
    and d: "sha256_canonical E (history_payload E (cp_key u) s (hi_head_digest ?h) ?ys ?calls) = Inr d"
    and c: "trim_terminal_result E (u\<lparr>cp_cycles := filter (\<lambda>y. \<not> cy_index y < n) (cp_cycles u),
        cp_model_calls := filter (\<lambda>r. \<not> archived_call u n r) (cp_model_calls u),
        cp_history := (fold history_append ?calls (?h\<lparr>hi_cycle_count := hi_cycle_count ?h + length ?ys\<rparr>))
          \<lparr>hi_sequence := s, hi_head_digest := Some d\<rparr>\<rparr>) = Inr c"
    and b: "b = \<lparr>hb_payload = history_payload E (cp_key u) s (hi_head_digest ?h) ?ys ?calls, hb_payload_digest = d, hb_sequence = s\<rparr>"
    using assms unfolding archive_records_def Let_def if_not_P [OF ne]
    by (elim and_then_InrE) (unfold ok_or_Inr_iff sum.inject prod.inject option.inject, blast)
  have "s = hi_sequence ?h + 1" using s by (auto simp: checked_add_def split: if_splits)
  moreover obtain t where "c = (u\<lparr>cp_cycles := filter (\<lambda>y. \<not> cy_index y < n) (cp_cycles u),
        cp_model_calls := filter (\<lambda>r. \<not> archived_call u n r) (cp_model_calls u),
        cp_history := (fold history_append ?calls (?h\<lparr>hi_cycle_count := hi_cycle_count ?h + length ?ys\<rparr>))
          \<lparr>hi_sequence := s, hi_head_digest := Some d\<rparr>\<rparr>)\<lparr>cp_terminal_result := t\<rparr>"
    using trim_terminal_result_Inr [OF c] by metis
  ultimately show ?thesis using b d ne by auto
qed

text \<open>One more batch.\<close>

lemma archive_records_step:
  assumes arch: "archive_records E u n = Inr (c, Some b)" and old: "archived_as E u payloads ys calls"
    and raw: "strict_json_value E raw = Some (hb_payload b)" and key: "cp_key c = cp_key u"
    and new: "ys' = filter (\<lambda>y. cy_index y < n) (cp_cycles u)" "calls' = filter (archived_call u n) (cp_model_calls u)"
    and cycles: "\<And>z. z \<in> set ys' \<Longrightarrow> decode_cycle E (encode_cycle E z) = Some z" "sorted_wrt (<) (map cy_index (ys @ ys'))"
    and decoded: "\<And>r. r \<in> set calls' \<Longrightarrow> model_call_from_value (model_call_to_value r) = Some r"
      "distinct (map mc_call_id (calls @ calls'))"
  shows "archived_as E c (payloads @ [raw]) (ys @ ys') (calls @ calls')"
proof -
  note b = archive_records_batch [OF arch, folded new]
  let ?h = "cp_history u" and ?f = "fold history_append calls default_history"
  have h: "?h = ?f\<lparr>hi_sequence := length payloads, hi_cycle_count := length ys, hi_head_digest := hi_head_digest ?h\<rparr>"
    using old by (simp add: archived_as_def)
  then have len: "hi_sequence ?h = length payloads" "hi_cycle_count ?h = length ys"
    by (metis history.select_convs(1,2) history.surjective history.update_convs(1,2,4))+
  have "?h\<lparr>hi_cycle_count := length ys + length ys'\<rparr> =
      ?f\<lparr>hi_sequence := length payloads, hi_cycle_count := length ys + length ys', hi_head_digest := hi_head_digest ?h\<rparr>"
    by (subst h) simp
  then have "cp_history c = (fold history_append calls' ?f)\<lparr>hi_sequence := length payloads + 1,
      hi_cycle_count := length ys + length ys', hi_head_digest := Some (hb_payload_digest b)\<rparr>"
    using b len by (simp add: history_append_chain)
  moreover have "read_batch E (cp_key u) (0 + length payloads) raw (add_records ys calls default_records, hi_head_digest ?h) =
      Inr (add_records ys' calls' (add_records ys calls default_records), Some (hb_payload_digest b))"
  proof (rule read_batch_payload [OF _ raw])
    show "hb_payload b = history_payload E (cp_key u) (0 + length payloads + 1) (hi_head_digest ?h) ys' calls'"
      using b len by simp
  qed (use b cycles decoded in \<open>auto simp: add_records_def default_records_def\<close>)
  ultimately show ?thesis
    using old key by (simp add: archived_as_def read_batches_append) (simp add: add_records_def)
qed

section \<open>What a call does to the archive\<close>

lemma archive_of_insert:
  "archive_of (st\<lparr>sto_history := btree_insert k a (sto_history st)\<rparr>) = (archive_of st)(k := a)"
  by (auto simp: archive_of_def)

lemma archive_of_or_insert:
  "archive_of (st\<lparr>sto_history := btree_or_insert k empty_archive (sto_history st)\<rparr>) = archive_of st"
  by (auto simp: archive_of_def btree_get_or_insert split: option.splits)

lemma archive_of_put [simp]: "archive_of (put_checkpoint k c st) = archive_of st"
  by (auto simp: archive_of_def put_checkpoint_def)

text \<open>A batch that was appended for a checkpoint.\<close>

definition appended :: "env \<Rightarrow> archive \<Rightarrow> checkpoint \<Rightarrow> checkpoint \<Rightarrow> archive \<Rightarrow> bool" where
  "appended E a u c a' \<longleftrightarrow>
     (\<exists>n b raw. retained_cycle u = Some n \<and> archive_records E u n = Inr (c, Some b) \<and>
        canonical_json_bytes E (hb_payload b) = Inr raw \<and>
        a' = \<lparr>av_payloads = av_payloads a @ [raw],
              av_call_ids = av_call_ids a @ map mc_call_id (filter (archived_call u n) (cp_model_calls u))\<rparr>)"

definition kept_or_appended :: "env \<Rightarrow> archive \<Rightarrow> checkpoint \<Rightarrow> checkpoint \<Rightarrow> archive \<Rightarrow> bool" where
  "kept_or_appended E a u c a' \<longleftrightarrow> c = u \<and> a' = a \<or> appended E a u c a'"

lemma persist_history_archive:
  assumes "persist_history E st u = (st', res)"
  shows "((\<exists>e. res = Inl e) \<longrightarrow> archive_of st' = archive_of st) \<and>
    (\<forall>c. res = Inr c \<longrightarrow> \<not> list_ex (\<lambda>r. mc_call_id r \<in> set (av_call_ids (archive_of st (cp_key u)))) (cp_model_calls u) \<and>
      (c = u \<and> normalize_checkpoint_history E u = Inr (c, None) \<and> archive_of st' = archive_of st \<or>
       (\<exists>a. appended E (archive_of st (cp_key u)) u c a \<and> archive_of st' = (archive_of st)(cp_key u := a))))"
proof (cases "list_ex (\<lambda>r. mc_call_id r \<in> set (av_call_ids (archive_of st (cp_key u)))) (cp_model_calls u)")
  case True
  then show ?thesis using assms by (auto simp: persist_history_def)
next
  case False
  note persist = persist_history_def [of E st u, unfolded Let_def if_not_P [OF False]]
  show ?thesis
  proof (cases "normalize_checkpoint_history E u")
    case (Inl e)
    then show ?thesis using assms False by (auto simp: persist)
  next
    case (Inr x)
    obtain c b where x: "x = (c, b)" by force
    have key: "cp_key c = cp_key u" using normalize_Inr Inr x records_onlyD by blast
    show ?thesis
    proof (cases b)
      case None
      then have "c = u" using normalize_Inr [of E u c b] Inr x by simp
      then show ?thesis using assms False Inr x None by (auto simp: persist)
    next
      case (Some batch)
      then obtain n where n: "retained_cycle u = Some n" "archive_records E u n = Inr (c, Some batch)"
        using Inr x by (auto simp: normalize_checkpoint_history_def split: option.splits)
      show ?thesis
        using assms False n key
        by (auto simp: persist Inr x Some appended_def archive_of_insert archive_of_or_insert split: if_splits sum.splits)
    qed
  qed
qed

lemmas archive_of_more [simp] = archive_of_insert archive_of_or_insert

lemma archive_of_receipts [simp]: "archive_of (st\<lparr>sto_receipts := x\<rparr>) = archive_of st"
  by (auto simp: archive_of_def)

lemma load_put [simp]: "load_checkpoint (put_checkpoint k c st) = (load_checkpoint st)(k := Some c)"
  by (auto simp: load_checkpoint_def put_checkpoint_def)

lemma load_receipts [simp]: "load_checkpoint (st\<lparr>sto_receipts := x\<rparr>) = load_checkpoint st"
  by (auto simp: load_checkpoint_def)

lemma persist_history_load: "persist_history E st u = (st', res) \<Longrightarrow> load_checkpoint st' = load_checkpoint st"
  using persist_history_checkpoints by (auto intro: load_same)

text \<open>A call leaves checkpoints and archives alone, or writes and archives together under its own key.\<close>

definition archiving :: "env \<Rightarrow> store_op \<Rightarrow> store \<Rightarrow> store \<Rightarrow> bool" where
  "archiving E op st st' \<longleftrightarrow>
     (load_checkpoint st' = load_checkpoint st \<and> archive_of st' = archive_of st) \<or>
     (\<exists>cur u c a. load_checkpoint st (op_key op) = Some cur \<and> prepare E op cur = Inr (Some u) \<and>
        load_checkpoint st' = (load_checkpoint st)(op_key op := Some c) \<and>
        \<not> list_ex (\<lambda>r. mc_call_id r \<in> set (av_call_ids (archive_of st (op_key op)))) (cp_model_calls u) \<and>
        archive_of st' = (archive_of st)(op_key op := a) \<and> kept_or_appended E (archive_of st (op_key op)) u c a) \<or>
     (\<exists>c. writes E op (load_checkpoint st (op_key op)) c \<and> op \<in> range Create \<union> {Claim k a t l n m | k a t l n m. True} \<union> {Renew k t l n | k t l n. True} \<and>
        load_checkpoint st' = (load_checkpoint st)(op_key op := Some c) \<and> archive_of st' = archive_of st) \<or>
     (op = Delete (op_key op) \<and> load_checkpoint st' = (load_checkpoint st)(op_key op := None) \<and>
        archive_of st' = (archive_of st)(op_key op := empty_archive))"

lemma archiving_same: "load_checkpoint st' = load_checkpoint st \<Longrightarrow> archive_of st' = archive_of st \<Longrightarrow> archiving E op st st'"
  by (simp add: archiving_def)

text \<open>Persisting what a label prepared and storing it, as every writing call does.\<close>

lemma archiving_persist:
  assumes "well_keyed st" and "load_checkpoint st (op_key op) = Some cur" and "prepare E op cur = Inr (Some u)"
    and "persist_history E st u = (st1, res)"
    and "\<And>e. res = Inl e \<Longrightarrow> load_checkpoint st' = load_checkpoint st1 \<and> archive_of st' = archive_of st1"
    and "\<And>c. res = Inr c \<Longrightarrow> \<exists>k. (k = op_key op \<or> k = cp_key c) \<and> load_checkpoint st' = (load_checkpoint st1)(k := Some c) \<and> archive_of st' = archive_of st1"
  shows "archiving E op st st'"
proof -
  have u: "cp_key u = op_key op"
    using prepare_advances [OF assms(3)] assms(1,2) by (simp add: advances_def well_keyed_def)
  note p = persist_history_archive [OF assms(4)] and l = persist_history_load [OF assms(4)]
  show ?thesis
  proof (cases res)
    case (Inl e)
    then show ?thesis using p l assms(5) by (auto intro!: archiving_same)
  next
    case (Inr c)
    obtain b where "normalize_checkpoint_history E u = Inr (c, b)"
      using persist_history_checkpoints [OF assms(4)] Inr by blast
    then have "cp_key c = op_key op" using u normalize_Inr records_onlyD by metis
    then have st': "load_checkpoint st' = (load_checkpoint st)(op_key op := Some c)" "archive_of st' = archive_of st1"
      using assms(6) [OF Inr] l by auto
    have "\<exists>a. archive_of st1 = (archive_of st)(op_key op := a) \<and> kept_or_appended E (archive_of st (op_key op)) u c a"
      using p Inr unfolding u kept_or_appended_def by (metis fun_upd_triv)
    moreover have "\<not> list_ex (\<lambda>r. mc_call_id r \<in> set (av_call_ids (archive_of st (op_key op)))) (cp_model_calls u)"
      using p Inr unfolding u by blast
    ultimately show ?thesis
      unfolding archiving_def using assms(2,3) st' by metis
  qed
qed

lemma archiving_cas:
  assumes "well_keyed st" and "dest = cp_key \<or> dest = (\<lambda>_. op_key op)"
  shows "archiving E op st (fst (cas_write E st (op_key op) dest (prepare E op)))"
proof (cases "load_checkpoint st (op_key op)")
  case None
  then show ?thesis by (simp add: cas_write_def load_checkpoint_def archiving_same)
next
  case (Some cur)
  show ?thesis
  proof (cases "\<exists>u. prepare E op cur = Inr (Some u)")
    case True
    then obtain u st1 res where u: "prepare E op cur = Inr (Some u)" "persist_history E st u = (st1, res)" by force
    show ?thesis
      by (rule archiving_persist [OF assms(1) Some u])
        (use Some u assms(2) in \<open>auto simp: cas_write_def load_checkpoint_def [of st] persist_and_put_def\<close>)
  next
    case False
    then show ?thesis
      using Some by (auto simp: cas_write_def load_checkpoint_def [of st] split: sum.splits option.splits intro!: archiving_same)
  qed
qed

lemma archiving_admission:
  assumes "well_keyed st" and "load_checkpoint st (op_key op) = Some cur" and "prepare E op cur = Inr (Some u)"
  shows "archiving E op st (fst (persist_admission E st (op_key op) u hs))"
proof -
  obtain st1 res where r: "persist_history E st u = (st1, res)" by force
  show ?thesis by (rule archiving_persist [OF assms r]) (auto simp: persist_admission_def r)
qed

lemma archiving_resolve_apply:
  assumes "well_keyed st" and "load_checkpoint st (dh_checkpoint_key h) = Some cur" and "resolve_lookup cur h r = Inr (Inr i)"
  shows "archiving E (Resolve h r) st (fst (resolve_apply E st key cur i h r))"
proof (cases "and_then (resolve_checkpoint E cur i r) (\<lambda>(updated, event).
    and_then (receipt_new E h r (ob_event_id event) (ob_payload_digest event)) (\<lambda>receipt. Inr (updated, receipt)))")
  case (Inl e)
  then show ?thesis by (simp add: resolve_apply_def archiving_same)
next
  case (Inr x)
  then obtain u receipt event where x: "x = (u, receipt)" "resolve_checkpoint E cur i r = Inr (u, event)"
    by (auto simp: and_then_Inr_iff)
  have pr: "prepare E (Resolve h r) cur = Inr (Some u)" using x(2) assms(3) by simp
  obtain st1 res where p: "persist_history E st u = (st1, res)" by force
  have l: "load_checkpoint st (op_key (Resolve h r)) = Some cur" using assms(2) by simp
  show ?thesis
    by (rule archiving_persist [OF assms(1) l pr p]) (use Inr x p in \<open>auto simp: resolve_apply_def\<close>)
qed

lemma exec_archiving:
  assumes "well_keyed st" and "btree_ok (sto_history st)"
  shows "archiving E op st (exec E op st)"
proof -
  note cas = archiving_cas [OF assms(1), where op = op and E = E]
  show ?thesis
  proof (cases op)
    case (Delete key)
    have "load_checkpoint (exec E op st) = (load_checkpoint st)(key := None)"
      using assms(1) Delete by (auto simp: well_keyed_def delete_checkpoint_def load_checkpoint_def)
    moreover have "archive_of (exec E op st) = (archive_of st)(key := empty_archive)"
      using assms(2) Delete by (auto simp: delete_checkpoint_def archive_of_def)
    ultimately show ?thesis using Delete by (simp add: archiving_def)
  next
    case (Create c)
    then show ?thesis
      using writes.create [of E c]
      by (auto simp: archiving_def create_checkpoint_def load_checkpoint_def [of st] btree_contains_def split: sum.splits if_splits)
  next
    case (Claim key cycle token lease now mode)
    have "writes E op (Some cur) c"
      if "claim_candidate cur cycle now mode = Inr True" "now < lease" "apply_claim cur cycle token lease mode = Inr c"
        "validate_checkpoint E c = Inr ()" for cur c
      unfolding Claim using that by (rule writes.claim)
    then show ?thesis
      using Claim
      by (auto simp: archiving_def claim_checkpoint_def load_checkpoint_def [of st] and_then_Inr_iff not_le
          split: option.splits sum.splits bool.splits if_splits)
  next
    case (Renew key token lease now)
    have "writes E op (Some cur) (cur\<lparr>cp_lease_expires_at_ms := Some lease\<rparr>)"
      if "cp_claim_token cur = Some token" "cp_lease_expires_at_ms cur = Some expiry" "now < expiry" "now < lease" for cur expiry
      unfolding Renew using that by (rule writes.renew)
    then show ?thesis
      using Renew
      by (auto simp: archiving_def renew_checkpoint_claim_def load_checkpoint_def [of st] not_le split: option.splits if_splits)
  next
    case (Receipt snap op' n call digest r token expected cycle)
    then show ?thesis
      using cas [of cp_key]
      by (auto simp: record_tool_receipt_def archiving_same prepare.simps [abs_def] split: sum.splits option.splits prod.splits)
  next
    case (Admit key n token cycle bs)
    then show ?thesis
      using archiving_admission [OF assms(1), of op]
      by (auto simp: admit_deferred_batch_def load_checkpoint_def [of st] archiving_same split: sum.splits option.splits prod.splits)
  next
    case (Accept key n token cycle ds)
    then show ?thesis
      using archiving_admission [OF assms(1), of op]
      by (auto simp: accept_deferred_batch_def load_checkpoint_def [of st] archiving_same split: sum.splits option.splits)
  next
    case (Resolve h r)
    then show ?thesis
      using archiving_resolve_apply [OF assms(1), of h _ r]
      by (auto simp: resolve_deferred_def load_checkpoint_def [of st] archiving_same split: sum.splits option.splits)
  qed (use cas [of cp_key] cas [of "\<lambda>_. op_key op"] in
      \<open>simp_all add: progress_checkpoint_def suspend_checkpoint_def commit_checkpoint_def finalize_checkpoint_def
        finalize_claimed_checkpoint_def acknowledge_terminal_def record_event_delivery_def prepare.simps [abs_def]\<close>)
qed

end
