(* ===== verification/History_Laws.thy ===== *)
theory History_Laws
  imports History_Archive
begin

text \<open>
  The archives of the runs that workers drive: every stored checkpoint has an archive that loads and
  that precedes its active records, and the settled history of a run only grows.
\<close>

section \<open>What a call does to the records\<close>

lemma is_prefix_append: "is_prefix xs ys \<Longrightarrow> ys = xs @ drop (length xs) ys"
  by (metis append_take_drop_id is_prefix_def)

lemma matches_records:
  assumes "checkpoint_definition_matches cur snap"
  shows "cp_history snap = cp_history cur \<and> (\<exists>new. cp_model_calls snap = cp_model_calls cur @ new) \<and>
    (\<exists>new. cp_cycles snap = committed_cycles cur @ new \<and> (\<forall>y \<in> set new. cy_index y = cp_cycle_index cur + 1))"
proof -
  let ?new = "drop (length (committed_cycles cur)) (cp_cycles snap)"
  have m: "is_prefix (cp_model_calls cur) (cp_model_calls snap)" "is_prefix (committed_cycles cur) (cp_cycles snap)"
    "list_all (\<lambda>y. Some (cy_index y) = checked_add (cp_cycle_index cur) 1) ?new" "cp_history snap = cp_history cur"
    using assms by (simp_all add: checkpoint_definition_matches_def Let_def)
  have "\<forall>y \<in> set ?new. cy_index y = cp_cycle_index cur + 1"
    using m(3) by (auto simp: list_all_iff checked_add_def split: if_splits)
  then show ?thesis using m(4) is_prefix_append [OF m(1)] is_prefix_append [OF m(2)] by blast
qed

lemma append_event_once_records:
  "append_event_once E c i ev = Inr c' \<Longrightarrow> cp_cycles c' = cp_cycles c \<and> cp_model_calls c' = cp_model_calls c \<and>
    cp_history c' = cp_history c \<and> cp_terminal_result c' = cp_terminal_result c"
  by (auto dest!: append_event_once_key)

lemma close_unresolved_tools_records:
  assumes "close_unresolved_tools E c reason = Inr c'"
  shows "cp_cycles c' = cp_cycles c \<and> cp_model_calls c' = cp_model_calls c \<and> cp_history c' = cp_history c \<and>
    (cp_terminal_result c' = None \<longleftrightarrow> cp_terminal_result c = None)"
proof -
  have case_records: "cp_cycles (case x of None \<Rightarrow> d | Some m \<Rightarrow> d\<lparr>cp_terminal_result := Some (f m)\<rparr>) = cp_cycles d \<and>
      cp_model_calls (case x of None \<Rightarrow> d | Some m \<Rightarrow> d\<lparr>cp_terminal_result := Some (f m)\<rparr>) = cp_model_calls d \<and>
      cp_history (case x of None \<Rightarrow> d | Some m \<Rightarrow> d\<lparr>cp_terminal_result := Some (f m)\<rparr>) = cp_history d \<and>
      (x = Option.bind (cp_terminal_result d) as_object \<longrightarrow>
        (cp_terminal_result (case x of None \<Rightarrow> d | Some m \<Rightarrow> d\<lparr>cp_terminal_result := Some (f m)\<rparr>) = None \<longleftrightarrow>
         cp_terminal_result d = None))" for x :: "fields option" and d f
    by (cases "cp_terminal_result d") (auto split: option.splits)
  show ?thesis
    using assms unfolding close_unresolved_tools_def Let_def
  proof (elim and_then_InrE)
    fix l j c1
    let ?b = "filter (\<lambda>e. is_active_state (oj_state e)) (cp_tool_journal c) \<noteq> [] \<or> terminal_observations c \<noteq> []"
    assume c1: "(if ?b then and_then (ensure (saturating_sub l 1 \<le> u32_max) ''checkpoint_cycle_invalid'') (\<lambda>_.
        and_then (cycle_aborted_event E (cp_root_run_id c) (cp_trace_id c) (cp_task_id c) (saturating_sub l 1) l reason)
          (append_event_once E (c\<lparr>cp_tool_journal := j\<rparr>) (''evt_cycle_aborted_'' @ reason)))
        else Inr (c\<lparr>cp_tool_journal := j\<rparr>)) = Inr c1"
      and c': "Inr (case Option.bind (cp_terminal_result c1) as_object of None \<Rightarrow> c1
        | Some m \<Rightarrow> c1\<lparr>cp_terminal_result := Some (JObj (btree_insert ''resume_observations''
            (JArr (merge_observations (terminal_observations c) (filter (\<lambda>e. is_active_state (oj_state e)) (cp_tool_journal c)))) m))\<rparr>) = Inr c'"
    have "cp_cycles c1 = cp_cycles c \<and> cp_model_calls c1 = cp_model_calls c \<and> cp_history c1 = cp_history c \<and>
        cp_terminal_result c1 = cp_terminal_result c"
      using c1 by (cases ?b) (auto elim!: and_then_InrE dest!: append_event_once_records)
    then show ?thesis using c' case_records by (metis sum.inject(2))
  qed
qed

lemma terminal_snapshot_records:
  assumes "prepare_terminal_snapshot E snap n = Inr u"
  shows "cp_cycles u = cp_cycles snap \<and> cp_model_calls u = cp_model_calls snap \<and> cp_history u = cp_history snap \<and>
    cp_terminal_result u \<noteq> None"
  using assms
  by (auto simp: prepare_terminal_snapshot_def and_then_Inr_iff seal_Inr release_claim_def Let_def
      split: if_splits option.splits dest!: close_unresolved_tools_records)

text \<open>
  The records that a transition may write over those of the stored checkpoint: the same ones, or the
  committed ones with records of the active cycle. The committed cycle does not go back.
\<close>

definition same_records :: "checkpoint \<Rightarrow> checkpoint \<Rightarrow> bool" where
  "same_records cur u \<longleftrightarrow> cp_history u = cp_history cur \<and> cp_cycles u = cp_cycles cur \<and> cp_model_calls u = cp_model_calls cur \<and>
     cp_cycle_index u = cp_cycle_index cur \<and> cp_terminal_result u = cp_terminal_result cur"

definition extends_run :: "checkpoint \<Rightarrow> checkpoint \<Rightarrow> bool" where
  "extends_run cur u \<longleftrightarrow> cp_terminal_result cur = None \<and> cp_history u = cp_history cur \<and>
     (\<exists>new. cp_model_calls u = cp_model_calls cur @ new) \<and>
     (\<exists>new. cp_cycles u = committed_cycles cur @ new \<and> (\<forall>y \<in> set new. cy_index y = cp_cycle_index cur + 1)) \<and>
     (cp_terminal_result u = None \<longrightarrow> cp_cycle_index cur \<le> cp_cycle_index u)"

text \<open>
  A label that writes a snapshot writes readable records, and a suspension is of the cycle that the
  worker claimed; the code checks the latter for progress and commits only.
\<close>

fun snapshot_of :: "store_op \<Rightarrow> checkpoint option" where
  "snapshot_of (Progress snap token n) = Some snap"
| "snapshot_of (Suspend snap token n) = Some snap"
| "snapshot_of (Commit snap token n) = Some snap"
| "snapshot_of (Finalize snap n) = Some snap"
| "snapshot_of (FinalizeClaimed snap token n) = Some snap"
| "snapshot_of _ = None"

fun suspends_claimed :: "store_op \<Rightarrow> bool" where
  "suspends_claimed (Suspend snap token n) = (cp_claimed_cycle snap = Some (cp_cycle_index snap + 1))"
| "suspends_claimed _ = True"

lemma merge_records:
  assumes "merge_authoritative_fields E cur snap = Inr m"
  shows "cp_history m = cp_history snap \<and> cp_cycles m = cp_cycles snap \<and> cp_model_calls m = cp_model_calls snap \<and>
    cp_cycle_index m = cp_cycle_index snap"
  using assms by (auto simp: merge_authoritative_fields_def and_then_Inr_iff)

lemma claimed_cycle_valid:
  assumes "validate_checkpoint E c = Inr ()" and "cp_claimed_cycle c = Some n"
  shows "n = cp_cycle_index c + 1"
  using validate_checkpoint_parts(1) [OF assms(1)] assms(2)
  by (auto simp: validate_claim_def and_then_Inr_iff checked_add_def split: option.splits if_splits)

lemma claim_matches_cycle:
  assumes "claim_matches cur snap token n" and "validate_checkpoint E cur = Inr ()"
  shows "cp_claimed_cycle cur = Some (cp_cycle_index cur + 1) \<and> cp_claimed_cycle snap = Some (cp_cycle_index cur + 1) \<and>
    checkpoint_definition_matches cur snap \<and> cp_terminal_result cur = None"
proof -
  have "cp_claimed_cycle cur \<noteq> None"
    using validate_checkpoint_parts(1) [OF assms(2)] assms(1)
    by (auto simp: validate_claim_def claim_matches_def split: option.splits)
  then show ?thesis using claimed_cycle_valid [OF assms(2)] assms(1) by (auto simp: claim_matches_def)
qed

lemma journal_only_records: "journal_only c c' \<Longrightarrow> same_records c c'"
  by (cases c; cases c') (simp add: journal_only_def same_records_def)

lemma same_records_more:
  "same_records cur (c\<lparr>cp_revision := x\<rparr>) = same_records cur c"
  "same_records cur (wait_deferred c) = same_records cur c"
  by (simp_all add: same_records_def wait_deferred_def release_claim_def)

lemma snapshot_extends:
  assumes "checkpoint_definition_matches cur snap" and "cp_terminal_result cur = None"
    and "cp_history u = cp_history snap" and "cp_cycles u = cp_cycles snap" and "cp_model_calls u = cp_model_calls snap"
    and "cp_terminal_result u = None \<Longrightarrow> cp_cycle_index cur \<le> cp_cycle_index u"
  shows "extends_run cur u"
  using matches_records [OF assms(1)] assms(2-) by (simp add: extends_run_def)

lemma prepare_records:
  assumes "validate_checkpoint E cur = Inr ()" and "prepare E op cur = Inr (Some u)" and "suspends_claimed op"
  shows "same_records cur u \<or> (extends_run cur u \<and> (\<exists>snap. snapshot_of op = Some snap \<and> cp_cycles u = cp_cycles snap \<and>
    cp_model_calls u = cp_model_calls snap))"
proof (cases op)
  case (Progress snap token n)
  let ?snap = "snap\<lparr>cp_claim_token := cp_claim_token cur, cp_claimed_cycle := cp_claimed_cycle cur,
    cp_lease_expires_at_ms := cp_lease_expires_at_ms cur\<rparr>"
  obtain m where m: "claim_matches cur snap token n" "merge_authoritative_fields E cur ?snap = Inr m" "seal E n m = Inr u"
    using assms(2) Progress by (auto simp: prepare_progress_def ok_some_Inr and_then_Inr_iff split: if_splits)
  note c = claim_matches_cycle [OF m(1) assms(1)]
  have u: "cp_history u = cp_history snap" "cp_cycles u = cp_cycles snap" "cp_model_calls u = cp_model_calls snap"
    "cp_claimed_cycle u = cp_claimed_cycle cur" "validate_checkpoint E u = Inr ()"
    using m(3) merge_records [OF m(2)] merge_Inr [OF m(2)] by (auto simp: seal_Inr)
  have "cp_cycle_index u = cp_cycle_index cur" using claimed_cycle_valid [OF u(5)] u(4) c by simp
  then show ?thesis using snapshot_extends [of cur snap u] c u Progress by simp
next
  case (Suspend snap token n)
  obtain m where m: "claim_matches cur snap token n" "merge_authoritative_fields E cur snap = Inr m"
      "seal E n (release_claim (m\<lparr>cp_status := StReconciliationRequired\<rparr>)) = Inr u"
    using assms(2) Suspend by (auto simp: prepare_suspend_def ok_some_Inr and_then_Inr_iff split: if_splits)
  note c = claim_matches_cycle [OF m(1) assms(1)]
  have u: "cp_history u = cp_history snap" "cp_cycles u = cp_cycles snap" "cp_model_calls u = cp_model_calls snap"
    "cp_cycle_index u = cp_cycle_index snap"
    using m(3) merge_records [OF m(2)] by (auto simp: seal_Inr release_claim_def)
  then show ?thesis using snapshot_extends [of cur snap u] c assms(3) Suspend by simp
next
  case (Commit snap token n)
  then have m: "claim_matches cur snap token n" "Some (cp_cycle_index snap) = cp_claimed_cycle cur"
      "cp_history u = cp_history snap" "cp_cycles u = cp_cycles snap" "cp_model_calls u = cp_model_calls snap"
      "cp_cycle_index u = cp_cycle_index snap"
    using assms(2) by (auto simp: prepare_commit_def ok_some_Inr and_then_Inr_iff seal_Inr release_claim_def split: if_splits)
  then show ?thesis using snapshot_extends [of cur snap u] claim_matches_cycle [OF m(1) assms(1)] Commit by simp
next
  case (Finalize snap n)
  then obtain m where m: "checkpoint_definition_matches cur snap" "cp_terminal_result cur = None"
      "merge_authoritative_fields E cur snap = Inr m" "prepare_terminal_snapshot E m n = Inr u"
    using assms(2) by (auto simp: prepare_finalize_def ok_some_Inr and_then_Inr_iff split: if_splits)
  then show ?thesis
    using snapshot_extends [OF m(1,2), of u] merge_records [OF m(3)] terminal_snapshot_records [OF m(4)] Finalize by simp
next
  case (FinalizeClaimed snap token n)
  then obtain m where m: "claim_matches cur snap token n"
      "merge_authoritative_fields E cur snap = Inr m" "prepare_terminal_snapshot E m n = Inr u"
    using assms(2) by (auto simp: prepare_finalize_claimed_def ok_some_Inr and_then_Inr_iff split: if_splits)
  then show ?thesis
    using snapshot_extends [of cur snap u] claim_matches_cycle [OF m(1) assms(1)] merge_records [OF m(2)]
      terminal_snapshot_records [OF m(3)] FinalizeClaimed by simp
next
  case (Acknowledge key n)
  then show ?thesis using assms(2) ack_advances [of E cur n u] by (simp add: same_records_def)
next
  case (Deliver key token n event_id digest cursor)
  then show ?thesis using assms(2) delivery_advances [of E cur token n event_id digest cursor u] by (auto simp: same_records_def)
next
  case (Receipt snap op' n call digest r token expected cycle)
  then show ?thesis using assms(2) receipt_advances by (fastforce simp: same_records_def)
next
  case (Admit key n token cycle bs)
  then obtain hs c where "admit_loop E bs cur [] = Inr (c, hs)" "seal E n (if hs \<noteq> [] then wait_deferred c else c) = Inr u"
    using assms(2) by (auto simp: admit_batch_def and_then_Inr_iff split: if_splits)
  then show ?thesis
    using journal_only_records [OF admit_loop_Inr] by (auto simp: seal_Inr same_records_more split: if_splits)
next
  case (Accept key n token cycle ds)
  then obtain c where "accept_loop E cycle [] ds cur = Inr c" "seal E n (wait_deferred c) = Inr u"
    using assms(2) by (auto simp: accept_batch_def ok_some_Inr and_then_Inr_iff split: if_splits)
  then show ?thesis using journal_only_records [OF accept_loop_Inr] by (auto simp: seal_Inr same_records_more)
next
  case (Resolve h r)
  then obtain a :: "resolve_decision + nat" where "(case a of Inl _ \<Rightarrow> Inr None
      | Inr i \<Rightarrow> and_then (resolve_checkpoint E cur i r) (\<lambda>(c, _). Inr (Some c))) = Inr (Some u)"
    using assms(2) by (auto simp: and_then_Inr_iff)
  then obtain i event where "resolve_checkpoint E cur i r = Inr (u, event)"
    by (cases a) (auto simp: and_then_Inr_iff)
  then show ?thesis using resolve_advances by (fastforce simp: same_records_def)
qed (use assms(2) in simp_all)

section \<open>Readable records\<close>

text \<open>
  Values that canonical JSON keeps as they are: integers instead of floating-point numbers, distinct
  sorted keys, and a depth within the limit of the parser.
\<close>

fun plain_json :: "nat \<Rightarrow> json \<Rightarrow> bool" where
  "plain_json n (JNum (Float a b)) = False"
| "plain_json n (JNum x) = number_ok x"
| "plain_json n (JArr xs) = (n > 0 \<and> list_all (plain_json (n - 1)) xs)"
| "plain_json n (JObj m) = (n > 0 \<and> btree_ok m \<and> list_all (\<lambda>(_, v). plain_json (n - 1) v) m)"
| "plain_json n _ = True"

definition JSON_DEPTH_LIMIT :: nat where
  "JSON_DEPTH_LIMIT = 127"

definition parser_inverts_canonical :: "env \<Rightarrow> bool" where
  "parser_inverts_canonical E \<longleftrightarrow>
     (\<forall>v s. plain_json JSON_DEPTH_LIMIT v \<longrightarrow> canonicalize E v = Some s \<longrightarrow> strict_json_value E s = Some v)"

definition readable_cycle :: "env \<Rightarrow> cycle_record \<Rightarrow> bool" where
  "readable_cycle E y \<longleftrightarrow> plain_json (JSON_DEPTH_LIMIT - 2) (encode_cycle E y) \<and> decode_cycle E (encode_cycle E y) = Some y"

definition readable_call :: "model_call \<Rightarrow> bool" where
  "readable_call r \<longleftrightarrow> plain_json (JSON_DEPTH_LIMIT - 2) (model_call_to_value r) \<and>
     model_call_from_value (model_call_to_value r) = Some r"

definition readable :: "env \<Rightarrow> checkpoint \<Rightarrow> bool" where
  "readable E c \<longleftrightarrow> list_all (readable_cycle E) (cp_cycles c) \<and> list_all readable_call (cp_model_calls c)"

lemma plain_object:
  assumes "list_all (\<lambda>(_, v). plain_json (n - 1) v) kvs" and "n > 0"
  shows "plain_json n (object_of kvs)"
  using assms btree_collect_sub by (fastforce simp: object_of_def list_all_iff)

lemma plain_payload:
  assumes "list_all (readable_cycle E) ys" and "list_all readable_call calls" and "sequence \<le> u64_max"
  shows "plain_json JSON_DEPTH_LIMIT (history_payload E key sequence previous ys calls)"
proof -
  have "list_all (plain_json (JSON_DEPTH_LIMIT - 2)) (map (encode_cycle E) ys)"
    "list_all (plain_json (JSON_DEPTH_LIMIT - 2)) (map model_call_to_value calls)"
    using assms(1,2) by (auto simp: list_all_iff readable_cycle_def readable_call_def)
  moreover have "plain_json n (encode_option JStr previous)" for n by (simp add: encode_option_def split: option.splits)
  ultimately show ?thesis
    unfolding history_payload_def
    using assms(3) by (intro plain_object) (simp_all add: JSON_DEPTH_LIMIT_def json_u64_def del: map_append list.pred_map)
qed

section \<open>The archive of a run\<close>

text \<open>
  The archive \<open>a\<close> of the checkpoint \<open>c\<close> holds the cycles \<open>ys\<close> and the calls \<open>calls\<close>, they come before
  the active records of the checkpoint and do not meet them, and an unfinished run with an archive
  keeps at least one committed cycle.
\<close>

definition run_archive :: "env \<Rightarrow> checkpoint \<Rightarrow> archive \<Rightarrow> cycle_record list \<Rightarrow> model_call list \<Rightarrow> bool" where
  "run_archive E c a ys calls \<longleftrightarrow>
     archived_as E c (av_payloads a) ys calls \<and> av_call_ids a = map mc_call_id calls \<and> readable E c \<and>
     sorted_wrt (<) (map cy_index (ys @ cp_cycles c)) \<and> distinct (map mc_call_id (calls @ cp_model_calls c)) \<and>
     (cp_terminal_result c = None \<longrightarrow> ys \<noteq> [] \<longrightarrow> (\<exists>z \<in> set (cp_cycles c). cy_index z \<le> cp_cycle_index c))"

text \<open>The cycles that later calls cannot replace.\<close>

definition settled :: "checkpoint \<Rightarrow> cycle_record list" where
  "settled c = (if cp_terminal_result c = None then committed_cycles c else cp_cycles c)"

lemma sorted_split:
  "sorted_wrt (<) (map f xs) \<Longrightarrow> filter (\<lambda>y. f y < n) xs @ filter (\<lambda>y. \<not> f y < n) xs = xs" for n :: "'a::linorder"
proof (induction xs)
  case (Cons x xs)
  show ?case
  proof (cases "f x < n")
    case False
    then have "filter (\<lambda>y. f y < n) xs = []" using Cons.prems by (fastforce simp: filter_empty_conv)
    then show ?thesis using Cons False by simp
  qed (use Cons in simp)
qed simp

lemma retained_cycle_Some:
  assumes "retained_cycle u = Some n"
  shows "(\<exists>z \<in> set (cp_cycles u). cy_index z = n) \<and> (cp_terminal_result u = None \<longrightarrow> n \<le> cp_cycle_index u)"
proof (cases "cp_terminal_result u = None")
  case True
  let ?is = "filter (\<lambda>i. i \<le> cp_cycle_index u) (map cy_index (cp_cycles u))"
  have n: "?is \<noteq> []" "n = fold max ?is 0"
    using assms True by (auto simp: retained_cycle_def Let_def split: if_splits)
  have "n = Max (set (0 # ?is))" using n(2) by (simp only: Max.set_eq_fold)
  then have "n = Max (set ?is)" using n(1) by (simp del: set_filter set_map)
  then have "n \<in> set ?is" using n(1) by (metis Max_in List.finite_set set_empty)
  then show ?thesis using True by auto
qed (use assms in \<open>auto simp: retained_cycle_def split: if_splits\<close>)

text \<open>Writing the records of a transition keeps the archive.\<close>

lemma archived_as_cong: "cp_key u = cp_key c \<Longrightarrow> cp_history u = cp_history c \<Longrightarrow> archived_as E u = archived_as E c"
  by (auto simp: archived_as_def fun_eq_iff)

lemma committed_split:
  assumes "sorted_wrt (<) (map cy_index (ys @ cp_cycles c))" and "z \<in> set (cp_cycles c)" and "cy_index z \<le> cp_cycle_index c"
    and "y \<in> set ys"
  shows "cy_index y < cp_cycle_index c + 1"
proof -
  have "cy_index y < cy_index z" using assms(1,2,4) by (auto simp: sorted_wrt_append)
  then show ?thesis using assms(3) by simp
qed

lemma committed_member:
  assumes "sorted_wrt (<) (map cy_index (cp_cycles c))" and "z \<in> set (cp_cycles c)" and "cy_index z \<le> cp_cycle_index c"
  shows "z \<in> set (committed_cycles c)"
proof -
  have "z \<in> set (takeWhile (\<lambda>y. cy_index y \<le> i) xs)"
    if "sorted_wrt (<) (map cy_index xs)" "z \<in> set xs" "cy_index z \<le> i" for xs i
    using that by (induction xs) fastforce+
  then show ?thesis using assms by (simp add: committed_cycles_def)
qed

lemma committed_sub: "set (committed_cycles c) \<subseteq> set (cp_cycles c)"
  by (auto simp: committed_cycles_def dest: set_takeWhileD)

lemma validate_cycles_sorted: "validate_checkpoint E c = Inr () \<Longrightarrow> sorted_wrt (<) (map cy_index (cp_cycles c))"
  by (simp add: validate_checkpoint_def validate_cycles_def and_then_Inr_iff)

lemma extends_keeps_archive:
  assumes run: "run_archive E cur a ys calls" and ext: "extends_run cur u" and key: "cp_key u = cp_key cur"
    and valid: "validate_checkpoint E u = Inr ()" and plain: "readable E u"
    and fresh: "\<not> list_ex (\<lambda>r. mc_call_id r \<in> set (av_call_ids a)) (cp_model_calls u)"
  shows "run_archive E u a ys calls \<and> (\<exists>new. settled u = settled cur @ new)"
proof -
  obtain new where new: "cp_cycles u = committed_cycles cur @ new" "\<forall>y \<in> set new. cy_index y = cp_cycle_index cur + 1"
    and hist: "cp_history u = cp_history cur" and run_on: "cp_terminal_result cur = None"
    and index: "cp_terminal_result u = None \<Longrightarrow> cp_cycle_index cur \<le> cp_cycle_index u"
    using ext by (auto simp: extends_run_def)
  have sorted_cur: "sorted_wrt (<) (map cy_index (ys @ cp_cycles cur))" using run by (simp add: run_archive_def)
  have before: "cy_index y < cy_index z" if "y \<in> set ys" "z \<in> set (cp_cycles u)" for y z
  proof (cases "z \<in> set (committed_cycles cur)")
    case True
    then show ?thesis using sorted_cur that(1) committed_sub by (force simp: sorted_wrt_append)
  next
    case False
    have "ys \<noteq> []" using that(1) by auto
    then obtain x where "x \<in> set (cp_cycles cur)" "cy_index x \<le> cp_cycle_index cur"
      using run run_on by (auto simp: run_archive_def)
    from committed_split [OF sorted_cur this that(1)] show ?thesis using False that(2) new by auto
  qed
  have sorted: "sorted_wrt (<) (map cy_index (ys @ cp_cycles u))"
    using before validate_cycles_sorted [OF valid] sorted_cur by (simp add: sorted_wrt_append)
  have dist: "distinct (map mc_call_id (calls @ cp_model_calls u))"
  proof -
    have "mc_call_id ` set (cp_model_calls u) \<inter> mc_call_id ` set calls = {}" "distinct (map mc_call_id calls)"
      using fresh run by (auto simp: run_archive_def list_ex_iff)
    then show ?thesis using validate_checkpoint_parts(5) [OF valid] by (simp add: Int_commute)
  qed
  have keeps: "\<exists>z \<in> set (cp_cycles u). cy_index z \<le> cp_cycle_index u" if on: "cp_terminal_result u = None" and ne: "ys \<noteq> []"
  proof -
    obtain x where x: "x \<in> set (cp_cycles cur)" "cy_index x \<le> cp_cycle_index cur"
      using run run_on ne by (auto simp: run_archive_def)
    then have "x \<in> set (committed_cycles cur)" using sorted_cur by (intro committed_member) (simp_all add: sorted_wrt_append)
    then show ?thesis using x(2) new(1) index [OF on] by force
  qed
  have "settled cur = committed_cycles cur" using run_on by (simp add: settled_def)
  moreover have "\<exists>rest. settled u = committed_cycles cur @ rest"
  proof (cases "cp_terminal_result u")
    case None
    have "\<forall>y \<in> set (committed_cycles cur). cy_index y \<le> cp_cycle_index u"
      using index [OF None] by (auto simp: committed_cycles_def dest!: set_takeWhileD)
    then show ?thesis using None new(1) by (simp add: settled_def committed_cycles_def [of u])
  qed (simp add: settled_def new(1))
  moreover have "run_archive E u a ys calls"
    using run sorted dist keeps plain archived_as_cong [OF key hist] by (simp add: run_archive_def)
  ultimately show ?thesis by metis
qed

text \<open>Archiving moves records from the checkpoint to the end of its archive.\<close>

lemma distinct_partition:
  assumes "distinct (map f (xs @ ys))"
  shows "distinct (map f ((xs @ filter P ys) @ filter (\<lambda>y. \<not> P y) ys))"
proof -
  have d: "distinct (map f ys)" "distinct (map f xs)" "f ` set xs \<inter> f ` set ys = {}" using assms by simp_all
  have "f ` {y \<in> set ys. P y} \<inter> f ` {y \<in> set ys. \<not> P y} = {}"
    using d(1) by (auto simp: distinct_map dest: inj_onD)
  moreover have "f ` set xs \<inter> f ` {y \<in> set ys. P y} = {}" "f ` set xs \<inter> f ` {y \<in> set ys. \<not> P y} = {}"
    using d(3) by blast+
  ultimately show ?thesis using d(1,2) by (simp add: distinct_map_filter Int_Un_distrib Int_Un_distrib2)
qed

lemma archived_fits_wire:
  assumes "archive_records E u n = Inr (c, Some b)"
  shows "hb_sequence b \<le> u64_max"
proof -
  have "validate_checkpoint E c = Inr ()" using archive_records_Inr [OF assms] by simp
  then have "hi_sequence (cp_history c) \<le> MAX_WIRE_INTEGER"
    by (simp add: validate_checkpoint_def history_validate_def and_then_Inr_iff Let_def)
  then show ?thesis
    using archive_records_batch [OF assms] MAX_WIRE_INTEGER_lt_u64_max by simp
qed

lemma appended_keeps_archive:
  assumes law: "parser_inverts_canonical E" and run: "run_archive E u a ys calls" and app: "appended E a u c a'"
  shows "\<exists>ys' calls'. run_archive E c a' (ys @ ys') (calls @ calls') \<and> settled u = ys' @ settled c \<and>
    cp_cycles u = ys' @ cp_cycles c \<and> set (cp_model_calls u) = set (calls' @ cp_model_calls c)"
proof -
  obtain n b raw where n: "retained_cycle u = Some n" and arch: "archive_records E u n = Inr (c, Some b)"
    and raw: "canonical_json_bytes E (hb_payload b) = Inr raw"
    and a': "a' = \<lparr>av_payloads = av_payloads a @ [raw],
      av_call_ids = av_call_ids a @ map mc_call_id (filter (archived_call u n) (cp_model_calls u))\<rparr>"
    using app by (auto simp: appended_def)
  define ys' where "ys' = filter (\<lambda>y. cy_index y < n) (cp_cycles u)"
  define calls' where "calls' = filter (archived_call u n) (cp_model_calls u)"
  note b = archive_records_batch [OF arch, folded ys'_def calls'_def]
  note rec = archive_records_Inr [OF arch, THEN conjunct1]
  have sorted: "sorted_wrt (<) (map cy_index (ys @ cp_cycles u))" and read: "readable E u"
    and dist: "distinct (map mc_call_id (calls @ cp_model_calls u))" and old: "archived_as E u (av_payloads a) ys calls"
    using run by (simp_all add: run_archive_def)
  have split: "cp_cycles u = ys' @ cp_cycles c"
    using sorted_split [of cy_index "cp_cycles u" n] sorted b by (simp add: ys'_def sorted_wrt_append)
  have reads: "list_all (readable_cycle E) ys'" "list_all readable_call calls'" "readable E c"
    using read b by (auto simp: readable_def ys'_def calls'_def list_all_iff)
  have "plain_json JSON_DEPTH_LIMIT (hb_payload b)"
    using plain_payload [OF reads(1,2) archived_fits_wire [OF arch]] b by simp
  then have parsed: "strict_json_value E raw = Some (hb_payload b)"
    using law raw by (auto simp: parser_inverts_canonical_def canonical_json_bytes_def and_then_Inr_iff)
  have dist': "distinct (map mc_call_id ((calls @ calls') @ cp_model_calls c))"
    using distinct_partition [OF dist, of "archived_call u n"] b by (simp add: calls'_def)
  have "archived_as E c (av_payloads a @ [raw]) (ys @ ys') (calls @ calls')"
  proof (rule archive_records_step [OF arch old parsed _ ys'_def calls'_def])
    show "cp_key c = cp_key u" using records_onlyD [OF rec] by simp
    show "sorted_wrt (<) (map cy_index (ys @ ys'))" using sorted split by (simp add: sorted_wrt_append)
    show "distinct (map mc_call_id (calls @ calls'))" using dist' by (simp add: Int_Un_distrib)
  qed (use reads in \<open>auto simp: list_all_iff readable_cycle_def readable_call_def\<close>)
  moreover have keeps: "\<exists>z \<in> set (cp_cycles c). cy_index z \<le> cp_cycle_index c" if "cp_terminal_result c = None"
    using retained_cycle_Some [OF n] records_onlyD [OF rec] that b by auto
  ultimately have "run_archive E c a' (ys @ ys') (calls @ calls')"
    using sorted split dist' reads(3) run by (simp add: run_archive_def a' calls'_def)
  moreover have "settled u = ys' @ settled c"
  proof (cases "cp_terminal_result u")
    case None
    then have "\<forall>y \<in> set ys'. cy_index y \<le> cp_cycle_index u"
      using retained_cycle_Some [OF n] by (auto simp: ys'_def)
    then show ?thesis using None split records_onlyD [OF rec] by (simp add: settled_def committed_cycles_def)
  qed (use split records_onlyD [OF rec] in \<open>auto simp: settled_def\<close>)
  moreover have "set (cp_model_calls u) = set (calls' @ cp_model_calls c)" using b by (auto simp: calls'_def)
  ultimately show ?thesis using split by blast
qed

lemma same_records_keeps_archive:
  assumes "run_archive E cur a ys calls" and "same_records cur u" and "cp_key u = cp_key cur"
  shows "run_archive E u a ys calls \<and> settled u = settled cur"
  using assms archived_as_cong [of u cur]
  by (simp add: run_archive_def same_records_def readable_def settled_def committed_cycles_def)

text \<open>A call of a worker keeps what was settled.\<close>

definition grows :: "cycle_record list \<times> model_call list \<Rightarrow> checkpoint \<Rightarrow> cycle_record list \<times> model_call list \<Rightarrow> checkpoint \<Rightarrow> bool" where
  "grows h c h' c' \<longleftrightarrow> (\<exists>new. fst h' @ settled c' = (fst h @ settled c) @ new) \<and>
     set (snd h @ cp_model_calls c) \<subseteq> set (snd h' @ cp_model_calls c')"

lemma grows_refl: "grows h c h c"
  by (simp add: grows_def)

lemma grows_trans:
  assumes "grows h c h' c'" and "grows h' c' h'' c''"
  shows "grows h c h'' c''"
proof -
  obtain new where new: "fst h' @ settled c' = (fst h @ settled c) @ new" using assms(1) by (auto simp: grows_def)
  obtain new' where "fst h'' @ settled c'' = (fst h' @ settled c') @ new'" using assms(2) by (auto simp: grows_def)
  then have "fst h'' @ settled c'' = (fst h @ settled c) @ (new @ new')" using new by simp
  moreover have "set (snd h @ cp_model_calls c) \<subseteq> set (snd h'' @ cp_model_calls c'')"
    using assms unfolding grows_def by (meson subset_trans)
  ultimately show ?thesis unfolding grows_def by blast
qed

definition readable_op :: "env \<Rightarrow> store_op \<Rightarrow> bool" where
  "readable_op E op \<longleftrightarrow> suspends_claimed op \<and> renewal_bounded op \<and> (case snapshot_of op of None \<Rightarrow> True | Some snap \<Rightarrow> readable E snap)"

lemma prepared_keeps_archive:
  assumes law: "parser_inverts_canonical E" and op: "readable_op E op" and valid: "validate_checkpoint E cur = Inr ()"
    and run: "run_archive E cur a ys calls" and prep: "prepare E op cur = Inr (Some u)"
    and fresh: "\<not> list_ex (\<lambda>r. mc_call_id r \<in> set (av_call_ids a)) (cp_model_calls u)"
    and c: "kept_or_appended E a u c a'"
  shows "\<exists>ys' calls'. run_archive E c a' ys' calls' \<and> grows (ys, calls) cur (ys', calls') c"
proof -
  have adv: "cp_key u = cp_key cur" "validate_checkpoint E u = Inr ()" using prepare_advances [OF prep] by (simp_all add: advances_def)
  have u: "run_archive E u a ys calls \<and> grows (ys, calls) cur (ys, calls) u"
    using prepare_records [OF valid prep op [unfolded readable_op_def, THEN conjunct1]]
  proof (elim disjE)
    assume "same_records cur u"
    then show ?thesis
      using same_records_keeps_archive [OF run _ adv(1)] by (auto simp: grows_def same_records_def)
  next
    assume ext: "extends_run cur u \<and> (\<exists>snap. snapshot_of op = Some snap \<and> cp_cycles u = cp_cycles snap \<and> cp_model_calls u = cp_model_calls snap)"
    then have "readable E u" using op by (auto simp: readable_op_def readable_def)
    then show ?thesis
      using extends_keeps_archive [OF run _ adv _ fresh] ext by (auto simp: grows_def extends_run_def)
  qed
  show ?thesis
  proof (cases "c = u \<and> a' = a")
    case True
    then show ?thesis using u by blast
  next
    case False
    then obtain ys' calls' where app: "run_archive E c a' (ys @ ys') (calls @ calls')" "settled u = ys' @ settled c"
      "set (cp_model_calls u) = set (calls' @ cp_model_calls c)"
      using appended_keeps_archive [OF law u [THEN conjunct1]] c unfolding kept_or_appended_def by blast
    then have "grows (ys, calls) u (ys @ ys', calls @ calls') c" by (auto simp: grows_def)
    then show ?thesis using app(1) u grows_trans by blast
  qed
qed

section \<open>Archives of stores\<close>

definition archives_ok :: "env \<Rightarrow> store \<Rightarrow> bool" where
  "archives_ok E st \<longleftrightarrow> store_valid E st \<and> btree_ok (sto_history st) \<and>
     (\<forall>key. case load_checkpoint st key of
        None \<Rightarrow> archive_of st key = empty_archive
      | Some c \<Rightarrow> \<exists>ys calls. run_archive E c (archive_of st key) ys calls)"

lemma persist_history_ordered: "btree_ok (sto_history st) \<Longrightarrow> btree_ok (sto_history (fst (persist_history E st u)))"
  by (auto simp: persist_history_def Let_def split: sum.splits option.splits prod.splits)

lemma exec_ordered: "btree_ok (sto_history st) \<Longrightarrow> btree_ok (sto_history (exec E op st))"
proof -
  assume ok: "btree_ok (sto_history st)"
  have cas: "btree_ok (sto_history (fst (cas_write E st key dest f)))" for key dest f
    using persist_history_ordered [OF ok]
    by (simp add: cas_write_def persist_and_put_def put_checkpoint_def ok split: option.splits sum.splits prod.splits)
      (metis fst_conv)
  have adm: "btree_ok (sto_history (fst (persist_admission E st key u hs)))" for key u hs
    using persist_history_ordered [OF ok, of E u] by (auto simp: persist_admission_def put_checkpoint_def split: sum.splits prod.splits)
  have res: "btree_ok (sto_history (fst (resolve_apply E st key c i h r)))" for key c i h r
    using persist_history_ordered [OF ok, of E] ok
    by (simp add: resolve_apply_def put_checkpoint_def split: sum.splits prod.splits) (metis fst_conv)
  show ?thesis
    by (cases op) (simp_all add: ok cas adm res create_checkpoint_def claim_checkpoint_def put_checkpoint_def progress_checkpoint_def
      suspend_checkpoint_def commit_checkpoint_def finalize_checkpoint_def finalize_claimed_checkpoint_def acknowledge_terminal_def
      record_event_delivery_def renew_checkpoint_claim_def record_tool_receipt_def admit_deferred_batch_def accept_deferred_batch_def
      resolve_deferred_def delete_checkpoint_def split: sum.splits option.splits bool.splits prod.splits)
qed

text \<open>One call: the archives stay readable, and the run of every key that is not deleted only grows.\<close>

lemma archive_key:
  assumes "archives_ok E st" and "load_checkpoint st key = Some c"
  shows "cp_key c = key \<and> validate_checkpoint E c = Inr ()"
  using assms by (simp add: archives_ok_def store_valid_def)

lemma writes_records:
  assumes "writes E op (Some cur) c" and "op \<in> {Claim k a t l n m | k a t l n m. True} \<union> {Renew k t l n | k t l n. True}"
  shows "same_records cur c \<and> cp_key c = cp_key cur"
  using assms by (auto elim!: writes.cases simp: same_records_def apply_claim_def and_then_Inr_iff split: if_splits)

definition key_grows :: "env \<Rightarrow> store \<Rightarrow> store \<Rightarrow> string \<Rightarrow> bool" where
  "key_grows E st st' key \<longleftrightarrow>
     (\<forall>c ys calls. load_checkpoint st key = Some c \<longrightarrow> run_archive E c (archive_of st key) ys calls \<longrightarrow>
        (\<exists>c' ys' calls'. load_checkpoint st' key = Some c' \<and> run_archive E c' (archive_of st' key) ys' calls' \<and>
           grows (ys, calls) c (ys', calls') c'))"

lemma key_grows_same:
  "load_checkpoint st' key = load_checkpoint st key \<Longrightarrow> archive_of st' key = archive_of st key \<Longrightarrow> key_grows E st st' key"
  unfolding key_grows_def using grows_refl by metis

lemma key_grows_trans:
  assumes "key_grows E st st' key" and "key_grows E st' st'' key"
  shows "key_grows E st st'' key"
  unfolding key_grows_def
proof (intro allI impI)
  fix c ys calls
  assume "load_checkpoint st key = Some c" "run_archive E c (archive_of st key) ys calls"
  then obtain c' ys' calls' where 1: "load_checkpoint st' key = Some c'" "run_archive E c' (archive_of st' key) ys' calls'"
    "grows (ys, calls) c (ys', calls') c'"
    using assms(1) unfolding key_grows_def by blast
  then obtain c'' ys'' calls'' where "load_checkpoint st'' key = Some c''" "run_archive E c'' (archive_of st'' key) ys'' calls''"
    "grows (ys', calls') c' (ys'', calls'') c''"
    using assms(2) unfolding key_grows_def by blast
  then show "\<exists>c' ys' calls'. load_checkpoint st'' key = Some c' \<and> run_archive E c' (archive_of st'' key) ys' calls' \<and>
      grows (ys, calls) c (ys', calls') c'"
    using 1(3) grows_trans by blast
qed

lemma run_archive_new:
  assumes "validate_checkpoint_creation E c = Inr ()"
  shows "run_archive E c empty_archive [] []"
  using assms archived_as_new [of c E]
  by (simp add: validate_checkpoint_creation_def and_then_Inr_iff Let_def run_archive_def empty_archive_def readable_def)

lemma exec_key:
  assumes law: "parser_inverts_canonical E" and ok: "archives_ok E st" and op: "readable_op E op"
  shows "(op \<noteq> Delete key \<longrightarrow> key_grows E st (exec E op st) key) \<and>
    (case load_checkpoint (exec E op st) key of
       None \<Rightarrow> archive_of (exec E op st) key = empty_archive
     | Some c \<Rightarrow> \<exists>ys calls. run_archive E c (archive_of (exec E op st) key) ys calls)"
proof -
  let ?st = "exec E op st"
  have here: "case load_checkpoint st key of None \<Rightarrow> archive_of st key = empty_archive
     | Some c \<Rightarrow> \<exists>ys calls. run_archive E c (archive_of st key) ys calls" for key
    using ok by (simp add: archives_ok_def)
  have ordered: "well_keyed st" "btree_ok (sto_history st)" using ok store_valid_keyed by (auto simp: archives_ok_def)
  show ?thesis
  proof (cases "load_checkpoint ?st key = load_checkpoint st key \<and> archive_of ?st key = archive_of st key")
    case True
    then show ?thesis using here [of key] key_grows_same [of ?st key st E] by (simp split: option.splits)
  next
    case False
    from exec_archiving [OF ordered, of E op, unfolded archiving_def] False show ?thesis
    proof (elim disjE exE conjE)
      fix cur u c a
      assume p: "load_checkpoint st (op_key op) = Some cur" "prepare E op cur = Inr (Some u)"
        "load_checkpoint ?st = (load_checkpoint st)(op_key op := Some c)" "archive_of ?st = (archive_of st)(op_key op := a)"
        "\<not> list_ex (\<lambda>r. mc_call_id r \<in> set (av_call_ids (archive_of st (op_key op)))) (cp_model_calls u)"
        and c: "kept_or_appended E (archive_of st (op_key op)) u c a"
      have key: "key = op_key op" using False p by (metis fun_upd_other)
      have valid: "validate_checkpoint E cur = Inr ()" using archive_key [OF ok p(1)] by simp
      have step: "\<exists>ys' calls'. run_archive E c a ys' calls' \<and> grows (ys, calls) cur (ys', calls') c"
        if "run_archive E cur (archive_of st (op_key op)) ys calls" for ys calls
        by (rule prepared_keeps_archive [OF law op valid that p(2,5) c])
      then show ?thesis using here [of key] p(1,3,4) key by (fastforce simp: key_grows_def)
    next
      fix c
      assume w: "writes E op (load_checkpoint st (op_key op)) c"
        "op \<in> range Create \<union> {Claim k a t l n m |k a t l n m. True} \<union> {Renew k t l n |k t l n. True}"
        "load_checkpoint ?st = (load_checkpoint st)(op_key op := Some c)" "archive_of ?st = archive_of st"
      have key: "key = op_key op" using False w by (metis fun_upd_other)
      show ?thesis
      proof (cases "load_checkpoint st (op_key op)")
        case None
        then have "validate_checkpoint_creation E c = Inr ()" using w(1) by (auto elim: writes.cases)
        then show ?thesis
          using run_archive_new [of E c] here [of key] None w(3,4) key by (auto simp: key_grows_def)
      next
        case (Some cur)
        then have "op \<notin> range Create" using w(1) by (auto elim: writes.cases)
        then have same: "same_records cur c" "cp_key c = cp_key cur"
          using writes_records [of E op cur c] w(1,2) Some by auto
        have "run_archive E c (archive_of st key) ys calls \<and> grows (ys, calls) cur (ys, calls) c"
          if "run_archive E cur (archive_of st key) ys calls" for ys calls
          using same_records_keeps_archive [OF that same] same(1) by (simp add: grows_def same_records_def)
        then show ?thesis using here [of key] Some w(3,4) key by (fastforce simp: key_grows_def)
      qed
    next
      assume "op = Delete (op_key op)" "load_checkpoint ?st = (load_checkpoint st)(op_key op := None)"
        "archive_of ?st = (archive_of st)(op_key op := empty_archive)"
      moreover from this have "key = op_key op" using False by (metis fun_upd_other)
      ultimately show ?thesis by simp
    qed auto
  qed
qed

lemma exec_archives:
  assumes "parser_inverts_canonical E" and "archives_ok E st" and "readable_op E op"
  shows "archives_ok E (exec E op st)"
  using assms exec_key [OF assms] exec_valid [of E st op] exec_ordered
  by (simp add: archives_ok_def readable_op_def)

section \<open>The archive of a run loads and only grows\<close>

lemma archives_ok_empty: "archives_ok E empty_store"
  using empty_store_valid by (simp add: archives_ok_def) (simp add: load_checkpoint_def archive_of_def empty_store_def)

lemma run_archives:
  "parser_inverts_canonical E \<Longrightarrow> list_all (readable_op E) ops \<Longrightarrow> archives_ok E st \<Longrightarrow> archives_ok E (fold (exec E) ops st)"
  by (induction ops arbitrary: st) (simp_all add: exec_archives)

lemma run_archive_loads:
  assumes "run_archive E c (archive_of st key) ys calls" and "load_checkpoint st key = Some c"
  shows "load_checkpoint_history E st key = Inr \<lparr>hr_cycles = ys, hr_calls = calls, hr_frontier = cp_history c\<rparr>"
proof -
  have "sorted_wrt (<) (map cy_index (ys @ cp_cycles c))" "distinct (map mc_call_id (calls @ cp_model_calls c))"
    using assms(1) by (simp_all add: run_archive_def)
  then have "\<not> archive_overlaps c (add_records ys calls default_records)"
    by (fastforce simp: archive_overlaps_def add_records_def default_records_def list_ex_iff sorted_wrt_append)
  then show ?thesis
    using archived_as_decodes assms by (simp add: run_archive_def load_checkpoint_history_def)
qed

lemma archives_ok_run:
  assumes "archives_ok E st" and "load_checkpoint st key = Some c"
  shows "\<exists>ys calls. run_archive E c (archive_of st key) ys calls"
proof -
  have "case load_checkpoint st key of None \<Rightarrow> archive_of st key = empty_archive
     | Some c \<Rightarrow> \<exists>ys calls. run_archive E c (archive_of st key) ys calls"
    using assms(1) by (simp add: archives_ok_def)
  then show ?thesis using assms(2) by simp
qed




lemma hydrate_cycles_distinct:
  "distinct (map cy_index (ys @ zs)) \<Longrightarrow> hydrate_cycles ys zs = Inr (ys @ zs)"
proof (induction zs arbitrary: ys)
  case (Cons z zs)
  have "cy_index z \<notin> cy_index ` set ys" using Cons.prems by auto
  then have "find (\<lambda>x. cy_index x = cy_index z) ys = None" unfolding find_None_iff image_iff by metis
  then show ?case using Cons.IH [of "ys @ [z]"] Cons.prems by simp
qed simp

lemma hydrate_calls_distinct:
  "distinct (map mc_call_id (rs @ ss)) \<Longrightarrow> hydrate_calls rs ss = Inr (rs @ ss)"
proof (induction ss arbitrary: rs)
  case (Cons r ss)
  have "mc_call_id r \<notin> mc_call_id ` set rs" using Cons.prems by auto
  then have "\<not> list_ex (\<lambda>x. mc_call_id x = mc_call_id r) rs" unfolding list_ex_iff image_iff by metis
  then show ?case using Cons.IH [of "rs @ [r]"] Cons.prems by simp
qed simp

text \<open>
  The result of a run is complete: reading it from the store puts the archived cycles before
  the cycles of the checkpoint and computes its token usage from the archived and the active calls,
  with no error of the archive, for every store that workers can reach.
\<close>

theorem hydrated_result_complete:
  assumes "parser_inverts_canonical E" and "list_all (readable_op E) ops" and "st = fold (exec E) ops empty_store"
    and "load_checkpoint st key = Some c" and "hi_sequence (cp_history c) \<noteq> 0" and "ag_cycles result = cp_cycles c"
  shows "\<exists>rs. load_checkpoint_history E st key = Inr rs \<and>
    hydrate_checkpoint_result E st c result =
      and_then (map_err (\<lambda>_. ''panic'') (summarize_task_token_usage (hr_calls rs @ cp_model_calls c))) (\<lambda>usage.
        Inr (result\<lparr>ag_cycles := hr_cycles rs @ cp_cycles c, ag_token_usage := usage\<rparr>))"
proof -
  have ok: "archives_ok E st" unfolding assms(3) by (rule run_archives [OF assms(1,2) archives_ok_empty])
  obtain ys calls where run: "run_archive E c (archive_of st key) ys calls" using archives_ok_run [OF ok assms(4)] by blast
  note load = run_archive_loads [OF run assms(4)]
  have key: "cp_key c = key" using archive_key [OF ok assms(4)] by simp
  have "distinct (map cy_index (ys @ cp_cycles c))"
    using run unfolding run_archive_def by (metis strict_sorted_iff)
  then have "hydrate_cycles ys (cp_cycles c) = Inr (ys @ cp_cycles c)" by (rule hydrate_cycles_distinct)
  moreover have "hydrate_calls calls (cp_model_calls c) = Inr (calls @ cp_model_calls c)"
    using run by (intro hydrate_calls_distinct) (simp add: run_archive_def)
  ultimately show ?thesis using load assms(5,6) key by (simp add: hydrate_checkpoint_result_def)
qed

section \<open>A concrete run\<close>

definition demo_cycle :: "u32 \<Rightarrow> cycle_record" where
  "demo_cycle i = \<lparr>cy_index = i, cy_tool_calls = [], cy_tool_results = [], cy_rest = JNull\<rparr>"

definition demo_archived :: json where
  "demo_archived = history_payload demo_env ''k'' 1 None [demo_cycle 1] []"

text \<open>An environment whose canonical JSON is defined on one batch, which its parser reads back.\<close>

definition hist_env :: env where
  "hist_env = demo_env\<lparr>canonicalize := (\<lambda>v. if v = demo_archived then Some ''p'' else None),
     strict_json_value := (\<lambda>s. if s = ''p'' then Some demo_archived else None)\<rparr>"

lemma hist_env_law: "parser_inverts_canonical hist_env"
  by (simp add: parser_inverts_canonical_def hist_env_def)

lemma hist_env_simps [simp]:
  "encode_cycle hist_env y = json_u64 (cy_index y)" "decode_cycle hist_env v = map_option demo_cycle (as_u64 v)"
  "validate_run_definition hist_env v = Inr ()" "run_definition_digest hist_env v = Inr demo_digest"
  "validate_compaction_metadata hist_env = (\<lambda>_. True)"
  by (simp_all add: hist_env_def demo_env_def demo_cycle_def [abs_def])

lemma demo_cycle_sel [simp]: "cy_index (demo_cycle i) = i"
  by (simp add: demo_cycle_def)

lemma demo_cycle_readable: "i \<le> u64_max \<Longrightarrow> readable_cycle hist_env (demo_cycle i)"
  by (simp add: readable_cycle_def json_u64_def)

lemmas demo_validation' = validate_checkpoint_def validate_cycles_def validate_claim_def validate_status_def
  validate_host_interaction_def validate_deferred_def validate_terminal_def journal_entries_def active_cycle_def
  has_ambiguous_operation_def validate_extension_state_size_def validate_model_journal_accounting_def
  validate_checkpoint_key_def and_then_Inr_iff blank_eval Let_def validate_journal_entry_def is_terminal_def
  saturating_add_def checked_add_def u64_max_def MAX_WIRE_INTEGER_def

text \<open>A worker claims and commits two cycles.\<close>

definition demo_done :: "u64 \<Rightarrow> checkpoint" where
  "demo_done n = demo_cp\<lparr>cp_cycle_index := n, cp_cycles := map demo_cycle [1..<Suc n], cp_revision := 2 * n\<rparr>"

definition demo_working :: "u64 \<Rightarrow> checkpoint" where
  "demo_working n = (demo_done (n - 1))\<lparr>cp_revision := 2 * n - 1, cp_claim_token := Some ''w'', cp_claimed_cycle := Some n,
     cp_lease_expires_at_ms := Some 100\<rparr>"

definition demo_snapshot :: "u64 \<Rightarrow> checkpoint" where
  "demo_snapshot n = (demo_working n)\<lparr>cp_cycle_index := n, cp_cycles := map demo_cycle [1..<Suc n]\<rparr>"

definition demo_last :: checkpoint where
  "demo_last = (demo_done 2)\<lparr>cp_cycles := [demo_cycle 2],
     cp_history := default_history\<lparr>hi_sequence := 1, hi_cycle_count := 1, hi_head_digest := Some demo_digest\<rparr>\<rparr>"

lemma demo_done_0: "demo_done 0 = demo_cp"
  by (simp add: demo_done_def demo_cp_defs)

lemma demo_steps_valid:
  "validate_checkpoint hist_env demo_cp = Inr ()"
  "validate_checkpoint hist_env (demo_done 1) = Inr ()" "validate_checkpoint hist_env (demo_done 2) = Inr ()"
  "validate_checkpoint hist_env (demo_working 1) = Inr ()" "validate_checkpoint hist_env (demo_working 2) = Inr ()"
  by (simp_all add: demo_validation' demo_cp_defs demo_done_def demo_working_def upt_rec)

lemma demo_last_valid: "validate_checkpoint hist_env demo_last = Inr ()"
  by (simp add: demo_validation' demo_cp_defs demo_done_def demo_last_def history_validate_def default_history_def
     default_totals_def default_task_usage_def)

lemma demo_claims:
  "exec hist_env (Claim ''k'' 1 ''w'' 100 10 Continue) (demo_store demo_cp) = demo_store (demo_working 1)"
  "exec hist_env (Claim ''k'' 2 ''w'' 100 10 Continue) (demo_store (demo_done 1)) = demo_store (demo_working 2)"
proof -
  have "claim_candidate demo_cp 1 10 Continue = Inr True" "claim_candidate (demo_done 1) 2 10 Continue = Inr True"
    by (simp_all add: claim_candidate_def demo_done_def demo_cp_defs is_terminal_def has_ambiguous_operation_def journal_entries_def
      MAX_WIRE_INTEGER_def checked_add_def u64_max_def)
  moreover have "apply_claim demo_cp 1 ''w'' 100 Continue = Inr (demo_working 1)"
    "apply_claim (demo_done 1) 2 ''w'' 100 Continue = Inr (demo_working 2)"
    by (simp_all add: apply_claim_def bump_revision_def demo_working_def demo_done_def demo_cp_defs blank_eval checked_add_def u64_max_def
      MAX_WIRE_INTEGER_def)
  ultimately show
    "exec hist_env (Claim ''k'' 1 ''w'' 100 10 Continue) (demo_store demo_cp) = demo_store (demo_working 1)"
    "exec hist_env (Claim ''k'' 2 ''w'' 100 10 Continue) (demo_store (demo_done 1)) = demo_store (demo_working 2)"
    using demo_steps_valid
    by (simp_all add: claim_checkpoint_def demo_store_def put_checkpoint_def empty_store_def blank_eval)
qed

lemmas demo_commit_defs = prepare_commit_def claim_matches_def checkpoint_definition_matches_def committed_cycles_def is_prefix_def
  demo_snapshot_def demo_working_def demo_done_def demo_cp_defs journal_entries_def validate_model_journal_accounting_def
  ok_some_def seal_def release_claim_def Let_def upt_rec

lemma demo_commit:
  "prepare_commit hist_env (demo_working 1) (demo_snapshot 1) ''w'' 1 = Inr (Some (demo_done 1))"
  "prepare_commit hist_env (demo_working 2) (demo_snapshot 2) ''w'' 3 = Inr (Some (demo_done 2))"
proof -
  have "bump_revision (Suc 0) = Inr (Suc (Suc 0))" by (simp add: bump_revision_def checked_add_def u64_max_def)
  then show "prepare_commit hist_env (demo_working 1) (demo_snapshot 1) ''w'' 1 = Inr (Some (demo_done 1))"
    using demo_steps_valid(2) by (simp add: demo_commit_defs numeral_2_eq_2)
  show "prepare_commit hist_env (demo_working 2) (demo_snapshot 2) ''w'' 3 = Inr (Some (demo_done 2))"
    using demo_steps_valid(3) by (simp add: demo_commit_defs bump_revision_def checked_add_def u64_max_def)
qed

lemma demo_normalize:
  "normalize_checkpoint_history hist_env (demo_done 1) = Inr (demo_done 1, None)"
  "retained_cycle (demo_done 2) = Some 2"
  by (simp_all add: normalize_checkpoint_history_def retained_cycle_def archive_records_def demo_done_def demo_cp_defs upt_rec)

lemma demo_archived_valid: "validate_i_json demo_archived = Inr ()"
  unfolding demo_archived_def history_payload_def
  by (rule validate_i_json_object) (simp add: demo_env_def json_u64_def encode_option_def)

lemma demo_archive:
  "archive_records hist_env (demo_done 2) 2 =
     Inr (demo_last, Some \<lparr>hb_payload = demo_archived, hb_payload_digest = demo_digest, hb_sequence = 1\<rparr>)"
proof -
  have p: "history_payload hist_env ''k'' 1 None [demo_cycle 1] [] = demo_archived"
    by (simp add: demo_archived_def history_payload_def demo_env_def)
  have s: "sha256_canonical hist_env demo_archived = Inr demo_digest"
    using demo_archived_valid by (simp add: sha256_canonical_def canonical_json_bytes_def hist_env_def demo_env_def)
  have d: "cp_cycles (demo_done 2) = [demo_cycle 1, demo_cycle 2]" "cp_model_calls (demo_done 2) = []"
    "cp_history (demo_done 2) = default_history" "cp_key (demo_done 2) = ''k''" "cp_terminal_result (demo_done 2) = None"
    by (simp_all add: demo_done_def demo_cp_defs upt_rec numeral_2_eq_2)
  have t: "trim_terminal_result hist_env demo_last = Inr demo_last"
    by (simp add: trim_terminal_result_def demo_last_def d)
  have l: "(demo_done 2)\<lparr>cp_cycles := [demo_cycle 2], cp_model_calls := [],
      cp_history := default_history\<lparr>hi_cycle_count := 1, hi_sequence := 1, hi_head_digest := Some demo_digest\<rparr>\<rparr> = demo_last"
    using d(2) by (simp add: demo_last_def default_history_def)
  show ?thesis
    using p s t l demo_last_valid
    by (simp add: archive_records_def d Let_def default_history_def checked_add_def u64_max_def)
qed

lemma demo_commits:
  "exec hist_env (Commit (demo_snapshot 1) ''w'' 1) (demo_store (demo_working 1)) = demo_store (demo_done 1)"
  "load_checkpoint (exec hist_env (Commit (demo_snapshot 2) ''w'' 3) (demo_store (demo_working 2))) ''k'' = Some demo_last"
proof -
  have k: "cp_key (demo_snapshot n) = ''k''" "cp_key (demo_done n) = ''k''" "cp_key demo_last = ''k''" "cp_model_calls (demo_done n) = []" for n
    by (simp_all add: demo_snapshot_def demo_working_def demo_done_def demo_cp_defs demo_last_def)
  show "exec hist_env (Commit (demo_snapshot 1) ''w'' 1) (demo_store (demo_working 1)) = demo_store (demo_done 1)"
    using demo_commit(1) demo_normalize(1)
    by (simp add: commit_checkpoint_def cas_write_def demo_store_def k persist_and_put_def persist_history_def put_checkpoint_def empty_store_def Let_def)
  have "normalize_checkpoint_history hist_env (demo_done 2) =
      Inr (demo_last, Some \<lparr>hb_payload = demo_archived, hb_payload_digest = demo_digest, hb_sequence = 1\<rparr>)"
    using demo_archive demo_normalize(2) by (simp add: normalize_checkpoint_history_def)
  moreover have "canonical_json_bytes hist_env demo_archived = Inr ''p''"
    using demo_archived_valid by (simp add: canonical_json_bytes_def hist_env_def)
  ultimately show "load_checkpoint (exec hist_env (Commit (demo_snapshot 2) ''w'' 3) (demo_store (demo_working 2))) ''k'' = Some demo_last"
    using demo_commit(2)
    by (simp add: commit_checkpoint_def cas_write_def demo_store_def k persist_and_put_def persist_history_def empty_store_def
      archive_of_def empty_archive_def Let_def)
qed

definition demo_ops :: "store_op list" where
  "demo_ops = [Create demo_cp, Claim ''k'' 1 ''w'' 100 10 Continue, Commit (demo_snapshot 1) ''w'' 1]"

definition demo_more :: "store_op list" where
  "demo_more = [Claim ''k'' 2 ''w'' 100 10 Continue, Commit (demo_snapshot 2) ''w'' 3]"

lemma demo_archived_run:
  "fold (exec hist_env) demo_ops empty_store = demo_store (demo_done 1)"
  "load_checkpoint (fold (exec hist_env) demo_more (demo_store (demo_done 1))) ''k'' = Some demo_last"
proof -
  have "validate_checkpoint_creation hist_env demo_cp = Inr ()"
    using demo_steps_valid(1) by (simp add: validate_checkpoint_creation_def demo_cp_defs Let_def is_terminal_def and_then_Inr_iff)
  then have "exec hist_env (Create demo_cp) empty_store = demo_store demo_cp"
    by (simp add: create_checkpoint_def put_checkpoint_def empty_store_def demo_store_def btree_contains_def)
      (simp add: demo_cp_defs)
  then show "fold (exec hist_env) demo_ops empty_store = demo_store (demo_done 1)"
    using demo_claims(1) demo_commits(1) unfolding demo_ops_def by (simp only: fold_simps)
  show "load_checkpoint (fold (exec hist_env) demo_more (demo_store (demo_done 1))) ''k'' = Some demo_last"
    using demo_claims(2) demo_commits(2) unfolding demo_more_def by (simp only: fold_simps)
qed

lemma demo_readable: "list_all (readable_op hist_env) (demo_ops @ demo_more)"
proof -
  have "readable hist_env (demo_snapshot n)" if "n \<le> 2" for n
    using that demo_cycle_readable
    by (auto simp: readable_def demo_snapshot_def demo_working_def demo_done_def demo_cp_defs list_all_iff u64_max_def)
  then show ?thesis by (simp add: demo_ops_def demo_more_def readable_op_def)
qed



theorem hydrated_result_complete_witness:
  "\<exists>rs. load_checkpoint_history hist_env (fold (exec hist_env) (demo_ops @ demo_more) empty_store) ''k'' = Inr rs \<and>
    hydrate_checkpoint_result hist_env (fold (exec hist_env) (demo_ops @ demo_more) empty_store) demo_last
      ((demo_agent_result JNull)\<lparr>ag_cycles := cp_cycles demo_last\<rparr>) =
      and_then (map_err (\<lambda>_. ''panic'') (summarize_task_token_usage (hr_calls rs @ cp_model_calls demo_last))) (\<lambda>usage.
        Inr ((demo_agent_result JNull)\<lparr>ag_cycles := hr_cycles rs @ cp_cycles demo_last, ag_token_usage := usage\<rparr>))"
proof -
  let ?r = "(demo_agent_result JNull)\<lparr>ag_cycles := cp_cycles demo_last\<rparr>"
  have l: "load_checkpoint (fold (exec hist_env) (demo_ops @ demo_more) empty_store) ''k'' = Some demo_last"
    using demo_archived_run by simp
  have s: "hi_sequence (cp_history demo_last) \<noteq> 0" by (simp add: demo_last_def)
  from hydrated_result_complete [OF hist_env_law demo_readable refl l s, of ?r] show ?thesis by simp
qed

text \<open>
  A suspension takes the index of the committed cycle from the snapshot of the worker: this one
  moves it back from 1 to 0, so that cycle 1 would be run again. Progress and commits refuse the
  like, and the theorems above ask for suspensions of the claimed cycle.
\<close>

definition demo_rewound :: checkpoint where
  "demo_rewound = (demo_working 2)\<lparr>cp_cycle_index := 0, cp_tool_journal := [demo_tool_entry Ambiguous]\<rparr>"

lemma suspend_rewinds_cycle:
  "\<exists>u. prepare_suspend demo_env (demo_working 2) demo_rewound ''w'' 3 = Inr (Some u) \<and>
     cp_cycle_index (demo_working 2) = 1 \<and> cp_cycle_index u = 0"
proof -
  let ?u = "(release_claim (demo_rewound\<lparr>cp_status := StReconciliationRequired\<rparr>))\<lparr>cp_revision := 4\<rparr>"
  have e: "journal_validate demo_env (demo_tool_entry Ambiguous) = Inr ()"
    using demo_tool_entry_valid [of Ambiguous 1 Ambiguous] by (simp add: demo_tool_entry_def tool_entry_def)
  have "validate_checkpoint demo_env ?u = Inr ()"
    using e
    by (simp add: demo_validation' demo_rewound_def demo_working_def demo_done_def demo_cp_defs release_claim_def)
      (simp add: demo_tool_entry_def tool_entry_def)
  moreover have "claim_matches (demo_working 2) demo_rewound ''w'' 3"
    by (simp add: claim_matches_def checkpoint_definition_matches_def committed_cycles_def is_prefix_def Let_def
        demo_rewound_def demo_working_def demo_done_def demo_cp_defs)
  moreover have "has_ambiguous_operation demo_rewound"
    by (simp add: has_ambiguous_operation_def journal_entries_def demo_rewound_def demo_tool_entry_def)
  moreover have "merge_authoritative_fields demo_env (demo_working 2) demo_rewound = Inr demo_rewound"
    by (simp add: merge_authoritative_fields_def demo_rewound_def demo_working_def demo_done_def demo_cp_defs)
  moreover have "bump_revision 3 = Inr 4" by (simp add: bump_revision_def checked_add_def u64_max_def)
  ultimately have "prepare_suspend demo_env (demo_working 2) demo_rewound ''w'' 3 = Inr (Some ?u)"
    by (simp add: prepare_suspend_def seal_def ok_some_def Let_def)
  then show ?thesis by (simp add: demo_rewound_def demo_working_def demo_done_def release_claim_def)
qed

end
