(* ===== verification/Controller_Store.thy ===== *)
theory Controller_Store
  imports Checkpoint_Store
begin

text \<open>
  The controller ledger of the in-memory store (\<open>runtime/stores/memory_controller.rs\<close>,
  \<open>memory_impl_controller.rs\<close>, \<open>controller_helpers.rs\<close>): commands that suspend, resume, cancel or abort
  a run or answer its question, the question itself with its notification, and the wake that a
  command leaves for a worker. Every operation holds both locks from its first read to its last
  write. The clock of an operation is an argument.
\<close>

section \<open>Events and results of the controller\<close>

fun event_kind :: "control_payload \<Rightarrow> string" where
  "event_kind (RunStateChanged _) = ''run_state_changed''"
| "event_kind CancelRequestedTransition = ''run_state_changed''"
| "event_kind (CheckpointResumed _ _) = ''checkpoint_resumed''"
| "event_kind (RunCancelled _) = ''run_cancelled''"
| "event_kind (RunFailed _) = ''run_failed''"
| "event_kind _ = ''control''"

fun is_resumed :: "control_payload \<Rightarrow> bool" where
  "is_resumed (CheckpointResumed _ _) = True"
| "is_resumed _ = False"

definition stage_control ::
  "env \<Rightarrow> checkpoint \<Rightarrow> u32 option \<Rightarrow> control_payload \<Rightarrow> agent_result option \<Rightarrow> string \<Rightarrow> err + checkpoint" where
  "stage_control E c cycle payload result event_id =
    and_then (ensure (\<not> is_blank event_id) ''event_identity_conflict'') (\<lambda>_.
    and_then (ok_or (control_event_value E (cp_root_run_id c) (cp_trace_id c) cycle payload result event_id)
      ''checkpoint_event_invalid'') (\<lambda>v.
    and_then (pending_entry E event_id v) (\<lambda>b. Inr (push_event b c))))"

definition append_control_event_with_completion ::
  "env \<Rightarrow> checkpoint \<Rightarrow> string \<Rightarrow> control_payload \<Rightarrow> agent_result option \<Rightarrow> err + checkpoint" where
  "append_control_event_with_completion E c command_id payload result =
    stage_control E c
      (if cp_cycle_index c \<le> u32_max \<and> (cp_cycle_index c > 0 \<or> is_resumed payload) then Some (cp_cycle_index c) else None)
      payload result (''controller-'' @ command_id @ ''-'' @ event_kind payload)"

definition append_control_event :: "env \<Rightarrow> checkpoint \<Rightarrow> string \<Rightarrow> control_payload \<Rightarrow> err + checkpoint" where
  "append_control_event E c command_id payload = append_control_event_with_completion E c command_id payload None"

definition append_control_event_with_result ::
  "env \<Rightarrow> checkpoint \<Rightarrow> string \<Rightarrow> control_payload \<Rightarrow> agent_result \<Rightarrow> err + checkpoint" where
  "append_control_event_with_result E c command_id payload result =
    append_control_event_with_completion E c command_id payload (Some result)"

definition append_cancel_requested_event :: "env \<Rightarrow> checkpoint \<Rightarrow> string \<Rightarrow> err + checkpoint" where
  "append_cancel_requested_event E c command_id =
    stage_control E c (if cp_cycle_index c \<le> u32_max \<and> cp_cycle_index c > 0 then Some (cp_cycle_index c) else None)
      CancelRequestedTransition None (''controller-'' @ command_id @ ''-run_state_changed'')"

text \<open>\<open>AgentResult::failed_with_code\<close>: the fields that are kept as encoded are null.\<close>

definition failed_with_code :: "string \<Rightarrow> string \<Rightarrow> bool \<Rightarrow> agent_result" where
  "failed_with_code code message retryable =
    \<lparr>ag_status = AsFailed, ag_messages = [], ag_cycles = [], ag_completion_reason = Some CrFailed, ag_budget_usage = None,
     ag_checkpoint_key = None, ag_resume_observations = [],
     ag_error = Some \<lparr>er_code = code, er_message = message, er_retryable = retryable\<rparr>, ag_error_code = None,
     ag_shared_state = [], ag_token_usage = default_task_usage,
     ag_rest = object_of [(''completion_tool_name'', JNull), (''partial_output'', JNull), (''budget_exhaustion'', JNull),
       (''final_answer'', JNull), (''wait_reason'', JNull)]\<rparr>"

definition control_result :: "checkpoint \<Rightarrow> completion_reason \<Rightarrow> string \<Rightarrow> string option \<Rightarrow> err + agent_result" where
  "control_result c reason message code =
    and_then (map_err (\<lambda>_. ''panic'') (summarize_task_token_usage (cp_model_calls c))) (\<lambda>usage.
    Inr ((failed_with_code (case code of None \<Rightarrow> ''agent_failed'' | Some s \<Rightarrow> s) message False)
      \<lparr>ag_messages := cp_messages c, ag_cycles := cp_cycles c, ag_shared_state := cp_shared_state c,
       ag_budget_usage := cp_budget_usage c, ag_checkpoint_key := Some (cp_key c),
       ag_completion_reason := Some reason, ag_error_code := code, ag_token_usage := usage\<rparr>))"

section \<open>Commands\<close>

definition claim_expired :: "checkpoint \<Rightarrow> u64 \<Rightarrow> bool" where
  "claim_expired c now \<longleftrightarrow> cp_claim_token c \<noteq> None \<and>
     (case cp_lease_expires_at_ms c of None \<Rightarrow> False | Some lease \<Rightarrow> lease \<le> now)"

definition command_guard :: "checkpoint \<Rightarrow> controller_command \<Rightarrow> u64 \<Rightarrow> err + unit" where
  "command_guard c cmd now = all_ok
    [ensure (cp_root_run_id c = ch_run_id (cc_handle cmd) \<and> cp_trace_id c = ch_trace_id (cc_handle cmd)) ''controller_command_stale'',
     ensure (cp_resume_attempt c = cc_resume_attempt cmd \<and> cp_revision c = cc_expected_revision cmd) ''controller_command_stale'',
     ensure (\<not> (cp_terminal_result c \<noteq> None \<or> is_terminal (cp_status c))) ''controller_command_terminal'',
     ensure (\<not> (cp_claim_token c \<noteq> None \<and> \<not> claim_expired c now \<and> cc_command cmd \<noteq> Cancel_Command))
       ''controller_command_claim_active'',
     ensure (\<not> (has_ambiguous_operation c \<and> cc_command cmd \<noteq> Abort_Command \<and>
       \<not> (cc_command cmd = Cancel_Command \<and> cp_claim_token c \<noteq> None)))
       ''controller_command_ambiguity_requires_reconciliation'',
     ensure (\<not> ((cp_status c = StDeferred \<or> list_ex (\<lambda>e. oj_state e = Deferred) (cp_tool_journal c)) \<and>
       cc_command cmd \<notin> {Suspend_Command, Resume_Command, Cancel_Command})) ''controller_command_deferred_pending'']"

text \<open>A cancellation or suspension takes an expired claim away; a cancellation also starts a new attempt.\<close>

definition drop_expired_claim :: "checkpoint \<Rightarrow> command_kind \<Rightarrow> u64 \<Rightarrow> err + checkpoint" where
  "drop_expired_claim c kind now =
    (if claim_expired c now \<and> kind = Cancel_Command
     then and_then (ok_or (checked_add (cp_resume_attempt c) 1) ''checkpoint_resume_attempt_invalid'') (\<lambda>attempt.
          Inr (release_claim (c\<lparr>cp_resume_attempt := attempt, cp_cancel_requested := True\<rparr>)))
     else if claim_expired c now \<and> kind = Suspend_Command then Inr (release_claim c)
     else Inr c)"

definition pending_interaction :: "checkpoint \<Rightarrow> host_request option" where
  "pending_interaction c =
    (if cp_status c = StHostInteraction \<and> cp_active_host_interaction c \<noteq> None then cp_active_host_interaction c
     else if cp_status c = StSuspended
     then case cp_suspended_origin c of
       None \<Rightarrow> None
     | Some x \<Rightarrow> if so_status x = ''host_interaction'' then so_active_host_interaction x else None
     else None)"

definition host_origin :: "host_request \<Rightarrow> suspended_origin" where
  "host_origin r = \<lparr>so_status = ''host_interaction'', so_active_host_interaction = Some r\<rparr>"

text \<open>
  What a command does: the new checkpoint, the wake it leaves, and the host record it resolves. The
  revision of a stored checkpoint is within the integers of the wire, so \<open>+ 1\<close> does not overflow.
\<close>

type_synonym command_effect = "checkpoint \<times> command_wake \<times> (string \<times> host_record) option"

definition validated :: "env \<Rightarrow> checkpoint \<Rightarrow> command_wake \<Rightarrow> (string \<times> host_record) option \<Rightarrow> err + command_effect" where
  "validated E u wake rec = and_then (validate_checkpoint E u) (\<lambda>_. Inr (u, wake, rec))"

definition resolve_record ::
  "env \<Rightarrow> ledger \<Rightarrow> checkpoint \<Rightarrow> host_request \<Rightarrow> controller_command \<Rightarrow> host_message \<Rightarrow> err + string \<times> host_record" where
  "resolve_record E l cur pending cmd response =
    and_then (record_id_for E (cp_key cur) pending) (\<lambda>record_id.
    and_then (ok_or (btree_get record_id (le_host_interactions l)) ''controller_command_stale'') (\<lambda>h.
    and_then (ensure (hc_state h = ''active'' \<and> hc_request h = pending) ''controller_command_stale'') (\<lambda>_.
    and_then (host_response_new E (hr_interaction_id pending) (hr_logical_cycle pending) (hr_operation_id pending)
      (hr_tool_call_id pending) (hr_request_digest pending) (cc_command_id cmd) response) (\<lambda>resolved.
    let h' = h\<lparr>hc_state := ''resolved_pending'', hc_response := Some resolved,
          hc_response_digest := Some (hp_response_digest resolved), hc_command_id := Some (cc_command_id cmd),
          hc_resolved_revision := Some (cp_revision cur + 1)\<rparr>
    in and_then (host_record_validate E h') (\<lambda>_. Inr (record_id, h'))))))"

definition respond_effect ::
  "env \<Rightarrow> ledger \<Rightarrow> checkpoint \<Rightarrow> checkpoint \<Rightarrow> controller_command \<Rightarrow> string \<Rightarrow> u64 \<Rightarrow> string \<Rightarrow> string \<Rightarrow> string \<Rightarrow> host_message \<Rightarrow>
   err + command_effect" where
  "respond_effect E l cur u cmd interaction_id logical_cycle operation_id tool_call_id request_digest response =
    and_then (ok_or (pending_interaction cur) ''controller_command_invalid_state'') (\<lambda>pending.
    and_then (ensure (hr_interaction_id pending = interaction_id \<and> hr_logical_cycle pending = logical_cycle \<and>
      hr_operation_id pending = operation_id \<and> hr_tool_call_id pending = tool_call_id \<and>
      hr_request_digest pending = request_digest) ''controller_command_stale'') (\<lambda>_.
    and_then (resolve_record E l cur pending cmd response) (\<lambda>rec.
    if cp_status cur = StHostInteraction
    then validated E (u\<lparr>cp_status := StRunning, cp_active_host_interaction := None, cp_revision := cp_revision cur + 1\<rparr>)
           (wake_recovery logical_cycle) (Some rec)
    else validated E (u\<lparr>cp_status := StSuspended, cp_active_host_interaction := None,
           cp_suspended_origin := Some (host_origin pending), cp_revision := cp_revision cur + 1\<rparr>) wake_none (Some rec))))"

definition suspend_origin :: "checkpoint \<Rightarrow> err + suspended_origin" where
  "suspend_origin c =
    (case cp_status c of
       StRunning \<Rightarrow> Inr \<lparr>so_status = ''running'', so_active_host_interaction = None\<rparr>
     | StDeferred \<Rightarrow> Inr \<lparr>so_status = ''deferred'', so_active_host_interaction = None\<rparr>
     | StHostInteraction \<Rightarrow>
         (case cp_active_host_interaction c of
            None \<Rightarrow> Inl ''controller_command_invalid_state''
          | Some r \<Rightarrow> Inr (host_origin r))
     | _ \<Rightarrow> Inl ''controller_command_invalid_state'')"

definition suspend_effect :: "env \<Rightarrow> checkpoint \<Rightarrow> checkpoint \<Rightarrow> string \<Rightarrow> err + command_effect" where
  "suspend_effect E cur u command_id =
    and_then (suspend_origin cur) (\<lambda>origin.
    and_then (append_control_event E (u\<lparr>cp_status := StSuspended, cp_active_host_interaction := None,
      cp_suspended_origin := Some origin, cp_revision := cp_revision cur + 1\<rparr>) command_id (RunStateChanged ''suspended'')) (\<lambda>u'.
    validated E u' wake_none None))"

text \<open>Where a suspended run goes on, and whether a worker has to be woken for it.\<close>

definition resume_target :: "env \<Rightarrow> ledger \<Rightarrow> checkpoint \<Rightarrow> checkpoint \<Rightarrow> suspended_origin \<Rightarrow> err + checkpoint \<times> command_wake" where
  "resume_target E l cur u origin =
    (if so_status origin = ''deferred'' \<and> list_ex (\<lambda>e. oj_state e = Deferred) (cp_tool_journal cur)
     then Inr (u\<lparr>cp_status := StDeferred, cp_suspended_origin := None\<rparr>, wake_none)
     else if so_status origin \<in> {''running'', ''deferred''}
     then Inr (u\<lparr>cp_status := StRunning, cp_suspended_origin := None\<rparr>, wake_recovery (saturating_add (cp_cycle_index cur) 1))
     else if so_status origin = ''host_interaction''
     then and_then (ok_or (so_active_host_interaction origin) ''controller_command_invalid_state'') (\<lambda>r.
          and_then (record_id_for E (cp_key cur) r) (\<lambda>record_id.
          if (case btree_get record_id (le_host_interactions l) of None \<Rightarrow> False | Some h \<Rightarrow> hc_state h = ''resolved_pending'')
          then Inr (u\<lparr>cp_status := StRunning, cp_suspended_origin := None\<rparr>, wake_recovery (hr_logical_cycle r))
          else Inr (u\<lparr>cp_status := StHostInteraction, cp_active_host_interaction := Some r, cp_suspended_origin := None\<rparr>, wake_none)))
     else Inl ''controller_command_invalid_state'')"

definition resume_effect :: "env \<Rightarrow> ledger \<Rightarrow> checkpoint \<Rightarrow> checkpoint \<Rightarrow> string \<Rightarrow> err + command_effect" where
  "resume_effect E l cur u command_id =
    and_then (ensure (cp_status cur = StSuspended) ''controller_command_invalid_state'') (\<lambda>_.
    and_then (ok_or (cp_suspended_origin cur) ''controller_command_invalid_state'') (\<lambda>origin.
    and_then (resume_target E l cur u origin) (\<lambda>(u', wake).
    and_then (append_control_event E (u'\<lparr>cp_revision := cp_revision cur + 1\<rparr>) command_id
      (CheckpointResumed (cp_key cur) (cp_resume_attempt cur))) (\<lambda>u''.
    validated E u'' wake None))))"

text \<open>The end that a cancellation or an abort puts to a run.\<close>

definition terminate ::
  "env \<Rightarrow> checkpoint \<Rightarrow> checkpoint \<Rightarrow> string \<Rightarrow> agent_result \<Rightarrow> string \<Rightarrow> control_payload \<Rightarrow> err + command_effect" where
  "terminate E cur u command_id result reason payload =
    and_then (close_unresolved_tools E ((release_claim u)\<lparr>cp_status := StFailed, cp_active_host_interaction := None,
      cp_suspended_origin := None, cp_terminal_result := Some (encode_agent_result E result)\<rparr>) reason) (\<lambda>u.
    and_then (append_control_event E (u\<lparr>cp_model_call_journal := [], cp_revision := cp_revision cur + 1\<rparr>) command_id
      (RunStateChanged ''failed'')) (\<lambda>u.
    and_then (append_control_event_with_result E u command_id payload result) (\<lambda>u.
    validated E u wake_none None)))"

definition cancel_effect :: "env \<Rightarrow> checkpoint \<Rightarrow> checkpoint \<Rightarrow> string \<Rightarrow> u64 \<Rightarrow> err + command_effect" where
  "cancel_effect E cur u command_id now =
    (if cp_claim_token cur \<noteq> None \<and> \<not> claim_expired cur now
     then and_then (if \<not> cp_cancel_requested cur
            then append_cancel_requested_event E (u\<lparr>cp_cancel_requested := True\<rparr>) command_id else Inr u) (\<lambda>u.
          validated E u wake_none None)
     else and_then (control_result cur CrCancelled ''Operation was cancelled'' (Some ''cancelled_with_unknown_outcome'')) (\<lambda>result.
          terminate E cur u command_id result ''cancelled'' (RunCancelled ''Operation was cancelled'')))"

definition abort_observation :: "journal_entry \<Rightarrow> resume_observation" where
  "abort_observation e = \<lparr>ro_operation_id = oj_operation_id e, ro_operation_kind = oj_kind e,
     ro_cycle_index = oj_cycle_index e, ro_state = oj_state e,
     ro_risk = ''operator abort leaves the external operation outcome unknown'',
     ro_idempotency_support = oj_idempotency_support e\<rparr>"

definition abort_effect :: "env \<Rightarrow> checkpoint \<Rightarrow> checkpoint \<Rightarrow> string \<Rightarrow> err + command_effect" where
  "abort_effect E cur u command_id =
    and_then (ensure (cp_status cur = StReconciliationRequired) ''controller_command_invalid_state'') (\<lambda>_.
    and_then (control_result cur CrFailed ''Operator accepted that the external outcome is unknown.''
      (Some ''operator_abort_with_unknown_outcome'')) (\<lambda>result.
    let observations = (case find (\<lambda>e. oj_state e = Ambiguous) (journal_entries cur) of
          None \<Rightarrow> [] | Some e \<Rightarrow> [abort_observation e])
    in terminate E cur u command_id (result\<lparr>ag_resume_observations := observations\<rparr>) ''operator_abort'' (RunFailed ''failed'')))"

fun command_effect_of ::
  "env \<Rightarrow> ledger \<Rightarrow> checkpoint \<Rightarrow> checkpoint \<Rightarrow> controller_command \<Rightarrow> u64 \<Rightarrow> command_kind \<Rightarrow> err + command_effect" where
  "command_effect_of E l cur u cmd now
     (HostInteractionResponse interaction_id logical_cycle operation_id tool_call_id request_digest response) =
     respond_effect E l cur u cmd interaction_id logical_cycle operation_id tool_call_id request_digest response"
| "command_effect_of E l cur u cmd now Suspend_Command = suspend_effect E cur u (cc_command_id cmd)"
| "command_effect_of E l cur u cmd now Resume_Command = resume_effect E l cur u (cc_command_id cmd)"
| "command_effect_of E l cur u cmd now Cancel_Command = cancel_effect E cur u (cc_command_id cmd) now"
| "command_effect_of E l cur u cmd now Abort_Command = abort_effect E cur u (cc_command_id cmd)"

fun status_str :: "checkpoint_status \<Rightarrow> string" where
  "status_str StPending = ''pending''"
| "status_str StRunning = ''running''"
| "status_str StDeferred = ''deferred''"
| "status_str StHostInteraction = ''host_interaction''"
| "status_str StSuspended = ''suspended''"
| "status_str StWaitUser = ''wait_user''"
| "status_str StCompleted = ''completed''"
| "status_str StFailed = ''failed''"
| "status_str StMaxCycles = ''max_cycles''"
| "status_str StReconciliationRequired = ''reconciliation_required''"

definition receipt_of :: "controller_command \<Rightarrow> checkpoint \<Rightarrow> command_wake \<Rightarrow> command_receipt" where
  "receipt_of cmd u wake =
    \<lparr>kr_schema_version = CONTROLLER_COMMAND_RECEIPT_SCHEMA, kr_command_id = cc_command_id cmd,
     kr_command_digest = cc_command_digest cmd, kr_handle = cc_handle cmd, kr_resume_attempt = cc_resume_attempt cmd,
     kr_expected_revision = cc_expected_revision cmd, kr_resulting_revision = cp_revision u,
     kr_resulting_status = status_str (cp_status u),
     kr_outbox_state = (if wk_action wake = ''recovery_dispatch'' then ''pending'' else ''delivered''),
     kr_outbox_action = wk_action wake, kr_outbox_destination = wk_destination wake, kr_outbox_attempt = 0\<rparr>"

definition put_host :: "string \<Rightarrow> host_record \<Rightarrow> store \<Rightarrow> store" where
  "put_host i h st = st\<lparr>sto_ledger := (sto_ledger st)\<lparr>le_host_interactions := btree_insert i h (le_host_interactions (sto_ledger st))\<rparr>\<rparr>"

text \<open>The host record is written before the receipt is validated, the checkpoint after it.\<close>

definition apply_controller_command ::
  "env \<Rightarrow> store \<Rightarrow> controller_command \<Rightarrow> u64 \<Rightarrow> store \<times> (err + command_receipt \<times> command_resolution)" where
  "apply_controller_command E st cmd now =
    (case btree_get (ch_checkpoint_key (cc_handle cmd)) (sto_checkpoints st) of
       None \<Rightarrow> (st, Inl ''controller_command_stale'')
     | Some cur \<Rightarrow>
         (case and_then (command_guard cur cmd now) (\<lambda>_.
               and_then (drop_expired_claim cur (cc_command cmd) now) (\<lambda>u.
               command_effect_of E (sto_ledger st) cur u cmd now (cc_command cmd))) of
            Inl e \<Rightarrow> (st, Inl e)
          | Inr (u, wake, rec) \<Rightarrow>
              (let st = (case rec of None \<Rightarrow> st | Some (i, h) \<Rightarrow> put_host i h st);
                   receipt = receipt_of cmd u wake
               in case command_receipt_validate receipt of
                    Inl e \<Rightarrow> (st, Inl e)
                  | Inr _ \<Rightarrow> (put_checkpoint (cp_key cur) u st, Inr (receipt, CommandApplied receipt wake)))))"

definition put_command :: "controller_command \<Rightarrow> command_receipt \<Rightarrow> command_resolution \<Rightarrow> store \<Rightarrow> store" where
  "put_command cmd receipt resolution st = st\<lparr>sto_ledger := (sto_ledger st)
     \<lparr>le_command_receipts := btree_insert (cc_command_id cmd) (receipt, resolution) (le_command_receipts (sto_ledger st)),
      le_commands := btree_insert (cc_command_id cmd) cmd (le_commands (sto_ledger st))\<rparr>\<rparr>"

definition admit_controller_command :: "env \<Rightarrow> store \<Rightarrow> controller_command \<Rightarrow> u64 \<Rightarrow> store \<times> (err + command_receipt)" where
  "admit_controller_command E st cmd now =
    (case command_validate E cmd of
       Inl e \<Rightarrow> (st, Inl e)
     | Inr _ \<Rightarrow>
         (case btree_get (cc_command_id cmd) (le_command_receipts (sto_ledger st)) of
            Some (receipt, _) \<Rightarrow>
              (st, if kr_command_digest receipt = cc_command_digest cmd then Inr receipt else Inl ''controller_command_conflict'')
          | None \<Rightarrow>
              (case apply_controller_command E st cmd now of
                 (st', Inl e) \<Rightarrow> (st', Inl e)
               | (st', Inr (receipt, resolution)) \<Rightarrow> (put_command cmd receipt resolution st', Inr receipt))))"

fun replay_resolution :: "command_resolution \<Rightarrow> command_resolution" where
  "replay_resolution (CommandApplied receipt wake) = CommandReplayed receipt wake"
| "replay_resolution (CommandReplayed receipt wake) = CommandReplayed receipt wake"
| "replay_resolution (CommandRejected e) = CommandRejected e"

text \<open>A command that comes too late is an answer and not an error; it leaves no receipt.\<close>

definition resolve_controller_command :: "env \<Rightarrow> store \<Rightarrow> controller_command \<Rightarrow> u64 \<Rightarrow> store \<times> (err + command_resolution)" where
  "resolve_controller_command E st cmd now =
    (case command_validate E cmd of
       Inl e \<Rightarrow> (st, Inl e)
     | Inr _ \<Rightarrow>
         (case btree_get (cc_command_id cmd) (le_command_receipts (sto_ledger st)) of
            Some (receipt, resolution) \<Rightarrow>
              (st, if kr_command_digest receipt = cc_command_digest cmd then Inr (replay_resolution resolution)
                else Inl ''controller_command_conflict'')
          | None \<Rightarrow>
              (case apply_controller_command E st cmd now of
                 (st', Inl e) \<Rightarrow>
                   (st', if e \<in> {''controller_command_stale'', ''controller_command_terminal''} then Inr (CommandRejected e) else Inl e)
               | (st', Inr (receipt, resolution)) \<Rightarrow> (put_command cmd receipt resolution st', Inr resolution))))"

definition get_controller_command_receipt :: "store \<Rightarrow> string \<Rightarrow> command_receipt option" where
  "get_controller_command_receipt st i = map_option fst (btree_get i (le_command_receipts (sto_ledger st)))"

definition get_controller_command :: "store \<Rightarrow> string \<Rightarrow> controller_command option" where
  "get_controller_command st i = btree_get i (le_commands (sto_ledger st))"

section \<open>Wakes\<close>

fun resolution_with_receipt :: "command_resolution \<Rightarrow> command_receipt \<Rightarrow> command_resolution" where
  "resolution_with_receipt (CommandApplied _ wake) receipt = CommandApplied receipt wake"
| "resolution_with_receipt (CommandReplayed _ wake) receipt = CommandReplayed receipt wake"
| "resolution_with_receipt (CommandRejected e) receipt = CommandRejected e"

text \<open>A receipt is replaced together with its resolution and the lease of its wake.\<close>

definition put_wake :: "string \<Rightarrow> command_receipt \<Rightarrow> command_resolution \<Rightarrow> wake_lease option \<Rightarrow> ledger \<Rightarrow> ledger" where
  "put_wake i r resolution lease l =
    l\<lparr>le_wake_leases := (case lease of None \<Rightarrow> btree_remove i (le_wake_leases l) | Some w \<Rightarrow> btree_insert i w (le_wake_leases l)),
      le_command_receipts := btree_insert i (r, resolution_with_receipt resolution r) (le_command_receipts l)\<rparr>"

definition wake_lease_of :: "ledger \<Rightarrow> string \<Rightarrow> wake_lease option" where
  "wake_lease_of l i = btree_get i (le_wake_leases l)"

definition update_ledger :: "store \<Rightarrow> ledger \<Rightarrow> store" where
  "update_ledger st l = st\<lparr>sto_ledger := l\<rparr>"

text \<open>
  The common frame of the calls on one wake: the row of the digest, and a changed receipt that is
  valid, written with the lease it has from now on.
\<close>

definition wake_write ::
  "store \<Rightarrow> string \<Rightarrow> string \<Rightarrow> (command_receipt \<Rightarrow> wake_lease option \<Rightarrow> err + command_receipt + command_receipt \<times> wake_lease option) \<Rightarrow>
   store \<times> (err + command_receipt option)" where
  "wake_write st i digest f =
    (case btree_get i (le_command_receipts (sto_ledger st)) of
       None \<Rightarrow> (st, Inr None)
     | Some (r, resolution) \<Rightarrow>
         if kr_command_digest r \<noteq> digest then (st, Inl ''controller_command_conflict'')
         else case f r (wake_lease_of (sto_ledger st) i) of
           Inl e \<Rightarrow> (st, Inl e)
         | Inr (Inl same) \<Rightarrow> (st, Inr (Some same))
         | Inr (Inr (r', lease)) \<Rightarrow>
             (case command_receipt_validate r' of
                Inl e \<Rightarrow> (st, Inl e)
              | Inr _ \<Rightarrow> (update_ledger st (put_wake i r' resolution lease (sto_ledger st)), Inr (Some r'))))"

text \<open>The owner of a wake whose lease still runs.\<close>

definition live_wake :: "command_receipt \<Rightarrow> wake_lease option \<Rightarrow> u64 \<Rightarrow> string option" where
  "live_wake r w now =
    (case w of
       None \<Rightarrow> None
     | Some w \<Rightarrow> if kr_outbox_state r = ''claimed'' \<and> wl_lease_expires_at_ms w > now then Some (wl_claim_token w) else None)"

definition claim_wake_row ::
  "string \<Rightarrow> u64 \<Rightarrow> u64 \<Rightarrow> command_receipt \<Rightarrow> wake_lease option \<Rightarrow> err + command_receipt + command_receipt \<times> wake_lease option" where
  "claim_wake_row token lease now r w =
    (if kr_outbox_action r = ''none'' \<or> kr_outbox_state r = ''delivered'' \<or> kr_outbox_state r = ''ambiguous''
     then if kr_outbox_state r = ''ambiguous'' then Inl ''controller_command_outbox_stale'' else Inr (Inl r)
     else case live_wake r w now of
       Some owner \<Rightarrow> if owner = token then Inr (Inl r) else Inl ''controller_command_outbox_stale''
     | None \<Rightarrow>
         and_then (ok_or (checked_add (kr_outbox_attempt r) 1) ''controller_command_outbox_invalid'') (\<lambda>attempt.
         Inr (Inr (r\<lparr>kr_outbox_state := ''claimed'', kr_outbox_attempt := attempt\<rparr>,
           Some \<lparr>wl_claim_token = token, wl_lease_expires_at_ms = lease\<rparr>))))"

definition claim_controller_command_wake ::
  "store \<Rightarrow> string \<Rightarrow> string \<Rightarrow> string \<Rightarrow> u64 \<Rightarrow> u64 \<Rightarrow> store \<times> (err + command_receipt option)" where
  "claim_controller_command_wake st i digest token lease now =
    (if is_blank token \<or> lease \<le> now then (st, Inl ''controller_command_outbox_invalid'')
     else wake_write st i digest (claim_wake_row token lease now))"

definition complete_wake_row ::
  "string \<Rightarrow> u64 \<Rightarrow> string \<Rightarrow> command_receipt \<Rightarrow> wake_lease option \<Rightarrow> err + command_receipt + command_receipt \<times> wake_lease option" where
  "complete_wake_row token attempt outcome r w =
    (if kr_outbox_state r = ''delivered'' \<or> kr_outbox_state r = ''ambiguous''
     then if kr_outbox_state r = outcome then Inr (Inl r) else Inl ''controller_command_stale''
     else if kr_outbox_state r \<noteq> ''claimed'' \<or> kr_outbox_attempt r \<noteq> attempt \<or> map_option wl_claim_token w \<noteq> Some token
     then Inl ''controller_command_outbox_stale''
     else Inr (Inr (r\<lparr>kr_outbox_state := outcome\<rparr>, None)))"

definition complete_controller_command_wake ::
  "store \<Rightarrow> string \<Rightarrow> string \<Rightarrow> string \<Rightarrow> u64 \<Rightarrow> string \<Rightarrow> store \<times> (err + command_receipt option)" where
  "complete_controller_command_wake st i digest token attempt outcome =
    (if outcome \<noteq> ''delivered'' \<and> outcome \<noteq> ''ambiguous'' then (st, Inl ''controller_command_outbox_invalid'')
     else wake_write st i digest (complete_wake_row token attempt outcome))"

text \<open>Reconciliation writes its outcome into the receipt as the state of the outbox, and leaves the lease.\<close>

definition reconcile_wake_row ::
  "string \<Rightarrow> command_receipt \<Rightarrow> wake_lease option \<Rightarrow> err + command_receipt + command_receipt \<times> wake_lease option" where
  "reconcile_wake_row outcome r w =
    (if kr_outbox_state r \<noteq> ''ambiguous'' then Inl ''controller_command_outbox_stale''
     else Inr (Inr (r\<lparr>kr_outbox_state := outcome\<rparr>, w)))"

definition reconcile_controller_command_wake ::
  "store \<Rightarrow> string \<Rightarrow> string \<Rightarrow> string \<Rightarrow> store \<times> (err + command_receipt option)" where
  "reconcile_controller_command_wake st i digest outcome =
    (if outcome \<noteq> ''delivered'' \<and> outcome \<noteq> ''retry'' then (st, Inl ''controller_command_outbox_invalid'')
     else wake_write st i digest (reconcile_wake_row outcome))"

definition expired_wake :: "ledger \<Rightarrow> u64 \<Rightarrow> string \<Rightarrow> command_receipt \<Rightarrow> bool" where
  "expired_wake l now i r \<longleftrightarrow> kr_outbox_state r = ''claimed'' \<and>
     (case wake_lease_of l i of None \<Rightarrow> False | Some w \<Rightarrow> wl_lease_expires_at_ms w \<le> now)"

text \<open>The wakes of a checkpoint that nobody works on, by the revision they were admitted at and by their identity.\<close>

definition wake_candidates :: "ledger \<Rightarrow> string \<Rightarrow> u64 \<Rightarrow> string list" where
  "wake_candidates l key now =
    map snd (sort (map (\<lambda>(i, r, _). (kr_expected_revision r, i))
      (filter (\<lambda>(i, r, _). ch_checkpoint_key (kr_handle r) = key \<and> kr_outbox_action r = ''recovery_dispatch'' \<and>
         (kr_outbox_state r = ''pending'' \<or> expired_wake l now i r)) (le_command_receipts l))))"

definition wake_record_of :: "env \<Rightarrow> command_receipt \<Rightarrow> err + wake_record" where
  "wake_record_of E r =
    and_then (controller_receipt_outbox_id E (kr_command_id r) (kr_command_digest r)) (\<lambda>outbox_id.
    from_receipt_lifecycle E r outbox_id (kr_outbox_attempt r) None None None None)"

text \<open>An error of the loop leaves the wakes that were reaped before it released.\<close>

fun reap_loop :: "env \<Rightarrow> string \<Rightarrow> u64 \<Rightarrow> string list \<Rightarrow> wake_record list \<Rightarrow> ledger \<Rightarrow> ledger \<times> (err + wake_record list)" where
  "reap_loop E key now [] reaped l = (l, Inr reaped)"
| "reap_loop E key now (i # is) reaped l =
     (case btree_get i (le_command_receipts l) of
        None \<Rightarrow> reap_loop E key now is reaped l
      | Some (r, resolution) \<Rightarrow>
          if ch_checkpoint_key (kr_handle r) \<noteq> key \<or> kr_outbox_action r \<noteq> ''recovery_dispatch'' then reap_loop E key now is reaped l
          else if kr_outbox_state r = ''pending''
          then (case wake_record_of E r of
                  Inl e \<Rightarrow> (l, Inl e)
                | Inr w \<Rightarrow> reap_loop E key now is (reaped @ [w]) l)
          else if \<not> expired_wake l now i r then reap_loop E key now is reaped l
          else (let r' = r\<lparr>kr_outbox_state := ''pending''\<rparr>
                in case command_receipt_validate r' of
                     Inl e \<Rightarrow> (l, Inl e)
                   | Inr _ \<Rightarrow>
                       (let l' = put_wake i r' resolution None l
                        in case wake_record_of E r' of
                             Inl e \<Rightarrow> (l', Inl e)
                           | Inr w \<Rightarrow> reap_loop E key now is (reaped @ [w]) l')))"

definition reap_controller_command_wakes :: "env \<Rightarrow> store \<Rightarrow> string \<Rightarrow> u64 \<Rightarrow> store \<times> (err + wake_record list)" where
  "reap_controller_command_wakes E st key now =
    (case reap_loop E key now (wake_candidates (sto_ledger st) key now) [] (sto_ledger st) of
       (l, res) \<Rightarrow> (update_ledger st l, res))"

section \<open>Notifications\<close>

definition put_notification :: "string \<Rightarrow> notification_record \<Rightarrow> store \<Rightarrow> store" where
  "put_notification i n st = st\<lparr>sto_ledger := (sto_ledger st)\<lparr>le_notifications := btree_insert i n (le_notifications (sto_ledger st))\<rparr>\<rparr>"

text \<open>The common frame: the row of the digest, and a changed row that is valid.\<close>

definition notification_write ::
  "env \<Rightarrow> store \<Rightarrow> string \<Rightarrow> string \<Rightarrow> (notification_record \<Rightarrow> err + notification_record + notification_record) \<Rightarrow>
   store \<times> (err + notification_record option)" where
  "notification_write E st i digest f =
    (case btree_get i (le_notifications (sto_ledger st)) of
       None \<Rightarrow> (st, Inr None)
     | Some row \<Rightarrow>
         if nr_payload_digest row \<noteq> digest then (st, Inl ''notification_conflict'')
         else case f row of
           Inl e \<Rightarrow> (st, Inl e)
         | Inr (Inl same) \<Rightarrow> (st, Inr (Some same))
         | Inr (Inr row') \<Rightarrow>
             (case notification_validate E row' of
                Inl e \<Rightarrow> (st, Inl e)
              | Inr _ \<Rightarrow> (put_notification i row' st, Inr (Some row'))))"

definition claim_notification_row :: "string \<Rightarrow> u64 \<Rightarrow> u64 \<Rightarrow> notification_record \<Rightarrow> err + notification_record + notification_record" where
  "claim_notification_row token lease now row =
    (if nr_outbox_state row \<in> {NDelivered, NAborted} then Inr (Inl row)
     else if nr_outbox_state row = NClaimed \<and> nr_claim_token row \<noteq> Some token \<and>
       (case nr_lease_expires_at_ms row of None \<Rightarrow> False | Some t \<Rightarrow> t > now) then Inl ''notification_stale''
     else and_then (ok_or (checked_add (nr_attempt row) 1) ''notification_conflict'') (\<lambda>attempt.
          Inr (Inr (row\<lparr>nr_outbox_state := NClaimed, nr_claim_token := Some token, nr_lease_expires_at_ms := Some lease,
            nr_attempt := attempt\<rparr>))))"

definition claim_host_interaction_notification ::
  "env \<Rightarrow> store \<Rightarrow> string \<Rightarrow> string \<Rightarrow> string \<Rightarrow> u64 \<Rightarrow> u64 \<Rightarrow> store \<times> (err + notification_record option)" where
  "claim_host_interaction_notification E st i digest token lease now =
    (if is_blank token \<or> lease \<le> now then (st, Inl ''notification_conflict'')
     else notification_write E st i digest (claim_notification_row token lease now))"

definition get_host_interaction_notification :: "store \<Rightarrow> string \<Rightarrow> notification_record option" where
  "get_host_interaction_notification st i = btree_get i (le_notifications (sto_ledger st))"

definition complete_notification_row ::
  "string \<Rightarrow> u64 \<Rightarrow> string \<Rightarrow> u64 \<Rightarrow> string option \<Rightarrow> notification_record \<Rightarrow> err + notification_record + notification_record" where
  "complete_notification_row token attempt outcome now message row =
    (if nr_outbox_state row \<noteq> NClaimed \<or> nr_claim_token row \<noteq> Some token \<or> nr_attempt row \<noteq> attempt
     then Inl ''notification_stale''
     else Inr (Inr (row\<lparr>nr_outbox_state := (if outcome = ''delivered'' then NDelivered else NAmbiguous),
       nr_claim_token := None, nr_lease_expires_at_ms := None,
       nr_delivered_at_ms := (if outcome = ''delivered'' then Some now else None), nr_last_error := message\<rparr>)))"

definition complete_host_interaction_notification ::
  "env \<Rightarrow> store \<Rightarrow> string \<Rightarrow> string \<Rightarrow> string \<Rightarrow> u64 \<Rightarrow> string \<Rightarrow> u64 \<Rightarrow> string option \<Rightarrow> store \<times> (err + notification_record option)" where
  "complete_host_interaction_notification E st i digest token attempt outcome now message =
    (if outcome \<notin> {''delivered'', ''ambiguous''} then (st, Inl ''notification_conflict'')
     else notification_write E st i digest (complete_notification_row token attempt outcome now message))"

definition reconcile_notification_row ::
  "notification_state \<Rightarrow> u64 \<Rightarrow> string option \<Rightarrow> notification_record \<Rightarrow> err + notification_record + notification_record" where
  "reconcile_notification_row target now abort_reason row =
    (if nr_outbox_state row = target then Inr (Inl row)
     else if nr_outbox_state row \<noteq> NAmbiguous then Inl ''notification_stale''
     else Inr (Inr (row\<lparr>nr_outbox_state := target,
       nr_delivered_at_ms := (if target = NDelivered then Some now else None),
       nr_aborted_at_ms := (if target = NAborted then Some now else None),
       nr_abort_reason := (if target = NAborted then abort_reason else None)\<rparr>)))"

definition reconcile_target :: "string \<Rightarrow> notification_state" where
  "reconcile_target outcome = (if outcome = ''delivered'' then NDelivered else if outcome = ''retry'' then NPending else NAborted)"

definition reconcile_host_interaction_notification ::
  "env \<Rightarrow> store \<Rightarrow> string \<Rightarrow> string \<Rightarrow> string \<Rightarrow> u64 \<Rightarrow> string option \<Rightarrow> store \<times> (err + notification_record option)" where
  "reconcile_host_interaction_notification E st i digest outcome now abort_reason =
    (if outcome \<notin> {''delivered'', ''retry'', ''abort''} then (st, Inl ''notification_conflict'')
     else if outcome = ''abort'' \<and> (case abort_reason of None \<Rightarrow> True | Some s \<Rightarrow> \<not> fits CONTENT_MAX s)
     then (st, Inl ''notification_conflict'')
     else notification_write E st i digest (reconcile_notification_row (reconcile_target outcome) now abort_reason))"

section \<open>Questions to the host\<close>

definition host_tool_result :: "env \<Rightarrow> checkpoint \<Rightarrow> host_request \<Rightarrow> err + tool_result" where
  "host_tool_result E snap q =
    and_then (ok_or (find (\<lambda>y. cy_index y = hr_logical_cycle q) (cp_cycles snap)) ''host_interaction_conflict'') (\<lambda>y.
    and_then (ensure (cy_tool_calls y = map tr_tool_call_id (cy_tool_results y)) ''host_interaction_conflict'') (\<lambda>_.
    and_then (ok_or (find (\<lambda>r. tr_tool_call_id r = hr_tool_call_id q) (cy_tool_results y)) ''host_interaction_conflict'') (\<lambda>r.
    and_then (outcome_validate E (OutcomeHostInteraction r q)) (\<lambda>_. Inr r))))"

definition validate_host_tool_receipt_replay :: "env \<Rightarrow> checkpoint \<Rightarrow> host_request \<Rightarrow> admission_context \<Rightarrow> err + unit" where
  "validate_host_tool_receipt_replay E cur q x =
    and_then (ensure (\<not> cp_revision cur \<le> ac_expected_revision x) ''host_interaction_stale'') (\<lambda>_.
    case ac_cycle_snapshot x of
      None \<Rightarrow> Inr ()
    | Some snap \<Rightarrow>
        and_then (host_tool_result E cur q) (\<lambda>a.
        and_then (host_tool_result E snap q) (\<lambda>b. ensure (a = b) ''host_interaction_conflict'')))"

definition validate_host_recovery_cycle :: "env \<Rightarrow> checkpoint \<Rightarrow> host_request \<Rightarrow> err + unit" where
  "validate_host_recovery_cycle E cur q =
    (if checked_add (cp_cycle_index cur) 1 = Some (hr_logical_cycle q) then Inr ()
     else if cp_cycle_index cur \<noteq> hr_logical_cycle q then Inl ''host_interaction_recovery_stale''
     else and_then (host_tool_result E cur q) (\<lambda>_. Inr ()))"

text \<open>The cycle that asked the question is committed with the receipt of the asking tool.\<close>

definition commit_asking_cycle ::
  "env \<Rightarrow> checkpoint \<Rightarrow> host_request \<Rightarrow> admission_context \<Rightarrow> checkpoint \<Rightarrow> err + checkpoint" where
  "commit_asking_cycle E cur q x completed =
    and_then (ensure (checkpoint_definition_matches cur completed \<and> cp_key completed = cp_key cur \<and>
      cp_revision completed = cp_revision cur \<and> cp_cycles completed \<noteq> [] \<and>
      cy_index (last (cp_cycles completed)) = hr_logical_cycle q) ''host_interaction_stale'') (\<lambda>_.
    and_then (host_tool_result E completed q) (\<lambda>r.
    and_then (ok_or (find (\<lambda>e. oj_operation_id e = hr_operation_id q \<and> oj_tool_call_id e = Some (hr_tool_call_id q) \<and>
      oj_cycle_index e = hr_logical_cycle q) (cp_tool_journal cur)) ''host_interaction_conflict'') (\<lambda>e.
    and_then (prepare_tool_receipt E cur cur (oj_operation_id e) (oj_attempt e) (hr_tool_call_id q) (oj_request_digest e) r
      (ac_claim_token x) (ac_expected_revision x) (ac_claimed_cycle x)) (\<lambda>received.
    and_then (ok_or received ''host_interaction_conflict'') (\<lambda>u.
    and_then (ensure (list_all (\<lambda>e. oj_state e \<in> {Succeeded, Failed}) (journal_entries u)) ''host_interaction_conflict'') (\<lambda>_.
    Inr (u\<lparr>cp_messages := cp_messages completed, cp_cycles := cp_cycles completed,
      cp_shared_state := cp_shared_state completed, cp_extension_state := cp_extension_state completed,
      cp_budget_usage := cp_budget_usage completed, cp_cycle_index := hr_logical_cycle q,
      cp_model_call_journal := [], cp_tool_journal := []\<rparr>)))))))"

definition prepare_host_interaction_cycle :: "env \<Rightarrow> checkpoint \<Rightarrow> host_request \<Rightarrow> admission_context \<Rightarrow> err + checkpoint" where
  "prepare_host_interaction_cycle E cur q x =
    and_then (ensure (\<not> cp_cancel_requested cur) ''checkpoint_cancel_requested'') (\<lambda>_.
    case ac_cycle_snapshot x of
      None \<Rightarrow>
        and_then (ensure (cp_model_call_journal cur = [] \<and> cp_tool_journal cur = []) ''host_interaction_conflict'') (\<lambda>_. Inr cur)
    | Some completed \<Rightarrow> commit_asking_cycle E cur q x completed)"

definition host_interaction_outcome :: "host_request \<Rightarrow> u64 \<Rightarrow> string \<Rightarrow> string \<Rightarrow> notification_record \<Rightarrow> err + host_outcome" where
  "host_interaction_outcome q revision status record_id n =
    (let x = \<lparr>ho_schema_version = HOST_INTERACTION_OUTCOME_SCHEMA, ho_interaction_id = hr_interaction_id q,
           ho_logical_cycle = hr_logical_cycle q, ho_checkpoint_revision = revision, ho_status = status,
           ho_outbox_state = ''pending'', ho_record_id = record_id, ho_notification_id = nr_notification_id n,
           ho_notification_payload_digest = nr_payload_digest n,
           ho_notification_outbox_action = ''host_interaction_notification'',
           ho_notification_outbox_destination = ''host_interaction_observer''\<rparr>
     in and_then (host_outcome_validate x) (\<lambda>_. Inr x))"

definition replayed_outcome :: "env \<Rightarrow> ledger \<Rightarrow> host_request \<Rightarrow> u64 \<Rightarrow> string \<Rightarrow> err + host_outcome" where
  "replayed_outcome E l q revision record_id =
    and_then (notification_id_for E record_id) (\<lambda>i.
    and_then (ok_or (btree_get i (le_notifications l)) ''host_interaction_conflict'') (\<lambda>n.
    host_interaction_outcome q revision ''replayed'' record_id n))"

definition new_notification :: "env \<Rightarrow> string \<Rightarrow> string \<Rightarrow> host_request \<Rightarrow> err + string \<times> notification_record" where
  "new_notification E key record_id q =
    and_then (notification_id_for E record_id) (\<lambda>i.
    let payload = \<lparr>np_schema_version = HOST_INTERACTION_NOTIFICATION_SCHEMA, np_notification_id = i, np_record_id = record_id,
          np_interaction_id = hr_interaction_id q, np_logical_cycle = hr_logical_cycle q, np_status = ''host_interaction'',
          np_wait_reason = ''host_interaction'', np_prompt = hr_prompt q\<rparr>
    in and_then (notification_payload_validate E payload) (\<lambda>_.
       and_then (notification_payload_digest E payload) (\<lambda>d.
       let n = \<lparr>nr_notification_id = i, nr_checkpoint_key = key, nr_record_id = record_id, nr_payload = payload,
             nr_payload_digest = d, nr_outbox_state = NPending, nr_claim_token = None, nr_lease_expires_at_ms = None,
             nr_attempt = 0, nr_delivered_at_ms = None, nr_aborted_at_ms = None, nr_abort_reason = None, nr_last_error = None\<rparr>
       in and_then (notification_validate E n) (\<lambda>_. Inr (i, n)))))"

definition new_host_record :: "env \<Rightarrow> string \<Rightarrow> string \<Rightarrow> host_request \<Rightarrow> err + host_record" where
  "new_host_record E key record_id q =
    (let h = \<lparr>hc_schema_version = HOST_INTERACTION_RECORD_SCHEMA, hc_record_id = record_id, hc_checkpoint_key = key,
           hc_interaction_id = hr_interaction_id q, hc_logical_cycle = hr_logical_cycle q, hc_attempt = 0,
           hc_claim_token = None, hc_lease_expires_at_ms = None, hc_request = q, hc_request_digest = hr_request_digest q,
           hc_state = ''active'', hc_response = None, hc_response_digest = None, hc_command_id = None,
           hc_resolved_revision = None, hc_consumed_revision = None, hc_last_error = None\<rparr>
     in and_then (host_record_validate E h) (\<lambda>_. Inr h))"

text \<open>What an admitted question leaves: the waiting checkpoint, the record, the notification and the answer.\<close>

definition question_event :: "checkpoint \<Rightarrow> host_request \<Rightarrow> control_payload" where
  "question_event c q = HostInteractionRequested (cp_key c) (cp_resume_attempt c) (hr_interaction_id q) (hr_logical_cycle q)
     (hr_operation_id q) (hr_tool_call_id q) (hr_request_digest q) (hr_prompt q)"

definition question_event_value :: "env \<Rightarrow> checkpoint \<Rightarrow> host_request \<Rightarrow> string \<Rightarrow> err + json" where
  "question_event_value E cur q event_id =
    and_then (ensure (\<not> is_blank event_id) ''event_identity_conflict'') (\<lambda>_.
    ok_or (control_event_value E (cp_root_run_id cur) (cp_trace_id cur) (Some (saturating_sub (hr_logical_cycle q) 1))
      (question_event cur q) None event_id) ''checkpoint_event_invalid'')"

definition ask_host ::
  "env \<Rightarrow> checkpoint \<Rightarrow> host_request \<Rightarrow> admission_context \<Rightarrow> string \<Rightarrow>
   err + checkpoint \<times> host_record \<times> (string \<times> notification_record) \<times> host_outcome" where
  "ask_host E cur q x record_id =
    (let key = ac_checkpoint_key x; event_id = ''host-interaction-requested-'' @ record_id in
     and_then (new_notification E key record_id q) (\<lambda>n.
     and_then (new_host_record E key record_id q) (\<lambda>h.
     and_then (ensure (hr_logical_cycle q \<le> u32_max) ''host_interaction_cycle_invalid'') (\<lambda>_.
     and_then (question_event_value E cur q event_id) (\<lambda>event.
     and_then (prepare_host_interaction_cycle E cur q x) (\<lambda>u.
     and_then (ok_or (checked_add (cp_revision cur) 1) ''checkpoint_revision_overflow'') (\<lambda>revision.
     and_then (pending_entry E event_id event) (\<lambda>b.
     let u = push_event b ((release_claim u)\<lparr>cp_status := StHostInteraction, cp_active_host_interaction := Some q,
           cp_revision := revision\<rparr>)
     in and_then (validate_checkpoint E u) (\<lambda>_.
        and_then (host_interaction_outcome q revision ''admitted'' record_id (snd n)) (\<lambda>out.
        Inr (u, h, n, out)))))))))))"

definition retained_interaction :: "ledger \<Rightarrow> string \<Rightarrow> string \<Rightarrow> (string \<times> host_record) option" where
  "retained_interaction l key interaction_id =
    find (\<lambda>(_, h). hc_checkpoint_key h = key \<and> hc_interaction_id h = interaction_id) (le_host_interactions l)"

text \<open>The claim that a worker needs to ask a question.\<close>

definition asking_claim_ok :: "checkpoint \<Rightarrow> host_request \<Rightarrow> admission_context \<Rightarrow> bool" where
  "asking_claim_ok c q x \<longleftrightarrow> cp_status c = StRunning \<and> cp_revision c = ac_expected_revision x \<and>
     cp_claim_token c = Some (ac_claim_token x) \<and> cp_claimed_cycle c = Some (ac_claimed_cycle x) \<and>
     hr_logical_cycle q = ac_claimed_cycle x \<and> cp_lease_expires_at_ms c = Some (ac_lease_expires_at_ms x) \<and>
     is_ok (validate_live_lease x)"

definition admit_question ::
  "env \<Rightarrow> store \<Rightarrow> checkpoint \<Rightarrow> host_request \<Rightarrow> admission_context \<Rightarrow> string \<Rightarrow> store \<times> (err + host_outcome)" where
  "admit_question E st cur q x record_id =
    (case ask_host E cur q x record_id of
       Inl e \<Rightarrow> (st, Inl e)
     | Inr (u, h, (i, n), out) \<Rightarrow>
         (case persist_history E st u of
            (st', Inl e) \<Rightarrow> (st', Inl e)
          | (st', Inr c) \<Rightarrow>
              (put_notification i n (put_host record_id h (put_checkpoint (ac_checkpoint_key x) c st')), Inr out)))"

definition produce_host_interaction ::
  "env \<Rightarrow> store \<Rightarrow> host_request \<Rightarrow> admission_context \<Rightarrow> store \<times> (err + host_outcome)" where
  "produce_host_interaction E st q x =
    (let l = sto_ledger st; key = ac_checkpoint_key x in
     case and_then (host_request_validate E q) (\<lambda>_. admission_validate x) of
       Inl e \<Rightarrow> (st, Inl e)
     | Inr _ \<Rightarrow>
         (case retained_interaction l key (hr_interaction_id q) of
            Some (record_id, existing) \<Rightarrow>
              (st, and_then (ensure (hc_request existing = q) ''host_interaction_conflict'') (\<lambda>_.
                   and_then (ok_or (btree_get (hc_checkpoint_key existing) (sto_checkpoints st)) ''host_interaction_conflict'') (\<lambda>c.
                   and_then (validate_host_tool_receipt_replay E c q x) (\<lambda>_.
                   replayed_outcome E l q (cp_revision c) record_id))))
          | None \<Rightarrow>
              (case btree_get key (sto_checkpoints st) of
                 None \<Rightarrow> (st, Inl ''host_interaction_claim_required'')
               | Some cur \<Rightarrow>
                   if \<not> asking_claim_ok cur q x then (st, Inl ''host_interaction_claim_required'')
                   else case record_id_for E key q of
                     Inl e \<Rightarrow> (st, Inl e)
                   | Inr record_id \<Rightarrow>
                       (case btree_get record_id (le_host_interactions l) of
                          Some existing \<Rightarrow>
                            (st, if hc_request existing = q \<and> hc_checkpoint_key existing = cp_key cur \<and>
                                   hc_logical_cycle existing = hr_logical_cycle q
                                 then replayed_outcome E l q (cp_revision cur) record_id
                                 else Inl ''host_interaction_conflict'')
                        | None \<Rightarrow> admit_question E st cur q x record_id))))"

section \<open>Answers of the host\<close>

definition find_resolved_pending_host_interaction :: "store \<Rightarrow> string \<Rightarrow> err + host_record option" where
  "find_resolved_pending_host_interaction st key =
    (case filter (\<lambda>h. hc_checkpoint_key h = key \<and> hc_state h = ''resolved_pending'')
       (map snd (le_host_interactions (sto_ledger st))) of
       [] \<Rightarrow> Inr None
     | [h] \<Rightarrow> Inr (Some h)
     | _ \<Rightarrow> Inl ''host_interaction_recovery_stale'')"

definition recovery_identity_matches :: "checkpoint \<Rightarrow> host_record \<Rightarrow> recovery_envelope \<Rightarrow> bool" where
  "recovery_identity_matches c h v \<longleftrightarrow>
     cp_key c = rv_checkpoint_key v \<and> cp_root_run_id c = rv_run_id v \<and> cp_trace_id c = rv_trace_id v \<and>
     hc_record_id h = rv_record_id v \<and> hc_checkpoint_key h = rv_checkpoint_key v \<and> hc_logical_cycle h = rv_logical_cycle v \<and>
     hc_interaction_id h = rv_interaction_id v \<and> hr_operation_id (hc_request h) = rv_operation_id v \<and>
     hr_tool_call_id (hc_request h) = rv_tool_call_id v \<and> hc_request_digest h = rv_request_digest v \<and>
     hc_command_id h = Some (rv_command_id v)"

definition recovery_answer :: "string \<Rightarrow> string \<Rightarrow> u64 \<Rightarrow> u64 option \<Rightarrow> u64 \<Rightarrow> string \<Rightarrow> err + recovery_result" where
  "recovery_answer kind record_id revision consumed attempt claim_state =
    (let x = \<lparr>rs_schema_version = HOST_INTERACTION_RECOVERY_RESULT_SCHEMA, rs_kind = kind, rs_record_id = record_id,
           rs_checkpoint_revision = Some revision, rs_consumed_revision = consumed, rs_claim_mode = ''recovery'',
           rs_resume_attempt = Some attempt, rs_injection_count = 1, rs_claim_state = claim_state, rs_error = None\<rparr>
     in and_then (recovery_result_validate x) (\<lambda>_. Inr x))"

definition recovery_lease_deadline :: "u64 \<Rightarrow> u64" where
  "recovery_lease_deadline now = saturating_add now (5 * 60 * 1000)"

definition consumed_event :: "checkpoint \<Rightarrow> host_record \<Rightarrow> host_response \<Rightarrow> u64 \<Rightarrow> u64 \<Rightarrow> control_payload" where
  "consumed_event c h p attempt revision = HostInteractionResponseConsumed (cp_key c) attempt (hc_interaction_id h)
     (hc_logical_cycle h) (hr_operation_id (hc_request h)) (hr_tool_call_id (hc_request h)) (hc_request_digest h)
     (hp_command_id p) (hp_response_digest p) revision"

text \<open>The answer becomes a message of the user, and the run is claimed for its next cycle.\<close>

definition consume_response ::
  "env \<Rightarrow> checkpoint \<Rightarrow> host_record \<Rightarrow> recovery_envelope \<Rightarrow> u64 \<Rightarrow> err + checkpoint \<times> host_record" where
  "consume_response E cur h v now =
    and_then (ensure (recovery_identity_matches cur h v \<and> cp_revision cur = rv_expected_revision v \<and>
      cp_resume_attempt cur = rv_resume_attempt v \<and> cp_status cur = StRunning \<and> cp_claim_token cur = None \<and>
      \<not> has_ambiguous_operation cur \<and> hc_state h = ''resolved_pending'') ''host_interaction_recovery_stale'') (\<lambda>_.
    and_then (ok_or (hc_response h) ''host_interaction_recovery_stale'') (\<lambda>p.
    and_then (ok_or (checked_add (cp_cycle_index cur) 1) ''checkpoint_cycle_invalid'') (\<lambda>claimed_cycle.
    and_then (validate_host_recovery_cycle E cur (hc_request h)) (\<lambda>_.
    and_then (ok_or (checked_add (rv_resume_attempt v) 1) ''checkpoint_resume_attempt_overflow'') (\<lambda>attempt.
    and_then (ok_or (checked_add (rv_expected_revision v) 1) ''checkpoint_revision_overflow'') (\<lambda>revision.
    and_then (ensure (cp_cycle_index cur \<le> u32_max) ''host_interaction_recovery_stale'') (\<lambda>_.
    and_then (stage_control E (cur\<lparr>cp_messages := cp_messages cur @ [message_new RoleUser (hm_content (hp_response p))],
      cp_resume_attempt := attempt,
      cp_claim_token := Some (''host-recovery:'' @ hc_record_id h @ '':'' @ decimal (rv_resume_attempt v + 1)),
      cp_claimed_cycle := Some claimed_cycle, cp_lease_expires_at_ms := Some (recovery_lease_deadline now),
      cp_revision := revision\<rparr>) (Some (cp_cycle_index cur)) (consumed_event cur h p attempt revision) None
      (''host-interaction-response-consumed-'' @ hc_record_id h)) (\<lambda>u.
    and_then (validate_checkpoint E u) (\<lambda>_.
    let h' = h\<lparr>hc_state := ''consumed'', hc_consumed_revision := Some revision, hc_claim_token := None,
          hc_lease_expires_at_ms := None\<rparr>
    in and_then (host_record_validate E h') (\<lambda>_. Inr (u, h')))))))))))"

definition claim_and_consume_host_interaction_response ::
  "env \<Rightarrow> store \<Rightarrow> recovery_envelope \<Rightarrow> u64 \<Rightarrow> store \<times> (err + recovery_result)" where
  "claim_and_consume_host_interaction_response E st v now =
    (case and_then (recovery_envelope_validate v) (\<lambda>_.
          and_then (ok_or (btree_get (rv_checkpoint_key v) (sto_checkpoints st)) ''host_interaction_recovery_stale'') (\<lambda>cur.
          and_then (ok_or (btree_get (rv_record_id v) (le_host_interactions (sto_ledger st))) ''host_interaction_recovery_stale'')
            (\<lambda>h. Inr (cur, h)))) of
       Inl e \<Rightarrow> (st, Inl e)
     | Inr (cur, h) \<Rightarrow>
         if hc_state h = ''consumed''
         then (st, and_then (ensure (recovery_identity_matches cur h v) ''host_interaction_recovery_stale'') (\<lambda>_.
                   recovery_answer ''replayed'' (hc_record_id h) (cp_revision cur) (hc_consumed_revision h) (cp_resume_attempt cur)
                     (if cp_claim_token cur \<noteq> None then ''retained'' else ''released'')))
         else case consume_response E cur h v now of
           Inl e \<Rightarrow> (st, Inl e)
         | Inr (u, h') \<Rightarrow>
             (case persist_history E st u of
                (st', Inl e) \<Rightarrow> (st', Inl e)
              | (st', Inr c) \<Rightarrow>
                  (put_host (hc_record_id h') h' (put_checkpoint (rv_checkpoint_key v) c st'),
                   recovery_answer ''applied'' (hc_record_id h') (cp_revision c) (hc_consumed_revision h') (cp_resume_attempt c)
                     ''retained'')))"

definition reap_host_interaction_record :: "env \<Rightarrow> store \<Rightarrow> string \<Rightarrow> string \<Rightarrow> u64 \<Rightarrow> store \<times> (err + bool)" where
  "reap_host_interaction_record E st record_id key now =
    (let lapsed = (\<lambda>t. case t of None \<Rightarrow> False | Some lease \<Rightarrow> lease \<le> now) in
     case (btree_get record_id (le_host_interactions (sto_ledger st)), btree_get key (sto_checkpoints st)) of
       (Some h, Some c) \<Rightarrow>
         if hc_checkpoint_key h = key \<and> hc_state h = ''resolved_claimed'' \<and> hc_claim_token h \<noteq> None \<and>
            cp_status c = StRunning \<and> cp_claim_token c = hc_claim_token h \<and> cp_claim_token c \<noteq> None \<and>
            lapsed (cp_lease_expires_at_ms c) \<and> lapsed (hc_lease_expires_at_ms h)
         then (let h' = h\<lparr>hc_state := ''resolved_pending'', hc_claim_token := None, hc_lease_expires_at_ms := None,
                     hc_last_error := Some ''host_interaction_response_claim_expired''\<rparr>
               in case host_record_validate E h' of
                    Inl e \<Rightarrow> (st, Inl e)
                  | Inr _ \<Rightarrow> (put_host record_id h' st, Inr True))
         else (st, Inr False)
     | _ \<Rightarrow> (st, Inr False))"

end
