(* ===== verification/Work_Outbox.thy ===== *)
theory Work_Outbox
  imports Agent_Prelude
begin

text \<open>
  The contract of an outbox of work, which the wakes and the notifications of the controller share:
  an item is free, held by an owner with a lease, done, of unknown outcome, or dropped, and it counts
  the attempts at it. \<open>Discard\<close> removes or replaces an item. The locale \<open>work_outbox\<close> states it for a store whose calls move items by its
  steps, and shows what every such store guarantees.
\<close>

section \<open>Items\<close>

datatype phase = Free | Held string u64 | Done | Unknown | Dropped

record item =
  it_phase :: phase
  it_attempt :: u64

datatype item_op =
    Put
  | Take string u64 u64
  | Finish string u64
  | Settle
  | Expire u64
  | Discard
  | Skip

inductive item_step :: "item_op \<Rightarrow> item option \<Rightarrow> item option \<Rightarrow> bool" where
  put: "\<lbrakk>it_attempt x = 0; it_phase x \<in> {Free, Done}\<rbrakk> \<Longrightarrow> item_step Put None (Some x)"
| take: "\<lbrakk>it_phase x \<in> {Free, Unknown} \<or> (\<exists>t l. it_phase x = Held t l \<and> (l \<le> now \<or> t = token)); now < lease\<rbrakk> \<Longrightarrow>
    item_step (Take token lease now) (Some x) (Some \<lparr>it_phase = Held token lease, it_attempt = it_attempt x + 1\<rparr>)"
| finish: "\<lbrakk>it_phase x = Held token l; it_attempt x = n; p \<in> {Done, Unknown}\<rbrakk> \<Longrightarrow>
    item_step (Finish token n) (Some x) (Some (x\<lparr>it_phase := p\<rparr>))"
| settle: "\<lbrakk>it_phase x = Unknown; p \<in> {Done, Free, Dropped}\<rbrakk> \<Longrightarrow> item_step Settle (Some x) (Some (x\<lparr>it_phase := p\<rparr>))"
| expire: "\<lbrakk>it_phase x = Held t l; l \<le> now\<rbrakk> \<Longrightarrow> item_step (Expire now) (Some x) (Some (x\<lparr>it_phase := Free\<rparr>))"
| discard: "item_step Discard x y"

inductive_cases item_stepE [elim!]:
  "item_step Put x y" "item_step (Take token lease now) x y" "item_step (Finish token n) x y" "item_step Settle x y"
  "item_step (Expire now) x y" "item_step Discard x y" "item_step Skip x y"

text \<open>What others may try while an owner holds an item.\<close>

fun outsider :: "string \<Rightarrow> u64 \<Rightarrow> u64 \<Rightarrow> item_op \<Rightarrow> bool" where
  "outsider token expiry n (Take t lease now) = (t \<noteq> token \<and> now < expiry)"
| "outsider token expiry n (Finish t m) = (t \<noteq> token \<or> m \<noteq> n)"
| "outsider token expiry n (Expire now) = (now < expiry)"
| "outsider token expiry n Discard = False"
| "outsider token expiry n _ = True"

lemma outsider_stuck:
  assumes "outsider token expiry (it_attempt x) a" and "it_phase x = Held token expiry"
  shows "\<not> item_step a (Some x) y"
  using assms by (cases a) auto

lemma closed_stuck:
  assumes "it_phase x \<in> {Done, Dropped}" and "a \<noteq> Discard"
  shows "\<not> item_step a (Some x) y"
  using assms by (cases a) auto

lemma attempt_step:
  assumes "item_step a (Some x) (Some y)" and "a \<noteq> Discard"
  shows "it_attempt x \<le> it_attempt y \<and> (\<forall>t l. it_phase y = Held t l \<longrightarrow> it_attempt x < it_attempt y)"
  using assms by (cases a) auto

section \<open>The contract\<close>

locale work_outbox =
  fixes exec :: "'op \<Rightarrow> 's \<Rightarrow> 's"
    and load :: "'s \<Rightarrow> 'k \<Rightarrow> item option"
    and label :: "'op \<Rightarrow> 'k \<Rightarrow> item_op"
    and inv :: "'s \<Rightarrow> bool"
  assumes inv_exec: "inv st \<Longrightarrow> inv (exec op st)"
    and refines: "inv st \<Longrightarrow> load (exec op st) k = load st k \<or> item_step (label op k) (load st k) (load (exec op st) k)"
begin

lemma inv_run: "inv st \<Longrightarrow> inv (fold exec ops st)"
  by (induction ops arbitrary: st) (simp_all add: inv_exec)

text \<open>An item that admits no step under any of the calls stays as it is.\<close>

lemma stuck_stays:
  assumes "inv st" and "load st k = Some x" and "list_all (\<lambda>op. \<forall>y. \<not> item_step (label op k) (Some x) y) ops"
  shows "load (fold exec ops st) k = Some x"
  using assms
proof (induction ops arbitrary: st)
  case (Cons op ops)
  have "load (exec op st) k = Some x"
    using refines [OF Cons.prems(1), of op k] Cons.prems(2,3) by auto
  then show ?case using Cons.IH [of "exec op st"] Cons.prems inv_exec by simp
qed simp

lemma owner_protected:
  assumes "inv st" and "load st k = Some x" and "it_phase x = Held token expiry"
    and "list_all (\<lambda>op. outsider token expiry (it_attempt x) (label op k)) ops"
  shows "load (fold exec ops st) k = Some x"
  using assms outsider_stuck by (intro stuck_stays) (auto simp: list_all_iff)

lemma closed_stays:
  assumes "inv st" and "load st k = Some x" and "it_phase x \<in> {Done, Dropped}" and "list_all (\<lambda>op. label op k \<noteq> Discard) ops"
  shows "load (fold exec ops st) k = Some x"
  using assms closed_stuck by (intro stuck_stays) (auto simp: list_all_iff)

text \<open>An attempt has one owner: whoever holds an item later at the same attempt is the same worker with the same lease.\<close>

definition later :: "item \<Rightarrow> item \<Rightarrow> bool" where
  "later x y \<longleftrightarrow> it_attempt x \<le> it_attempt y \<and>
     (it_attempt y = it_attempt x \<longrightarrow> (\<forall>t l. it_phase y = Held t l \<longrightarrow> it_phase y = it_phase x))"

lemma later_run:
  assumes "inv st" and "load st k = Some y" and "later x y" and "list_all (\<lambda>op. label op k \<noteq> Discard) ops"
  shows "\<exists>z. load (fold exec ops st) k = Some z \<and> later x z"
  using assms
proof (induction ops arbitrary: st y)
  case (Cons op ops)
  have "\<exists>z. load (exec op st) k = Some z \<and> later x z"
  proof (rule disjE [OF refines [OF Cons.prems(1), of op k]])
    assume step: "item_step (label op k) (load st k) (load (exec op st) k)"
    show ?thesis
    proof (cases "load (exec op st) k")
      case None
      then show ?thesis using step Cons.prems(2,4) by (auto elim: item_step.cases)
    next
      case (Some z)
      then show ?thesis
        using attempt_step [of "label op k" y z] step Cons.prems(2-4) by (fastforce simp: later_def)
    qed
  qed (use Cons.prems in simp)
  then show ?case using Cons.IH [of "exec op st"] Cons.prems inv_exec by auto
qed simp

lemma attempt_has_one_owner:
  assumes "inv st" and "load st k = Some x" and "list_all (\<lambda>op. label op k \<noteq> Discard) ops"
  shows "\<exists>y. load (fold exec ops st) k = Some y \<and> it_attempt x \<le> it_attempt y \<and>
    (\<forall>t l. it_phase y = Held t l \<longrightarrow> it_attempt y = it_attempt x \<longrightarrow> it_phase x = Held t l)"
  using later_run [OF assms(1,2) _ assms(3), of x] by (fastforce simp: later_def)

end

end
