(* ===== verification/Command_Laws.thy ===== *)
theory Command_Laws
  imports Controller_Store Checkpoint_Laws Work_Outbox
begin

text \<open>
  Workers and controllers on one store: every call of \<open>Checkpoint_Laws\<close> and of \<open>Controller_Store\<close> is a
  label of one transition function, and any interleaving of calls is a fold of it. The theory
  shows that a command takes effect as a whole or not at all, and how the rows of commands and their
  wakes move; \<open>Controller_Laws\<close> puts this together for all calls.
\<close>

section \<open>Labels\<close>

datatype full_op =
    Worker store_op
  | AdmitCommand controller_command u64
  | ResolveCommand controller_command u64
  | ClaimWake string string string u64 u64
  | CompleteWake string string string u64 string
  | ReconcileWake string string string
  | ReapWakes string u64
  | ClaimNotification string string string u64 u64
  | CompleteNotification string string string u64 string u64 "string option"
  | ReconcileNotification string string string u64 "string option"
  | Ask host_request admission_context
  | Consume recovery_envelope u64
  | ReapRecord string string u64

fun full_exec :: "env \<Rightarrow> full_op \<Rightarrow> store \<Rightarrow> store" where
  "full_exec E (Worker op) st = exec E op st"
| "full_exec E (AdmitCommand cmd now) st = fst (admit_controller_command E st cmd now)"
| "full_exec E (ResolveCommand cmd now) st = fst (resolve_controller_command E st cmd now)"
| "full_exec E (ClaimWake i digest token lease now) st = fst (claim_controller_command_wake st i digest token lease now)"
| "full_exec E (CompleteWake i digest token attempt result) st = fst (complete_controller_command_wake st i digest token attempt result)"
| "full_exec E (ReconcileWake i digest result) st = fst (reconcile_controller_command_wake st i digest result)"
| "full_exec E (ReapWakes key now) st = fst (reap_controller_command_wakes E st key now)"
| "full_exec E (ClaimNotification i digest token lease now) st = fst (claim_host_interaction_notification E st i digest token lease now)"
| "full_exec E (CompleteNotification i digest token attempt result now message) st =
     fst (complete_host_interaction_notification E st i digest token attempt result now message)"
| "full_exec E (ReconcileNotification i digest result now reason) st =
     fst (reconcile_host_interaction_notification E st i digest result now reason)"
| "full_exec E (Ask q x) st = fst (produce_host_interaction E st q x)"
| "full_exec E (Consume v now) st = fst (claim_and_consume_host_interaction_response E st v now)"
| "full_exec E (ReapRecord i key now) st = fst (reap_host_interaction_record E st i key now)"

section \<open>A command takes effect as a whole\<close>

lemma validated_Inr: "validated E u wake rec = Inr x \<longleftrightarrow> validate_checkpoint E u = Inr () \<and> x = (u, wake, rec)"
  by (auto simp: validated_def and_then_Inr_iff)

lemma fits_status [simp]: "fits 512 (status_str s)"
  by (cases s) (simp_all add: fits_def blank_eval)

text \<open>Every command that succeeds leaves a valid checkpoint, and wakes a worker by the canonical route or not at all.\<close>

lemma terminate_Inr:
  assumes "terminate E cur u command_id result reason payload = Inr (u', wake, rec)"
  shows "validate_checkpoint E u' = Inr () \<and> wake = wake_none \<and> rec = None"
  using assms by (auto simp: terminate_def and_then_Inr_iff validated_Inr)

lemma command_effect_Inr:
  assumes "command_effect_of E l cur u cmd now kind = Inr (u', wake, rec)"
  shows "validate_checkpoint E u' = Inr () \<and> (wake = wake_none \<or> (\<exists>n. wake = wake_recovery n))"
  using assms
  by (cases kind)
    (auto simp: respond_effect_def suspend_effect_def resume_effect_def resume_target_def cancel_effect_def abort_effect_def
      and_then_Inr_iff validated_Inr Let_def dest!: terminate_Inr split: if_splits option.splits)

lemma receipt_of_valid:
  assumes "command_validate E cmd = Inr ()" and "validate_checkpoint E u = Inr ()"
    and "wake = wake_none \<or> (\<exists>n. wake = wake_recovery n)"
  shows "command_receipt_validate (receipt_of cmd u wake) = Inr ()"
proof -
  have "cp_revision u \<le> MAX_WIRE_INTEGER" using validate_checkpoint_parts(4) [OF assms(2)] .
  then show ?thesis
    using assms(1,3)
    by (auto simp: command_validate_def command_receipt_validate_def receipt_of_def and_then_Inr_iff Let_def
        canonical_route_def wake_none_def wake_recovery_def)
qed

text \<open>The store that a command leaves, given the checkpoint it found.\<close>

definition put_effect :: "string \<Rightarrow> command_effect \<Rightarrow> store \<Rightarrow> store" where
  "put_effect key x st = (case x of (u, _, rec) \<Rightarrow>
     put_checkpoint key u (case rec of None \<Rightarrow> st | Some (i, h) \<Rightarrow> put_host i h st))"

definition commanded :: "env \<Rightarrow> ledger \<Rightarrow> checkpoint \<Rightarrow> controller_command \<Rightarrow> u64 \<Rightarrow> err + command_effect" where
  "commanded E l cur cmd now =
    and_then (command_guard cur cmd now) (\<lambda>_.
    and_then (drop_expired_claim cur (cc_command cmd) now) (\<lambda>u.
    command_effect_of E l cur u cmd now (cc_command cmd)))"

lemma commanded_Inr:
  assumes "commanded E l cur cmd now = Inr (u, wake, rec)"
  shows "validate_checkpoint E u = Inr ()" "wake = wake_none \<or> (\<exists>n. wake = wake_recovery n)"
  using assms command_effect_Inr by (fastforce simp: commanded_def and_then_Inr_iff)+

lemma apply_cases:
  assumes "command_validate E cmd = Inr ()"
  shows "(\<exists>e. apply_controller_command E st cmd now = (st, Inl e)) \<or>
    (\<exists>cur u wake rec. load_checkpoint st (ch_checkpoint_key (cc_handle cmd)) = Some cur \<and>
      commanded E (sto_ledger st) cur cmd now = Inr (u, wake, rec) \<and>
      apply_controller_command E st cmd now =
        (put_effect (cp_key cur) (u, wake, rec) st, Inr (receipt_of cmd u wake, CommandApplied (receipt_of cmd u wake) wake)))"
proof (cases "btree_get (ch_checkpoint_key (cc_handle cmd)) (sto_checkpoints st)")
  case (Some cur)
  show ?thesis
  proof (cases "commanded E (sto_ledger st) cur cmd now")
    case (Inr x)
    obtain u wake rec where x: "x = (u, wake, rec)" by (cases x)
    have "command_receipt_validate (receipt_of cmd u wake) = Inr ()"
      using receipt_of_valid [OF assms commanded_Inr [OF Inr [unfolded x]]] .
    then have "apply_controller_command E st cmd now =
        (put_effect (cp_key cur) (u, wake, rec) st, Inr (receipt_of cmd u wake, CommandApplied (receipt_of cmd u wake) wake))"
      using Some Inr unfolding apply_controller_command_def commanded_def x put_effect_def Let_def by simp
    moreover have "load_checkpoint st (ch_checkpoint_key (cc_handle cmd)) = Some cur" using Some by (simp add: load_checkpoint_def)
    ultimately show ?thesis using Inr x by blast
  qed (use Some in \<open>simp add: apply_controller_command_def commanded_def\<close>)
qed (simp add: apply_controller_command_def)

lemma replay_not_applied [simp]: "replay_resolution x \<noteq> CommandApplied r w"
  by (cases x) simp_all

lemma resolve_cases:
  "(\<exists>x. resolve_controller_command E st cmd now = (st, x) \<and> (\<forall>r w. x \<noteq> Inr (CommandApplied r w))) \<or>
    (\<exists>cur u wake rec. command_validate E cmd = Inr () \<and>
      btree_get (cc_command_id cmd) (le_command_receipts (sto_ledger st)) = None \<and>
      load_checkpoint st (ch_checkpoint_key (cc_handle cmd)) = Some cur \<and>
      commanded E (sto_ledger st) cur cmd now = Inr (u, wake, rec) \<and>
      resolve_controller_command E st cmd now =
        (put_command cmd (receipt_of cmd u wake) (CommandApplied (receipt_of cmd u wake) wake) (put_effect (cp_key cur) (u, wake, rec) st),
         Inr (CommandApplied (receipt_of cmd u wake) wake)))"
proof (cases "command_validate E cmd")
  case (Inr y)
  then have v: "command_validate E cmd = Inr ()" by simp
  show ?thesis
    using apply_cases [OF v, of st now] v
    by (cases "btree_get (cc_command_id cmd) (le_command_receipts (sto_ledger st))")
      (auto simp: resolve_controller_command_def)
qed (simp add: resolve_controller_command_def)

lemma admit_resolve: "fst (admit_controller_command E st cmd now) = fst (resolve_controller_command E st cmd now)"
  by (auto simp: admit_controller_command_def resolve_controller_command_def split: sum.splits option.splits prod.splits)

text \<open>
  C21. A command is applied as a whole or not at all: unless the caller is told that it was applied,
  the store is exactly what it was, although the host record is written before the receipt is
  validated and nothing is rolled back. The two calls leave the same store.
\<close>

theorem refused_command_changes_nothing:
  "((\<exists>r. snd (admit_controller_command E st cmd now) = Inr r) \<or> fst (admit_controller_command E st cmd now) = st) \<and>
   ((\<exists>r w. snd (resolve_controller_command E st cmd now) = Inr (CommandApplied r w)) \<or>
     fst (resolve_controller_command E st cmd now) = st) \<and>
   fst (admit_controller_command E st cmd now) = fst (resolve_controller_command E st cmd now)"
proof -
  have "(\<exists>r. snd (admit_controller_command E st cmd now) = Inr r) \<or> fst (admit_controller_command E st cmd now) = st"
  proof (cases "command_validate E cmd")
    case (Inr y)
    then have v: "command_validate E cmd = Inr ()" by simp
    show ?thesis
      using apply_cases [OF v, of st now] v by (auto simp: admit_controller_command_def split: option.splits)
  qed (simp add: admit_controller_command_def)
  then show ?thesis using resolve_cases [of E st cmd now] admit_resolve by auto
qed

section \<open>The ledger\<close>

lemma btree_get_filter_iff:
  "btree_ok m \<Longrightarrow> btree_get k (filter P m) = Some v \<longleftrightarrow> btree_get k m = Some v \<and> P (k, v)"
  by (subst (1 2) btree_get_set) (auto simp: btree_ok_def sorted_wrt_filter [of "(<)" "map fst m"] sorted_wrt_map intro: sorted_wrt_filter)

lemma btree_ok_filter [simp]: "btree_ok m \<Longrightarrow> btree_ok (filter P m)"
  by (auto simp: btree_ok_def sorted_wrt_map intro: sorted_wrt_filter)

lemma btree_remove_absent: "btree_get k m = None \<Longrightarrow> btree_remove k m = m"
  by (induction k m rule: btree_remove.induct) (auto split: if_splits)

text \<open>
  What the ledger knows of a command: its receipt is valid, filed under its identity and agrees with
  the command and with the answer that was given, and its wake has an owner exactly when it is claimed.
\<close>

definition row_ok :: "env \<Rightarrow> ledger \<Rightarrow> string \<Rightarrow> command_receipt \<Rightarrow> command_resolution \<Rightarrow> bool" where
  "row_ok E l i r resolution \<longleftrightarrow>
     kr_command_id r = i \<and> command_receipt_validate r = Inr () \<and>
     (\<exists>wake. resolution = CommandApplied r wake \<and> wk_action wake = kr_outbox_action r \<and> wk_destination wake = kr_outbox_destination r) \<and>
     (\<exists>c. btree_get i (le_commands l) = Some c \<and> command_validate E c = Inr () \<and> cc_command_id c = i \<and>
       cc_command_digest c = kr_command_digest r \<and> cc_handle c = kr_handle r) \<and>
     (kr_outbox_state r = ''claimed'' \<longleftrightarrow> btree_get i (le_wake_leases l) \<noteq> None)"

definition commands_ok :: "env \<Rightarrow> ledger \<Rightarrow> bool" where
  "commands_ok E l \<longleftrightarrow>
     btree_ok (le_command_receipts l) \<and> btree_ok (le_commands l) \<and> btree_ok (le_wake_leases l) \<and>
     (\<forall>i r resolution. btree_get i (le_command_receipts l) = Some (r, resolution) \<longrightarrow> row_ok E l i r resolution) \<and>
     (\<forall>i. btree_get i (le_wake_leases l) \<noteq> None \<longrightarrow> btree_get i (le_command_receipts l) \<noteq> None)"

lemma commands_okD:
  assumes "commands_ok E l" and "btree_get i (le_command_receipts l) = Some (r, resolution)"
  shows "row_ok E l i r resolution"
  using assms by (simp add: commands_ok_def)

lemma commands_ok_cong:
  assumes "le_command_receipts l' = le_command_receipts l" "le_commands l' = le_commands l" "le_wake_leases l' = le_wake_leases l"
  shows "commands_ok E l' = commands_ok E l"
  using assms by (simp add: commands_ok_def row_ok_def)

text \<open>Only the state of the outbox and the count of attempts of a receipt change.\<close>

definition same_command :: "command_receipt \<Rightarrow> command_receipt \<Rightarrow> bool" where
  "same_command r r' \<longleftrightarrow> r' = r\<lparr>kr_outbox_state := kr_outbox_state r', kr_outbox_attempt := kr_outbox_attempt r'\<rparr>"

lemma same_command_simps:
  assumes "same_command r r'"
  shows "kr_command_id r' = kr_command_id r" "kr_command_digest r' = kr_command_digest r" "kr_handle r' = kr_handle r"
    "kr_outbox_action r' = kr_outbox_action r" "kr_outbox_destination r' = kr_outbox_destination r"
    "kr_resume_attempt r' = kr_resume_attempt r" "kr_expected_revision r' = kr_expected_revision r"
    "kr_resulting_revision r' = kr_resulting_revision r" "kr_resulting_status r' = kr_resulting_status r"
  using assms by (cases r; cases r'; simp add: same_command_def)+

lemma same_command_refl [simp]: "same_command r r"
  by (simp add: same_command_def)

lemma same_command_trans: "same_command r r' \<Longrightarrow> same_command r' r'' \<Longrightarrow> same_command r r''"
  by (cases r; cases r'; cases r'') (simp add: same_command_def)

lemma commands_ok_put_wake:
  assumes ok: "commands_ok E l" and get: "btree_get i (le_command_receipts l) = Some (r, resolution)"
    and same: "same_command r r'" and valid: "command_receipt_validate r' = Inr ()"
    and lease: "kr_outbox_state r' = ''claimed'' \<longleftrightarrow> lease \<noteq> None"
  shows "commands_ok E (put_wake i r' resolution lease l)"
proof -
  let ?l = "put_wake i r' resolution lease l"
  have b: "btree_ok (le_wake_leases l)" "btree_ok (le_command_receipts l)" using ok by (simp_all add: commands_ok_def)
  have leases: "btree_get j (le_wake_leases ?l) = (if j = i then lease else btree_get j (le_wake_leases l))" for j
    using b by (cases lease) (simp_all add: put_wake_def)
  have row: "row_ok E l i r resolution" using commands_okD [OF ok get] .
  have "row_ok E ?l i r' (resolution_with_receipt resolution r')"
    using row same_command_simps [OF same] valid lease leases
    by (auto simp: row_ok_def) (auto simp: put_wake_def)
  moreover have "row_ok E ?l j x y" if "j \<noteq> i" "btree_get j (le_command_receipts l) = Some (x, y)" for j x y
    using commands_okD [OF ok that(2)] that(1) leases by (simp add: row_ok_def) (simp add: put_wake_def)
  ultimately have "row_ok E ?l j x y" if "btree_get j (le_command_receipts ?l) = Some (x, y)" for j x y
    using that by (cases "j = i") (auto simp: put_wake_def)
  moreover have "btree_get j (le_command_receipts ?l) \<noteq> None" if "btree_get j (le_wake_leases ?l) \<noteq> None" for j
    using that leases [of j] ok by (cases "j = i") (auto simp: put_wake_def commands_ok_def)
  ultimately show ?thesis
    using b ok by (cases lease) (auto simp: commands_ok_def put_wake_def)
qed

section \<open>Wakes are items of an outbox\<close>

definition wake_item :: "command_receipt \<Rightarrow> wake_lease option \<Rightarrow> item" where
  "wake_item r w =
    \<lparr>it_phase =
       (if kr_outbox_state r = ''claimed''
        then case w of None \<Rightarrow> Free | Some w \<Rightarrow> Held (wl_claim_token w) (wl_lease_expires_at_ms w)
        else if kr_outbox_state r = ''delivered'' then Done
        else if kr_outbox_state r = ''ambiguous'' then Unknown else Free),
     it_attempt = kr_outbox_attempt r\<rparr>"

definition wake_in :: "ledger \<Rightarrow> string \<Rightarrow> item option" where
  "wake_in l i = map_option (\<lambda>(r, _). wake_item r (wake_lease_of l i)) (btree_get i (le_command_receipts l))"

definition wake_of :: "store \<Rightarrow> string \<Rightarrow> item option" where
  "wake_of st = wake_in (sto_ledger st)"

text \<open>One wake moves by one step of the contract; nothing else in the ledger changes.\<close>

definition moved :: "item_op \<Rightarrow> string \<Rightarrow> ledger \<Rightarrow> ledger \<Rightarrow> bool" where
  "moved a i l l' \<longleftrightarrow>
    (\<exists>r resolution r' lease. btree_get i (le_command_receipts l) = Some (r, resolution) \<and> same_command r r' \<and>
      command_receipt_validate r' = Inr () \<and> (kr_outbox_state r' = ''claimed'' \<longleftrightarrow> lease \<noteq> None) \<and>
      item_step a (Some (wake_item r (wake_lease_of l i))) (Some (wake_item r' lease)) \<and>
      l' = put_wake i r' resolution lease l)"

lemma movedI:
  assumes "btree_get i (le_command_receipts l) = Some (r, resolution)" and "same_command r r'"
    and "command_receipt_validate r' = Inr ()" and "kr_outbox_state r' = ''claimed'' \<longleftrightarrow> lease \<noteq> None"
    and "item_step a (Some (wake_item r (wake_lease_of l i))) (Some (wake_item r' lease))"
  shows "moved a i l (put_wake i r' resolution lease l)"
  using assms unfolding moved_def by blast

lemma moved_ok:
  assumes "commands_ok E l" and "moved a i l l'"
  shows "commands_ok E l'"
  using assms commands_ok_put_wake by (fastforce simp: moved_def)

lemma moved_wake:
  assumes "commands_ok E l" and "moved a i l l'"
  shows "k \<noteq> i \<Longrightarrow> wake_in l' k = wake_in l k" "item_step a (wake_in l i) (wake_in l' i)"
proof -
  obtain r resolution r' lease where m: "btree_get i (le_command_receipts l) = Some (r, resolution)"
    "item_step a (Some (wake_item r (wake_lease_of l i))) (Some (wake_item r' lease))" "l' = put_wake i r' resolution lease l"
    using assms(2) by (auto simp: moved_def)
  have b: "btree_ok (le_wake_leases l)" using assms(1) by (simp add: commands_ok_def)
  have leases: "wake_lease_of l' j = (if j = i then lease else wake_lease_of l j)" for j
    using b m(3) by (cases lease) (simp_all add: put_wake_def wake_lease_of_def)
  have rows: "btree_get j (le_command_receipts l') =
      (if j = i then Some (r', resolution_with_receipt resolution r') else btree_get j (le_command_receipts l))" for j
    using m(3) by (simp add: put_wake_def)
  show "k \<noteq> i \<Longrightarrow> wake_in l' k = wake_in l k" by (simp add: wake_in_def leases rows)
  show "item_step a (wake_in l i) (wake_in l' i)" unfolding wake_in_def leases rows using m(1,2) by simp
qed

lemma wake_write_moves:
  assumes "commands_ok E (sto_ledger st)"
    and step: "\<And>r resolution r' lease. btree_get i (le_command_receipts (sto_ledger st)) = Some (r, resolution) \<Longrightarrow>
      f r (wake_lease_of (sto_ledger st) i) = Inr (Inr (r', lease)) \<Longrightarrow> command_receipt_validate r' = Inr () \<Longrightarrow>
      same_command r r' \<and> (kr_outbox_state r' = ''claimed'' \<longleftrightarrow> lease \<noteq> None) \<and>
      item_step a (Some (wake_item r (wake_lease_of (sto_ledger st) i))) (Some (wake_item r' lease))"
  shows "fst (wake_write st i digest f) = st \<or>
    (\<exists>l. fst (wake_write st i digest f) = update_ledger st l \<and> moved a i (sto_ledger st) l)"
proof (cases "btree_get i (le_command_receipts (sto_ledger st))")
  case (Some x)
  obtain r resolution where x: "x = (r, resolution)" by (cases x)
  show ?thesis
  proof (cases "f r (wake_lease_of (sto_ledger st) i)")
    case (Inr y)
    show ?thesis
    proof (cases y)
      case (Inr z)
      obtain r' lease where z: "z = (r', lease)" by (cases z)
      show ?thesis
      proof (cases "command_receipt_validate r'")
        case (Inr u)
        then have v: "command_receipt_validate r' = Inr ()" by simp
        have fr: "f r (wake_lease_of (sto_ledger st) i) = Inr (Inr (r', lease))"
          using \<open>f r _ = Inr y\<close> \<open>y = Inr z\<close> z by simp
        have "moved a i (sto_ledger st) (put_wake i r' resolution lease (sto_ledger st))"
          using step [OF Some [unfolded x] fr v] Some x v by (intro movedI) auto
        then show ?thesis using Some x fr v by (auto simp: wake_write_def)
      qed (use Some x \<open>f r _ = Inr y\<close> \<open>y = Inr z\<close> z in \<open>simp add: wake_write_def\<close>)
    qed (use Some x \<open>f r _ = Inr y\<close> in \<open>simp add: wake_write_def\<close>)
  qed (use Some x in \<open>simp add: wake_write_def\<close>)
qed (simp add: wake_write_def)

lemma claim_wake_row_Inr:
  assumes "claim_wake_row token lease now r w = Inr (Inr (r', lease'))"
  shows "r' = r\<lparr>kr_outbox_state := ''claimed'', kr_outbox_attempt := kr_outbox_attempt r + 1\<rparr>"
    "lease' = Some \<lparr>wl_claim_token = token, wl_lease_expires_at_ms = lease\<rparr>"
    "kr_outbox_state r \<noteq> ''delivered''" "kr_outbox_state r \<noteq> ''ambiguous''"
    "kr_outbox_state r = ''claimed'' \<Longrightarrow> w = Some v \<Longrightarrow> wl_lease_expires_at_ms v \<le> now"
  using assms
  by (auto simp: claim_wake_row_def live_wake_def and_then_Inr_iff checked_add_Some_iff split: if_splits option.splits)

lemma claim_wake_moves:
  assumes "commands_ok E (sto_ledger st)"
  shows "full_exec E (ClaimWake i digest token lease now) st = st \<or>
    (\<exists>l. full_exec E (ClaimWake i digest token lease now) st = update_ledger st l \<and> moved (Take token lease now) i (sto_ledger st) l)"
proof (cases "is_blank token \<or> lease \<le> now")
  case False
  have "same_command r r' \<and> (kr_outbox_state r' = ''claimed'' \<longleftrightarrow> lease' \<noteq> None) \<and>
      item_step (Take token lease now) (Some (wake_item r w)) (Some (wake_item r' lease'))"
    if c: "claim_wake_row token lease now r w = Inr (Inr (r', lease'))" for r r' w lease'
  proof -
    note row = claim_wake_row_Inr [OF c]
    have "it_phase (wake_item r w) \<in> {Free, Unknown} \<or> (\<exists>t l. it_phase (wake_item r w) = Held t l \<and> (l \<le> now \<or> t = token))"
      using row(3-5) by (auto simp: wake_item_def split: option.splits)
    from item_step.take [OF this, of lease] False row(1,2) show ?thesis
      by (simp add: wake_item_def same_command_def)
  qed
  then show ?thesis
    using wake_write_moves [OF assms, of i "claim_wake_row token lease now" "Take token lease now" digest] False
    by (simp add: claim_controller_command_wake_def)
qed (auto simp: claim_controller_command_wake_def)

lemma complete_wake_moves:
  assumes "commands_ok E (sto_ledger st)"
  shows "full_exec E (CompleteWake i digest token attempt result) st = st \<or>
    (\<exists>l. full_exec E (CompleteWake i digest token attempt result) st = update_ledger st l \<and> moved (Finish token attempt) i (sto_ledger st) l)"
proof (cases "result \<noteq> ''delivered'' \<and> result \<noteq> ''ambiguous''")
  case False
  have "same_command r r' \<and> (kr_outbox_state r' = ''claimed'' \<longleftrightarrow> lease' \<noteq> None) \<and>
      item_step (Finish token attempt) (Some (wake_item r w)) (Some (wake_item r' lease'))"
    if c: "complete_wake_row token attempt result r w = Inr (Inr (r', lease'))" for r r' w lease'
  proof -
    obtain v where row: "w = Some v" "kr_outbox_state r = ''claimed''" "kr_outbox_attempt r = attempt" "wl_claim_token v = token"
      "r' = r\<lparr>kr_outbox_state := result\<rparr>" "lease' = None"
      using c by (auto simp: complete_wake_row_def split: if_splits)
    have "it_phase (wake_item r w) = Held token (wl_lease_expires_at_ms v)" "it_attempt (wake_item r w) = attempt"
      using row by (simp_all add: wake_item_def)
    from item_step.finish [OF this, of "if result = ''delivered'' then Done else Unknown"] False row show ?thesis
      by (auto simp: wake_item_def same_command_def)
  qed
  then show ?thesis
    using wake_write_moves [OF assms, of i "complete_wake_row token attempt result" "Finish token attempt" digest] False
    by (simp add: complete_controller_command_wake_def)
qed (simp add: complete_controller_command_wake_def)

lemma reconcile_wake_moves:
  assumes ok: "commands_ok E (sto_ledger st)"
  shows "full_exec E (ReconcileWake i digest result) st = st \<or>
    (\<exists>l. full_exec E (ReconcileWake i digest result) st = update_ledger st l \<and> moved Settle i (sto_ledger st) l)"
proof (cases "result \<noteq> ''delivered'' \<and> result \<noteq> ''retry''")
  case False
  have "same_command r r' \<and> (kr_outbox_state r' = ''claimed'' \<longleftrightarrow> lease' \<noteq> None) \<and>
      item_step Settle (Some (wake_item r (wake_lease_of (sto_ledger st) i))) (Some (wake_item r' lease'))"
    if get: "btree_get i (le_command_receipts (sto_ledger st)) = Some (r, resolution)"
      and row: "reconcile_wake_row result r (wake_lease_of (sto_ledger st) i) = Inr (Inr (r', lease'))"
      and valid: "command_receipt_validate r' = Inr ()" for r r' lease' resolution
  proof -
    have s: "kr_outbox_state r = ''ambiguous''" "r' = r\<lparr>kr_outbox_state := result\<rparr>" "lease' = wake_lease_of (sto_ledger st) i"
      using row by (auto simp: reconcile_wake_row_def split: if_splits)
    have none: "wake_lease_of (sto_ledger st) i = None"
      using commands_okD [OF ok get] s(1) by (simp add: row_ok_def wake_lease_of_def)
    have res: "result = ''delivered''"
      using valid s(2) False by (auto simp: command_receipt_validate_def and_then_Inr_iff Let_def)
    have "it_phase (wake_item r None) = Unknown" using s(1) by (simp add: wake_item_def)
    from item_step.settle [OF this, of Done] s res none show ?thesis by (simp add: wake_item_def same_command_def)
  qed
  then show ?thesis
    using wake_write_moves [OF ok, of i "reconcile_wake_row result" Settle digest] False
    by (simp add: reconcile_controller_command_wake_def)
qed (simp add: reconcile_controller_command_wake_def)

text \<open>Reaping releases expired wakes one after the other.\<close>

definition reaps :: "u64 \<Rightarrow> ledger \<Rightarrow> ledger \<Rightarrow> bool" where
  "reaps now = (\<lambda>l l'. \<exists>i. moved (Expire now) i l l')\<^sup>*\<^sup>*"

lemma reap_moves:
  assumes "btree_get i (le_command_receipts l) = Some (r, resolution)" and "expired_wake l now i r"
    and "command_receipt_validate (r\<lparr>kr_outbox_state := ''pending''\<rparr>) = Inr ()"
  shows "moved (Expire now) i l (put_wake i (r\<lparr>kr_outbox_state := ''pending''\<rparr>) resolution None l)"
proof -
  obtain w where w: "wake_lease_of l i = Some w" "wl_lease_expires_at_ms w \<le> now" "kr_outbox_state r = ''claimed''"
    using assms(2) by (auto simp: expired_wake_def split: option.splits)
  have "it_phase (wake_item r (Some w)) = Held (wl_claim_token w) (wl_lease_expires_at_ms w)" using w by (simp add: wake_item_def)
  from item_step.expire [OF this w(2)] w
  have "item_step (Expire now) (Some (wake_item r (wake_lease_of l i))) (Some (wake_item (r\<lparr>kr_outbox_state := ''pending''\<rparr>) None))"
    by (simp add: wake_item_def)
  moreover have "same_command r (r\<lparr>kr_outbox_state := ''pending''\<rparr>)" by (simp add: same_command_def)
  ultimately show ?thesis using movedI [OF assms(1) _ assms(3), of None] by simp
qed

lemma reap_loop_reaps: "reap_loop E key now is reaped l = (l', res) \<Longrightarrow> reaps now l l'"
proof (induction "is" arbitrary: reaped l)
  case (Cons i "is")
  show ?case
  proof (cases "\<exists>r resolution. btree_get i (le_command_receipts l) = Some (r, resolution) \<and> kr_outbox_state r \<noteq> ''pending'' \<and>
      expired_wake l now i r \<and> command_receipt_validate (r\<lparr>kr_outbox_state := ''pending''\<rparr>) = Inr ()")
    case True
    then obtain r resolution where r: "btree_get i (le_command_receipts l) = Some (r, resolution)" "expired_wake l now i r"
      "command_receipt_validate (r\<lparr>kr_outbox_state := ''pending''\<rparr>) = Inr ()" "kr_outbox_state r \<noteq> ''pending''" by blast
    let ?l = "put_wake i (r\<lparr>kr_outbox_state := ''pending''\<rparr>) resolution None l"
    have "l' = l \<or> l' = ?l \<or> (\<exists>reaped. reap_loop E key now is reaped ?l = (l', res)) \<or> reap_loop E key now is reaped l = (l', res)"
      using Cons.prems r by (auto simp: Let_def split: if_splits sum.splits)
    moreover have "reaps now l ?l" using reap_moves [OF r(1-3)] by (auto simp: reaps_def)
    ultimately show ?thesis using Cons.IH by (auto simp: reaps_def intro: rtranclp_trans)
  next
    case False
    then have "l' = l \<or> (\<exists>reaped. reap_loop E key now is reaped l = (l', res))"
      using Cons.prems by (auto simp: Let_def split: option.splits prod.splits if_splits sum.splits)
    then show ?thesis using Cons.IH by (auto simp: reaps_def)
  qed
qed (simp add: reaps_def)

text \<open>A move of a wake keeps every command and everything else in the ledger.\<close>

fun wake_told :: "command_resolution \<Rightarrow> command_wake option" where
  "wake_told (CommandApplied r wake) = Some wake"
| "wake_told (CommandReplayed r wake) = Some wake"
| "wake_told (CommandRejected e) = None"

lemma wake_told_with_receipt [simp]: "wake_told (resolution_with_receipt resolution r) = wake_told resolution"
  by (cases resolution) simp_all

definition row_stays :: "string \<Rightarrow> ledger \<Rightarrow> ledger \<Rightarrow> bool" where
  "row_stays i l l' \<longleftrightarrow> (\<forall>r resolution. btree_get i (le_command_receipts l) = Some (r, resolution) \<longrightarrow>
     (\<exists>r' resolution'. btree_get i (le_command_receipts l') = Some (r', resolution') \<and> same_command r r' \<and>
       wake_told resolution' = wake_told resolution))"

lemma row_stays_refl: "row_stays i l l"
  by (simp add: row_stays_def)

lemma row_stays_same: "le_command_receipts l' = le_command_receipts l \<Longrightarrow> row_stays i l l'"
  by (simp add: row_stays_def)

lemma row_stays_trans: "row_stays i l l' \<Longrightarrow> row_stays i l' l'' \<Longrightarrow> row_stays i l l''"
  unfolding row_stays_def by (metis same_command_trans)

definition kept :: "ledger \<Rightarrow> ledger \<Rightarrow> bool" where
  "kept l l' \<longleftrightarrow> le_host_interactions l' = le_host_interactions l \<and> le_notifications l' = le_notifications l \<and>
     le_commands l' = le_commands l \<and>
     (\<forall>i. btree_get i (le_command_receipts l') = None \<longleftrightarrow> btree_get i (le_command_receipts l) = None) \<and>
     (\<forall>i. row_stays i l l')"

lemma kept_refl: "kept l l"
  by (simp add: kept_def row_stays_refl)

lemma kept_trans: "kept l l' \<Longrightarrow> kept l' l'' \<Longrightarrow> kept l l''"
  unfolding kept_def using row_stays_trans by metis

lemma moved_kept: "moved a i l l' \<Longrightarrow> kept l l'"
  by (auto simp: moved_def kept_def row_stays_def put_wake_def split: if_splits)

lemma reaps_spec:
  assumes "reaps now l l'" and "commands_ok E l"
  shows "commands_ok E l' \<and> kept l l' \<and> (\<forall>k. wake_in l' k = wake_in l k \<or> item_step (Expire now) (wake_in l k) (wake_in l' k))"
  using assms(1)[unfolded reaps_def]
proof induction
  case (step l1 l2)
  then obtain i where i: "moved (Expire now) i l1 l2" by blast
  note ok = step.IH [THEN conjunct1]
  have "wake_in l2 k = wake_in l k \<or> item_step (Expire now) (wake_in l k) (wake_in l2 k)" for k
  proof (cases "k = i")
    case True
    have "item_step (Expire now) (wake_in l1 i) (wake_in l2 i)" using moved_wake(2) [OF ok i] .
    then show ?thesis
      using step.IH [THEN conjunct2, THEN conjunct2, rule_format, of i] True
      by (auto elim!: item_stepE(5) intro: item_step.expire)
  next
    case False
    then show ?thesis using moved_wake(1) [OF ok i False] step.IH by simp
  qed
  then show ?case using moved_ok [OF ok i] moved_kept [OF i] step.IH kept_trans by blast
qed (simp add: assms(2) kept_refl)

section \<open>What the other calls do to the ledger\<close>

lemma exec_ledger:
  "sto_ledger (exec E op st) = (case op of Delete key \<Rightarrow> delete_from_ledger key (sto_ledger st) | _ \<Rightarrow> sto_ledger st)"
proof -
  have persist: "sto_ledger st' = sto_ledger st" if "persist_history E st u = (st', res)" for st' u res
    using persist_history_checkpoints [OF that] by blast
  have pap: "sto_ledger (fst (persist_and_put E st dest u)) = sto_ledger st" for dest u
    by (auto simp: persist_and_put_def put_checkpoint_def split: prod.splits sum.splits dest: persist)
  have cas: "sto_ledger (fst (cas_write E st key dest f)) = sto_ledger st" for key dest f
    by (auto simp: cas_write_def pap split: option.splits sum.splits)
  have adm: "sto_ledger (fst (persist_admission E st key u hs)) = sto_ledger st" for key u hs
    by (auto simp: persist_admission_def put_checkpoint_def split: prod.splits sum.splits dest: persist)
  have res: "sto_ledger (fst (resolve_apply E st key c i h r)) = sto_ledger st" for key c i h r
    by (auto simp: resolve_apply_def put_checkpoint_def split: prod.splits sum.splits dest: persist)
  show ?thesis
  proof (cases op)
    case (Resolve h r)
    then show ?thesis by (auto simp: resolve_deferred_def res split: sum.splits option.splits)
  next
    case (Delete key)
    then show ?thesis by (simp add: delete_checkpoint_def)
  qed (auto simp: create_checkpoint_def claim_checkpoint_def renew_checkpoint_claim_def put_checkpoint_def
      progress_checkpoint_def suspend_checkpoint_def commit_checkpoint_def finalize_checkpoint_def
      finalize_claimed_checkpoint_def acknowledge_terminal_def record_event_delivery_def record_tool_receipt_def
      admit_deferred_batch_def accept_deferred_batch_def cas adm
      split: sum.splits option.splits bool.splits if_splits prod.splits)
qed

lemma delete_from_ledger_get:
  assumes "commands_ok E l"
  shows "btree_get i (le_command_receipts (delete_from_ledger key l)) = Some (r, resolution) \<longleftrightarrow>
      btree_get i (le_command_receipts l) = Some (r, resolution) \<and> ch_checkpoint_key (kr_handle r) \<noteq> key"
    "btree_get i (le_commands (delete_from_ledger key l)) = Some c \<longleftrightarrow>
      btree_get i (le_commands l) = Some c \<and> ch_checkpoint_key (cc_handle c) \<noteq> key"
    "btree_get i (le_wake_leases (delete_from_ledger key l)) = Some w \<longleftrightarrow>
      btree_get i (le_wake_leases l) = Some w \<and> btree_get i (le_command_receipts (delete_from_ledger key l)) \<noteq> None"
proof -
  let ?rs = "filter (\<lambda>(_, r, _). ch_checkpoint_key (kr_handle r) \<noteq> key) (le_command_receipts l)"
  have b: "btree_ok (le_command_receipts l)" "btree_ok (le_commands l)" "btree_ok (le_wake_leases l)"
    using assms by (simp_all add: commands_ok_def)
  have "i \<in> fst ` set ?rs \<longleftrightarrow> (\<exists>v. (i, v) \<in> set ?rs)" by force
  also have "\<dots> \<longleftrightarrow> btree_get i ?rs \<noteq> None" using btree_get_set [of ?rs i] b(1) by auto
  finally have dom: "i \<in> fst ` set ?rs \<longleftrightarrow> btree_get i ?rs \<noteq> None" .
  show "btree_get i (le_command_receipts (delete_from_ledger key l)) = Some (r, resolution) \<longleftrightarrow>
      btree_get i (le_command_receipts l) = Some (r, resolution) \<and> ch_checkpoint_key (kr_handle r) \<noteq> key"
    using b(1) by (simp add: delete_from_ledger_def Let_def btree_get_filter_iff)
  show "btree_get i (le_commands (delete_from_ledger key l)) = Some c \<longleftrightarrow>
      btree_get i (le_commands l) = Some c \<and> ch_checkpoint_key (cc_handle c) \<noteq> key"
    using b(2) by (simp add: delete_from_ledger_def Let_def btree_get_filter_iff)
  show "btree_get i (le_wake_leases (delete_from_ledger key l)) = Some w \<longleftrightarrow>
      btree_get i (le_wake_leases l) = Some w \<and> btree_get i (le_command_receipts (delete_from_ledger key l)) \<noteq> None"
    using b(3) dom by (simp add: delete_from_ledger_def Let_def btree_get_filter_iff del: set_filter)
qed

lemma commands_ok_delete:
  assumes ok: "commands_ok E l"
  shows "commands_ok E (delete_from_ledger key l)"
proof -
  note get = delete_from_ledger_get [OF ok]
  let ?l = "delete_from_ledger key l"
  have "row_ok E ?l i r resolution" if row: "btree_get i (le_command_receipts ?l) = Some (r, resolution)" for i r resolution
  proof -
    have old: "row_ok E l i r resolution" "ch_checkpoint_key (kr_handle r) \<noteq> key"
      using commands_okD [OF ok] row get(1) by blast+
    then obtain c where c: "btree_get i (le_commands l) = Some c" "command_validate E c = Inr ()" "cc_command_id c = i"
      "cc_command_digest c = kr_command_digest r" "cc_handle c = kr_handle r" by (auto simp: row_ok_def)
    have "btree_get i (le_commands ?l) = Some c" using get(2) c old(2) by simp
    moreover have "btree_get i (le_wake_leases ?l) = btree_get i (le_wake_leases l)"
      using get(3) [of i key] row by (cases "btree_get i (le_wake_leases l)"; cases "btree_get i (le_wake_leases ?l)") auto
    ultimately show ?thesis using old(1) c(2-) by (simp add: row_ok_def)
  qed
  moreover have "btree_ok (le_command_receipts ?l)" "btree_ok (le_commands ?l)" "btree_ok (le_wake_leases ?l)"
    using ok by (simp_all add: commands_ok_def delete_from_ledger_def Let_def)
  moreover have "btree_get i (le_command_receipts ?l) \<noteq> None" if "btree_get i (le_wake_leases ?l) \<noteq> None" for i
    using that get(3) by auto
  ultimately show ?thesis by (simp add: commands_ok_def)
qed

lemma put_effect_ledger:
  "sto_ledger (put_effect key (u, wake, rec) st) =
     (case rec of None \<Rightarrow> sto_ledger st
      | Some (i, h) \<Rightarrow> (sto_ledger st)\<lparr>le_host_interactions := btree_insert i h (le_host_interactions (sto_ledger st))\<rparr>)"
  by (simp add: put_effect_def put_checkpoint_def put_host_def split: option.splits prod.splits)

lemma commands_ok_put_command:
  assumes ok: "commands_ok E l" and fresh: "btree_get (cc_command_id cmd) (le_command_receipts l) = None"
    and cmd: "command_validate E cmd = Inr ()" and u: "validate_checkpoint E u = Inr ()"
    and wake: "wake = wake_none \<or> (\<exists>n. wake = wake_recovery n)"
    and l': "le_command_receipts l' = btree_insert (cc_command_id cmd)
      (receipt_of cmd u wake, CommandApplied (receipt_of cmd u wake) wake) (le_command_receipts l)"
      "le_commands l' = btree_insert (cc_command_id cmd) cmd (le_commands l)" "le_wake_leases l' = le_wake_leases l"
  shows "commands_ok E l'"
proof -
  have "btree_get (cc_command_id cmd) (le_wake_leases l) = None" using ok fresh by (auto simp: commands_ok_def)
  then have "row_ok E l' (cc_command_id cmd) (receipt_of cmd u wake) (CommandApplied (receipt_of cmd u wake) wake)"
    using receipt_of_valid [OF cmd u wake] cmd l' by (simp add: row_ok_def) (simp add: receipt_of_def)
  moreover have "row_ok E l' i r resolution"
    if "i \<noteq> cc_command_id cmd" "btree_get i (le_command_receipts l) = Some (r, resolution)" for i r resolution
    using commands_okD [OF ok that(2)] that(1) l' by (simp add: row_ok_def)
  ultimately show ?thesis using ok l' by (auto simp: commands_ok_def)
qed

end
