(* ===== verification/Controller_Laws.thy ===== *)
theory Controller_Laws
  imports Command_Laws
begin

text \<open>
  What workers and controllers rely on together: checkpoints and ledger stay consistent, a command is
  applied once, a wake has one owner at a time, and a cancellation is not lost.
\<close>

section \<open>Commands keep the key and the request to cancel\<close>

lemma stage_control_Inr: "stage_control E c cycle payload result i = Inr u \<Longrightarrow> \<exists>x. u = c\<lparr>cp_event_outbox := x\<rparr>"
  by (auto simp: stage_control_def and_then_Inr_iff push_event_def)

lemma append_control_Inr:
  "append_control_event E c i payload = Inr u \<Longrightarrow> \<exists>x. u = c\<lparr>cp_event_outbox := x\<rparr>"
  "append_control_event_with_result E c i payload result = Inr u \<Longrightarrow> \<exists>x. u = c\<lparr>cp_event_outbox := x\<rparr>"
  "append_cancel_requested_event E c i = Inr u \<Longrightarrow> \<exists>x. u = c\<lparr>cp_event_outbox := x\<rparr>"
  unfolding append_control_event_def append_control_event_with_result_def append_control_event_with_completion_def
    append_cancel_requested_event_def
  by (blast dest: stage_control_Inr)+

text \<open>The key, and a request to cancel once it is made.\<close>

definition same_run :: "checkpoint \<Rightarrow> checkpoint \<Rightarrow> bool" where
  "same_run c c' \<longleftrightarrow> cp_key c' = cp_key c \<and> (cp_cancel_requested c \<longrightarrow> cp_cancel_requested c')"

lemma terminate_same_run:
  assumes "terminate E cur u i result reason payload = Inr (u', wake, rec)" and "same_run cur u"
  shows "same_run cur u'"
  using assms
  by (auto simp: terminate_def and_then_Inr_iff validated_Inr same_run_def release_claim_def
      dest!: close_unresolved_tools_frame append_control_Inr)

lemma resume_target_same_run:
  assumes "resume_target E l cur u origin = Inr (u', wake)" and "same_run cur u"
  shows "same_run cur u'"
proof -
  have opaque: "y = x1 \<or> y = x2 \<or> r = Inr y"
    if "(if b1 then Inr x1 else if b2 then Inr x2 else if b3 then r else Inl e) = Inr y"
    for b1 b2 b3 e r and x1 x2 y :: "checkpoint \<times> command_wake"
    using that by (simp split: if_splits)
  have if_Inr: "y = x1 \<or> y = x2" if "(if b then Inr x1 else Inr x2) = Inr y" for b and x1 x2 y :: "checkpoint \<times> command_wake"
    using that by (simp split: if_splits)
  show ?thesis
    using assms(1) [unfolded resume_target_def, THEN opaque] assms(2)
    by (elim disjE and_then_InrE) (auto simp: same_run_def dest!: if_Inr)
qed

text \<open>An answer also resolves the record of the question; no other command touches a record.\<close>

lemma respond_Inr:
  assumes "respond_effect E l cur u cmd i n op call digest response = Inr (u', wake, rec)"
  shows "same_run u u' \<and> (\<exists>pending r. rec = Some r \<and> resolve_record E l cur pending cmd response = Inr r)"
proof -
  have either: "y = (x1, w1, r) \<or> y = (x2, w2, r)"
    if "(if b then validated E x1 w1 r else validated E x2 w2 r) = Inr y" for b x1 w1 x2 w2 r y
    using that by (cases y) (auto simp: validated_Inr split: if_splits)
  show ?thesis
    using assms unfolding respond_effect_def
    by (elim and_then_InrE) (auto simp: same_run_def dest!: either)
qed

lemma effect_same_run:
  assumes "command_effect_of E l cur u cmd now kind = Inr (u', wake, rec)" and u: "same_run cur u"
  shows "same_run cur u'"
proof (cases kind)
  case Cancel_Command
  then show ?thesis
    using assms
    by (auto simp: cancel_effect_def and_then_Inr_iff validated_Inr split: if_splits dest: terminate_same_run dest!: append_control_Inr)
      (simp_all add: same_run_def)
next
  case Abort_Command
  then show ?thesis
    using assms by (auto simp: abort_effect_def and_then_Inr_iff Let_def dest: terminate_same_run)
next
  case Resume_Command
  then obtain origin u1 w where r: "resume_target E l cur u origin = Inr (u1, w)"
    "append_control_event E (u1\<lparr>cp_revision := cp_revision cur + 1\<rparr>) (cc_command_id cmd)
      (CheckpointResumed (cp_key cur) (cp_resume_attempt cur)) = Inr u'"
    using assms(1) by (auto simp: resume_effect_def and_then_Inr_iff validated_Inr)
  then show ?thesis using resume_target_same_run [OF r(1) u] append_control_Inr(1) [OF r(2)] by (auto simp: same_run_def)
next
  case Suspend_Command
  then show ?thesis
    using assms by (auto simp: suspend_effect_def and_then_Inr_iff validated_Inr same_run_def dest!: append_control_Inr(1))
next
  case HostInteractionResponse
  then show ?thesis using assms respond_Inr by (fastforce simp: same_run_def)
qed

lemma drop_expired_same_run: "drop_expired_claim c kind now = Inr u \<Longrightarrow> same_run c u"
  by (auto simp: drop_expired_claim_def and_then_Inr_iff same_run_def release_claim_def split: if_splits)

lemma commanded_same_run: "commanded E l cur cmd now = Inr (u, wake, rec) \<Longrightarrow> same_run cur u"
  by (auto simp: commanded_def and_then_Inr_iff intro: effect_same_run drop_expired_same_run)

text \<open>The record that an answer resolves was waiting, and stays where it is.\<close>

lemma resolve_record_Inr:
  assumes "resolve_record E l cur pending cmd response = Inr (i, h)"
  shows "\<exists>h0. btree_get i (le_host_interactions l) = Some h0 \<and> hc_state h0 = ''active'' \<and> hc_state h = ''resolved_pending'' \<and>
    hc_record_id h = hc_record_id h0 \<and> hc_checkpoint_key h = hc_checkpoint_key h0 \<and> host_record_validate E h = Inr ()"
  using assms unfolding resolve_record_def Let_def
  by (elim and_then_InrE) (auto split: if_splits)

lemma terminate_record: "terminate E cur u i result reason payload = Inr (u', wake, rec) \<Longrightarrow> rec = None"
  using terminate_Inr by blast

lemma commanded_record:
  assumes "commanded E l cur cmd now = Inr (u, wake, Some (i, h))"
  shows "\<exists>h0. btree_get i (le_host_interactions l) = Some h0 \<and> hc_state h0 = ''active'' \<and> hc_state h = ''resolved_pending'' \<and>
    hc_record_id h = hc_record_id h0 \<and> hc_checkpoint_key h = hc_checkpoint_key h0 \<and> host_record_validate E h = Inr ()"
proof -
  obtain v where v: "command_effect_of E l cur v cmd now (cc_command cmd) = Inr (u, wake, Some (i, h))"
    using assms unfolding commanded_def by (elim and_then_InrE)
  show ?thesis
  proof (cases "cc_command cmd")
    case (HostInteractionResponse a b c d e f)
    then show ?thesis using v respond_Inr [of E l cur v cmd a b c d e f u wake "Some (i, h)"] resolve_record_Inr by fastforce
  next
    case Suspend_Command
    then show ?thesis using v by (auto simp: suspend_effect_def and_then_Inr_iff validated_Inr)
  next
    case Resume_Command
    then show ?thesis using v by (auto simp: resume_effect_def and_then_Inr_iff validated_Inr)
  next
    case Cancel_Command
    then show ?thesis
      using v by (auto simp: cancel_effect_def and_then_Inr_iff validated_Inr split: if_splits dest: terminate_record)
  next
    case Abort_Command
    then show ?thesis using v by (auto simp: abort_effect_def and_then_Inr_iff Let_def dest: terminate_record)
  qed
qed

section \<open>A controller call writes one checkpoint at most\<close>

definition one_write :: "env \<Rightarrow> store \<Rightarrow> store \<Rightarrow> bool" where
  "one_write E st st' \<longleftrightarrow> sto_checkpoints st' = sto_checkpoints st \<or>
     (\<exists>key cur c. load_checkpoint st key = Some cur \<and> same_run cur c \<and> validate_checkpoint E c = Inr () \<and>
       sto_checkpoints st' = btree_insert key c (sto_checkpoints st))"

lemma one_write_refl [simp]: "one_write E st st"
  by (simp add: one_write_def)

lemma one_write_same: "sto_checkpoints st' = sto_checkpoints st \<Longrightarrow> one_write E st st'"
  by (simp add: one_write_def)

lemma put_checkpoints [simp]:
  "sto_checkpoints (put_host i h st) = sto_checkpoints st" "sto_checkpoints (put_notification i n st) = sto_checkpoints st"
  "sto_checkpoints (put_command cmd r resolution st) = sto_checkpoints st" "sto_checkpoints (update_ledger st l) = sto_checkpoints st"
  "sto_checkpoints (put_checkpoint key c st) = btree_insert key c (sto_checkpoints st)"
  "sto_checkpoints (put_effect key (u, wake, rec) st) = btree_insert key u (sto_checkpoints st)"
  by (simp_all add: put_host_def put_notification_def put_command_def update_ledger_def put_checkpoint_def put_effect_def
      split: option.splits prod.splits)

lemma resolve_one_write:
  assumes "store_valid E st"
  shows "one_write E st (fst (resolve_controller_command E st cmd now))"
  using resolve_cases [of E st cmd now]
proof (elim disjE exE conjE)
  fix cur u wake rec
  assume cur: "load_checkpoint st (ch_checkpoint_key (cc_handle cmd)) = Some cur"
    and u: "commanded E (sto_ledger st) cur cmd now = Inr (u, wake, rec)"
    and st': "resolve_controller_command E st cmd now =
      (put_command cmd (receipt_of cmd u wake) (CommandApplied (receipt_of cmd u wake) wake) (put_effect (cp_key cur) (u, wake, rec) st),
       Inr (CommandApplied (receipt_of cmd u wake) wake))"
  have key: "cp_key cur = ch_checkpoint_key (cc_handle cmd)" using assms cur by (simp add: store_valid_def)
  have "sto_checkpoints (fst (resolve_controller_command E st cmd now)) = btree_insert (cp_key cur) u (sto_checkpoints st)"
    unfolding st' by simp
  moreover note commanded_same_run [OF u] commanded_Inr(1) [OF u]
  ultimately show ?thesis using cur unfolding one_write_def key by blast
qed simp

lemma normalized_write:
  assumes "load_checkpoint st key = Some cur" and "same_run cur u" and "validate_checkpoint E u = Inr ()"
    and "normalize_checkpoint_history E u = Inr (c, b)" and "sto_checkpoints st' = btree_insert key c (sto_checkpoints st)"
  shows "one_write E st st'"
proof -
  have r: "records_only u c" "validate_checkpoint E c = Inr ()"
    using normalize_Inr [OF assms(4)] assms(3) by (cases b; auto)+
  have "same_run cur c" using r(1) assms(2) by (cases u; cases c) (simp add: records_only_def same_run_def)
  then show ?thesis using assms(1,5) r(2) unfolding one_write_def by blast
qed

lemma prepare_cycle_same_run: "prepare_host_interaction_cycle E cur q x = Inr u \<Longrightarrow> same_run cur u"
proof -
  assume u: "prepare_host_interaction_cycle E cur q x = Inr u"
  show ?thesis
  proof (cases "ac_cycle_snapshot x")
    case None
    then show ?thesis using u by (auto simp: prepare_host_interaction_cycle_def and_then_Inr_iff same_run_def)
  next
    case (Some snap)
    then have c: "\<not> cp_cancel_requested cur" "commit_asking_cycle E cur q x snap = Inr u"
      using u by (auto simp: prepare_host_interaction_cycle_def and_then_Inr_iff)
    from c(2) have "cp_key u = cp_key cur"
      unfolding commit_asking_cycle_def by (elim and_then_InrE) (auto dest!: receipt_advances split: option.splits)
    then show ?thesis using c(1) by (simp add: same_run_def)
  qed
qed

lemma new_notification_Inr:
  assumes "new_notification E key record_id q = Inr (i, n)"
  shows "nr_notification_id n = i" "nr_checkpoint_key n = key" "nr_outbox_state n = NPending" "nr_attempt n = 0"
    "notification_validate E n = Inr ()" "notification_id_for E record_id = Inr i"
  using assms unfolding new_notification_def Let_def by (elim and_then_InrE; auto)+

lemma new_host_record_Inr:
  assumes "new_host_record E key record_id q = Inr h"
  shows "hc_record_id h = record_id" "hc_checkpoint_key h = key" "hc_state h = ''active''" "host_record_validate E h = Inr ()"
  using assms unfolding new_host_record_def Let_def by (elim and_then_InrE; auto)+

lemma ask_host_Inr:
  assumes "ask_host E cur q x record_id = Inr (u, h, n, out)"
  shows "same_run cur u" "validate_checkpoint E u = Inr ()" "new_notification E (ac_checkpoint_key x) record_id q = Inr n"
    "new_host_record E (ac_checkpoint_key x) record_id q = Inr h"
proof -
  show "same_run cur u" "validate_checkpoint E u = Inr ()" "new_notification E (ac_checkpoint_key x) record_id q = Inr n"
    "new_host_record E (ac_checkpoint_key x) record_id q = Inr h"
    using assms unfolding ask_host_def Let_def
    by (elim and_then_InrE; auto dest!: prepare_cycle_same_run simp: same_run_def push_event_def release_claim_def)+
qed

text \<open>A question that is admitted adds its record and its notification; any other leaves checkpoints and ledger alone.\<close>

lemma ask_cases:
  "(sto_checkpoints (full_exec E (Ask q x) st) = sto_checkpoints st \<and> sto_ledger (full_exec E (Ask q x) st) = sto_ledger st) \<or>
   (\<exists>cur record_id u h i n out c b. load_checkpoint st (ac_checkpoint_key x) = Some cur \<and>
      ask_host E cur q x record_id = Inr (u, h, (i, n), out) \<and> normalize_checkpoint_history E u = Inr (c, b) \<and>
      btree_get record_id (le_host_interactions (sto_ledger st)) = None \<and> record_id_for E (ac_checkpoint_key x) q = Inr record_id \<and>
      sto_checkpoints (full_exec E (Ask q x) st) = btree_insert (ac_checkpoint_key x) c (sto_checkpoints st) \<and>
      sto_ledger (full_exec E (Ask q x) st) = (sto_ledger st)
        \<lparr>le_host_interactions := btree_insert record_id h (le_host_interactions (sto_ledger st)),
         le_notifications := btree_insert i n (le_notifications (sto_ledger st))\<rparr>)"
  (is "?same (full_exec E (Ask q x) st) \<or> ?new (full_exec E (Ask q x) st)")
proof -
  have admit: "?same (fst (admit_question E st cur q x record_id)) \<or> ?new (fst (admit_question E st cur q x record_id))"
    if cur: "btree_get (ac_checkpoint_key x) (sto_checkpoints st) = Some cur"
      and fresh: "btree_get record_id (le_host_interactions (sto_ledger st)) = None"
      and i: "record_id_for E (ac_checkpoint_key x) q = Inr record_id" for cur record_id
  proof (cases "ask_host E cur q x record_id")
    case (Inr y)
    obtain u h i n out where y: "y = (u, h, (i, n), out)" by (metis prod.collapse)
    obtain st' res where p: "persist_history E st u = (st', res)" by fastforce
    note h = persist_history_checkpoints [OF p]
    show ?thesis
    proof (cases res)
      case (Inl e)
      then show ?thesis using h p Inr y by (simp add: admit_question_def)
    next
      case (Inr c)
      obtain b where b: "normalize_checkpoint_history E u = Inr (c, b)" using h Inr by blast
      have st1: "fst (admit_question E st cur q x record_id) = put_notification i n (put_host record_id h (put_checkpoint (ac_checkpoint_key x) c st'))"
        using p Inr y \<open>ask_host _ _ _ _ _ = Inr y\<close> by (simp add: admit_question_def)
      have "?new (fst (admit_question E st cur q x record_id))"
        unfolding st1 using cur fresh i b y \<open>ask_host _ _ _ _ _ = Inr y\<close> h
        by (intro exI [of _ cur] exI [of _ record_id] exI [of _ u] exI [of _ h] exI [of _ i] exI [of _ n] exI [of _ out]
            exI [of _ c] exI [of _ b])
          (simp add: load_checkpoint_def, simp add: put_notification_def put_host_def put_checkpoint_def)
      then show ?thesis ..
    qed
  qed (simp add: admit_question_def)
  show ?thesis
    unfolding full_exec.simps produce_host_interaction_def Let_def
    using admit by (simp split: sum.split option.split prod.split if_split)
qed

lemma consume_response_Inr:
  assumes "consume_response E cur h v now = Inr (u, h')"
  shows "same_run cur u" "validate_checkpoint E u = Inr ()" "host_record_validate E h' = Inr ()" "hc_state h = ''resolved_pending''"
    "hc_state h' = ''consumed''" "hc_record_id h' = hc_record_id h" "hc_checkpoint_key h' = hc_checkpoint_key h"
    "hc_record_id h = rv_record_id v"
  using assms unfolding consume_response_def Let_def
  by (elim and_then_InrE; auto dest!: stage_control_Inr simp: same_run_def recovery_identity_matches_def split: if_splits)+

lemma consume_cases:
  "(sto_checkpoints (full_exec E (Consume v now) st) = sto_checkpoints st \<and> sto_ledger (full_exec E (Consume v now) st) = sto_ledger st \<and>
      (\<forall>x. snd (claim_and_consume_host_interaction_response E st v now) = Inr x \<longrightarrow> rs_kind x \<noteq> ''applied'')) \<or>
   (\<exists>cur h u h' c b. load_checkpoint st (rv_checkpoint_key v) = Some cur \<and>
      btree_get (rv_record_id v) (le_host_interactions (sto_ledger st)) = Some h \<and>
      consume_response E cur h v now = Inr (u, h') \<and> normalize_checkpoint_history E u = Inr (c, b) \<and>
      sto_checkpoints (full_exec E (Consume v now) st) = btree_insert (rv_checkpoint_key v) c (sto_checkpoints st) \<and>
      sto_ledger (full_exec E (Consume v now) st) =
        (sto_ledger st)\<lparr>le_host_interactions := btree_insert (rv_record_id v) h' (le_host_interactions (sto_ledger st))\<rparr>)"
  (is "?same (full_exec E (Consume v now) st) \<or> ?new (full_exec E (Consume v now) st)")
proof (cases "\<exists>cur h. recovery_envelope_validate v = Inr () \<and> btree_get (rv_checkpoint_key v) (sto_checkpoints st) = Some cur \<and>
    btree_get (rv_record_id v) (le_host_interactions (sto_ledger st)) = Some h \<and> hc_state h \<noteq> ''consumed''")
  case True
  then obtain cur h where f: "recovery_envelope_validate v = Inr ()" "btree_get (rv_checkpoint_key v) (sto_checkpoints st) = Some cur"
    "btree_get (rv_record_id v) (le_host_interactions (sto_ledger st)) = Some h" "hc_state h \<noteq> ''consumed''" by blast
  show ?thesis
  proof (cases "consume_response E cur h v now")
    case (Inr y)
    obtain u h' where y: "y = (u, h')" by (cases y)
    note r = Inr [unfolded y]
    obtain st' res where p: "persist_history E st u = (st', res)" by fastforce
    note s = persist_history_checkpoints [OF p]
    show ?thesis
    proof (cases res)
      case (Inl e)
      then show ?thesis using s p r f by (simp add: claim_and_consume_host_interaction_response_def)
    next
      case (Inr c)
      obtain b where b: "normalize_checkpoint_history E u = Inr (c, b)" using s Inr by blast
      have st1: "full_exec E (Consume v now) st = put_host (hc_record_id h') h' (put_checkpoint (rv_checkpoint_key v) c st')"
        using p Inr r f by (simp add: claim_and_consume_host_interaction_response_def)
      have "hc_record_id h' = rv_record_id v" using consume_response_Inr(6,8) [OF r] by simp
      then have "?new (full_exec E (Consume v now) st)"
        unfolding st1 using f b r s
        by (intro exI [of _ cur] exI [of _ h] exI [of _ u] exI [of _ h'] exI [of _ c] exI [of _ b])
          (simp add: load_checkpoint_def, simp add: put_host_def put_checkpoint_def)
      then show ?thesis ..
    qed
  qed (use f in \<open>simp add: claim_and_consume_host_interaction_response_def\<close>)
next
  case False
  have answer: "rs_kind x = kind" if "recovery_answer kind i n m a state = Inr x" for kind i n m a state x
    using that by (auto simp: recovery_answer_def Let_def and_then_Inr_iff)
  have "snd (claim_and_consume_host_interaction_response E st v now) = Inr x \<Longrightarrow> rs_kind x \<noteq> ''applied''" for x
    using False
    by (auto simp: claim_and_consume_host_interaction_response_def and_then_Inr_iff dest!: answer
        split: sum.splits option.splits prod.splits if_splits)
  moreover have "fst (claim_and_consume_host_interaction_response E st v now) = st"
    using False
    by (auto simp: claim_and_consume_host_interaction_response_def and_then_def ok_or_def split: sum.splits option.splits)
  ultimately show ?thesis by simp
qed

section \<open>Checkpoints and ledger stay consistent\<close>

definition rows_ok :: "('k::linorder, 'v) btree \<Rightarrow> ('k \<Rightarrow> 'v \<Rightarrow> bool) \<Rightarrow> bool" where
  "rows_ok m P \<longleftrightarrow> btree_ok m \<and> (\<forall>k v. btree_get k m = Some v \<longrightarrow> P k v)"

lemma rows_ok_insert [simp]: "rows_ok m P \<Longrightarrow> P k v \<Longrightarrow> rows_ok (btree_insert k v m) P"
  by (simp add: rows_ok_def)

lemma rows_ok_mono: "rows_ok m P \<Longrightarrow> (\<And>k v. P k v \<Longrightarrow> Q k v) \<Longrightarrow> rows_ok m Q"
  by (auto simp: rows_ok_def)

lemma rows_ok_filter: "rows_ok m P \<Longrightarrow> (\<And>k v. P k v \<Longrightarrow> f (k, v) \<Longrightarrow> Q k v) \<Longrightarrow> rows_ok (filter f m) Q"
  by (auto simp: rows_ok_def btree_get_filter_iff)

lemma rows_okD: "rows_ok m P \<Longrightarrow> btree_get k m = Some v \<Longrightarrow> P k v"
  by (simp add: rows_ok_def)

text \<open>The ledger of a store whose checkpoints have the keys \<open>D\<close>.\<close>

definition ledger_ok :: "env \<Rightarrow> string set \<Rightarrow> ledger \<Rightarrow> bool" where
  "ledger_ok E D l \<longleftrightarrow> commands_ok E l \<and>
     rows_ok (le_command_receipts l) (\<lambda>i x. ch_checkpoint_key (kr_handle (fst x)) \<in> D) \<and>
     rows_ok (le_host_interactions l) (\<lambda>i h. hc_record_id h = i \<and> hc_checkpoint_key h \<in> D \<and> host_record_validate E h = Inr ()) \<and>
     rows_ok (le_notifications l) (\<lambda>i n. nr_notification_id n = i \<and> nr_checkpoint_key n \<in> D \<and> notification_validate E n = Inr ())"

definition controller_valid :: "env \<Rightarrow> store \<Rightarrow> bool" where
  "controller_valid E st \<longleftrightarrow> store_valid E st \<and> ledger_ok E (dom (load_checkpoint st)) (sto_ledger st)"

lemma ledger_ok_mono:
  assumes "ledger_ok E D l" and "D \<subseteq> D'"
  shows "ledger_ok E D' l"
  using assms by (auto simp: ledger_ok_def elim!: rows_ok_mono)

lemma ledger_ok_delete:
  assumes "ledger_ok E D l"
  shows "ledger_ok E (D - {key}) (delete_from_ledger key l)"
proof -
  have c: "commands_ok E (delete_from_ledger key l)" using assms commands_ok_delete by (simp add: ledger_ok_def)
  show ?thesis
    unfolding ledger_ok_def
  proof (intro conjI)
    show "rows_ok (le_command_receipts (delete_from_ledger key l)) (\<lambda>i x. ch_checkpoint_key (kr_handle (fst x)) \<in> D - {key})"
      using assms by (auto simp: ledger_ok_def delete_from_ledger_def Let_def elim!: rows_ok_filter)
    show "rows_ok (le_host_interactions (delete_from_ledger key l))
        (\<lambda>i h. hc_record_id h = i \<and> hc_checkpoint_key h \<in> D - {key} \<and> host_record_validate E h = Inr ())"
      using assms by (auto simp: ledger_ok_def delete_from_ledger_def Let_def elim!: rows_ok_filter)
    show "rows_ok (le_notifications (delete_from_ledger key l))
        (\<lambda>i n. nr_notification_id n = i \<and> nr_checkpoint_key n \<in> D - {key} \<and> notification_validate E n = Inr ())"
      using assms by (auto simp: ledger_ok_def delete_from_ledger_def Let_def elim!: rows_ok_filter)
  qed (rule c)
qed

lemma ledger_ok_commands:
  assumes "ledger_ok E D l" and "commands_ok E l'" and "rows_ok (le_command_receipts l') (\<lambda>i x. ch_checkpoint_key (kr_handle (fst x)) \<in> D)"
    and "le_host_interactions l' = le_host_interactions l" and "le_notifications l' = le_notifications l"
  shows "ledger_ok E D l'"
  using assms by (simp add: ledger_ok_def)

lemma ledger_ok_hosts:
  assumes "ledger_ok E D l" and "hc_record_id h = i" and "hc_checkpoint_key h \<in> D" and "host_record_validate E h = Inr ()"
  shows "ledger_ok E D (l\<lparr>le_host_interactions := btree_insert i h (le_host_interactions l)\<rparr>)"
  using assms commands_ok_cong [of "l\<lparr>le_host_interactions := btree_insert i h (le_host_interactions l)\<rparr>" l E]
  by (simp add: ledger_ok_def)

lemma ledger_ok_notifications:
  assumes "ledger_ok E D l" and "nr_notification_id n = i" and "nr_checkpoint_key n \<in> D" and "notification_validate E n = Inr ()"
  shows "ledger_ok E D (l\<lparr>le_notifications := btree_insert i n (le_notifications l)\<rparr>)"
  using assms commands_ok_cong [of "l\<lparr>le_notifications := btree_insert i n (le_notifications l)\<rparr>" l E]
  by (simp add: ledger_ok_def)

lemma ledger_okD:
  assumes "ledger_ok E D l"
  shows "commands_ok E l" "btree_get i (le_command_receipts l) = Some (r, resolution) \<Longrightarrow> ch_checkpoint_key (kr_handle r) \<in> D"
    "btree_get i (le_host_interactions l) = Some h \<Longrightarrow>
      hc_record_id h = i \<and> hc_checkpoint_key h \<in> D \<and> host_record_validate E h = Inr ()"
    "btree_get i (le_notifications l) = Some n \<Longrightarrow>
      nr_notification_id n = i \<and> nr_checkpoint_key n \<in> D \<and> notification_validate E n = Inr ()"
  using assms by (auto simp: ledger_ok_def dest: rows_okD)

text \<open>Moves of wakes keep the commands and their keys.\<close>

lemma kept_back:
  assumes "kept l l'" and "btree_get i (le_command_receipts l') = Some (r', resolution')"
  shows "\<exists>r resolution. btree_get i (le_command_receipts l) = Some (r, resolution) \<and> same_command r r'"
proof -
  have "(btree_get i (le_command_receipts l') = None) = (btree_get i (le_command_receipts l) = None)"
    using assms(1) by (simp add: kept_def)
  then obtain r resolution where r: "btree_get i (le_command_receipts l) = Some (r, resolution)" using assms(2) by force
  then obtain r'' resolution'' where "btree_get i (le_command_receipts l') = Some (r'', resolution'')" "same_command r r''"
    using assms(1) unfolding kept_def row_stays_def by blast
  then show ?thesis using r assms(2) by simp
qed

lemma ledger_ok_kept:
  assumes "ledger_ok E D l" and "commands_ok E l'" and "kept l l'"
  shows "ledger_ok E D l'"
proof (rule ledger_ok_commands [OF assms(1,2)])
  have "ch_checkpoint_key (kr_handle r') \<in> D" if get: "btree_get i (le_command_receipts l') = Some (r', resolution')" for i r' resolution'
  proof -
    obtain r resolution where r: "btree_get i (le_command_receipts l) = Some (r, resolution)" "same_command r r'"
      using kept_back [OF assms(3) get] by blast
    then show ?thesis using ledger_okD(2) [OF assms(1) r(1)] by (simp add: same_command_simps)
  qed
  then show "rows_ok (le_command_receipts l') (\<lambda>i x. ch_checkpoint_key (kr_handle (fst x)) \<in> D)"
    using assms(2) by (auto simp: rows_ok_def commands_ok_def)
qed (use assms(3) in \<open>simp_all add: kept_def\<close>)

text \<open>The calls on notifications rewrite one row and keep what identifies it.\<close>

definition notified :: "env \<Rightarrow> string \<Rightarrow> (notification_record \<Rightarrow> notification_record \<Rightarrow> bool) \<Rightarrow> store \<Rightarrow> store \<Rightarrow> bool" where
  "notified E i R st st' \<longleftrightarrow> st' = st \<or>
     (\<exists>n n'. btree_get i (le_notifications (sto_ledger st)) = Some n \<and> notification_validate E n' = Inr () \<and>
       nr_notification_id n' = nr_notification_id n \<and> nr_checkpoint_key n' = nr_checkpoint_key n \<and> R n n' \<and>
       st' = put_notification i n' st)"

lemma notification_write_notified:
  assumes "\<And>n n'. f n = Inr (Inr n') \<Longrightarrow>
    nr_notification_id n' = nr_notification_id n \<and> nr_checkpoint_key n' = nr_checkpoint_key n \<and> R n n'"
  shows "notified E i R st (fst (notification_write E st i digest f))"
proof (cases "btree_get i (le_notifications (sto_ledger st))")
  case (Some n)
  show ?thesis
  proof (cases "f n")
    case (Inr y)
    show ?thesis
    proof (cases y)
      case (Inr n')
      show ?thesis
      proof (cases "notification_validate E n'")
        case v: (Inr u)
        show ?thesis
          using Some v assms [of n n'] \<open>f n = Inr y\<close> Inr by (auto simp: notification_write_def notified_def)
      qed (use Some Inr \<open>f n = Inr y\<close> in \<open>simp add: notification_write_def notified_def\<close>)
    qed (use Some \<open>f n = Inr y\<close> in \<open>simp add: notification_write_def notified_def\<close>)
  qed (use Some in \<open>simp add: notification_write_def notified_def\<close>)
qed (simp add: notification_write_def notified_def)

lemma notified_ledger_ok:
  assumes "notified E i R st st'" and ok: "ledger_ok E D (sto_ledger st)"
  shows "ledger_ok E D (sto_ledger st')" "sto_checkpoints st' = sto_checkpoints st"
  using assms(1) ledger_okD(4) [OF ok] ok
  by (auto simp: notified_def put_notification_def intro!: ledger_ok_notifications)

text \<open>What each call on a notification does to the row.\<close>

definition notification_item :: "notification_record \<Rightarrow> item" where
  "notification_item n =
    \<lparr>it_phase =
       (case nr_outbox_state n of
          NPending \<Rightarrow> Free
        | NClaimed \<Rightarrow> Held (the (nr_claim_token n)) (the (nr_lease_expires_at_ms n))
        | NDelivered \<Rightarrow> Done
        | NAmbiguous \<Rightarrow> Unknown
        | NAborted \<Rightarrow> Dropped),
     it_attempt = nr_attempt n\<rparr>"

definition steps_notification :: "item_op \<Rightarrow> notification_record \<Rightarrow> notification_record \<Rightarrow> bool" where
  "steps_notification a n n' \<longleftrightarrow> item_step a (Some (notification_item n)) (Some (notification_item n'))"

lemma claim_notified:
  "notified E i (\<lambda>n n'. notification_lifecycle_ok n \<longrightarrow> steps_notification (Take token lease now) n n') st
    (full_exec E (ClaimNotification i digest token lease now) st)"
proof (cases "is_blank token \<or> lease \<le> now")
  case False
  show ?thesis
    unfolding full_exec.simps claim_host_interaction_notification_def if_not_P [OF False]
  proof (rule notification_write_notified)
    fix n n'
    assume r: "claim_notification_row token lease now n = Inr (Inr n')"
    then have n': "n' = n\<lparr>nr_outbox_state := NClaimed, nr_claim_token := Some token, nr_lease_expires_at_ms := Some lease,
          nr_attempt := nr_attempt n + 1\<rparr>"
      and g: "nr_outbox_state n \<notin> {NDelivered, NAborted}" "nr_outbox_state n = NClaimed \<Longrightarrow> nr_lease_expires_at_ms n = Some t \<Longrightarrow>
        nr_claim_token n = Some token \<or> t \<le> now" for t
      by (auto simp: claim_notification_row_def and_then_Inr_iff checked_add_Some_iff split: if_splits)
    have "it_phase (notification_item n) \<in> {Free, Unknown} \<or>
        (\<exists>t l. it_phase (notification_item n) = Held t l \<and> (l \<le> now \<or> t = token))" if "notification_lifecycle_ok n"
      using g that by (cases "nr_outbox_state n") (auto simp: notification_item_def notification_lifecycle_ok_def)
    from item_step.take [OF this, of lease] False n'
    show "nr_notification_id n' = nr_notification_id n \<and> nr_checkpoint_key n' = nr_checkpoint_key n \<and>
        (notification_lifecycle_ok n \<longrightarrow> steps_notification (Take token lease now) n n')"
      by (simp add: steps_notification_def notification_item_def)
  qed
qed (auto simp: notified_def claim_host_interaction_notification_def)

lemma complete_notified:
  "notified E i (\<lambda>n n'. notification_lifecycle_ok n \<longrightarrow> steps_notification (Finish token attempt) n n') st
    (full_exec E (CompleteNotification i digest token attempt result now message) st)"
proof (cases "result \<notin> {''delivered'', ''ambiguous''}")
  case False
  show ?thesis
    unfolding full_exec.simps complete_host_interaction_notification_def if_not_P [OF False]
  proof (rule notification_write_notified)
    fix n n'
    let ?p = "if result = ''delivered'' then Done else Unknown"
    assume r: "complete_notification_row token attempt result now message n = Inr (Inr n')"
    then have g: "nr_outbox_state n = NClaimed" "nr_claim_token n = Some token" "nr_attempt n = attempt"
      and n': "nr_outbox_state n' = (if result = ''delivered'' then NDelivered else NAmbiguous)" "nr_attempt n' = nr_attempt n"
        "nr_notification_id n' = nr_notification_id n" "nr_checkpoint_key n' = nr_checkpoint_key n"
      by (auto simp: complete_notification_row_def split: if_splits)
    have "it_phase (notification_item n) = Held token (the (nr_lease_expires_at_ms n))" "it_attempt (notification_item n) = attempt"
      using g by (simp_all add: notification_item_def)
    from item_step.finish [OF this, of ?p] n'
    show "nr_notification_id n' = nr_notification_id n \<and> nr_checkpoint_key n' = nr_checkpoint_key n \<and>
        (notification_lifecycle_ok n \<longrightarrow> steps_notification (Finish token attempt) n n')"
      by (cases "result = ''delivered''") (simp_all add: steps_notification_def notification_item_def)
  qed
qed (simp add: notified_def complete_host_interaction_notification_def)

lemma reconcile_notified:
  "notified E i (\<lambda>n n'. notification_lifecycle_ok n \<longrightarrow> steps_notification Settle n n') st
    (full_exec E (ReconcileNotification i digest result now reason) st)"
proof (cases "result \<notin> {''delivered'', ''retry'', ''abort''} \<or>
    result = ''abort'' \<and> (case reason of None \<Rightarrow> True | Some s \<Rightarrow> \<not> fits CONTENT_MAX s)")
  case True
  then show ?thesis by (auto simp: notified_def reconcile_host_interaction_notification_def)
next
  case False
  then have "full_exec E (ReconcileNotification i digest result now reason) st =
      fst (notification_write E st i digest (reconcile_notification_row (reconcile_target result) now reason))"
    unfolding full_exec.simps reconcile_host_interaction_notification_def by (simp only: de_Morgan_disj if_False)
  moreover have "notified E i (\<lambda>n n'. notification_lifecycle_ok n \<longrightarrow> steps_notification Settle n n') st
      (fst (notification_write E st i digest (reconcile_notification_row target now reason)))"
    if t: "target \<in> {NDelivered, NPending, NAborted}" for target
  proof (rule notification_write_notified)
    fix n n'
    assume r: "reconcile_notification_row target now reason n = Inr (Inr n')"
    then have g: "nr_outbox_state n = NAmbiguous" "nr_outbox_state n' = target" "nr_attempt n' = nr_attempt n"
        "nr_notification_id n' = nr_notification_id n" "nr_checkpoint_key n' = nr_checkpoint_key n"
      by (auto simp: reconcile_notification_row_def split: if_splits)
    then have "it_phase (notification_item n) = Unknown" by (simp add: notification_item_def)
    from item_step.settle [OF this, of "it_phase (notification_item n')"] g t
    show "nr_notification_id n' = nr_notification_id n \<and> nr_checkpoint_key n' = nr_checkpoint_key n \<and>
        (notification_lifecycle_ok n \<longrightarrow> steps_notification Settle n n')"
      by (auto simp: steps_notification_def notification_item_def)
  qed
  ultimately show ?thesis by (simp add: reconcile_target_def)
qed

lemma reap_record_cases:
  "full_exec E (ReapRecord i key now) st = st \<or>
   (\<exists>h h'. btree_get i (le_host_interactions (sto_ledger st)) = Some h \<and> host_record_validate E h' = Inr () \<and>
      hc_state h = ''resolved_claimed'' \<and> hc_state h' = ''resolved_pending'' \<and>
      hc_record_id h' = hc_record_id h \<and> hc_checkpoint_key h' = hc_checkpoint_key h \<and>
      full_exec E (ReapRecord i key now) st = put_host i h' st)"
  by (auto simp: reap_host_interaction_record_def Let_def split: option.splits sum.splits)

lemma receipt_handle: "kr_handle (receipt_of cmd u wake) = cc_handle cmd"
  by (simp add: receipt_of_def)

lemma resolve_ledger_ok:
  assumes v: "store_valid E st" and ok: "ledger_ok E (dom (load_checkpoint st)) (sto_ledger st)"
  shows "ledger_ok E (dom (load_checkpoint st)) (sto_ledger (fst (resolve_controller_command E st cmd now)))"
  using resolve_cases [of E st cmd now]
proof (elim disjE exE conjE)
  fix cur u wake rec
  let ?D = "dom (load_checkpoint st)" and ?l = "sto_ledger st"
  assume cmd: "command_validate E cmd = Inr ()" "btree_get (cc_command_id cmd) (le_command_receipts ?l) = None"
    and cur: "load_checkpoint st (ch_checkpoint_key (cc_handle cmd)) = Some cur"
    and u: "commanded E ?l cur cmd now = Inr (u, wake, rec)"
    and st': "resolve_controller_command E st cmd now =
      (put_command cmd (receipt_of cmd u wake) (CommandApplied (receipt_of cmd u wake) wake) (put_effect (cp_key cur) (u, wake, rec) st),
       Inr (CommandApplied (receipt_of cmd u wake) wake))"
  let ?l1 = "sto_ledger (put_effect (cp_key cur) (u, wake, rec) st)"
  have l1: "ledger_ok E ?D ?l1"
  proof (cases rec)
    case None
    then show ?thesis using ok by (simp add: put_effect_ledger)
  next
    case (Some y)
    obtain i h where y: "y = (i, h)" by (cases y)
    obtain h0 where h0: "btree_get i (le_host_interactions ?l) = Some h0" "hc_record_id h = hc_record_id h0"
      "hc_checkpoint_key h = hc_checkpoint_key h0" "host_record_validate E h = Inr ()"
      using commanded_record [OF u [unfolded Some y]] by blast
    show ?thesis
      unfolding put_effect_ledger Some y option.case prod.case
      using ledger_ok_hosts [OF ok, of h i] ledger_okD(3) [OF ok h0(1)] h0(2-4) by simp
  qed
  have rows: "le_command_receipts ?l1 = le_command_receipts ?l" "le_commands ?l1 = le_commands ?l" "le_wake_leases ?l1 = le_wake_leases ?l"
    by (cases rec; simp add: put_effect_ledger split: prod.splits)+
  let ?l2 = "sto_ledger (fst (resolve_controller_command E st cmd now))"
  have l2: "?l2 = ?l1\<lparr>le_command_receipts := btree_insert (cc_command_id cmd)
        (receipt_of cmd u wake, CommandApplied (receipt_of cmd u wake) wake) (le_command_receipts ?l1),
      le_commands := btree_insert (cc_command_id cmd) cmd (le_commands ?l1)\<rparr>"
    unfolding st' by (simp add: put_command_def)
  have stored: "ch_checkpoint_key (cc_handle cmd) \<in> ?D" using cur by (simp add: dom_def)
  have "commands_ok E ?l2"
    by (rule commands_ok_put_command [OF ledger_okD(1) [OF ok] cmd(2,1) commanded_Inr [OF u]]) (simp_all add: l2 rows)
  moreover have "rows_ok (le_command_receipts ?l2) (\<lambda>i x. ch_checkpoint_key (kr_handle (fst x)) \<in> ?D)"
    using l1 stored unfolding l2 ledger_ok_def by (simp add: receipt_handle)
  ultimately show ?thesis by (rule ledger_ok_commands [OF l1]) (simp_all add: l2)
qed (use ok in simp)

lemma ask_ledger_ok:
  assumes ok: "ledger_ok E (dom (load_checkpoint st)) (sto_ledger st)"
  shows "ledger_ok E (dom (load_checkpoint st)) (sto_ledger (full_exec E (Ask q x) st))"
  using ask_cases [of E q x st]
proof (elim disjE exE conjE)
  fix cur record_id u h i n out c b
  assume cur: "load_checkpoint st (ac_checkpoint_key x) = Some cur"
    and a: "ask_host E cur q x record_id = Inr (u, h, (i, n), out)"
    and st': "sto_ledger (full_exec E (Ask q x) st) = (sto_ledger st)
        \<lparr>le_host_interactions := btree_insert record_id h (le_host_interactions (sto_ledger st)),
         le_notifications := btree_insert i n (le_notifications (sto_ledger st))\<rparr>"
  have stored: "ac_checkpoint_key x \<in> dom (load_checkpoint st)" using cur by (simp add: dom_def)
  let ?l = "(sto_ledger st)\<lparr>le_host_interactions := btree_insert record_id h (le_host_interactions (sto_ledger st))\<rparr>"
  note h = new_host_record_Inr [OF ask_host_Inr(4) [OF a]] and n = new_notification_Inr [OF ask_host_Inr(3) [OF a]]
  have "ledger_ok E (dom (load_checkpoint st)) ?l" using ledger_ok_hosts [OF ok h(1) _ h(4)] h(2) stored by simp
  from ledger_ok_notifications [OF this n(1) _ n(5)] n(2) stored show ?thesis unfolding st' by simp
qed (use ok in simp)

lemma consume_ledger_ok:
  assumes ok: "ledger_ok E (dom (load_checkpoint st)) (sto_ledger st)"
  shows "ledger_ok E (dom (load_checkpoint st)) (sto_ledger (full_exec E (Consume v now) st))"
  using consume_cases [of E v now st]
proof (elim disjE exE conjE)
  fix cur h u h' c b
  assume h: "btree_get (rv_record_id v) (le_host_interactions (sto_ledger st)) = Some h"
    and r: "consume_response E cur h v now = Inr (u, h')"
    and st': "sto_ledger (full_exec E (Consume v now) st) =
        (sto_ledger st)\<lparr>le_host_interactions := btree_insert (rv_record_id v) h' (le_host_interactions (sto_ledger st))\<rparr>"
  note facts = consume_response_Inr [OF r] and old = ledger_okD(3) [OF ok h]
  show ?thesis unfolding st' using ledger_ok_hosts [OF ok _ _ facts(3)] facts(6-8) old by simp
qed (use ok in simp)

text \<open>The calls of controllers: everything but the calls of workers.\<close>

fun controller_op :: "full_op \<Rightarrow> bool" where
  "controller_op (Worker op) = False"
| "controller_op op = True"

lemma controller_ledger_ok:
  assumes v: "store_valid E st" and ok: "ledger_ok E (dom (load_checkpoint st)) (sto_ledger st)" and c: "controller_op op"
  shows "ledger_ok E (dom (load_checkpoint st)) (sto_ledger (full_exec E op st))"
proof -
  have wake: ?thesis if "full_exec E op st = st \<or> (\<exists>l. full_exec E op st = update_ledger st l \<and> moved a i (sto_ledger st) l)" for a i
    using that ledger_ok_kept [OF ok] moved_ok [OF ledger_okD(1) [OF ok]] moved_kept ok
    by (elim disjE exE) (auto simp: update_ledger_def)
  show ?thesis
  proof (cases op)
    case (AdmitCommand cmd now)
    then show ?thesis using resolve_ledger_ok [OF v ok] by (simp add: admit_resolve)
  next
    case (ResolveCommand cmd now)
    then show ?thesis using resolve_ledger_ok [OF v ok] by simp
  next
    case (ClaimWake i digest token lease now)
    then show ?thesis using wake claim_wake_moves [OF ledger_okD(1) [OF ok]] by blast
  next
    case (CompleteWake i digest token attempt result)
    then show ?thesis using wake complete_wake_moves [OF ledger_okD(1) [OF ok]] by blast
  next
    case (ReconcileWake i digest result)
    then show ?thesis using wake reconcile_wake_moves [OF ledger_okD(1) [OF ok]] by blast
  next
    case (ReapWakes key now)
    obtain l res where r: "reap_loop E key now (wake_candidates (sto_ledger st) key now) [] (sto_ledger st) = (l, res)" by fastforce
    note s = reaps_spec [OF reap_loop_reaps [OF r] ledger_okD(1) [OF ok]]
    show ?thesis
      using ledger_ok_kept [OF ok] s r ReapWakes by (simp add: reap_controller_command_wakes_def update_ledger_def)
  next
    case (ClaimNotification i digest token lease now)
    then show ?thesis using notified_ledger_ok(1) [OF claim_notified ok] by simp
  next
    case (CompleteNotification i digest token attempt result now message)
    then show ?thesis using notified_ledger_ok(1) [OF complete_notified ok] by simp
  next
    case (ReconcileNotification i digest result now reason)
    then show ?thesis using notified_ledger_ok(1) [OF reconcile_notified ok] by simp
  next
    case (Ask q x)
    then show ?thesis using ask_ledger_ok [OF ok] by simp
  next
    case (Consume w now)
    then show ?thesis using consume_ledger_ok [OF ok] by simp
  next
    case (ReapRecord i key now)
    then show ?thesis
      using reap_record_cases [of E i key now st] ledger_ok_hosts [OF ok] ledger_okD(3) [OF ok] ok
      by (auto simp: put_host_def simp del: full_exec.simps)
  qed (use c in simp)
qed

lemma write_checkpoints [simp]:
  "sto_checkpoints (fst (wake_write st i digest f)) = sto_checkpoints st"
  "sto_checkpoints (fst (notification_write E st i digest g)) = sto_checkpoints st"
  by (simp_all add: wake_write_def notification_write_def split: option.split prod.split sum.split)

lemma controller_one_write:
  assumes v: "store_valid E st" and c: "controller_op op"
  shows "one_write E st (full_exec E op st)"
proof (cases op)
  case (Ask q x)
  show ?thesis
    unfolding Ask using ask_cases [of E q x st] normalized_write ask_host_Inr(1,2) one_write_same by metis
next
  case (Consume w now)
  show ?thesis
    unfolding Consume using consume_cases [of E w now st] normalized_write consume_response_Inr(1,2) one_write_same by metis
next
  case (ReapRecord i key now)
  show ?thesis unfolding ReapRecord using reap_record_cases [of E i key now st] by (auto intro!: one_write_same simp del: full_exec.simps)
next
  case (ReapWakes key now)
  then show ?thesis by (auto simp: reap_controller_command_wakes_def intro!: one_write_same split: prod.split)
qed (use c resolve_one_write [OF v] in \<open>simp_all add: admit_resolve one_write_same claim_controller_command_wake_def
      complete_controller_command_wake_def reconcile_controller_command_wake_def claim_host_interaction_notification_def
      complete_host_interaction_notification_def reconcile_host_interaction_notification_def\<close>)

lemma one_write_valid:
  assumes "store_valid E st" and "one_write E st st'"
  shows "store_valid E st' \<and> dom (load_checkpoint st') = dom (load_checkpoint st)"
  using assms(2) unfolding one_write_def
proof (elim disjE exE conjE)
  assume "sto_checkpoints st' = sto_checkpoints st"
  then show ?thesis using assms(1) load_same [of st' st] by (simp add: store_valid_def)
next
  fix key cur c
  assume cur: "load_checkpoint st key = Some cur" and c: "same_run cur c" "validate_checkpoint E c = Inr ()"
    and st': "sto_checkpoints st' = btree_insert key c (sto_checkpoints st)"
  have "cp_key c = key" using cur c(1) assms(1) by (simp add: same_run_def store_valid_def)
  then have "store_valid E st'" using assms(1) c(2) st' load_insert [OF st'] by (simp add: store_valid_def)
  moreover have "dom (load_checkpoint st') = dom (load_checkpoint st)" using load_insert [OF st'] cur by auto
  ultimately show ?thesis ..
qed

text \<open>Workers only add checkpoints, except that deletion takes one with everything the ledger has of it.\<close>

lemma worker_valid:
  assumes v: "store_valid E st" and ok: "ledger_ok E (dom (load_checkpoint st)) (sto_ledger st)" and b: "renewal_bounded op"
  shows "controller_valid E (exec E op st)"
proof (cases "\<exists>key. op = Delete key")
  case True
  then obtain key where op: "op = Delete key" by blast
  have "load_checkpoint (exec E op st) = (load_checkpoint st)(key := None)"
    using v load_remove [of st "exec E op st" key] by (simp add: op delete_checkpoint_def store_valid_def)
  then have "dom (load_checkpoint (exec E op st)) = dom (load_checkpoint st) - {key}" by auto
  then show ?thesis
    using exec_valid [OF v b] ledger_ok_delete [OF ok, of key] exec_ledger [of E op st] by (simp add: controller_valid_def op)
next
  case False
  then have "dom (load_checkpoint st) \<subseteq> dom (load_checkpoint (exec E op st))"
    using exec_outcome [OF store_valid_keyed [OF v], of E op] unfolding outcome_def
    by (elim disjE exE conjE) (auto dest!: load_insert load_same simp del: exec.simps)
  moreover have "sto_ledger (exec E op st) = sto_ledger st" using False by (cases op) (simp_all add: exec_ledger del: exec.simps)
  ultimately show ?thesis using exec_valid [OF v b] ledger_ok_mono [OF ok] by (simp add: controller_valid_def)
qed

fun bounded_op :: "full_op \<Rightarrow> bool" where
  "bounded_op (Worker op) = renewal_bounded op"
| "bounded_op op = True"

lemma full_exec_valid:
  assumes "controller_valid E st" and "bounded_op op"
  shows "controller_valid E (full_exec E op st)"
proof (cases "controller_op op")
  case True
  have v: "store_valid E st" "ledger_ok E (dom (load_checkpoint st)) (sto_ledger st)" using assms(1) by (simp_all add: controller_valid_def)
  show ?thesis
    using one_write_valid [OF v(1) controller_one_write [OF v(1) True]] controller_ledger_ok [OF v True]
    by (simp add: controller_valid_def)
next
  case False
  then obtain w where "op = Worker w" by (cases op) auto
  then show ?thesis using worker_valid assms by (simp add: controller_valid_def)
qed

lemma run_valid:
  assumes "controller_valid E st" and "list_all bounded_op ops"
  shows "controller_valid E (fold (full_exec E) ops st)"
  using assms by (induction ops arbitrary: st) (simp_all add: full_exec_valid)

lemma empty_controller_valid: "controller_valid E empty_store"
  using empty_store_valid [of E]
  by (simp add: controller_valid_def ledger_ok_def commands_ok_def rows_ok_def empty_store_def empty_ledger_simps btree_ok_def)


end
