(* ===== verification/Outbox_Laws.thy ===== *)
theory Outbox_Laws
  imports Controller_Laws
begin

text \<open>
  The rows of commands, wakes and notifications under every call: a row changes only by the steps of
  the contract of \<open>Work_Outbox\<close>, which is interpreted here on the wakes and on the notifications.
\<close>

section \<open>Rows of commands\<close>

fun wake_label :: "full_op \<Rightarrow> string \<Rightarrow> item_op" where
  "wake_label (ClaimWake i digest token lease now) k = (if k = i then Take token lease now else Skip)"
| "wake_label (CompleteWake i digest token attempt result) k = (if k = i then Finish token attempt else Skip)"
| "wake_label (ReconcileWake i digest result) k = (if k = i then Settle else Skip)"
| "wake_label (ReapWakes key now) k = Expire now"
| "wake_label (AdmitCommand cmd now) k = (if k = cc_command_id cmd then Put else Skip)"
| "wake_label (ResolveCommand cmd now) k = (if k = cc_command_id cmd then Put else Skip)"
| "wake_label (Worker (Delete key)) k = Discard"
| "wake_label _ k = Skip"

definition wakes_step :: "(string \<Rightarrow> item_op) \<Rightarrow> ledger \<Rightarrow> ledger \<Rightarrow> bool" where
  "wakes_step a l l' \<longleftrightarrow> (\<forall>k. wake_in l' k = wake_in l k \<or> item_step (a k) (wake_in l k) (wake_in l' k))"

definition rows_step :: "env \<Rightarrow> full_op \<Rightarrow> ledger \<Rightarrow> ledger \<Rightarrow> bool" where
  "rows_step E op l l' \<longleftrightarrow> commands_ok E l' \<and> wakes_step (wake_label op) l l' \<and>
     (\<forall>k r resolution. btree_get k (le_command_receipts l) = Some (r, resolution) \<longrightarrow>
       op \<noteq> Worker (Delete (ch_checkpoint_key (kr_handle r))) \<longrightarrow> row_stays k l l')"

lemma rows_step_refl: "commands_ok E l \<Longrightarrow> rows_step E op l l"
  by (simp add: rows_step_def wakes_step_def row_stays_refl)

lemma rows_step_same:
  assumes "commands_ok E l" and "le_command_receipts l' = le_command_receipts l" "le_commands l' = le_commands l"
    "le_wake_leases l' = le_wake_leases l"
  shows "rows_step E op l l'"
  using assms commands_ok_cong [OF assms(2-4)]
  by (simp add: rows_step_def wakes_step_def wake_in_def wake_lease_of_def row_stays_same)

lemma rows_step_moved:
  assumes ok: "commands_ok E (sto_ledger st)"
    and m: "st' = st \<or> (\<exists>l. st' = update_ledger st l \<and> moved a i (sto_ledger st) l)"
    and a: "wake_label op i = a"
  shows "rows_step E op (sto_ledger st) (sto_ledger st')"
  using m
proof (elim disjE exE conjE)
  fix l
  assume l: "st' = update_ledger st l" "moved a i (sto_ledger st) l"
  have "wake_in l k = wake_in (sto_ledger st) k \<or> item_step (wake_label op k) (wake_in (sto_ledger st) k) (wake_in l k)" for k
    using moved_wake [OF ok l(2)] a by (cases "k = i") auto
  then show ?thesis
    using moved_ok [OF ok l(2)] moved_kept [OF l(2)] l(1) by (simp add: rows_step_def wakes_step_def kept_def update_ledger_def)
qed (simp add: rows_step_refl ok)

lemma rows_step_reap:
  assumes ok: "commands_ok E (sto_ledger st)"
  shows "rows_step E (ReapWakes key now) (sto_ledger st) (sto_ledger (full_exec E (ReapWakes key now) st))"
proof -
  obtain l res where r: "reap_loop E key now (wake_candidates (sto_ledger st) key now) [] (sto_ledger st) = (l, res)" by fastforce
  note s = reaps_spec [OF reap_loop_reaps [OF r] ok]
  show ?thesis
    using s r by (simp add: reap_controller_command_wakes_def update_ledger_def rows_step_def wakes_step_def kept_def)
qed

lemma rows_step_delete:
  assumes ok: "commands_ok E l"
  shows "rows_step E (Worker (Delete key)) l (delete_from_ledger key l)"
proof -
  let ?l = "delete_from_ledger key l"
  note get = delete_from_ledger_get [OF ok]
  have gone: "wake_in ?l k = wake_in l k \<or> wake_in ?l k = None" for k
  proof (cases "btree_get k (le_command_receipts ?l)")
    case (Some x)
    obtain r resolution where x: "x = (r, resolution)" by (cases x)
    have "btree_get k (le_command_receipts l) = Some x" using Some get(1) x by blast
    moreover have "wake_lease_of ?l k = wake_lease_of l k"
      using get(3) [of k key] Some unfolding wake_lease_of_def
      by (cases "btree_get k (le_wake_leases l)"; cases "btree_get k (le_wake_leases ?l)") auto
    ultimately show ?thesis using Some by (simp add: wake_in_def)
  qed (simp add: wake_in_def)
  have "wakes_step (wake_label (Worker (Delete key))) l ?l"
    unfolding wakes_step_def using gone item_step.discard by (metis wake_label.simps(7))
  moreover have "row_stays k l ?l"
    if "btree_get k (le_command_receipts l) = Some (r, resolution)" "key \<noteq> ch_checkpoint_key (kr_handle r)" for k r resolution
    using that get(1) [of k key r resolution] by (simp add: row_stays_def)
  ultimately show ?thesis using commands_ok_delete [OF ok] by (simp add: rows_step_def)
qed

lemma wake_item_new:
  "it_attempt (wake_item (receipt_of cmd u wake) None) = 0 \<and> it_phase (wake_item (receipt_of cmd u wake) None) \<in> {Free, Done}"
  by (simp add: wake_item_def receipt_of_def)

lemma rows_step_resolve:
  assumes ok: "commands_ok E (sto_ledger st)" and a: "wake_label op (cc_command_id cmd) = Put"
  shows "rows_step E op (sto_ledger st) (sto_ledger (fst (resolve_controller_command E st cmd now)))"
  using resolve_cases [of E st cmd now]
proof (elim disjE exE conjE)
  fix cur u wake rec
  let ?l = "sto_ledger st" and ?l2 = "sto_ledger (fst (resolve_controller_command E st cmd now))" and ?i = "cc_command_id cmd"
    and ?r = "receipt_of cmd u wake"
  assume cmd: "command_validate E cmd = Inr ()" "btree_get ?i (le_command_receipts ?l) = None"
    and u: "commanded E ?l cur cmd now = Inr (u, wake, rec)"
    and st': "resolve_controller_command E st cmd now =
      (put_command cmd ?r (CommandApplied ?r wake) (put_effect (cp_key cur) (u, wake, rec) st), Inr (CommandApplied ?r wake))"
  have l2: "le_command_receipts ?l2 = btree_insert ?i (?r, CommandApplied ?r wake) (le_command_receipts ?l)"
      "le_commands ?l2 = btree_insert ?i cmd (le_commands ?l)" "le_wake_leases ?l2 = le_wake_leases ?l"
    unfolding st' by (cases rec; simp add: put_command_def put_effect_ledger split: prod.splits)+
  have ok2: "commands_ok E ?l2" by (rule commands_ok_put_command [OF ok cmd(2,1) commanded_Inr [OF u] l2])
  have lease: "wake_lease_of ?l2 k = wake_lease_of ?l k" for k using l2(3) by (simp add: wake_lease_of_def)
  have none: "wake_lease_of ?l ?i = None" using ok cmd(2) unfolding wake_lease_of_def commands_ok_def by blast
  have new: "item_step Put (wake_in ?l ?i) (wake_in ?l2 ?i)"
    using item_step.put wake_item_new cmd(2) by (simp add: wake_in_def l2(1) lease none)
  have "wake_in ?l2 k = wake_in ?l k" if "k \<noteq> ?i" for k using that by (simp add: wake_in_def l2(1) lease)
  with new a have "wakes_step (wake_label op) ?l ?l2" unfolding wakes_step_def by metis
  moreover have "row_stays k ?l ?l2" for k using cmd(2) by (auto simp: row_stays_def l2(1))
  ultimately show ?thesis using ok2 by (simp add: rows_step_def)
qed (simp add: rows_step_refl ok)

lemma exec_rows_step:
  assumes ok: "commands_ok E (sto_ledger st)"
  shows "rows_step E op (sto_ledger st) (sto_ledger (full_exec E op st))"
proof (cases op)
  case (Worker w)
  show ?thesis
  proof (cases w)
    case (Delete key)
    then show ?thesis using rows_step_delete [OF ok] Worker by (simp add: exec_ledger del: exec.simps)
  qed (use Worker rows_step_refl [OF ok] in \<open>simp_all add: exec_ledger del: exec.simps\<close>)
next
  case (AdmitCommand cmd now)
  then show ?thesis using rows_step_resolve [OF ok] by (simp add: admit_resolve)
next
  case (ResolveCommand cmd now)
  then show ?thesis using rows_step_resolve [OF ok] by simp
next
  case (ClaimWake i digest token lease now)
  show ?thesis unfolding ClaimWake by (rule rows_step_moved [OF ok claim_wake_moves [OF ok]]) simp
next
  case (CompleteWake i digest token attempt result)
  show ?thesis unfolding CompleteWake by (rule rows_step_moved [OF ok complete_wake_moves [OF ok]]) simp
next
  case (ReconcileWake i digest result)
  show ?thesis unfolding ReconcileWake by (rule rows_step_moved [OF ok reconcile_wake_moves [OF ok]]) simp
next
  case (ReapWakes key now)
  show ?thesis unfolding ReapWakes by (rule rows_step_reap [OF ok])
next
  case (ClaimNotification i digest token lease now)
  then show ?thesis using claim_notified [of E i token lease now st digest] rows_step_same [OF ok] by (auto simp: notified_def put_notification_def)
next
  case (CompleteNotification i digest token attempt result now message)
  then show ?thesis
    using complete_notified [of E i token attempt st digest result now message] rows_step_same [OF ok]
    by (auto simp: notified_def put_notification_def)
next
  case (ReconcileNotification i digest result now reason)
  then show ?thesis
    using reconcile_notified [of E i st digest result now reason] rows_step_same [OF ok]
    by (auto simp: notified_def put_notification_def)
next
  case (Ask q x)
  show ?thesis unfolding Ask using ask_cases [of E q x st] by (elim disjE exE conjE) (rule rows_step_same [OF ok]; simp)+
next
  case (Consume v now)
  show ?thesis unfolding Consume using consume_cases [of E v now st] by (elim disjE exE conjE) (rule rows_step_same [OF ok]; simp)+
next
  case (ReapRecord i key now)
  show ?thesis
    unfolding ReapRecord using reap_record_cases [of E i key now st] rows_step_same [OF ok]
    by (auto simp: put_host_def simp del: full_exec.simps)
qed

interpretation wakes: work_outbox "full_exec E" wake_of wake_label "\<lambda>st. commands_ok E (sto_ledger st)" for E
proof
  fix st :: store and op
  assume ok: "commands_ok E (sto_ledger st)"
  show "commands_ok E (sto_ledger (full_exec E op st))" using exec_rows_step [OF ok] by (simp add: rows_step_def)
  show "wake_of (full_exec E op st) k = wake_of st k \<or> item_step (wake_label op k) (wake_of st k) (wake_of (full_exec E op st) k)" for k
    using exec_rows_step [OF ok, of op] by (simp add: rows_step_def wakes_step_def wake_of_def)
qed

section \<open>Notifications\<close>

definition notification_of :: "store \<Rightarrow> string \<Rightarrow> item option" where
  "notification_of st i = map_option notification_item (get_host_interaction_notification st i)"

text \<open>A question writes the notification of its record, the deletion of a checkpoint removes what belongs to it.\<close>

fun notification_label :: "env \<Rightarrow> full_op \<Rightarrow> string \<Rightarrow> item_op" where
  "notification_label E (ClaimNotification i digest token lease now) k = (if k = i then Take token lease now else Skip)"
| "notification_label E (CompleteNotification i digest token attempt result now message) k =
     (if k = i then Finish token attempt else Skip)"
| "notification_label E (ReconcileNotification i digest result now reason) k = (if k = i then Settle else Skip)"
| "notification_label E (Ask q x) k =
     (if and_then (record_id_for E (ac_checkpoint_key x) q) (notification_id_for E) = Inr k then Discard else Skip)"
| "notification_label E (Worker (Delete key)) k = Discard"
| "notification_label E _ k = Skip"

definition notifications_ok :: "env \<Rightarrow> store \<Rightarrow> bool" where
  "notifications_ok E st \<longleftrightarrow> rows_ok (le_notifications (sto_ledger st)) (\<lambda>i n. notification_validate E n = Inr ())"

lemma lifecycle_valid: "notification_validate E n = Inr () \<Longrightarrow> notification_lifecycle_ok n"
  by (simp add: notification_validate_def Let_def and_then_Inr_iff)

definition notifications_step :: "env \<Rightarrow> full_op \<Rightarrow> store \<Rightarrow> store \<Rightarrow> bool" where
  "notifications_step E op st st' \<longleftrightarrow> notifications_ok E st' \<and>
     (\<forall>k. notification_of st' k = notification_of st k \<or>
       item_step (notification_label E op k) (notification_of st k) (notification_of st' k))"

lemma notifications_step_same:
  assumes "notifications_ok E st" and "le_notifications (sto_ledger st') = le_notifications (sto_ledger st)"
  shows "notifications_step E op st st'"
  using assms
  by (simp add: notifications_step_def notifications_ok_def notification_of_def get_host_interaction_notification_def)

lemma notifications_step_notified:
  assumes ok: "notifications_ok E st"
    and n: "notified E i (\<lambda>n n'. notification_lifecycle_ok n \<longrightarrow> steps_notification a n n') st st'"
    and a: "notification_label E op i = a"
  shows "notifications_step E op st st'"
  using n unfolding notified_def
proof (elim disjE exE conjE)
  fix n n'
  assume get: "btree_get i (le_notifications (sto_ledger st)) = Some n" and v: "notification_validate E n' = Inr ()"
    and s: "notification_lifecycle_ok n \<longrightarrow> steps_notification a n n'" and st': "st' = put_notification i n' st"
  have "notification_lifecycle_ok n" using ok get lifecycle_valid by (auto simp: notifications_ok_def rows_ok_def)
  then have step: "item_step (notification_label E op i) (notification_of st i) (notification_of st' i)"
    using s a get by (simp add: st' steps_notification_def notification_of_def get_host_interaction_notification_def put_notification_def)
  have "notification_of st' k = notification_of st k" if "k \<noteq> i" for k
    using that by (simp add: st' notification_of_def get_host_interaction_notification_def put_notification_def)
  with step have "notification_of st' k = notification_of st k \<or>
      item_step (notification_label E op k) (notification_of st k) (notification_of st' k)" for k
    by (cases "k = i") auto
  then show ?thesis
    using ok v by (simp add: notifications_step_def notifications_ok_def st' put_notification_def)
qed (simp add: notifications_step_same ok)

lemma notifications_step_ask:
  assumes ok: "notifications_ok E st"
  shows "notifications_step E (Ask q x) st (full_exec E (Ask q x) st)"
  using ask_cases [of E q x st]
proof (elim disjE exE conjE)
  fix cur record_id u h i n out c b
  let ?st' = "full_exec E (Ask q x) st"
  assume a: "ask_host E cur q x record_id = Inr (u, h, (i, n), out)" "record_id_for E (ac_checkpoint_key x) q = Inr record_id"
    and l: "sto_ledger ?st' = (sto_ledger st)
        \<lparr>le_host_interactions := btree_insert record_id h (le_host_interactions (sto_ledger st)),
         le_notifications := btree_insert i n (le_notifications (sto_ledger st))\<rparr>"
  note n = new_notification_Inr [OF ask_host_Inr(3) [OF a(1)]]
  have "notification_of ?st' k = notification_of st k" if "k \<noteq> i" for k
    using that by (simp add: l notification_of_def get_host_interaction_notification_def del: full_exec.simps)
  moreover have "notification_label E (Ask q x) i = Discard" using a(2) n(6) by simp
  ultimately have "notification_of ?st' k = notification_of st k \<or>
      item_step (notification_label E (Ask q x) k) (notification_of st k) (notification_of ?st' k)" for k
    using item_step.discard by metis
  moreover have "notifications_ok E ?st'"
    using ok n(5) by (simp add: notifications_ok_def l del: full_exec.simps)
  ultimately show ?thesis by (simp add: notifications_step_def)
qed (rule notifications_step_same [OF ok], simp)

lemma notifications_step_delete:
  assumes ok: "notifications_ok E st"
  shows "notifications_step E (Worker (Delete key)) st (delete_checkpoint st key)"
  using ok item_step.discard
  by (auto simp: notifications_step_def notifications_ok_def delete_checkpoint_def delete_from_ledger_def Let_def elim!: rows_ok_filter)

lemma reaps_notifications: "reaps now l l' \<Longrightarrow> le_notifications l' = le_notifications l"
  unfolding reaps_def by (induction rule: rtranclp_induct) (auto dest!: moved_kept simp: kept_def)

lemma wake_write_notifications: "le_notifications (sto_ledger (fst (wake_write st i digest f))) = le_notifications (sto_ledger st)"
  by (simp add: wake_write_def update_ledger_def put_wake_def split: option.split prod.split sum.split)

lemma resolve_notifications:
  "le_notifications (sto_ledger (fst (resolve_controller_command E st cmd now))) = le_notifications (sto_ledger st)"
  using resolve_cases [of E st cmd now]
  by (elim disjE exE conjE) (simp_all add: put_command_def put_effect_ledger split: option.split)

lemma exec_notifications_step:
  assumes ok: "notifications_ok E st"
  shows "notifications_step E op st (full_exec E op st)"
proof (cases op)
  case (Worker w)
  show ?thesis
  proof (cases w)
    case (Delete key)
    then show ?thesis using notifications_step_delete [OF ok] Worker by simp
  qed (use Worker notifications_step_same [OF ok] in \<open>simp_all add: exec_ledger del: exec.simps\<close>)
next
  case (ClaimNotification i digest token lease now)
  show ?thesis unfolding ClaimNotification by (rule notifications_step_notified [OF ok claim_notified]) simp
next
  case (CompleteNotification i digest token attempt result now message)
  show ?thesis unfolding CompleteNotification by (rule notifications_step_notified [OF ok complete_notified]) simp
next
  case (ReconcileNotification i digest result now reason)
  show ?thesis unfolding ReconcileNotification by (rule notifications_step_notified [OF ok reconcile_notified]) simp
next
  case (Ask q x)
  show ?thesis unfolding Ask by (rule notifications_step_ask [OF ok])
next
  case (Consume v now)
  show ?thesis
    unfolding Consume using consume_cases [of E v now st]
    by (elim disjE exE conjE) (rule notifications_step_same [OF ok]; simp)+
next
  case (ReapRecord i key now)
  show ?thesis
    unfolding ReapRecord using reap_record_cases [of E i key now st] notifications_step_same [OF ok]
    by (auto simp: put_host_def simp del: full_exec.simps)
next
  case (ReapWakes key now)
  have "le_notifications (sto_ledger (full_exec E op st)) = le_notifications (sto_ledger st)"
    by (auto simp: ReapWakes reap_controller_command_wakes_def update_ledger_def split: prod.split
        dest!: reap_loop_reaps dest: reaps_notifications)
  then show ?thesis by (rule notifications_step_same [OF ok])
qed (rule notifications_step_same [OF ok]; simp add: admit_resolve resolve_notifications wake_write_notifications
    claim_controller_command_wake_def complete_controller_command_wake_def reconcile_controller_command_wake_def)+

interpretation notifications: work_outbox "full_exec E" notification_of "notification_label E" "notifications_ok E" for E
proof
  fix st op
  assume ok: "notifications_ok E st"
  show "notifications_ok E (full_exec E op st)" using exec_notifications_step [OF ok] by (simp add: notifications_step_def)
  show "notification_of (full_exec E op st) k = notification_of st k \<or>
      item_step (notification_label E op k) (notification_of st k) (notification_of (full_exec E op st) k)" for k
    using exec_notifications_step [OF ok, of op] by (simp add: notifications_step_def)
qed

section \<open>What controllers can rely on\<close>

lemma empty_commands_ok: "commands_ok E (sto_ledger empty_store)"
  using empty_controller_valid by (simp add: controller_valid_def ledger_ok_def)

lemma commands_ok_run: "commands_ok E (sto_ledger (fold (full_exec E) ops empty_store))"
  by (rule wakes.inv_run [OF empty_commands_ok])

lemma row_stays_run:
  assumes "commands_ok E (sto_ledger st)" and "btree_get i (le_command_receipts (sto_ledger st)) = Some (r, resolution)"
    and "list_all (\<lambda>op. op \<noteq> Worker (Delete (ch_checkpoint_key (kr_handle r)))) ops"
  shows "row_stays i (sto_ledger st) (sto_ledger (fold (full_exec E) ops st))"
  using assms
proof (induction ops arbitrary: st r resolution)
  case (Cons op ops)
  let ?st = "full_exec E op st"
  have s: "row_stays i (sto_ledger st) (sto_ledger ?st)" "commands_ok E (sto_ledger ?st)"
    using exec_rows_step [OF Cons.prems(1), of op] Cons.prems(2,3) by (simp_all add: rows_step_def)
  then obtain r' resolution' where r': "btree_get i (le_command_receipts (sto_ledger ?st)) = Some (r', resolution')" "same_command r r'"
    using Cons.prems(2) by (auto simp: row_stays_def)
  have "row_stays i (sto_ledger ?st) (sto_ledger (fold (full_exec E) ops ?st))"
    using Cons.IH [OF s(2) r'(1)] Cons.prems(3) by (simp add: same_command_simps [OF r'(2)])
  then show ?case using row_stays_trans [OF s(1)] by simp
qed (simp add: row_stays_refl)

lemma row_answers:
  assumes ok: "commands_ok E (sto_ledger st)" and get: "btree_get (cc_command_id cmd) (le_command_receipts (sto_ledger st)) = Some (r, resolution)"
    and cmd: "command_validate E cmd = Inr ()" and wake: "wake_told resolution = Some w"
  shows "cc_command_digest cmd = kr_command_digest r \<Longrightarrow> resolve_controller_command E st cmd now = (st, Inr (CommandReplayed r w)) \<and>
      admit_controller_command E st cmd now = (st, Inr r)"
    "cc_command_digest cmd \<noteq> kr_command_digest r \<Longrightarrow> resolve_controller_command E st cmd now = (st, Inl ''controller_command_conflict'') \<and>
      admit_controller_command E st cmd now = (st, Inl ''controller_command_conflict'')"
proof -
  have "resolution = CommandApplied r w" using commands_okD [OF ok get] wake by (auto simp: row_ok_def)
  then show "cc_command_digest cmd = kr_command_digest r \<Longrightarrow> resolve_controller_command E st cmd now = (st, Inr (CommandReplayed r w)) \<and>
      admit_controller_command E st cmd now = (st, Inr r)"
    "cc_command_digest cmd \<noteq> kr_command_digest r \<Longrightarrow> resolve_controller_command E st cmd now = (st, Inl ''controller_command_conflict'') \<and>
      admit_controller_command E st cmd now = (st, Inl ''controller_command_conflict'')"
    using get cmd by (simp_all add: resolve_controller_command_def admit_controller_command_def)
qed

lemma resolve_applied:
  assumes "resolve_controller_command E st cmd now = (st', Inr (CommandApplied r w))"
    and "commands_ok E (sto_ledger st)"
  shows "btree_get (cc_command_id cmd) (le_command_receipts (sto_ledger st')) = Some (r, CommandApplied r w)"
    "command_validate E cmd = Inr ()" "kr_command_digest r = cc_command_digest cmd" "kr_handle r = cc_handle cmd"
    "commands_ok E (sto_ledger st')"
proof -
  have ok: "commands_ok E (sto_ledger st')"
    using exec_rows_step [OF assms(2), of "ResolveCommand cmd now"] assms(1) by (simp add: rows_step_def)
  have "\<exists>u. command_validate E cmd = Inr () \<and> r = receipt_of cmd u w \<and>
      btree_get (cc_command_id cmd) (le_command_receipts (sto_ledger st')) = Some (r, CommandApplied r w)"
    using resolve_cases [of E st cmd now] assms(1) by (auto simp: put_command_def)
  then show "btree_get (cc_command_id cmd) (le_command_receipts (sto_ledger st')) = Some (r, CommandApplied r w)"
    "command_validate E cmd = Inr ()" "kr_command_digest r = cc_command_digest cmd" "kr_handle r = cc_handle cmd"
    "commands_ok E (sto_ledger st')"
    using ok by (auto simp: receipt_of_def)
qed


lemma delivered_valid:
  assumes "command_receipt_validate r = Inr ()"
  shows "command_receipt_validate (r\<lparr>kr_outbox_state := ''delivered''\<rparr>) = Inr ()"
  using assms by (auto simp: command_receipt_validate_def Let_def and_then_Inr_iff)

lemma retry_invalid: "command_receipt_validate r = Inr () \<Longrightarrow>
    command_receipt_validate (r\<lparr>kr_outbox_state := ''retry''\<rparr>) = Inl ''controller_command_invalid_state''"
  by (auto simp: command_receipt_validate_def Let_def and_then_Inr_iff map_err_def)

text \<open>What the wake of a row tells of the row.\<close>

lemma wake_row:
  assumes ok: "commands_ok E (sto_ledger st)" and w: "wake_of st i = Some x"
  obtains r resolution where "btree_get i (le_command_receipts (sto_ledger st)) = Some (r, resolution)"
    "it_attempt x = kr_outbox_attempt r" "command_receipt_validate r = Inr ()"
    "it_phase x = Held token expiry \<Longrightarrow> kr_outbox_state r = ''claimed'' \<and>
      wake_lease_of (sto_ledger st) i = Some \<lparr>wl_claim_token = token, wl_lease_expires_at_ms = expiry\<rparr>"
    "it_phase x = Unknown \<Longrightarrow> kr_outbox_state r = ''ambiguous''"
proof -
  obtain r resolution where g: "btree_get i (le_command_receipts (sto_ledger st)) = Some (r, resolution)"
    "x = wake_item r (wake_lease_of (sto_ledger st) i)"
    using w by (auto simp: wake_of_def wake_in_def)
  show ?thesis
  proof (rule that [OF g(1)])
    show "command_receipt_validate r = Inr ()" using commands_okD [OF ok g(1)] by (simp add: row_ok_def)
    show "it_phase x = Unknown \<Longrightarrow> kr_outbox_state r = ''ambiguous''"
      "it_phase x = Held token expiry \<Longrightarrow> kr_outbox_state r = ''claimed'' \<and>
      wake_lease_of (sto_ledger st) i = Some \<lparr>wl_claim_token = token, wl_lease_expires_at_ms = expiry\<rparr>"
      using g(2) by (auto simp: wake_item_def split: if_splits option.splits)
  qed (simp add: g(2) wake_item_def)
qed

text \<open>
  C24. A worker that claimed a wake keeps it while its lease runs: no call of others, up to the
  deletion of the checkpoint, takes it over or completes it, and the owner can complete it, after
  which it stays delivered.
\<close>

theorem wake_owner_protected:
  fixes E before ops more
  defines "st \<equiv> fold (full_exec E) before empty_store"
  assumes "wake_of st i = Some x" and "it_phase x = Held token expiry"
    and "list_all (\<lambda>op. outsider token expiry (it_attempt x) (wake_label op i)) ops"
    and "st2 = fold (full_exec E) ops st" and "list_all (\<lambda>op. wake_label op i \<noteq> Discard) more"
  shows "wake_of st2 i = Some x \<and>
    (\<exists>r st3. complete_controller_command_wake st2 i (kr_command_digest r) token (it_attempt x) ''delivered'' = (st3, Inr (Some r)) \<and>
      kr_outbox_state r = ''delivered'' \<and> wake_of (fold (full_exec E) more st3) i = Some (x\<lparr>it_phase := Done\<rparr>))"
proof -
  have ok: "commands_ok E (sto_ledger st)" unfolding st_def by (rule commands_ok_run)
  have same: "wake_of st2 i = Some x"
    unfolding assms(5) by (rule wakes.owner_protected [OF ok assms(2-4)])
  have ok2: "commands_ok E (sto_ledger st2)" unfolding assms(5) by (rule wakes.inv_run [OF ok])
  obtain r resolution where r: "btree_get i (le_command_receipts (sto_ledger st2)) = Some (r, resolution)"
    "it_attempt x = kr_outbox_attempt r" "command_receipt_validate r = Inr ()" "kr_outbox_state r = ''claimed''"
    "wake_lease_of (sto_ledger st2) i = Some \<lparr>wl_claim_token = token, wl_lease_expires_at_ms = expiry\<rparr>"
    using wake_row [OF ok2 same, of token expiry] assms(3) by metis
  let ?r = "r\<lparr>kr_outbox_state := ''delivered''\<rparr>" and ?l = "put_wake i (r\<lparr>kr_outbox_state := ''delivered''\<rparr>) resolution None (sto_ledger st2)"
  have fin: "complete_controller_command_wake st2 i (kr_command_digest ?r) token (it_attempt x) ''delivered'' =
      (update_ledger st2 ?l, Inr (Some ?r))"
    using r delivered_valid [OF r(3)] by (simp add: complete_controller_command_wake_def wake_write_def complete_wake_row_def)
  have d: "wake_of (update_ledger st2 ?l) i = Some (x\<lparr>it_phase := Done\<rparr>)"
    using same r by (auto simp: wake_of_def wake_in_def update_ledger_def put_wake_def wake_item_def)
  have "commands_ok E (sto_ledger (update_ledger st2 ?l))"
    using wakes.inv_exec [OF ok2, of "CompleteWake i (kr_command_digest ?r) token (it_attempt x) ''delivered''"] fin by simp
  from wakes.closed_stays [OF this d _ assms(6)]
  have "wake_of (fold (full_exec E) more (update_ledger st2 ?l)) i = Some (x\<lparr>it_phase := Done\<rparr>)" by simp
  then show ?thesis using same fin by (intro conjI exI [of _ ?r] exI [of _ "update_ledger st2 ?l"]) simp_all
qed

lemma ambiguous_claim:
  assumes "btree_get i (le_command_receipts (sto_ledger st)) = Some (r, resolution)" and "kr_outbox_state r = ''ambiguous''"
  shows "fst (claim_controller_command_wake st i digest token lease now) = st"
    "snd (claim_controller_command_wake st i digest token lease now) \<in> Inl ` UNIV"
  using assms by (simp_all add: claim_controller_command_wake_def wake_write_def claim_wake_row_def)

lemma ambiguous_retry:
  assumes "btree_get i (le_command_receipts (sto_ledger st)) = Some (r, resolution)" and "kr_outbox_state r = ''ambiguous''"
    and "command_receipt_validate r = Inr ()" and "result \<noteq> ''delivered''"
  shows "fst (reconcile_controller_command_wake st i digest result) = st"
    "result = ''retry'' \<Longrightarrow> digest = kr_command_digest r \<Longrightarrow>
      snd (reconcile_controller_command_wake st i digest result) = Inl ''controller_command_invalid_state''"
  using assms retry_invalid [OF assms(3)]
  by (auto simp: reconcile_controller_command_wake_def wake_write_def reconcile_wake_row_def)


end
