(* ===== verification/Control_Laws.thy ===== *)
theory Control_Laws
  imports Outbox_Laws
begin

text \<open>
  The two promises of the controller to a run in progress: a request to cancel reaches the worker that
  holds the run, and an answer of the host enters the conversation once.
\<close>

section \<open>A request to cancel stays\<close>

lemma merge_cancel:
  assumes "merge_authoritative_fields E cur snap = Inr m" and "cp_cancel_requested cur"
  shows "cp_cancel_requested m"
  using assms by (auto simp: merge_authoritative_fields_def and_then_Inr_iff)

lemma terminal_snapshot_cancel:
  assumes "prepare_terminal_snapshot E snap n = Inr u" and "cp_cancel_requested snap"
  shows "cp_cancel_requested u"
  using assms
  by (auto simp: prepare_terminal_snapshot_def and_then_Inr_iff seal_Inr release_claim_def Let_def
      split: if_splits option.splits dest!: close_unresolved_tools_frame)

lemma journal_only_cancel: "journal_only c c' \<Longrightarrow> cp_cancel_requested c' = cp_cancel_requested c"
  by (cases c; cases c') (simp add: journal_only_def)

lemma admit_cancel:
  assumes "admit_batch E cur n token cycle bs = Inr (u, hs)" and "cp_cancel_requested cur"
  shows "cp_cancel_requested u"
proof (cases "cp_revision cur = n \<and> bs \<noteq> [] \<and> (\<exists>c. admit_loop E bs cur [] = Inr (c, hs) \<and>
    seal E n (if hs \<noteq> [] then wait_deferred c else c) = Inr u)")
  case True
  then obtain c where c: "admit_loop E bs cur [] = Inr (c, hs)" "seal E n (if hs \<noteq> [] then wait_deferred c else c) = Inr u" by blast
  then show ?thesis
    using journal_only_cancel [OF admit_loop_Inr [OF c(1)]] assms(2)
    by (auto simp: seal_Inr wait_deferred_def release_claim_def)
next
  case False
  then show ?thesis using assms by (auto simp: admit_batch_def and_then_Inr_iff split: if_splits)
qed

lemma accept_cancel:
  assumes "accept_batch E cur n token cycle ds = Inr (Some u)" and "cp_cancel_requested cur"
  shows "cp_cancel_requested u"
  using assms
  by (auto simp: accept_batch_def ok_some_Inr and_then_Inr_iff seal_Inr wait_deferred_def release_claim_def
      split: if_splits dest!: accept_loop_Inr journal_only_cancel)

lemma prepare_cancel:
  assumes u: "prepare E op cur = Inr (Some u)" and c: "cp_cancel_requested cur"
  shows "cp_cancel_requested u"
proof (cases op)
  case (Progress snap token n)
  then show ?thesis
    using u c by (auto simp: prepare_progress_def ok_some_Inr and_then_Inr_iff seal_Inr split: if_splits dest: merge_cancel)
next
  case (Suspend snap token n)
  then show ?thesis
    using u c
    by (auto simp: prepare_suspend_def ok_some_Inr and_then_Inr_iff seal_Inr release_claim_def split: if_splits dest: merge_cancel)
next
  case (Commit snap token n)
  then show ?thesis using u c by (auto simp: prepare_commit_def split: if_splits)
next
  case (Finalize snap n)
  then show ?thesis
    using u c by (auto simp: prepare_finalize_def ok_some_Inr and_then_Inr_iff split: if_splits dest: merge_cancel terminal_snapshot_cancel)
next
  case (FinalizeClaimed snap token n)
  then show ?thesis
    using u c
    by (auto simp: prepare_finalize_claimed_def ok_some_Inr and_then_Inr_iff split: if_splits dest: merge_cancel terminal_snapshot_cancel)
next
  case (Acknowledge key n)
  then show ?thesis using u c ack_advances [of E cur n u] by simp
next
  case (Deliver key token n event_id digest cursor)
  then show ?thesis using u c delivery_advances [of E cur token n event_id digest cursor u] by auto
next
  case (Receipt snap op n call digest r token expected cycle)
  then show ?thesis using u c receipt_advances [of E cur snap op n call digest r token expected cycle u] by auto
next
  case (Admit key n token cycle bs)
  then show ?thesis using u c admit_cancel by (auto simp: and_then_Inr_iff split: if_splits)
next
  case (Accept key n token cycle ds)
  then show ?thesis using u c accept_cancel by simp
next
  case (Resolve h r)
  obtain a :: "resolve_decision + nat" where a: "resolve_lookup cur h r = Inr a" "(case a of Inl _ \<Rightarrow> Inr None
      | Inr i \<Rightarrow> and_then (resolve_checkpoint E cur i r) (\<lambda>(c, _). Inr (Some c))) = Inr (Some u)"
    using u unfolding Resolve prepare.simps by (elim and_then_InrE)
  then obtain i ev where "resolve_checkpoint E cur i r = Inr (u, ev)" by (cases a) (auto simp: and_then_Inr_iff)
  then show ?thesis using resolve_advances [of E cur i r u ev] c by auto
qed (use u in simp_all)

lemma writes_cancel:
  assumes "writes E op (Some cur) c" and "cp_cancel_requested cur"
  shows "cp_cancel_requested c"
  using assms(1)
proof cases
  case (claim cycle now mode lease token key)
  then show ?thesis using assms(2) by (auto simp: apply_claim_def and_then_Inr_iff)
next
  case (prepared u b)
  have "records_only u c" using normalize_Inr [OF prepared(2)] by simp
  then show ?thesis using prepare_cancel [OF prepared(1) assms(2)] by (cases u; cases c) (simp add: records_only_def)
qed (use assms(2) in simp_all)

text \<open>What a run of calls keeps of a checkpoint that it does not delete.\<close>

definition cancelling :: "store \<Rightarrow> string \<Rightarrow> bool" where
  "cancelling st key \<longleftrightarrow> (\<exists>c. load_checkpoint st key = Some c \<and> cp_cancel_requested c)"

lemma exec_cancelling:
  assumes v: "store_valid E st" and c: "cancelling st key" and op: "op \<noteq> Delete key"
  shows "cancelling (exec E op st) key"
proof -
  obtain c0 where c0: "load_checkpoint st key = Some c0" "cp_cancel_requested c0" using c by (auto simp: cancelling_def)
  show ?thesis
    using exec_outcome [OF store_valid_keyed [OF v], of E op] unfolding outcome_def
  proof (elim disjE exE conjE)
    assume same: "sto_checkpoints (exec E op st) = sto_checkpoints st"
    show ?thesis using c load_same [OF same] by (simp add: cancelling_def)
  next
    fix d
    assume d: "writes E op (load_checkpoint st (op_key op)) d" "sto_checkpoints (exec E op st) = btree_insert (op_key op) d (sto_checkpoints st)"
    show ?thesis
    proof (cases "op_key op = key")
      case True
      then show ?thesis using c0 writes_cancel d(1) load_insert [OF d(2)] by (simp add: cancelling_def)
    qed (use c0 load_insert [OF d(2)] in \<open>simp add: cancelling_def\<close>)
  next
    assume "op = Delete (op_key op)" "sto_checkpoints (exec E op st) = btree_remove (op_key op) (sto_checkpoints st)"
    moreover have "btree_ok (sto_checkpoints st)" using v by (simp add: store_valid_def)
    ultimately show ?thesis using c0 op load_remove [of st "exec E op st" "op_key op"] by (cases "op_key op = key") (simp_all add: cancelling_def del: exec.simps)
  qed
qed

lemma full_exec_cancelling:
  assumes v: "controller_valid E st" and c: "cancelling st key" and op: "op \<noteq> Worker (Delete key)"
  shows "cancelling (full_exec E op st) key"
proof (cases "controller_op op")
  case True
  obtain c0 where c0: "load_checkpoint st key = Some c0" "cp_cancel_requested c0" using c by (auto simp: cancelling_def)
  have "store_valid E st" using v by (simp add: controller_valid_def)
  from controller_one_write [OF this True] show ?thesis
    unfolding one_write_def
  proof (elim disjE exE conjE)
    assume same: "sto_checkpoints (full_exec E op st) = sto_checkpoints st"
    show ?thesis using c load_same [OF same] by (simp add: cancelling_def)
  next
    fix k cur d
    assume d: "load_checkpoint st k = Some cur" "same_run cur d" "sto_checkpoints (full_exec E op st) = btree_insert k d (sto_checkpoints st)"
    show ?thesis using c0 d(1,2) load_insert [OF d(3)] by (cases "k = key") (simp_all add: cancelling_def same_run_def del: full_exec.simps)
  qed
next
  case False
  then obtain w where "op = Worker w" by (cases op) auto
  then show ?thesis using exec_cancelling [of E st key w] v c op by (simp add: controller_valid_def)
qed

lemma run_cancelling:
  assumes "controller_valid E st" and "cancelling st key" and "list_all bounded_op ops"
    and "list_all (\<lambda>op. op \<noteq> Worker (Delete key)) ops"
  shows "cancelling (fold (full_exec E) ops st) key"
  using assms by (induction ops arbitrary: st) (simp_all add: full_exec_cancelling full_exec_valid)

lemma cancel_live:
  assumes "commanded E l c cmd now = Inr (u, wake, rec)" and "cc_command cmd = Cancel_Command"
    and "cp_claim_token c = Some token" and "cp_lease_expires_at_ms c = Some expiry" and "now < expiry"
  shows "cp_cancel_requested u \<and> claim_of u = claim_of c \<and> cp_revision u = cp_revision c \<and> wake = wake_none"
proof -
  have live: "\<not> claim_expired c now" using assms(3-5) by (simp add: claim_expired_def)
  obtain v where v: "drop_expired_claim c (cc_command cmd) now = Inr v" "command_effect_of E l c v cmd now (cc_command cmd) = Inr (u, wake, rec)"
    using assms(1) unfolding commanded_def by (elim and_then_InrE)
  have "v = c" using v(1) live by (simp add: drop_expired_claim_def)
  then have e: "cancel_effect E c c (cc_command_id cmd) now = Inr (u, wake, rec)" using v(2) assms(2) by simp
  show ?thesis
  proof (cases "cp_cancel_requested c")
    case True
    then show ?thesis using e live assms(3) by (auto simp: cancel_effect_def validated_Inr)
  next
    case False
    then have "append_cancel_requested_event E (c\<lparr>cp_cancel_requested := True\<rparr>) (cc_command_id cmd) = Inr u" "wake = wake_none"
      using e live assms(3) by (auto simp: cancel_effect_def and_then_Inr_iff validated_Inr)
    then show ?thesis using append_control_Inr(3) [of E "c\<lparr>cp_cancel_requested := True\<rparr>" "cc_command_id cmd" u] by (auto simp: claim_of_def)
  qed
qed


section \<open>An answer of the host is injected once\<close>

lemma hosts_kept:
  assumes "controller_op op" and ok: "commands_ok E (sto_ledger st)"
    and h: "btree_get i (le_host_interactions (sto_ledger st)) = Some h" "hc_state h = ''consumed''"
  shows "btree_get i (le_host_interactions (sto_ledger (full_exec E op st))) = Some h"
proof -
  have wake: ?thesis if "full_exec E op st = st \<or> (\<exists>l. full_exec E op st = update_ledger st l \<and> moved a j (sto_ledger st) l)" for a j
    using that h by (elim disjE exE conjE) (auto dest!: moved_kept simp: update_ledger_def kept_def)
  have resolve: "btree_get i (le_host_interactions (sto_ledger (fst (resolve_controller_command E st cmd now)))) = Some h" for cmd now
    using resolve_cases [of E st cmd now]
  proof (elim disjE exE conjE)
    fix cur u wake rec
    assume u: "commanded E (sto_ledger st) cur cmd now = Inr (u, wake, rec)"
      and st': "resolve_controller_command E st cmd now =
      (put_command cmd (receipt_of cmd u wake) (CommandApplied (receipt_of cmd u wake) wake) (put_effect (cp_key cur) (u, wake, rec) st),
       Inr (CommandApplied (receipt_of cmd u wake) wake))"
    show ?thesis
    proof (cases rec)
      case (Some y)
      obtain j h' where y: "y = (j, h')" by (cases y)
      have "j \<noteq> i" using commanded_record [OF u [unfolded Some y]] h by auto
      then show ?thesis unfolding st' Some y using h by (simp add: put_command_def put_effect_ledger)
    qed (use h in \<open>simp add: st' put_command_def put_effect_ledger\<close>)
  qed (use h in simp)
  have notified: ?thesis if "notified E j R st (full_exec E op st)" for j R
    using that h by (auto simp: notified_def put_notification_def)
  show ?thesis
  proof (cases op)
    case (AdmitCommand cmd now)
    then show ?thesis using resolve by (simp add: admit_resolve)
  next
    case (ResolveCommand cmd now)
    then show ?thesis using resolve by simp
  next
    case (ClaimWake j digest token lease now)
    then show ?thesis using wake claim_wake_moves [OF ok] by blast
  next
    case (CompleteWake j digest token attempt result)
    then show ?thesis using wake complete_wake_moves [OF ok] by blast
  next
    case (ReconcileWake j digest result)
    then show ?thesis using wake reconcile_wake_moves [OF ok] by blast
  next
    case (ReapWakes key now)
    obtain l res where r: "reap_loop E key now (wake_candidates (sto_ledger st) key now) [] (sto_ledger st) = (l, res)" by fastforce
    show ?thesis
      using reaps_spec [OF reap_loop_reaps [OF r] ok] r h ReapWakes
      by (simp add: reap_controller_command_wakes_def update_ledger_def kept_def)
  next
    case (ClaimNotification j digest token lease now)
    show ?thesis by (rule notified) (use ClaimNotification claim_notified in blast)
  next
    case (CompleteNotification j digest token attempt result now message)
    show ?thesis by (rule notified) (use CompleteNotification complete_notified in blast)
  next
    case (ReconcileNotification j digest result now reason)
    show ?thesis by (rule notified) (use ReconcileNotification reconcile_notified in blast)
  next
    case (Ask q x)
    show ?thesis unfolding Ask using ask_cases [of E q x st] h(1) by (elim disjE exE conjE) (auto simp del: full_exec.simps)
  next
    case (Consume w now)
    show ?thesis
      unfolding Consume using consume_cases [of E w now st] h
      by (elim disjE exE conjE) (auto dest!: consume_response_Inr(4) simp del: full_exec.simps)
  next
    case (ReapRecord j key now)
    show ?thesis
      unfolding ReapRecord using reap_record_cases [of E j key now st] h by (auto simp: put_host_def simp del: full_exec.simps)
  qed (use assms(1) in simp)
qed

lemma consumed_stays:
  assumes "controller_valid E st" and h: "btree_get i (le_host_interactions (sto_ledger st)) = Some h" "hc_state h = ''consumed''"
    and "op \<noteq> Worker (Delete (hc_checkpoint_key h))"
  shows "btree_get i (le_host_interactions (sto_ledger (full_exec E op st))) = Some h"
proof -
  have ok: "ledger_ok E (dom (load_checkpoint st)) (sto_ledger st)" using assms(1) by (simp add: controller_valid_def)
  show ?thesis
  proof (cases "controller_op op")
    case True
    then show ?thesis by (rule hosts_kept [OF _ ledger_okD(1) [OF ok] h])
  next
    case False
    then obtain w where w: "op = Worker w" by (cases op) auto
    have b: "btree_ok (le_host_interactions (sto_ledger st))" using ok by (simp add: ledger_ok_def rows_ok_def)
    show ?thesis
    proof (cases w)
      case (Delete key)
      then show ?thesis
        using w h assms(4) b by (simp add: exec_ledger delete_from_ledger_def Let_def btree_get_filter_iff del: exec.simps)
    qed (use w h in \<open>simp_all add: exec_ledger del: exec.simps\<close>)
  qed
qed

lemma consumed_stays_run:
  assumes "controller_valid E st" and "btree_get i (le_host_interactions (sto_ledger st)) = Some h" and "hc_state h = ''consumed''"
    and "list_all bounded_op ops" and "list_all (\<lambda>op. op \<noteq> Worker (Delete (hc_checkpoint_key h))) ops"
  shows "btree_get i (le_host_interactions (sto_ledger (fold (full_exec E) ops st))) = Some h"
  using assms by (induction ops arbitrary: st) (simp_all add: consumed_stays full_exec_valid)

lemma consume_response_messages:
  assumes "consume_response E cur h v now = Inr (u, h')"
  shows "\<exists>p. hc_response h = Some p \<and> cp_messages u = cp_messages cur @ [message_new RoleUser (hm_content (hp_response p))]"
    "cp_key cur = rv_checkpoint_key v" "hc_checkpoint_key h = rv_checkpoint_key v"
  using assms unfolding consume_response_def Let_def
  by (elim and_then_InrE; auto dest!: stage_control_Inr simp: recovery_identity_matches_def split: if_splits)+

lemma consume_replay:
  assumes "btree_get (rv_record_id v) (le_host_interactions (sto_ledger st)) = Some h" and "hc_state h = ''consumed''"
  shows "fst (claim_and_consume_host_interaction_response E st v now) = st"
    "snd (claim_and_consume_host_interaction_response E st v now) = Inr y \<Longrightarrow> rs_kind y = ''replayed''"
proof -
  let ?r = "and_then (recovery_envelope_validate v) (\<lambda>_.
    and_then (ok_or (btree_get (rv_checkpoint_key v) (sto_checkpoints st)) ''host_interaction_recovery_stale'') (\<lambda>cur.
    and_then (ok_or (btree_get (rv_record_id v) (le_host_interactions (sto_ledger st))) ''host_interaction_recovery_stale'')
      (\<lambda>h. Inr (cur, h))))"
  have h: "h' = h" if "?r = Inr (cur, h')" for cur h' using that assms(1) by (auto simp: and_then_Inr_iff)
  show "fst (claim_and_consume_host_interaction_response E st v now) = st"
  proof (cases ?r)
    case (Inr z)
    then show ?thesis using h [of "fst z" "snd z"] assms(2) by (cases z) (simp add: claim_and_consume_host_interaction_response_def)
  qed (simp add: claim_and_consume_host_interaction_response_def)
  assume y: "snd (claim_and_consume_host_interaction_response E st v now) = Inr y"
  show "rs_kind y = ''replayed''"
  proof (cases ?r)
    case (Inr z)
    then show ?thesis
      using h [of "fst z" "snd z"] assms(2) y
      by (cases z) (auto simp: claim_and_consume_host_interaction_response_def recovery_answer_def Let_def and_then_Inr_iff)
  qed (use y in \<open>simp add: claim_and_consume_host_interaction_response_def\<close>)
qed

text \<open>
  C27. The answer of the host enters the conversation once: when a worker consumed it, exactly one
  message with the recorded answer was appended to the messages of the run, and whatever calls follow
  up to the deletion of the run, consuming the same record again changes nothing and is answered as a
  replay or refused.
\<close>

theorem response_injected_once:
  fixes E before ops v
  defines "st \<equiv> fold (full_exec E) before empty_store"
  assumes "list_all bounded_op (before @ ops)"
    and "claim_and_consume_host_interaction_response E st v now = (st1, Inr x)" and "rs_kind x = ''applied''"
    and "list_all (\<lambda>op. op \<noteq> Worker (Delete (rv_checkpoint_key v))) ops" and "st2 = fold (full_exec E) ops st1"
  shows "(\<exists>cur c1 h p. load_checkpoint st (rv_checkpoint_key v) = Some cur \<and> load_checkpoint st1 (rv_checkpoint_key v) = Some c1 \<and>
      btree_get (rv_record_id v) (le_host_interactions (sto_ledger st)) = Some h \<and> hc_response h = Some p \<and>
      cp_messages c1 = cp_messages cur @ [message_new RoleUser (hm_content (hp_response p))]) \<and>
    (\<forall>v' later. rv_record_id v' = rv_record_id v \<longrightarrow>
      fst (claim_and_consume_host_interaction_response E st2 v' later) = st2 \<and>
      (\<forall>y. snd (claim_and_consume_host_interaction_response E st2 v' later) = Inr y \<longrightarrow> rs_kind y = ''replayed''))"
proof -
  have val: "controller_valid E st" unfolding st_def using run_valid [OF empty_controller_valid] assms(2) by simp
  have v1: "controller_valid E st1" and st1: "full_exec E (Consume v now) st = st1"
    using full_exec_valid [OF val, of "Consume v now"] assms(3) by simp_all
  obtain cur h u h' c b where f: "load_checkpoint st (rv_checkpoint_key v) = Some cur"
      "btree_get (rv_record_id v) (le_host_interactions (sto_ledger st)) = Some h"
      "consume_response E cur h v now = Inr (u, h')" "normalize_checkpoint_history E u = Inr (c, b)"
      "sto_checkpoints st1 = btree_insert (rv_checkpoint_key v) c (sto_checkpoints st)"
      "sto_ledger st1 = (sto_ledger st)\<lparr>le_host_interactions := btree_insert (rv_record_id v) h' (le_host_interactions (sto_ledger st))\<rparr>"
    using consume_cases [of E v now st] assms(3,4) unfolding st1 by (elim disjE exE conjE) auto
  note r = consume_response_Inr [OF f(3)] and m = consume_response_messages [OF f(3)]
  have "cp_messages c = cp_messages u"
    using normalize_Inr [OF f(4)] by (cases u; cases c) (simp add: records_only_def)
  then have one: "\<exists>p. hc_response h = Some p \<and> cp_messages c = cp_messages cur @ [message_new RoleUser (hm_content (hp_response p))]"
    using m(1) by simp
  have h': "btree_get (rv_record_id v) (le_host_interactions (sto_ledger st1)) = Some h'" using f(6) by simp
  have "btree_get (rv_record_id v) (le_host_interactions (sto_ledger st2)) = Some h'"
    unfolding assms(6) using consumed_stays_run [OF v1 h' r(5)] assms(2,5) r(7) m(3) by simp
  then have "rv_record_id v' = rv_record_id v \<longrightarrow> fst (claim_and_consume_host_interaction_response E st2 v' later) = st2 \<and>
      (\<forall>y. snd (claim_and_consume_host_interaction_response E st2 v' later) = Inr y \<longrightarrow> rs_kind y = ''replayed'')" for v' later
    using consume_replay [of v' st2 h' E later] r(5) by simp
  moreover have "load_checkpoint st1 (rv_checkpoint_key v) = Some c" using load_insert [OF f(5)] by simp
  ultimately show ?thesis using one f(1,2) by blast
qed

end
