(* ===== verification/Control_Witnesses.thy ===== *)
theory Control_Witnesses
  imports Control_Laws "HOL-Library.Code_Target_Numeral"
begin

text \<open>
  Concrete runs of workers and controllers, on which the laws of the controller are evaluated: a run
  that is suspended and resumed, whose wake is claimed, completed or lost, a run that is cancelled
  while a worker holds it, and a run that asks its host a question.
\<close>

section \<open>Calls\<close>

definition demo_command :: "string \<Rightarrow> u64 \<Rightarrow> command_kind \<Rightarrow> controller_command" where
  "demo_command i n kind = \<lparr>cc_schema_version = CONTROLLER_COMMAND_SCHEMA, cc_command_id = i, cc_command_digest = demo_digest,
     cc_handle = \<lparr>ch_checkpoint_key = ''k'', ch_run_id = ''r'', ch_trace_id = ''x''\<rparr>, cc_resume_attempt = 1,
     cc_expected_revision = n, cc_command = kind\<rparr>"

definition resumed_run :: "full_op list" where
  "resumed_run = [Worker (Create demo_cp), ResolveCommand (demo_command ''s'' 0 Suspend_Command) 5,
     ResolveCommand (demo_command ''g'' 1 Resume_Command) 5, ClaimWake ''g'' demo_digest ''t'' 100 10]"

definition lost_run :: "full_op list" where
  "lost_run = resumed_run @ [CompleteWake ''g'' demo_digest ''t'' 1 ''ambiguous'']"

definition held_run :: "full_op list" where
  "held_run = [Worker (Create demo_cp), Worker (Claim ''k'' 1 ''w'' 100 10 Continue)]"

definition demo_question :: host_request where
  "demo_question = \<lparr>hr_schema_version = HOST_INTERACTION_REQUEST_SCHEMA, hr_interaction_id = ''i'', hr_logical_cycle = 1,
     hr_operation_id = ''op'', hr_tool_call_id = ''call'', hr_request_digest = demo_digest, hr_prompt = ''why''\<rparr>"

definition demo_admission :: admission_context where
  "demo_admission = \<lparr>ac_checkpoint_key = ''k'', ac_expected_revision = 1, ac_claim_token = ''w'', ac_claimed_cycle = 1,
     ac_now_ms = 20, ac_lease_expires_at_ms = 100, ac_cycle_snapshot = None\<rparr>"

definition demo_answer :: controller_command where
  "demo_answer = demo_command ''a'' 2 (HostInteractionResponse ''i'' 1 ''op'' ''call'' demo_digest
     \<lparr>hm_role = ''user'', hm_content = ''because''\<rparr>)"

definition answered_run :: "full_op list" where
  "answered_run = held_run @ [Ask demo_question demo_admission, ResolveCommand demo_answer 30]"

definition demo_envelope :: recovery_envelope where
  "demo_envelope = \<lparr>rv_schema_version = HOST_INTERACTION_RECOVERY_SCHEMA, rv_record_id = demo_digest, rv_checkpoint_key = ''k'',
     rv_run_id = ''r'', rv_trace_id = ''x'', rv_claim_mode = ''recovery'', rv_resume_attempt = 1, rv_expected_revision = 3,
     rv_logical_cycle = 1, rv_interaction_id = ''i'', rv_operation_id = ''op'', rv_tool_call_id = ''call'',
     rv_request_digest = demo_digest, rv_command_id = ''a''\<rparr>"

text \<open>Whether a call was answered as expected.\<close>

fun applied_command :: "err + command_resolution \<Rightarrow> bool" where
  "applied_command (Inr (CommandApplied r w)) = True"
| "applied_command _ = False"

fun applied_recovery :: "err + recovery_result \<Rightarrow> bool" where
  "applied_recovery (Inr x) = (rs_kind x = ''applied'')"
| "applied_recovery (Inl e) = False"

lemma applied_command_iff: "applied_command x \<longleftrightarrow> (\<exists>r w. x = Inr (CommandApplied r w))"
  by (cases x rule: applied_command.cases) simp_all

lemma applied_recovery_iff: "applied_recovery x \<longleftrightarrow> (\<exists>y. x = Inr y \<and> rs_kind y = ''applied'')"
  by (cases x) simp_all

lemma resumed_wake: "wake_of (fold (full_exec demo_env) resumed_run empty_store) ''g'' = Some \<lparr>it_phase = Held ''t'' 100, it_attempt = 1\<rparr>"
  by code_simp

lemma lost_wake: "wake_of (fold (full_exec demo_env) lost_run empty_store) ''g'' = Some \<lparr>it_phase = Unknown, it_attempt = 1\<rparr>"
  by code_simp

lemma held_owner: "map_option (\<lambda>c. (cp_claim_token c, cp_lease_expires_at_ms c))
    (load_checkpoint (fold (full_exec demo_env) held_run empty_store) ''k'') = Some (Some ''w'', Some 100)"
  by code_simp

lemma cancel_applied: "applied_command (snd (resolve_controller_command demo_env (fold (full_exec demo_env) held_run empty_store)
    (demo_command ''c'' 1 Cancel_Command) 20))"
  by code_simp

lemma resume_applied: "applied_command (snd (resolve_controller_command demo_env (fold (full_exec demo_env) (take 2 resumed_run) empty_store)
    (demo_command ''g'' 1 Resume_Command) 5))"
  by code_simp

lemma held_store: "fold (full_exec demo_env) held_run empty_store = demo_store demo_claimed"
  using demo_create demo_claim by (simp add: held_run_def del: exec.simps)

lemma answer_applied: "applied_recovery (snd (claim_and_consume_host_interaction_response demo_env
    (fold (full_exec demo_env) (drop 2 answered_run) (demo_store demo_claimed)) demo_envelope 40))"
  by code_simp

lemma answered_store:
  "fold (full_exec demo_env) answered_run empty_store = fold (full_exec demo_env) (drop 2 answered_run) (demo_store demo_claimed)"
  using held_store by (simp add: answered_run_def held_run_def del: full_exec.simps)

section \<open>The laws on these runs\<close>



theorem wake_owner_protected_witness:
  "wake_of (fold (full_exec demo_env) [ClaimWake ''g'' demo_digest ''other'' 200 50, ReapWakes ''k'' 99]
    (fold (full_exec demo_env) resumed_run empty_store)) ''g'' = Some \<lparr>it_phase = Held ''t'' 100, it_attempt = 1\<rparr>"
  using wake_owner_protected [OF resumed_wake, of "''t''" 100
      "[ClaimWake ''g'' demo_digest ''other'' 200 50, ReapWakes ''k'' 99]" _ "[]"] by simp



theorem response_injected_once_witness:
  "\<exists>st1 x. claim_and_consume_host_interaction_response demo_env (fold (full_exec demo_env) answered_run empty_store) demo_envelope 40 =
      (st1, Inr x) \<and> fst (claim_and_consume_host_interaction_response demo_env st1 demo_envelope 50) = st1"
proof -
  obtain st1 x where a: "claim_and_consume_host_interaction_response demo_env (fold (full_exec demo_env) answered_run empty_store)
      demo_envelope 40 = (st1, Inr x)" "rs_kind x = ''applied''"
    using answer_applied unfolding applied_recovery_iff answered_store by (metis prod.collapse)
  have "list_all bounded_op (answered_run @ [])" by (simp add: answered_run_def held_run_def)
  from response_injected_once [OF this a] show ?thesis using a by auto
qed

end
