(* ===== verification/Thread_State.thy ===== *)
theory Thread_State
  imports Agent_Prelude
begin

text \<open>
  The state that the app server keeps per conversation thread (\<open>app_server/thread_state.rs\<close>): who is
  subscribed, which turn is running, which durable run is being resumed, the approval that is open, the
  follow-ups that wait for the end of the turn, and the threads that were closed. Every method takes
  the one mutex for its whole body and is one atomic step.
\<close>

section \<open>State\<close>

type_synonym connection_id = u64

text \<open>The handle, the steering queue and the store of a turn are only passed through; they are \<open>'h\<close>.\<close>

record 'h active_turn =
  tn_turn_id :: string
  tn_owner_connection :: connection_id
  tn_handle :: 'h

record thread_approval =
  ta_connection_id :: connection_id
  ta_turn_id :: string
  ta_request_id :: string

record ('h, 'i) thread_state =
  ts_subscribers :: "string \<rightharpoonup> connection_id set"
  ts_active_turns :: "string \<rightharpoonup> 'h active_turn"
  ts_durable_resumes :: "string \<rightharpoonup> string"
  ts_pending_approvals :: "string \<rightharpoonup> thread_approval"
  ts_follow_ups :: "string \<rightharpoonup> 'i list"
  ts_closed_threads :: "string set"

definition threads_default :: "('h, 'i) thread_state" where
  "threads_default = \<lparr>ts_subscribers = Map.empty, ts_active_turns = Map.empty, ts_durable_resumes = Map.empty,
     ts_pending_approvals = Map.empty, ts_follow_ups = Map.empty, ts_closed_threads = {}\<rparr>"

section \<open>Subscriptions\<close>

definition or_default :: "'a set option \<Rightarrow> 'a set" where
  "or_default x = (case x of Some s \<Rightarrow> s | None \<Rightarrow> {})"

definition subscribers :: "string \<Rightarrow> ('h, 'i) thread_state \<Rightarrow> connection_id set" where
  "subscribers t s = or_default (ts_subscribers s t)"

definition subscribe :: "string \<Rightarrow> connection_id \<Rightarrow> ('h, 'i) thread_state \<Rightarrow> ('h, 'i) thread_state" where
  "subscribe t c s = s\<lparr>ts_closed_threads := ts_closed_threads s - {t},
     ts_subscribers := (ts_subscribers s)(t \<mapsto> insert c (subscribers t s))\<rparr>"

text \<open>Removes one subscriber, and the entry of the thread with the last one.\<close>

definition drop_subscriber :: "connection_id \<Rightarrow> connection_id set option \<Rightarrow> connection_id set option" where
  "drop_subscriber c e = (case e of Some cs \<Rightarrow> if cs - {c} = {} then None else Some (cs - {c}) | None \<Rightarrow> None)"

text \<open>
  The snapshot is taken with the subscription in place and is given by its result; when it fails the
  subscription is taken back.
\<close>

definition subscribe_and_snapshot ::
  "string \<Rightarrow> connection_id \<Rightarrow> 'e + 'v \<Rightarrow> ('h, 'i) thread_state \<Rightarrow> ('h, 'i) thread_state \<times> ('e + 'v)" where
  "subscribe_and_snapshot t c snapshot s =
     (let was_closed = t \<in> ts_closed_threads s;
          inserted = c \<notin> subscribers t s;
          s1 = subscribe t c s
      in case snapshot of
           Inr v \<Rightarrow> (s1, Inr v)
         | Inl e \<Rightarrow>
             let s2 = (if inserted then s1\<lparr>ts_subscribers := (ts_subscribers s1)(t := drop_subscriber c (ts_subscribers s1 t))\<rparr>
                       else s1)
             in (if was_closed then s2\<lparr>ts_closed_threads := insert t (ts_closed_threads s2)\<rparr> else s2, Inl e))"

definition has_active_turn :: "string \<Rightarrow> ('h, 'i) thread_state \<Rightarrow> bool" where
  "has_active_turn t s \<longleftrightarrow> ts_active_turns s t \<noteq> None \<or> ts_durable_resumes s t \<noteq> None"

definition unsubscribe :: "string \<Rightarrow> connection_id \<Rightarrow> ('h, 'i) thread_state \<Rightarrow> ('h, 'i) thread_state \<times> bool" where
  "unsubscribe t c s =
     (let s1 = s\<lparr>ts_subscribers := (ts_subscribers s)(t := drop_subscriber c (ts_subscribers s t))\<rparr>;
          closed = (ts_subscribers s1 t = None \<and> \<not> has_active_turn t s1)
      in (if closed then s1\<lparr>ts_closed_threads := insert t (ts_closed_threads s1)\<rparr> else s1, closed))"

definition unsubscribe_connection :: "connection_id \<Rightarrow> ('h, 'i) thread_state \<Rightarrow> ('h, 'i) thread_state" where
  "unsubscribe_connection c s = s\<lparr>ts_subscribers := (\<lambda>t. drop_subscriber c (ts_subscribers s t))\<rparr>"

definition is_subscribed :: "string \<Rightarrow> connection_id \<Rightarrow> ('h, 'i) thread_state \<Rightarrow> bool" where
  "is_subscribed t c s \<longleftrightarrow> c \<in> subscribers t s"

definition is_closed :: "string \<Rightarrow> ('h, 'i) thread_state \<Rightarrow> bool" where
  "is_closed t s \<longleftrightarrow> t \<in> ts_closed_threads s"

definition reopen :: "string \<Rightarrow> ('h, 'i) thread_state \<Rightarrow> ('h, 'i) thread_state" where
  "reopen t s = s\<lparr>ts_closed_threads := ts_closed_threads s - {t}\<rparr>"

section \<open>Turns and approvals\<close>

definition set_active_turn :: "string \<Rightarrow> 'h active_turn \<Rightarrow> ('h, 'i) thread_state \<Rightarrow> ('h, 'i) thread_state" where
  "set_active_turn t a s = s\<lparr>ts_closed_threads := ts_closed_threads s - {t}, ts_active_turns := (ts_active_turns s)(t \<mapsto> a)\<rparr>"

definition active_turn_id :: "string \<Rightarrow> ('h, 'i) thread_state \<Rightarrow> string option" where
  "active_turn_id t s =
     (case ts_active_turns s t of Some a \<Rightarrow> Some (tn_turn_id a) | None \<Rightarrow> ts_durable_resumes s t)"

definition set_durable_resume :: "string \<Rightarrow> string \<Rightarrow> ('h, 'i) thread_state \<Rightarrow> ('h, 'i) thread_state" where
  "set_durable_resume t turn s = s\<lparr>ts_closed_threads := ts_closed_threads s - {t},
     ts_durable_resumes := (ts_durable_resumes s)(t \<mapsto> turn)\<rparr>"

definition clear_durable_resume :: "string \<Rightarrow> string \<Rightarrow> ('h, 'i) thread_state \<Rightarrow> ('h, 'i) thread_state" where
  "clear_durable_resume t turn s =
     (if ts_durable_resumes s t = Some turn then s\<lparr>ts_durable_resumes := (ts_durable_resumes s)(t := None)\<rparr> else s)"

definition clear_active_turn :: "string \<Rightarrow> string \<Rightarrow> ('h, 'i) thread_state \<Rightarrow> ('h, 'i) thread_state" where
  "clear_active_turn t turn s =
     (if map_option tn_turn_id (ts_active_turns s t) = Some turn
      then s\<lparr>ts_active_turns := (ts_active_turns s)(t := None)\<rparr> else s)"

definition set_pending_approval ::
  "string \<Rightarrow> string \<Rightarrow> string \<Rightarrow> connection_id \<Rightarrow> ('h, 'i) thread_state \<Rightarrow> ('h, 'i) thread_state" where
  "set_pending_approval t turn request c s = s\<lparr>ts_pending_approvals := (ts_pending_approvals s)(t \<mapsto>
     \<lparr>ta_connection_id = c, ta_turn_id = turn, ta_request_id = request\<rparr>)\<rparr>"

definition clear_pending_approval :: "string \<Rightarrow> string \<Rightarrow> ('h, 'i) thread_state \<Rightarrow> ('h, 'i) thread_state" where
  "clear_pending_approval t request s =
     (if map_option ta_request_id (ts_pending_approvals s t) = Some request
      then s\<lparr>ts_pending_approvals := (ts_pending_approvals s)(t := None)\<rparr> else s)"

section \<open>Follow-ups\<close>

definition queue_follow_up :: "string \<Rightarrow> 'i \<Rightarrow> ('h, 'i) thread_state \<Rightarrow> ('h, 'i) thread_state" where
  "queue_follow_up t input s = s\<lparr>ts_follow_ups := (ts_follow_ups s)(t \<mapsto>
     (case ts_follow_ups s t of Some q \<Rightarrow> q | None \<Rightarrow> []) @ [input])\<rparr>"

definition pop_follow_up :: "string \<Rightarrow> ('h, 'i) thread_state \<Rightarrow> ('h, 'i) thread_state \<times> 'i option" where
  "pop_follow_up t s =
     (case ts_follow_ups s t of
        Some (x # q) \<Rightarrow> (s\<lparr>ts_follow_ups := (ts_follow_ups s)(t := if q = [] then None else Some q)\<rparr>, Some x)
      | Some [] \<Rightarrow> (s\<lparr>ts_follow_ups := (ts_follow_ups s)(t := None)\<rparr>, None)
      | None \<Rightarrow> (s, None))"

text \<open>
  A family of first-in first-out queues, as the adapter relies on it: what is popped from a queue is
  what was queued there, in order, and the other queues do not move.
\<close>

fun drain :: "('s \<Rightarrow> 's \<times> 'i option) \<Rightarrow> nat \<Rightarrow> 's \<Rightarrow> 'i list" where
  "drain pop 0 s = []"
| "drain pop (Suc n) s = (case pop s of (s', None) \<Rightarrow> [] | (s', Some x) \<Rightarrow> x # drain pop n s')"

locale fifo_family =
  fixes push :: "'t \<Rightarrow> 'i \<Rightarrow> 's \<Rightarrow> 's"
    and pop :: "'t \<Rightarrow> 's \<Rightarrow> 's \<times> 'i option"
    and items :: "'t \<Rightarrow> 's \<Rightarrow> 'i list"
  assumes items_push: "items u (push t x s) = items u s @ (if u = t then [x] else [])"
    and pop_result: "snd (pop t s) = (case items t s of [] \<Rightarrow> None | x # q \<Rightarrow> Some x)"
    and items_pop: "items u (fst (pop t s)) = (if u = t then tl (items t s) else items u s)"
begin

lemma drain_items: "length (items t s) \<le> n \<Longrightarrow> drain (pop t) n s = items t s"
proof (induction n arbitrary: s)
  case (Suc n)
  show ?case
  proof (cases "items t s")
    case Nil
    then have "snd (pop t s) = None" by (simp add: pop_result)
    with Nil show ?thesis by (cases "pop t s") simp
  next
    case (Cons x q)
    then have "snd (pop t s) = Some x" "items t (fst (pop t s)) = q" by (simp_all add: pop_result items_pop)
    with Cons Suc show ?thesis by (cases "pop t s") simp
  qed
qed simp

lemma pop_front: "(case snd (pop t s) of Some x \<Rightarrow> [x] | None \<Rightarrow> []) @ items t (fst (pop t s)) = items t s"
  by (cases "items t s") (simp_all add: pop_result items_pop)

end

definition follow_ups :: "string \<Rightarrow> ('h, 'i) thread_state \<Rightarrow> 'i list" where
  "follow_ups t s = (case ts_follow_ups s t of Some q \<Rightarrow> q | None \<Rightarrow> [])"

interpretation fu: fifo_family queue_follow_up pop_follow_up follow_ups
  by unfold_locales
    (auto simp: follow_ups_def queue_follow_up_def pop_follow_up_def split: option.splits list.splits)

section \<open>Any sequence of calls\<close>

datatype ('h, 'i) thread_call =
    TSubscribe string connection_id
  | TSnapshot string connection_id bool
  | TUnsubscribe string connection_id
  | TDisconnect connection_id
  | TReopen string
  | TSetActive string "'h active_turn"
  | TClearActive string string
  | TSetDurable string string
  | TClearDurable string string
  | TQueue string 'i
  | TPop string
  | TSetApproval string string string connection_id
  | TClearApproval string string

fun thread_apply :: "('h, 'i) thread_call \<Rightarrow> ('h, 'i) thread_state \<Rightarrow> ('h, 'i) thread_state" where
  "thread_apply (TSubscribe t c) s = subscribe t c s"
| "thread_apply (TSnapshot t c good) s = fst (subscribe_and_snapshot t c (if good then Inr () else Inl ()) s)"
| "thread_apply (TUnsubscribe t c) s = fst (unsubscribe t c s)"
| "thread_apply (TDisconnect c) s = unsubscribe_connection c s"
| "thread_apply (TReopen t) s = reopen t s"
| "thread_apply (TSetActive t a) s = set_active_turn t a s"
| "thread_apply (TClearActive t turn) s = clear_active_turn t turn s"
| "thread_apply (TSetDurable t turn) s = set_durable_resume t turn s"
| "thread_apply (TClearDurable t turn) s = clear_durable_resume t turn s"
| "thread_apply (TQueue t x) s = queue_follow_up t x s"
| "thread_apply (TPop t) s = fst (pop_follow_up t s)"
| "thread_apply (TSetApproval t turn r c) s = set_pending_approval t turn r c s"
| "thread_apply (TClearApproval t r) s = clear_pending_approval t r s"

definition threads_ok :: "('h, 'i) thread_state \<Rightarrow> bool" where
  "threads_ok s \<longleftrightarrow>
     (\<forall>t. ts_subscribers s t \<noteq> Some {} \<and> ts_follow_ups s t \<noteq> Some []) \<and>
     (\<forall>t \<in> ts_closed_threads s. ts_subscribers s t = None \<and> ts_active_turns s t = None \<and> ts_durable_resumes s t = None)"

lemma drop_subscriber_ok [simp]: "drop_subscriber c e \<noteq> Some {}"
  by (auto simp: drop_subscriber_def split: option.splits)

lemma drop_subscriber_None [simp]: "drop_subscriber c None = None"
  by (simp add: drop_subscriber_def)

text \<open>A failed snapshot leaves the state as it was.\<close>

lemma failed_snapshot_undone:
  assumes "threads_ok s"
  shows "subscribe_and_snapshot t c (Inl e) s = (s, Inl e)"
proof -
  have subs: "ts_subscribers s t \<noteq> Some {}" using assms by (simp add: threads_ok_def)
  show ?thesis
  proof (cases "c \<in> subscribers t s")
    case True
    then obtain cs where cs: "ts_subscribers s t = Some cs" "c \<in> cs"
      by (auto simp: subscribers_def or_default_def split: option.splits)
    then have "t \<notin> ts_closed_threads s" using assms by (auto simp: threads_ok_def)
    moreover have "(ts_subscribers s)(t \<mapsto> cs) = ts_subscribers s" using cs by (simp add: map_upd_triv)
    ultimately show ?thesis using cs
      by (simp add: subscribe_and_snapshot_def subscribe_def subscribers_def or_default_def insert_absorb)
  next
    case False
    then have "drop_subscriber c (Some (insert c (subscribers t s))) = ts_subscribers s t"
      using subs by (auto simp: drop_subscriber_def subscribers_def or_default_def split: option.splits)
    then show ?thesis using False
      by (auto simp: subscribe_and_snapshot_def subscribe_def Let_def insert_absorb fun_upd_idem)
  qed
qed

lemma threads_ok_step:
  assumes ok: "threads_ok s"
  shows "threads_ok (thread_apply call s)"
proof (cases call)
  case (TSnapshot t c good)
  show ?thesis
  proof (cases good)
    case True
    with TSnapshot ok show ?thesis
      by (auto simp: subscribe_and_snapshot_def subscribe_def threads_ok_def Let_def)
  next
    case False
    with TSnapshot ok show ?thesis by (simp add: failed_snapshot_undone)
  qed
next
  case (TUnsubscribe t c)
  with ok show ?thesis by (auto simp: unsubscribe_def threads_ok_def Let_def has_active_turn_def)
next
  case (TPop t)
  with ok show ?thesis by (auto simp: pop_follow_up_def threads_ok_def split: option.splits list.splits)
qed (use ok in \<open>auto simp: threads_ok_def subscribe_def unsubscribe_connection_def reopen_def set_active_turn_def
      clear_active_turn_def set_durable_resume_def clear_durable_resume_def queue_follow_up_def
      set_pending_approval_def clear_pending_approval_def\<close>)

definition thread_step :: "('h, 'i) thread_state \<Rightarrow> ('h, 'i) thread_state \<Rightarrow> bool" where
  "thread_step s s' \<longleftrightarrow> (\<exists>call. s' = thread_apply call s)"

interpretation ts: state_machine "\<lambda>s. s = threads_default" thread_step threads_ok
  by unfold_locales (auto simp: thread_step_def threads_ok_step, simp add: threads_ok_def threads_default_def)

section \<open>Properties\<close>

text \<open>C40. In every state that calls of the app server can reach, a closed thread has no subscriber, no
  running turn and no durable run, and \<open>unsubscribe\<close> reports a thread as closed exactly when it has
  none of these any more.\<close>

theorem closed_thread_is_idle:
  assumes "thread_step\<^sup>*\<^sup>* threads_default s"
  shows "(is_closed t s \<longrightarrow> subscribers t s = {} \<and> active_turn_id t s = None) \<and>
    (snd (unsubscribe t c s) \<longleftrightarrow> subscribers t s \<subseteq> {c} \<and> \<not> has_active_turn t s) \<and>
    is_closed t (fst (unsubscribe t c s)) = snd (unsubscribe t c s)"
proof -
  have ok: "threads_ok s" using ts.inv_reachable [OF refl assms] .
  have "drop_subscriber c (ts_subscribers s t) = None \<longleftrightarrow> subscribers t s \<subseteq> {c}"
    by (auto simp: drop_subscriber_def subscribers_def or_default_def split: option.splits)
  moreover have "t \<in> ts_closed_threads s \<Longrightarrow> ts_subscribers s t = None \<and> \<not> has_active_turn t s"
    using ok by (auto simp: threads_ok_def has_active_turn_def)
  ultimately show ?thesis
    by (auto simp: is_closed_def unsubscribe_def Let_def subscribers_def or_default_def active_turn_id_def has_active_turn_def)
qed

lemma calls_reachable: "thread_step\<^sup>*\<^sup>* s (fold thread_apply calls s)"
proof (induction calls arbitrary: s)
  case (Cons call calls)
  have "thread_step s (thread_apply call s)" by (auto simp: thread_step_def)
  then show ?case using Cons.IH [of "thread_apply call s"] by (simp add: converse_rtranclp_into_rtranclp)
qed simp

definition demo_closed :: "(unit, nat) thread_state" where
  "demo_closed = fold thread_apply [TSubscribe ''t'' 1, TUnsubscribe ''t'' 1] threads_default"

lemma demo_closed_reachable: "thread_step\<^sup>*\<^sup>* threads_default demo_closed"
  unfolding demo_closed_def by (rule calls_reachable)

theorem closed_thread_is_idle_witness:
  "is_closed ''t'' demo_closed \<and> subscribers ''t'' demo_closed = {} \<and> active_turn_id ''t'' demo_closed = None"
proof -
  have "is_closed ''t'' demo_closed" by code_simp
  then show ?thesis using closed_thread_is_idle [OF demo_closed_reachable] by blast
qed

text \<open>Subscribing with a snapshot is all or nothing: if the snapshot fails, the subscription, the
  closed mark and everything else is as before, and if it succeeds the effect is that of \<open>subscribe\<close>.\<close>

theorem snapshot_all_or_nothing:
  assumes "thread_step\<^sup>*\<^sup>* threads_default s"
  shows "subscribe_and_snapshot t c (Inl e) s = (s, Inl e) \<and>
    subscribe_and_snapshot t c (Inr v) s = (subscribe t c s, Inr v) \<and> is_subscribed t c (subscribe t c s)"
  using failed_snapshot_undone [OF ts.inv_reachable [OF refl assms]]
  by (simp add: subscribe_and_snapshot_def Let_def is_subscribed_def subscribe_def subscribers_def or_default_def)

theorem snapshot_all_or_nothing_witness:
  "subscribe_and_snapshot ''t'' 2 (Inl 0 :: nat + unit) demo_closed = (demo_closed, Inl 0) \<and>
   is_subscribed ''t'' 2 (subscribe ''t'' 2 demo_closed)"
  by (simp add: snapshot_all_or_nothing [OF demo_closed_reachable])

text \<open>What a sequence of calls queues for a thread, and what it pops there.\<close>

fun queued :: "string \<Rightarrow> ('h, 'i) thread_call list \<Rightarrow> 'i list" where
  "queued t [] = []"
| "queued t (TQueue u x # calls) = (if u = t then [x] else []) @ queued t calls"
| "queued t (call # calls) = queued t calls"

fun popped_by :: "string \<Rightarrow> ('h, 'i) thread_call \<Rightarrow> ('h, 'i) thread_state \<Rightarrow> 'i list" where
  "popped_by t (TPop u) s = (if u = t then case snd (pop_follow_up t s) of Some x \<Rightarrow> [x] | None \<Rightarrow> [] else [])"
| "popped_by t _ s = []"

fun popped :: "string \<Rightarrow> ('h, 'i) thread_call list \<Rightarrow> ('h, 'i) thread_state \<Rightarrow> 'i list" where
  "popped t [] s = []"
| "popped t (call # calls) s = popped_by t call s @ popped t calls (thread_apply call s)"

lemma follow_ups_unchanged:
  assumes "\<And>x. call \<noteq> TQueue t x" and "call \<noteq> TPop t"
  shows "follow_ups t (thread_apply call s) = follow_ups t s"
proof (cases call)
  case (TSnapshot u c good)
  then show ?thesis by (simp add: follow_ups_def subscribe_and_snapshot_def subscribe_def Let_def)
next
  case (TUnsubscribe u c)
  then show ?thesis by (simp add: follow_ups_def unsubscribe_def Let_def)
next
  case (TQueue u x)
  with assms(1) show ?thesis by (auto simp: fu.items_push)
next
  case (TPop u)
  with assms(2) show ?thesis by (auto simp: fu.items_pop)
qed (simp_all add: follow_ups_def subscribe_def unsubscribe_connection_def reopen_def set_active_turn_def
      clear_active_turn_def set_durable_resume_def clear_durable_resume_def
      set_pending_approval_def clear_pending_approval_def)

lemma follow_up_step:
  "popped_by t call s @ follow_ups t (thread_apply call s) = follow_ups t s @ queued t [call]"
proof (cases "(\<exists>x. call = TQueue t x) \<or> call = TPop t")
  case True
  then show ?thesis by (auto simp: fu.items_push fu.pop_front)
next
  case False
  then have "follow_ups t (thread_apply call s) = follow_ups t s" by (intro follow_ups_unchanged) auto
  with False show ?thesis by (cases call) auto
qed

lemma queued_Cons: "queued t (call # calls) = queued t [call] @ queued t calls"
  by (cases call) simp_all

text \<open>Follow-ups of a thread are delivered in the order in which they were queued, once each, whatever
  calls come in between: what a sequence of calls pops, followed by what is still popped from the
  state it leaves, is what was waiting at its start followed by what it queued.\<close>

theorem follow_ups_in_order:
  assumes "length (follow_ups t (fold thread_apply calls s)) \<le> n"
  shows "popped t calls s @ drain (pop_follow_up t) n (fold thread_apply calls s) = follow_ups t s @ queued t calls"
proof -
  have "popped t calls s @ follow_ups t (fold thread_apply calls s) = follow_ups t s @ queued t calls"
  proof (induction calls arbitrary: s)
    case (Cons call calls)
    have "popped t (call # calls) s @ follow_ups t (fold thread_apply (call # calls) s) =
        popped_by t call s @ follow_ups t (thread_apply call s) @ queued t calls"
      using Cons.IH [of "thread_apply call s"] by simp
    also have "\<dots> = follow_ups t s @ queued t (call # calls)"
      using follow_up_step [of t call s] by (simp add: queued_Cons [of t call calls] del: queued.simps)
    finally show ?case .
  qed simp
  then show ?thesis using fu.drain_items [OF assms] by simp
qed

definition demo_calls :: "(unit, nat) thread_call list" where
  "demo_calls = [TSubscribe ''t'' 1, TQueue ''t'' 5, TQueue ''u'' 6, TPop ''t'', TQueue ''t'' 7, TQueue ''t'' 8, TDisconnect 1]"

theorem follow_ups_in_order_witness:
  "popped ''t'' demo_calls threads_default = [5] \<and>
   drain (pop_follow_up ''t'') 2 (fold thread_apply demo_calls threads_default) = [7, 8]"
proof -
  have "length (follow_ups ''t'' (fold thread_apply demo_calls threads_default)) \<le> 2" by code_simp
  from follow_ups_in_order [OF this] have
    "popped ''t'' demo_calls threads_default @ drain (pop_follow_up ''t'') 2 (fold thread_apply demo_calls threads_default) =
      follow_ups ''t'' (threads_default :: (unit, nat) thread_state) @ queued ''t'' demo_calls" .
  moreover have "follow_ups ''t'' (threads_default :: (unit, nat) thread_state) @ queued ''t'' demo_calls = [5, 7, 8]"
    by code_simp
  moreover have "popped ''t'' demo_calls threads_default = [5]" by code_simp
  ultimately show ?thesis by simp
qed

end
