(* ===== verification/Approval_Broker.thy ===== *)
theory Approval_Broker
  imports Checkpoint_Types
begin

text \<open>
  The approval of tool calls: the decisions of \<open>tools/policy.rs\<close>, the broker of \<open>approval.rs\<close>
  between the engine, which waits for a decision, and the hosts, which take it, and the part of
  \<open>runtime/engine/approval.rs\<close> that turns a decision into the result of a tool call.

  Every method of the broker runs under one mutex, so it is one atomic step; only the wait on the
  condition variable inside \<open>wait_blocking\<close> gives the mutex up. No critical section can panic, so
  the mutex is never poisoned and that error is left out.
\<close>

section \<open>Decisions\<close>

datatype approval_decision =
    Approved
  | ApprovedForSession
  | Denied string
  | TimedOut string
  | NeedsApproval
  | Detailed approval_decision "string option" fields

fun decision_action :: "approval_decision \<Rightarrow> string" where
  "decision_action Approved = ''allow''"
| "decision_action ApprovedForSession = ''allow_session''"
| "decision_action (Denied _) = ''deny''"
| "decision_action (TimedOut _) = ''timeout''"
| "decision_action NeedsApproval = ''needs_approval''"
| "decision_action (Detailed d _ _) = decision_action d"

definition is_approved :: "approval_decision \<Rightarrow> bool" where
  "is_approved d \<longleftrightarrow> decision_action d \<in> {''allow'', ''allow_session''}"

fun decision_reason :: "approval_decision \<Rightarrow> string" where
  "decision_reason (Denied r) = r"
| "decision_reason (TimedOut r) = r"
| "decision_reason (Detailed d r _) = (case r of Some x \<Rightarrow> x | None \<Rightarrow> decision_reason d)"
| "decision_reason _ = []"

fun decision_metadata :: "approval_decision \<Rightarrow> fields option" where
  "decision_metadata (Detailed _ _ m) = Some m"
| "decision_metadata _ = None"

fun with_reason :: "approval_decision \<Rightarrow> string \<Rightarrow> approval_decision" where
  "with_reason (Denied _) r = Denied r"
| "with_reason (TimedOut _) r = TimedOut r"
| "with_reason (Detailed d _ m) r = Detailed d (Some r) m"
| "with_reason d r = Detailed d (Some r) []"

definition metadata_extend :: "fields \<Rightarrow> fields \<Rightarrow> fields" where
  "metadata_extend old new = fold (\<lambda>(k, v). btree_insert k v) new old"

fun with_metadata :: "approval_decision \<Rightarrow> fields \<Rightarrow> approval_decision" where
  "with_metadata (Detailed d r old) m = Detailed d r (metadata_extend old m)"
| "with_metadata d m = Detailed d None m"

section \<open>The broker\<close>

record approval_request =
  aq_request_id :: string
  aq_run_id :: string
  aq_trace_id :: string
  aq_agent_name :: string
  aq_cycle_index :: u32
  aq_tool_call_id :: string
  aq_tool_name :: string
  aq_arguments :: json
  aq_preview :: string
  aq_metadata :: fields

text \<open>The identity comes from the UUID generator, the preview from the JSON printer.\<close>

definition for_tool_call ::
  "string \<Rightarrow> (json \<Rightarrow> string) \<Rightarrow> string \<Rightarrow> string \<Rightarrow> string \<Rightarrow> u32 \<Rightarrow> tool_call \<Rightarrow> approval_request" where
  "for_tool_call uuid print run trace agent cycle call =
     (let arguments = JObj (tc_arguments call) in
      \<lparr>aq_request_id = ''approval_'' @ uuid, aq_run_id = run, aq_trace_id = trace, aq_agent_name = agent,
       aq_cycle_index = cycle, aq_tool_call_id = tc_id call, aq_tool_name = tc_name call,
       aq_arguments = arguments, aq_preview = tc_name call @ '' '' @ print arguments, aq_metadata = []\<rparr>)"

record pending_approval =
  pa_request :: approval_request
  pa_decision :: "approval_decision option"

text \<open>
  The hash map of requests is kept as a list sorted by key: its iteration order cannot be observed
  by the operations below.
\<close>

record broker_state =
  br_pending :: "(string, pending_approval) btree"
  br_session_allowed :: "string set"
  br_cancel_decision :: "approval_decision option"

definition broker_default :: broker_state where
  "broker_default = \<lparr>br_pending = [], br_session_allowed = {}, br_cancel_decision = None\<rparr>"

definition initial_decision :: "approval_request \<Rightarrow> broker_state \<Rightarrow> approval_decision option" where
  "initial_decision r s =
     (case br_cancel_decision s of
        Some d \<Rightarrow> Some d
      | None \<Rightarrow> if aq_tool_name r \<in> br_session_allowed s then Some ApprovedForSession else None)"

definition register :: "approval_request \<Rightarrow> broker_state \<Rightarrow> broker_state" where
  "register r s =
     s\<lparr>br_pending := btree_insert (aq_request_id r)
         \<lparr>pa_request = r, pa_decision = initial_decision r s\<rparr> (br_pending s)\<rparr>"

text \<open>The request of an identity that is registered and not decided yet.\<close>

definition pending_request :: "string \<Rightarrow> broker_state \<Rightarrow> approval_request option" where
  "pending_request rid s =
     (case btree_get rid (br_pending s) of
        Some e \<Rightarrow> if pa_decision e = None then Some (pa_request e) else None
      | None \<Rightarrow> None)"

definition unwrap_or :: "'a option \<Rightarrow> 'a \<Rightarrow> 'a" where
  "unwrap_or x d = (case x of Some y \<Rightarrow> y | None \<Rightarrow> d)"

definition resolve :: "string \<Rightarrow> approval_decision \<Rightarrow> broker_state \<Rightarrow> string + broker_state" where
  "resolve rid decision s =
     (case pending_request rid s of
        None \<Rightarrow> Inl (''unknown approval request: '' @ rid)
      | Some r \<Rightarrow>
          let d = unwrap_or (br_cancel_decision s) decision
          in Inr (s\<lparr>br_session_allowed :=
                      (if decision_action d = ''allow_session'' then insert (aq_tool_name r) (br_session_allowed s)
                       else br_session_allowed s),
                    br_pending := btree_insert rid \<lparr>pa_request = r, pa_decision = Some d\<rparr> (br_pending s)\<rparr>))"

definition allows_tool_for_session :: "string \<Rightarrow> broker_state \<Rightarrow> bool" where
  "allows_tool_for_session tool s \<longleftrightarrow> br_cancel_decision s = None \<and> tool \<in> br_session_allowed s"

definition discard :: "string \<Rightarrow> broker_state \<Rightarrow> broker_state \<times> bool" where
  "discard rid s = (s\<lparr>br_pending := btree_remove rid (br_pending s)\<rparr>, btree_contains rid (br_pending s))"

definition decide_if_open :: "approval_decision \<Rightarrow> pending_approval \<Rightarrow> pending_approval" where
  "decide_if_open d e = (if pa_decision e = None then e\<lparr>pa_decision := Some d\<rparr> else e)"

definition cancel_pending :: "string \<Rightarrow> broker_state \<Rightarrow> broker_state \<times> nat" where
  "cancel_pending reason s =
     (let d = Denied reason in
      (s\<lparr>br_cancel_decision := Some d,
         br_pending := map (\<lambda>(k, e). (k, decide_if_open d e)) (br_pending s)\<rparr>,
       length (filter (\<lambda>(k, e). pa_decision e = None) (br_pending s))))"

definition reset_cancelled :: "broker_state \<Rightarrow> broker_state" where
  "reset_cancelled s = s\<lparr>br_cancel_decision := None\<rparr>"

subsection \<open>Waiting\<close>

text \<open>
  One pass of the loop of \<open>wait_blocking\<close>, which holds the mutex: a decision is taken out, an expired
  wait gives up, and otherwise the waiter goes to sleep. \<open>elapsed\<close> is what the clock shows.
\<close>

definition timeout_decision :: approval_decision where
  "timeout_decision = TimedOut ''Approval request timed out.''"

definition decision_of :: "string \<Rightarrow> broker_state \<Rightarrow> approval_decision option" where
  "decision_of rid s = Option.bind (btree_get rid (br_pending s)) pa_decision"

definition remove_pending :: "string \<Rightarrow> broker_state \<Rightarrow> broker_state" where
  "remove_pending rid s = s\<lparr>br_pending := btree_remove rid (br_pending s)\<rparr>"

definition wait_pass :: "string \<Rightarrow> nat option \<Rightarrow> nat \<Rightarrow> broker_state \<Rightarrow> broker_state \<times> approval_decision option" where
  "wait_pass rid timeout elapsed s =
     (case decision_of rid s of
        Some d \<Rightarrow> (remove_pending rid s, Some d)
      | None \<Rightarrow>
          (case timeout of
             Some t \<Rightarrow> if t \<le> elapsed then (remove_pending rid s, Some timeout_decision) else (s, None)
           | None \<Rightarrow> (s, None)))"

text \<open>
  The return from the sleep, still under the mutex: a wait that timed out without a decision gives
  up, every other one makes the next pass. \<open>timed_out\<close> is only reported for a wait with a timeout.
\<close>

definition wait_wake ::
  "string \<Rightarrow> nat option \<Rightarrow> bool \<Rightarrow> nat \<Rightarrow> broker_state \<Rightarrow> broker_state \<times> approval_decision option" where
  "wait_wake rid timeout timed_out elapsed s =
     (if timeout \<noteq> None \<and> timed_out \<and> decision_of rid s = None
      then (remove_pending rid s, Some timeout_decision)
      else wait_pass rid timeout elapsed s)"

section \<open>The engine's side\<close>

text \<open>
  Before a tool runs the engine asks whether it needs an approval (\<open>approval_provider_result\<close>). The
  first part ends with a go, an interruption of the run, or a request for the broker.
\<close>

datatype approval_requirement = NotRequired | Required | Provider

record approval_context =
  ac_should_request :: "(approval_request \<Rightarrow> bool) option"
  ac_broker :: "broker_state option"
  ac_metadata :: fields

record approval_task =
  at_task_id :: string
  at_metadata :: fields

datatype approval_gate = Go | Interrupt tool_result | Ask approval_request

text \<open>The first member that is present counts, even when it is then found not to be a usable string.\<close>

definition identity_str :: "json option list \<Rightarrow> string option" where
  "identity_str candidates =
     (case Option.bind (find_map (\<lambda>c. c) candidates) as_str of
        Some v \<Rightarrow> if is_blank v then None else Some v
      | None \<Rightarrow> None)"

definition plain_result :: "string \<Rightarrow> string \<Rightarrow> tool_result_status \<Rightarrow> string \<Rightarrow> string \<Rightarrow> fields \<Rightarrow> tool_result" where
  "plain_result call_id content status directive code meta =
     \<lparr>tr_tool_call_id = call_id, tr_content = content, tr_status = status, tr_directive = directive,
      tr_error_code = Some code, tr_metadata = meta, tr_image_url = None, tr_image_path = None,
      tr_truncated = False, tr_truncation_reason = None, tr_original_bytes = None, tr_visible_bytes = None,
      tr_artifact = None, tr_cursor = None\<rparr>"

definition required_message :: "tool_call \<Rightarrow> string" where
  "required_message call = ''Approval required for tool '' @ tc_name call @ ''.''"

definition approval_required_result :: "string \<Rightarrow> tool_call \<Rightarrow> tool_result" where
  "approval_required_result uuid call =
     (let interruption = ''approval_'' @ uuid; message = required_message call
      in plain_result (tc_id call) message RsWaitResponse ''wait_user'' ''tool_approval_required''
           (btree_collect
             [(''mode'', JStr ''approval_requested''), (''approval_required'', JBool True),
              (''approval_interruption_id'', JStr interruption), (''request_id'', JStr interruption),
              (''tool_name'', JStr (tc_name call)), (''arguments'', JObj (tc_arguments call)),
              (''message'', JStr message)]))"

definition error_content :: "(json \<Rightarrow> string) \<Rightarrow> string \<Rightarrow> string \<Rightarrow> tool_call \<Rightarrow> string" where
  "error_content print message code call = print (object_of
     [(''ok'', JBool False), (''error'', JStr message), (''error_code'', JStr code), (''tool_name'', JStr (tc_name call))])"

definition approval_error_result :: "(json \<Rightarrow> string) \<Rightarrow> tool_call \<Rightarrow> string \<Rightarrow> string \<Rightarrow> tool_result" where
  "approval_error_result print call code message =
     plain_result (tc_id call) (error_content print message code call) RsError ''continue'' code []"

definition approval_resolution_error_result ::
  "(json \<Rightarrow> string) \<Rightarrow> tool_call \<Rightarrow> string \<Rightarrow> string \<Rightarrow> string \<Rightarrow> string \<Rightarrow> tool_result" where
  "approval_resolution_error_result print call rid action code message =
     plain_result (tc_id call) (error_content print message code call) RsError ''continue'' code
       (btree_collect
         [(''mode'', JStr ''approval_resolved''), (''request_id'', JStr rid), (''tool_name'', JStr (tc_name call)),
          (''arguments'', JObj (tc_arguments call)), (''action'', JStr action), (''message'', JStr message)])"

definition request_of_call ::
  "string \<Rightarrow> (json \<Rightarrow> string) \<Rightarrow> fields \<Rightarrow> approval_task \<Rightarrow> u32 \<Rightarrow> tool_call \<Rightarrow> fields \<Rightarrow> approval_request" where
  "request_of_call uuid print identity t cycle call tool_meta =
     (let i = (\<lambda>k. btree_get k identity); m = (\<lambda>k. btree_get k (at_metadata t));
          run = unwrap_or (identity_str [i ''_vv_agent_run_id'', m ''_vv_agent_run_id'']) (at_task_id t);
          trace = unwrap_or (identity_str [i ''_vv_agent_trace_id'', i ''trace_id'',
                                           m ''_vv_agent_trace_id'', m ''trace_id'']) run;
          agent = unwrap_or (identity_str [i ''_vv_agent_agent_name'', m ''_vv_agent_agent_name'', m ''agent_name''])
                    (at_task_id t);
          r = for_tool_call uuid print run trace agent cycle call;
          meta = btree_insert ''tool_metadata'' (JObj tool_meta) (aq_metadata r)
      in r\<lparr>aq_metadata :=
             (case identity_str [i ''_vv_agent_session_id'', m ''_vv_agent_session_id''] of
                Some session \<Rightarrow> btree_insert ''session_id'' (JStr session) meta
              | None \<Rightarrow> meta)\<rparr>)"

definition approval_gate_of ::
  "string \<Rightarrow> (json \<Rightarrow> string) \<Rightarrow> approval_requirement \<Rightarrow> approval_context option \<Rightarrow> approval_task \<Rightarrow> u32 \<Rightarrow>
   tool_call \<Rightarrow> fields \<Rightarrow> approval_gate" where
  "approval_gate_of uuid print req ctx t cycle call tool_meta =
     (let local = (if req = Required then Interrupt (approval_required_result uuid call) else Go) in
      if req = NotRequired then Go
      else case ctx of
        None \<Rightarrow> local
      | Some c \<Rightarrow>
          (case (ac_should_request c, ac_broker c) of
             (Some should, Some b) \<Rightarrow>
               if allows_tool_for_session (tc_name call) b then Go
               else let r = request_of_call uuid print (ac_metadata c) t cycle call tool_meta
                    in if should r then Ask r else Go
           | _ \<Rightarrow> local))"

definition canonical_approval_message :: "string \<Rightarrow> string \<Rightarrow> string" where
  "canonical_approval_message reason dflt = (if is_blank reason then dflt else reason)"

text \<open>What the provider's own decision does to the request; a failed provider discards it.\<close>

datatype provider_outcome = PDecision "approval_decision option" | PCancelled | PError string

fun provider_effect :: "string \<Rightarrow> provider_outcome \<Rightarrow> broker_state \<Rightarrow> broker_state \<times> string option" where
  "provider_effect rid (PDecision (Some d)) s =
     (if decision_action d = ''needs_approval'' then (s, None)
      else case resolve rid d s of Inl _ \<Rightarrow> (s, None) | Inr s' \<Rightarrow> (s', None))"
| "provider_effect rid (PDecision None) s = (s, None)"
| "provider_effect rid PCancelled s = (s, None)"
| "provider_effect rid (PError e) s = (fst (discard rid s), Some e)"

text \<open>The last part: the result of the call, or \<open>None\<close> when the tool may run.\<close>

definition approval_outcome ::
  "(json \<Rightarrow> string) \<Rightarrow> tool_call \<Rightarrow> string \<Rightarrow> bool \<Rightarrow> approval_decision \<Rightarrow> tool_result option" where
  "approval_outcome print call rid cancelled d =
     (let action = decision_action d;
          unresolved = Some (approval_error_result print call ''approval_unresolved'' ''Approval was not resolved.'')
      in if cancelled
         then Some (approval_error_result print call ''tool_execution_cancelled'' ''Operation was cancelled'')
         else if action \<in> {''allow'', ''allow_session''} then None
         else if action = ''needs_approval'' then unresolved
         else if action = ''deny''
         then Some (approval_resolution_error_result print call rid ''deny'' ''tool_approval_denied''
                (canonical_approval_message (decision_reason d)
                   (''Approval denied for tool '' @ tc_name call @ ''.'')))
         else if action = ''timeout''
         then Some (approval_resolution_error_result print call rid ''timeout'' ''tool_approval_timeout''
                (canonical_approval_message (decision_reason d) ''Approval request timed out.''))
         else unresolved)"

section \<open>Brokers, hosts and waiters together\<close>

text \<open>
  The calls on one broker, in any order and from any number of threads. A waiter is asleep or has
  been notified since it went to sleep. What the properties are about is recorded beside the state:
  the identities in use, the decisions of the hosts that the broker took, the decisions it recorded,
  the requests whose decision was taken out, and the answers of the waiters.
\<close>

record waiter =
  wt_request :: string
  wt_timeout :: "nat option"
  wt_notified :: bool

record approval_sys =
  sy_broker :: broker_state
  sy_waiters :: "nat \<rightharpoonup> waiter"
  sy_used :: "string set"
  sy_host :: "(string \<times> approval_decision) list"
  sy_log :: "(approval_request \<times> approval_decision) list"
  sy_taken :: "string list"
  sy_answers :: "(nat \<times> string \<times> approval_decision) list"

definition init_approval :: approval_sys where
  "init_approval = \<lparr>sy_broker = broker_default, sy_waiters = Map.empty, sy_used = {}, sy_host = [], sy_log = [],
     sy_taken = [], sy_answers = []\<rparr>"

datatype approval_op =
    ARegister approval_request
  | AResolve string approval_decision
  | ADiscard string
  | ACancel string
  | AReset
  | AWait nat string "nat option" nat
  | AWake nat bool nat

text \<open>\<open>notify_all\<close>.\<close>

definition notify_all :: "approval_sys \<Rightarrow> approval_sys" where
  "notify_all y = y\<lparr>sy_waiters := (\<lambda>w. map_option (\<lambda>x. x\<lparr>wt_notified := True\<rparr>) (sy_waiters y w))\<rparr>"

text \<open>The end of a pass of a waiter: an answer, or sleep.\<close>

definition after_pass ::
  "nat \<Rightarrow> string \<Rightarrow> nat option \<Rightarrow> broker_state \<times> approval_decision option \<Rightarrow> approval_sys \<Rightarrow> approval_sys" where
  "after_pass w rid timeout res y =
     (case res of
        (s, Some d) \<Rightarrow> y\<lparr>sy_broker := s, sy_waiters := (sy_waiters y)(w := None),
                        sy_taken := (if decision_of rid (sy_broker y) = None then sy_taken y else sy_taken y @ [rid]),
                        sy_answers := sy_answers y @ [(w, rid, d)]\<rparr>
      | (s, None) \<Rightarrow> y\<lparr>sy_broker := s, sy_waiters := (sy_waiters y)(w \<mapsto>
                        \<lparr>wt_request = rid, wt_timeout = timeout, wt_notified = False\<rparr>)\<rparr>)"

definition open_requests :: "(string, pending_approval) btree \<Rightarrow> approval_request list" where
  "open_requests m = map (pa_request \<circ> snd) (filter (\<lambda>(k, e). pa_decision e = None) m)"

fun approval_apply :: "approval_op \<Rightarrow> approval_sys \<Rightarrow> approval_sys" where
  "approval_apply (ARegister r) y =
     notify_all (y\<lparr>sy_broker := register r (sy_broker y), sy_used := insert (aq_request_id r) (sy_used y),
       sy_log := sy_log y @ (case initial_decision r (sy_broker y) of Some d \<Rightarrow> [(r, d)] | None \<Rightarrow> [])\<rparr>)"
| "approval_apply (AResolve rid d) y =
     (case (pending_request rid (sy_broker y), resolve rid d (sy_broker y)) of
        (Some r, Inr s) \<Rightarrow> notify_all (y\<lparr>sy_broker := s,
            sy_host := (if br_cancel_decision (sy_broker y) = None then sy_host y @ [(rid, d)] else sy_host y),
            sy_log := sy_log y @ [(r, unwrap_or (br_cancel_decision (sy_broker y)) d)]\<rparr>)
      | _ \<Rightarrow> y)"
| "approval_apply (ADiscard rid) y =
     (case discard rid (sy_broker y) of
        (s, removed) \<Rightarrow> if removed then notify_all (y\<lparr>sy_broker := s\<rparr>) else y\<lparr>sy_broker := s\<rparr>)"
| "approval_apply (ACancel reason) y =
     notify_all (y\<lparr>sy_broker := fst (cancel_pending reason (sy_broker y)),
       sy_log := sy_log y @ map (\<lambda>r. (r, Denied reason)) (open_requests (br_pending (sy_broker y)))\<rparr>)"
| "approval_apply AReset y = y\<lparr>sy_broker := reset_cancelled (sy_broker y)\<rparr>"
| "approval_apply (AWait w rid timeout elapsed) y =
     after_pass w rid timeout (wait_pass rid timeout elapsed (sy_broker y)) y"
| "approval_apply (AWake w timed_out elapsed) y =
     (case sy_waiters y w of
        Some x \<Rightarrow> after_pass w (wt_request x) (wt_timeout x)
                     (wait_wake (wt_request x) (wt_timeout x) timed_out elapsed (sy_broker y)) y
      | None \<Rightarrow> y)"

text \<open>
  Identities of requests are not used twice, which is what the UUID generator provides; a thread
  that waits is not waiting already. Every other call can be made at any time, and a waiter may
  also wake up without a notification.
\<close>

fun approval_enabled :: "approval_op \<Rightarrow> approval_sys \<Rightarrow> bool" where
  "approval_enabled (ARegister r) y \<longleftrightarrow> aq_request_id r \<notin> sy_used y"
| "approval_enabled (AWait w _ _ _) y \<longleftrightarrow> sy_waiters y w = None"
| "approval_enabled _ y \<longleftrightarrow> True"

inductive approval_step :: "approval_sys \<Rightarrow> approval_sys \<Rightarrow> bool" where
  step: "approval_enabled op y \<Longrightarrow> approval_step y (approval_apply op y)"

text \<open>The steps other than the reset for the next run.\<close>

inductive approval_step_cancelled :: "approval_sys \<Rightarrow> approval_sys \<Rightarrow> bool" where
  quiet: "approval_enabled op y \<Longrightarrow> op \<noteq> AReset \<Longrightarrow> approval_step_cancelled y (approval_apply op y)"

inductive_cases approval_stepE [elim!]: "approval_step y z"
inductive_cases approval_step_cancelledE [elim!]: "approval_step_cancelled y z"

section \<open>Invariants\<close>

abbreviation log_ids :: "(approval_request \<times> approval_decision) list \<Rightarrow> string list" where
  "log_ids l \<equiv> map (aq_request_id \<circ> fst) l"

definition entry_ok ::
  "string set \<Rightarrow> (approval_request \<times> approval_decision) list \<Rightarrow> string list \<Rightarrow> string \<Rightarrow> pending_approval \<Rightarrow> bool" where
  "entry_ok used l taken rid e \<longleftrightarrow> aq_request_id (pa_request e) = rid \<and> rid \<in> used \<and> rid \<notin> set taken \<and>
     (case pa_decision e of None \<Rightarrow> rid \<notin> set (log_ids l) | Some d \<Rightarrow> (pa_request e, d) \<in> set l)"

definition ledger_ok ::
  "(string, pending_approval) btree \<Rightarrow> string set \<Rightarrow> (approval_request \<times> approval_decision) list \<Rightarrow> string list \<Rightarrow> bool" where
  "ledger_ok m used l taken \<longleftrightarrow> btree_ok m \<and>
     (\<forall>rid e. btree_get rid m = Some e \<longrightarrow> entry_ok used l taken rid e) \<and>
     distinct (log_ids l) \<and> set (log_ids l) \<subseteq> used \<and> distinct taken \<and> set taken \<subseteq> set (log_ids l)"

definition ledger_inv :: "approval_sys \<Rightarrow> bool" where
  "ledger_inv y \<longleftrightarrow> ledger_ok (br_pending (sy_broker y)) (sy_used y) (sy_log y) (sy_taken y)"

definition answers_inv :: "approval_sys \<Rightarrow> bool" where
  "answers_inv y \<longleftrightarrow> (\<forall>(w, rid, d) \<in> set (sy_answers y).
     d = timeout_decision \<or> rid \<in> set (sy_taken y) \<and> (\<exists>r. (r, d) \<in> set (sy_log y) \<and> aq_request_id r = rid))"

text \<open>A tool that a host allowed for the session.\<close>

definition host_granted :: "approval_sys \<Rightarrow> string \<Rightarrow> bool" where
  "host_granted y tool \<longleftrightarrow> (\<exists>(r, d) \<in> set (sy_log y). (aq_request_id r, d) \<in> set (sy_host y) \<and>
     decision_action d = ''allow_session'' \<and> aq_tool_name r = tool)"

definition grant_inv :: "approval_sys \<Rightarrow> bool" where
  "grant_inv y \<longleftrightarrow>
     (\<forall>tool \<in> br_session_allowed (sy_broker y). host_granted y tool) \<and>
     (\<forall>(r, d) \<in> set (sy_log y). is_approved d \<longrightarrow>
        (aq_request_id r, d) \<in> set (sy_host y) \<or> d = ApprovedForSession \<and> host_granted y (aq_tool_name r)) \<and>
     (\<forall>d. br_cancel_decision (sy_broker y) = Some d \<longrightarrow> (\<exists>reason. d = Denied reason))"

definition closed_inv :: "approval_sys \<Rightarrow> bool" where
  "closed_inv y \<longleftrightarrow> (br_cancel_decision (sy_broker y) \<noteq> None \<longrightarrow> (\<forall>rid. pending_request rid (sy_broker y) = None))"

definition sleep_inv :: "approval_sys \<Rightarrow> bool" where
  "sleep_inv y \<longleftrightarrow> (\<forall>w x. sy_waiters y w = Some x \<longrightarrow> \<not> wt_notified x \<longrightarrow>
     decision_of (wt_request x) (sy_broker y) = None)"

definition approval_inv :: "approval_sys \<Rightarrow> bool" where
  "approval_inv y \<longleftrightarrow> ledger_inv y \<and> answers_inv y \<and> grant_inv y \<and> closed_inv y \<and> sleep_inv y"

subsection \<open>Lookups\<close>

lemma btree_get_map_values: "btree_get k (map (\<lambda>(k, v). (k, f v)) m) = map_option f (btree_get k m)"
  by (induction k m rule: btree_get.induct) auto

lemma btree_ok_map_values [simp]: "btree_ok (map (\<lambda>(k, v). (k, f v)) m) = btree_ok m"
proof -
  have "map fst (map (\<lambda>(k, v). (k, f v)) m) = map fst m" by (induction m) auto
  then show ?thesis by (simp only: btree_ok_def)
qed

lemma pending_request_Some_iff:
  "pending_request rid s = Some r \<longleftrightarrow>
     (\<exists>e. btree_get rid (br_pending s) = Some e \<and> pa_decision e = None \<and> r = pa_request e)"
  by (auto simp: pending_request_def split: option.splits)

lemma decision_of_Some_iff:
  "decision_of rid s = Some d \<longleftrightarrow> (\<exists>e. btree_get rid (br_pending s) = Some e \<and> pa_decision e = Some d)"
  by (auto simp: decision_of_def bind_eq_Some_conv)

lemma notify_all_simps [simp]:
  "sy_broker (notify_all y) = sy_broker y" "sy_used (notify_all y) = sy_used y" "sy_host (notify_all y) = sy_host y"
  "sy_log (notify_all y) = sy_log y" "sy_taken (notify_all y) = sy_taken y" "sy_answers (notify_all y) = sy_answers y"
  by (simp_all add: notify_all_def)

lemma sleep_inv_notify [simp]: "sleep_inv (notify_all y)"
  by (auto simp: sleep_inv_def notify_all_def)

lemma remove_pending_simps [simp]:
  "br_pending (remove_pending rid s) = btree_remove rid (br_pending s)"
  "br_session_allowed (remove_pending rid s) = br_session_allowed s"
  "br_cancel_decision (remove_pending rid s) = br_cancel_decision s"
  by (simp_all add: remove_pending_def)

text \<open>A pass takes the decision out, gives up without one, or changes nothing.\<close>

lemma wait_wake_cases:
  obtains (taken) d where "decision_of rid s = Some d" "wait_wake rid timeout late elapsed s = (remove_pending rid s, Some d)"
  | (expired) "decision_of rid s = None"
      "wait_wake rid timeout late elapsed s = (remove_pending rid s, Some timeout_decision)"
  | (asleep) "decision_of rid s = None" "wait_wake rid timeout late elapsed s = (s, None)"
  by (cases "decision_of rid s"; cases timeout; cases late; cases "the timeout \<le> elapsed")
    (auto simp: wait_wake_def wait_pass_def)

lemma wait_pass_is_wake: "wait_pass rid timeout elapsed s = wait_wake rid timeout False elapsed s"
  by (simp add: wait_wake_def)

subsection \<open>Preservation\<close>

lemma ledger_ok_remove: "ledger_ok m used l taken \<Longrightarrow> ledger_ok (btree_remove rid m) used l taken"
  by (simp add: ledger_ok_def)

lemma ledger_ok_take:
  assumes "ledger_ok m used l taken" and "btree_get rid m = Some e" and "pa_decision e = Some d"
  shows "ledger_ok (btree_remove rid m) used l (taken @ [rid])"
proof -
  have "entry_ok used l taken rid e" using assms by (simp add: ledger_ok_def)
  then have "rid \<in> set (log_ids l)" "rid \<notin> set taken" using assms(3) by (force simp: entry_ok_def)+
  with assms(1) show ?thesis by (simp add: ledger_ok_def entry_ok_def)
qed

lemma ledger_ok_open:
  assumes "ledger_ok m used l taken" and "aq_request_id r \<notin> used"
  shows "ledger_ok (btree_insert (aq_request_id r) \<lparr>pa_request = r, pa_decision = None\<rparr> m)
    (insert (aq_request_id r) used) l taken"
proof -
  have "set taken \<subseteq> set (log_ids l)" "set (log_ids l) \<subseteq> used" using assms(1) by (simp_all add: ledger_ok_def)
  with assms(2) have "aq_request_id r \<notin> set (log_ids l)" "aq_request_id r \<notin> set taken" by blast+
  with assms show ?thesis by (auto simp: ledger_ok_def entry_ok_def)
qed

text \<open>A decision for a request that has none yet, new or registered before.\<close>

lemma ledger_ok_decide:
  assumes ok: "ledger_ok m used l taken" and new: "aq_request_id r \<notin> set (log_ids l)"
  shows "ledger_ok (btree_insert (aq_request_id r) \<lparr>pa_request = r, pa_decision = Some d\<rparr> m)
    (insert (aq_request_id r) used) (l @ [(r, d)]) taken"
proof -
  have "entry_ok (insert (aq_request_id r) used) (l @ [(r, d)]) taken k e"
    if "btree_get k (btree_insert (aq_request_id r) \<lparr>pa_request = r, pa_decision = Some d\<rparr> m) = Some e" for k e
  proof (cases "k = aq_request_id r")
    case True
    with that ok new show ?thesis by (auto simp: entry_ok_def ledger_ok_def)
  next
    case False
    with that ok have "entry_ok used l taken k e" by (simp add: ledger_ok_def)
    with False show ?thesis by (simp add: entry_ok_def split: option.splits)
  qed
  with ok new show ?thesis by (auto simp: ledger_ok_def)
qed

lemma ids_of_open_requests:
  assumes "ledger_ok m used l taken"
  shows "map aq_request_id (open_requests m) = map fst (filter (\<lambda>(k, e). pa_decision e = None) m)"
proof -
  have "aq_request_id (pa_request e) = k" if "(k, e) \<in> set m" for k e
    using that assms by (simp add: ledger_ok_def entry_ok_def btree_get_set)
  then show ?thesis by (auto simp: open_requests_def)
qed

lemma ledger_ok_cancel:
  assumes ok: "ledger_ok m used l taken"
  shows "ledger_ok (map (\<lambda>(k, e). (k, decide_if_open d e)) m) used (l @ map (\<lambda>r. (r, d)) (open_requests m)) taken"
proof -
  let ?l = "l @ map (\<lambda>r. (r, d)) (open_requests m)"
  have entry: "entry_ok used l taken k e" if "btree_get k m = Some e" for k e
    using that ok by (simp add: ledger_ok_def)
  have "log_ids (map (\<lambda>r. (r, d)) (open_requests m)) = map aq_request_id (open_requests m)"
    by simp
  then have ids: "log_ids ?l = log_ids l @ map fst (filter (\<lambda>(k, e). pa_decision e = None) m)"
    using ids_of_open_requests [OF ok] by simp
  have fresh: "k \<notin> set (log_ids l) \<and> k \<in> used" if "(k, e) \<in> set m" and "pa_decision e = None" for k e
    using entry [of k e] that ok by (simp add: entry_ok_def ledger_ok_def btree_get_set)
  have dist: "distinct (map fst (filter (\<lambda>(k, e). pa_decision e = None) m))"
    using ok by (intro distinct_map_filter) (simp add: ledger_ok_def btree_ok_distinct)
  have open_in: "pa_request e \<in> set (open_requests m)" if "btree_get k m = Some e" "pa_decision e = None" for k e
  proof -
    have "(k, e) \<in> set m" using that(1) ok by (simp add: ledger_ok_def btree_get_set)
    with that(2) show ?thesis by (force simp: open_requests_def)
  qed
  have new: "entry_ok used ?l taken k (decide_if_open d e)" if "btree_get k m = Some e" for k e
  proof (cases "pa_decision e")
    case None
    with entry [OF that] open_in [OF that] show ?thesis by (simp add: entry_ok_def decide_if_open_def)
  next
    case (Some x)
    with entry [OF that] show ?thesis by (simp add: entry_ok_def decide_if_open_def)
  qed
  have all: "\<forall>k e. btree_get k (map (\<lambda>(k, e). (k, decide_if_open d e)) m) = Some e \<longrightarrow> entry_ok used ?l taken k e"
    using new by (auto simp: btree_get_map_values)
  have "x \<notin> set (log_ids l) \<and> x \<in> used" if "x \<in> set (map fst (filter (\<lambda>(k, e). pa_decision e = None) m))" for x
  proof -
    from that obtain e where "(x, e) \<in> set m" "pa_decision e = None" by auto
    then show ?thesis by (rule fresh)
  qed
  then have apart: "set (log_ids l) \<inter> set (map fst (filter (\<lambda>(k, e). pa_decision e = None) m)) = {}"
    "set (map fst (filter (\<lambda>(k, e). pa_decision e = None) m)) \<subseteq> used" by blast+
  have "distinct (log_ids ?l)" unfolding ids distinct_append using ok dist apart by (simp add: ledger_ok_def)
  moreover have "set (log_ids ?l) \<subseteq> used" unfolding ids set_append using ok apart by (simp add: ledger_ok_def)
  moreover have "set taken \<subseteq> set (log_ids ?l)" unfolding ids using ok by (auto simp: ledger_ok_def)
  ultimately show ?thesis using ok all by (simp add: ledger_ok_def)
qed

lemma ledger_inv_pass:
  assumes inv: "ledger_inv y"
  shows "ledger_inv (after_pass w rid timeout (wait_wake rid timeout late elapsed (sy_broker y)) y)"
proof (cases rule: wait_wake_cases [of rid "sy_broker y" timeout late elapsed])
  case (taken d)
  then obtain e where e: "btree_get rid (br_pending (sy_broker y)) = Some e" "pa_decision e = Some d"
    by (auto simp: decision_of_Some_iff)
  from taken show ?thesis using ledger_ok_take [OF inv [unfolded ledger_inv_def] e]
    by (simp add: after_pass_def ledger_inv_def)
next
  case expired
  with inv show ?thesis by (simp add: after_pass_def ledger_inv_def ledger_ok_remove)
next
  case asleep
  with inv show ?thesis by (simp add: after_pass_def ledger_inv_def)
qed

lemma ledger_inv_step:
  assumes inv: "ledger_inv y" and en: "approval_enabled op y"
  shows "ledger_inv (approval_apply op y)"
proof (cases op)
  case (ARegister r)
  have "aq_request_id r \<notin> set (log_ids (sy_log y))" using inv en ARegister by (auto simp: ledger_inv_def ledger_ok_def)
  with inv en ARegister show ?thesis
    by (auto simp: ledger_inv_def register_def ledger_ok_open ledger_ok_decide split: option.splits)
next
  case (AResolve rid d)
  show ?thesis
  proof (cases "pending_request rid (sy_broker y)")
    case None
    with inv AResolve show ?thesis by simp
  next
    case (Some r)
    then obtain e where e: "btree_get rid (br_pending (sy_broker y)) = Some e" "pa_decision e = None" "r = pa_request e"
      by (auto simp: pending_request_Some_iff)
    then have "entry_ok (sy_used y) (sy_log y) (sy_taken y) rid e" using inv by (simp add: ledger_inv_def ledger_ok_def)
    with e have id: "rid = aq_request_id r" "rid \<in> sy_used y" "aq_request_id r \<notin> set (log_ids (sy_log y))"
      by (simp_all add: entry_ok_def)
    have used: "insert (aq_request_id r) (sy_used y) = sy_used y" using id by blast
    from AResolve Some show ?thesis
      using ledger_ok_decide [OF inv [unfolded ledger_inv_def] id(3)]
      by (simp add: ledger_inv_def resolve_def Let_def id(1) used)
  qed
next
  case (ADiscard rid)
  with inv show ?thesis by (simp add: ledger_inv_def discard_def ledger_ok_remove)
next
  case (ACancel reason)
  with inv show ?thesis by (simp add: ledger_inv_def cancel_pending_def Let_def ledger_ok_cancel)
next
  case AReset
  with inv show ?thesis by (simp add: ledger_inv_def reset_cancelled_def)
next
  case (AWait w rid timeout elapsed)
  with inv show ?thesis by (simp add: wait_pass_is_wake ledger_inv_pass)
next
  case (AWake w timed_out elapsed)
  with inv show ?thesis by (simp add: ledger_inv_pass split: option.splits)
qed

text \<open>Answers keep their decision in the log, which only grows.\<close>

lemma answers_inv_mono:
  assumes "answers_inv y" and "sy_answers z = sy_answers y" and "set (sy_log y) \<subseteq> set (sy_log z)"
    and "set (sy_taken y) \<subseteq> set (sy_taken z)"
  shows "answers_inv z"
  using assms unfolding answers_inv_def by fastforce

lemma answers_inv_pass:
  assumes inv: "answers_inv y" "ledger_inv y"
  shows "answers_inv (after_pass w rid timeout (wait_wake rid timeout late elapsed (sy_broker y)) y)"
proof (cases rule: wait_wake_cases [of rid "sy_broker y" timeout late elapsed])
  case (taken d)
  then obtain e where e: "btree_get rid (br_pending (sy_broker y)) = Some e" "pa_decision e = Some d"
    by (auto simp: decision_of_Some_iff)
  then have "entry_ok (sy_used y) (sy_log y) (sy_taken y) rid e" using inv(2) by (simp add: ledger_inv_def ledger_ok_def)
  with e have "(pa_request e, d) \<in> set (sy_log y)" "aq_request_id (pa_request e) = rid" by (simp_all add: entry_ok_def)
  with taken inv(1) show ?thesis by (fastforce simp: after_pass_def answers_inv_def)
next
  case expired
  with inv(1) show ?thesis by (fastforce simp: after_pass_def answers_inv_def)
next
  case asleep
  with inv(1) show ?thesis by (simp add: after_pass_def answers_inv_def)
qed

lemma answers_inv_step:
  assumes inv: "answers_inv y" "ledger_inv y"
  shows "answers_inv (approval_apply op y)"
proof (cases op)
  case (AWait w rid timeout elapsed)
  with inv show ?thesis by (simp add: wait_pass_is_wake answers_inv_pass)
next
  case (AWake w timed_out elapsed)
  with inv show ?thesis by (simp add: answers_inv_pass split: option.splits)
qed (auto intro!: answers_inv_mono [OF inv(1)] simp: discard_def split: option.splits sum.splits)

lemma host_granted_mono:
  assumes "host_granted y tool" and "set (sy_log y) \<subseteq> set (sy_log z)" and "set (sy_host y) \<subseteq> set (sy_host z)"
  shows "host_granted z tool"
  using assms unfolding host_granted_def by fastforce

text \<open>A step that adds to the log only justified decisions keeps the provenance of all of them.\<close>

lemma grant_inv_extend:
  assumes inv: "grant_inv y" and l: "sy_log z = sy_log y @ new" and h: "set (sy_host y) \<subseteq> set (sy_host z)"
    and allowed: "\<And>tool. tool \<in> br_session_allowed (sy_broker z) \<Longrightarrow>
        tool \<in> br_session_allowed (sy_broker y) \<or> host_granted z tool"
    and new: "\<And>r d. (r, d) \<in> set new \<Longrightarrow> is_approved d \<Longrightarrow>
        (aq_request_id r, d) \<in> set (sy_host z) \<or> d = ApprovedForSession \<and> host_granted z (aq_tool_name r)"
    and cancel: "\<And>d. br_cancel_decision (sy_broker z) = Some d \<Longrightarrow>
        br_cancel_decision (sy_broker y) = Some d \<or> (\<exists>reason. d = Denied reason)"
  shows "grant_inv z"
proof -
  have mono: "host_granted y tool \<Longrightarrow> host_granted z tool" for tool
    using l h by (auto intro: host_granted_mono)
  have "(aq_request_id r, d) \<in> set (sy_host z) \<or> d = ApprovedForSession \<and> host_granted z (aq_tool_name r)"
    if "(r, d) \<in> set (sy_log z)" "is_approved d" for r d
  proof (cases "(r, d) \<in> set (sy_log y)")
    case True
    with inv that(2) have "(aq_request_id r, d) \<in> set (sy_host y) \<or> d = ApprovedForSession \<and> host_granted y (aq_tool_name r)"
      unfolding grant_inv_def by blast
    with h mono show ?thesis by blast
  next
    case False
    with that l new show ?thesis by simp
  qed
  moreover have "host_granted z tool" if "tool \<in> br_session_allowed (sy_broker z)" for tool
    using allowed [OF that] inv mono unfolding grant_inv_def by blast
  moreover have "\<exists>reason. d = Denied reason" if "br_cancel_decision (sy_broker z) = Some d" for d
    using cancel [OF that] inv unfolding grant_inv_def by blast
  ultimately show ?thesis unfolding grant_inv_def by blast
qed

lemma is_approved_simps [simp]:
  "is_approved Approved" "is_approved ApprovedForSession" "\<not> is_approved (Denied r)" "\<not> is_approved (TimedOut r)"
  "\<not> is_approved NeedsApproval" "is_approved (Detailed d x m) = is_approved d"
  by (simp_all add: is_approved_def)

lemma grant_inv_resolve:
  assumes inv: "grant_inv y" "ledger_inv y" and r: "pending_request rid (sy_broker y) = Some r"
  shows "grant_inv (approval_apply (AResolve rid d) y)"
proof -
  define z where "z = approval_apply (AResolve rid d) y"
  let ?s = "sy_broker y" and ?d = "unwrap_or (br_cancel_decision (sy_broker y)) d"
  have id: "aq_request_id r = rid"
    using inv(2) r by (auto simp: ledger_inv_def ledger_ok_def entry_ok_def pending_request_Some_iff)
  have z: "sy_log z = sy_log y @ [(r, ?d)]"
    "sy_host z = (if br_cancel_decision ?s = None then sy_host y @ [(rid, d)] else sy_host y)"
    "br_session_allowed (sy_broker z) = (if decision_action ?d = ''allow_session''
       then insert (aq_tool_name r) (br_session_allowed ?s) else br_session_allowed ?s)"
    "br_cancel_decision (sy_broker z) = br_cancel_decision ?s"
    using r by (simp_all add: z_def resolve_def Let_def)
  have here: "(aq_request_id r, ?d) \<in> set (sy_host z)" if "is_approved ?d"
  proof (cases "br_cancel_decision ?s")
    case None
    then show ?thesis by (simp add: z(2) unwrap_or_def id)
  next
    case (Some c)
    then have "\<not> is_approved c" using inv(1) by (auto simp: grant_inv_def)
    with that Some show ?thesis by (simp add: unwrap_or_def)
  qed
  have granted: "host_granted z (aq_tool_name r)" if "decision_action ?d = ''allow_session''"
  proof -
    have "is_approved ?d" using that by (simp add: is_approved_def)
    then have "(aq_request_id r, ?d) \<in> set (sy_host z)" by (rule here)
    moreover have "(r, ?d) \<in> set (sy_log z)" by (simp add: z(1))
    ultimately show ?thesis using that unfolding host_granted_def by blast
  qed
  show ?thesis unfolding z_def [symmetric]
    by (rule grant_inv_extend [OF inv(1) z(1)]) (use here granted z(2-4) in \<open>auto split: if_splits\<close>)
qed

lemma grant_inv_pass:
  assumes "grant_inv y"
  shows "grant_inv (after_pass w rid timeout (wait_wake rid timeout late elapsed (sy_broker y)) y)"
  using assms by (cases rule: wait_wake_cases [of rid "sy_broker y" timeout late elapsed])
    (simp_all add: after_pass_def grant_inv_def host_granted_def)

lemma grant_inv_step:
  assumes inv: "grant_inv y" "ledger_inv y"
  shows "grant_inv (approval_apply op y)"
proof (cases op)
  case (ARegister r)
  have d: "is_approved d \<Longrightarrow> d = ApprovedForSession \<and> host_granted y (aq_tool_name r)"
    if "initial_decision r (sy_broker y) = Some d" for d
    using that inv(1) by (auto simp: initial_decision_def grant_inv_def split: option.splits if_splits)
  have mono: "host_granted y tool \<Longrightarrow> host_granted (approval_apply (ARegister r) y) tool" for tool
    by (erule host_granted_mono) auto
  show ?thesis unfolding ARegister
    by (rule grant_inv_extend [OF inv(1), where new = "case initial_decision r (sy_broker y) of Some d \<Rightarrow> [(r, d)] | None \<Rightarrow> []"])
      (use d mono in \<open>auto simp: register_def split: option.splits\<close>)
next
  case (AResolve rid d)
  then show ?thesis using inv by (cases "pending_request rid (sy_broker y)") (simp, simp only: grant_inv_resolve)
next
  case (ADiscard rid)
  show ?thesis unfolding ADiscard
    by (rule grant_inv_extend [OF inv(1), where new = "[]"]) (auto simp: discard_def split: if_splits)
next
  case (ACancel reason)
  show ?thesis unfolding ACancel
    by (rule grant_inv_extend [OF inv(1), where new = "map (\<lambda>r. (r, Denied reason)) (open_requests (br_pending (sy_broker y)))"])
      (auto simp: cancel_pending_def Let_def)
next
  case AReset
  show ?thesis unfolding AReset
    by (rule grant_inv_extend [OF inv(1), where new = "[]"]) (auto simp: reset_cancelled_def)
next
  case (AWait w rid timeout elapsed)
  with inv show ?thesis by (simp add: wait_pass_is_wake grant_inv_pass)
next
  case (AWake w timed_out elapsed)
  with inv show ?thesis by (simp add: grant_inv_pass split: option.splits)
qed

text \<open>While cancelled, nothing is undecided.\<close>

lemma pending_request_None_iff:
  "pending_request rid s = None \<longleftrightarrow> (\<forall>e. btree_get rid (br_pending s) = Some e \<longrightarrow> pa_decision e \<noteq> None)"
  by (auto simp: pending_request_def split: option.splits)

lemma decide_if_open_decided [simp]: "pa_decision (decide_if_open d e) \<noteq> None"
  by (simp add: decide_if_open_def)

lemma closed_inv_step:
  assumes inv: "closed_inv y" "ledger_inv y"
  shows "closed_inv (approval_apply op y)"
proof -
  have ok: "btree_ok (br_pending (sy_broker y))" using inv(2) by (simp add: ledger_inv_def ledger_ok_def)
  have pass: "closed_inv (after_pass w rid timeout (wait_wake rid timeout late elapsed (sy_broker y)) y)"
    for w rid timeout late elapsed
    using inv(1) ok by (cases rule: wait_wake_cases [of rid "sy_broker y" timeout late elapsed])
      (auto simp: after_pass_def closed_inv_def pending_request_None_iff)
  show ?thesis
  proof (cases op)
    case (ARegister r)
    with inv(1) show ?thesis
      by (auto simp: closed_inv_def pending_request_None_iff register_def initial_decision_def)
  next
    case (AResolve rid d)
    with inv(1) show ?thesis
      by (auto simp: closed_inv_def pending_request_None_iff resolve_def Let_def split: option.splits)
  next
    case (ADiscard rid)
    with inv(1) ok show ?thesis by (auto simp: closed_inv_def pending_request_None_iff discard_def)
  next
    case (ACancel reason)
    then show ?thesis by (auto simp: closed_inv_def pending_request_None_iff cancel_pending_def Let_def
          btree_get_map_values simp flip: not_None_eq)
  next
    case AReset
    then show ?thesis by (simp add: closed_inv_def reset_cancelled_def)
  next
    case (AWait w rid timeout elapsed)
    then show ?thesis by (simp add: wait_pass_is_wake pass)
  next
    case (AWake w timed_out elapsed)
    with inv(1) show ?thesis by (simp add: pass split: option.splits)
  qed
qed

text \<open>No wake-up is lost.\<close>

lemma sleep_inv_pass:
  assumes inv: "sleep_inv y" "ledger_inv y"
  shows "sleep_inv (after_pass w rid timeout (wait_wake rid timeout late elapsed (sy_broker y)) y)"
proof -
  have ok: "btree_ok (br_pending (sy_broker y))" using inv(2) by (simp add: ledger_inv_def ledger_ok_def)
  have less: "decision_of k (sy_broker y) = None \<Longrightarrow> decision_of k (remove_pending rid (sy_broker y)) = None" for k
    using ok by (simp add: decision_of_def)
  show ?thesis
    using inv(1) less by (cases rule: wait_wake_cases [of rid "sy_broker y" timeout late elapsed])
      (auto simp: after_pass_def sleep_inv_def)
qed

lemma sleep_inv_step:
  assumes inv: "sleep_inv y" "ledger_inv y"
  shows "sleep_inv (approval_apply op y)"
proof (cases op)
  case (ADiscard rid)
  have ok: "btree_ok (br_pending (sy_broker y))" using inv(2) by (simp add: ledger_inv_def ledger_ok_def)
  show ?thesis
  proof (cases "btree_contains rid (br_pending (sy_broker y))")
    case True
    with ADiscard show ?thesis by (simp add: discard_def)
  next
    case False
    with ADiscard inv(1) show ?thesis
      by (simp add: discard_def sleep_inv_def decision_of_def ok)
  qed
next
  case AReset
  with inv show ?thesis by (simp add: sleep_inv_def reset_cancelled_def decision_of_def)
next
  case (AWait w rid timeout elapsed)
  with inv show ?thesis by (simp add: wait_pass_is_wake sleep_inv_pass)
next
  case (AWake w timed_out elapsed)
  with inv show ?thesis by (simp add: sleep_inv_pass split: option.splits)
qed (use inv in \<open>auto split: option.splits sum.splits\<close>)

lemma approval_inv_init: "approval_inv init_approval"
  by (simp add: approval_inv_def init_approval_def broker_default_def ledger_inv_def ledger_ok_def answers_inv_def
      grant_inv_def closed_inv_def sleep_inv_def pending_request_def decision_of_def)

lemma approval_inv_step: "approval_inv y \<Longrightarrow> approval_enabled op y \<Longrightarrow> approval_inv (approval_apply op y)"
  unfolding approval_inv_def
  by (intro conjI) (simp_all only: ledger_inv_step answers_inv_step grant_inv_step closed_inv_step sleep_inv_step)

interpretation ab: state_machine "\<lambda>y. y = init_approval" approval_step approval_inv
  by unfold_locales (auto simp: approval_inv_init approval_inv_step)

section \<open>Properties\<close>

text \<open>A run of calls, and one in which a host allows a tool for the session.\<close>

fun approval_run :: "approval_op list \<Rightarrow> approval_sys \<Rightarrow> approval_sys option" where
  "approval_run [] y = Some y"
| "approval_run (op # ops) y = (if approval_enabled op y then approval_run ops (approval_apply op y) else None)"

lemma approval_run_steps: "approval_run ops y = Some z \<Longrightarrow> approval_step\<^sup>*\<^sup>* y z"
  by (induction ops arbitrary: y)
    (auto split: if_splits intro: converse_rtranclp_into_rtranclp approval_step.intros)

definition demo_request :: "string \<Rightarrow> approval_request" where
  "demo_request uuid = for_tool_call uuid (\<lambda>_. ''{}'') ''run'' ''trace'' ''agent'' 1
     \<lparr>tc_id = ''call'', tc_name = ''bash'', tc_arguments = [], tc_extra_content = None\<rparr>"

definition demo_ops :: "approval_op list" where
  "demo_ops = [ARegister (demo_request ''a''), AWait 1 ''approval_a'' None 0, ARegister (demo_request ''b''),
     AResolve ''approval_a'' ApprovedForSession, ARegister (demo_request ''c''), AWake 1 False 0]"

definition demo_sys :: approval_sys where
  "demo_sys = the (approval_run demo_ops init_approval)"

lemma demo_sys_reachable: "approval_step\<^sup>*\<^sup>* init_approval demo_sys"
proof -
  have "approval_run demo_ops init_approval \<noteq> None" by code_simp
  then have "approval_run demo_ops init_approval = Some demo_sys" by (auto simp: demo_sys_def)
  then show ?thesis by (rule approval_run_steps)
qed

text \<open>C29. Whatever hosts, runs and waiters do in any order, a request is decided at most once, its
  decision is taken out by at most one waiter, and every waiter is answered with that decision or
  with a timeout.\<close>

theorem approval_decided_once:
  assumes "approval_step\<^sup>*\<^sup>* init_approval y"
  shows "distinct (map (aq_request_id \<circ> fst) (sy_log y)) \<and> distinct (sy_taken y) \<and>
    (\<forall>w rid d. (w, rid, d) \<in> set (sy_answers y) \<longrightarrow>
       d = timeout_decision \<or> rid \<in> set (sy_taken y) \<and> (\<exists>r. (r, d) \<in> set (sy_log y) \<and> aq_request_id r = rid))"
proof -
  have "approval_inv y" using ab.inv_reachable [OF refl assms] .
  then show ?thesis by (auto simp: approval_inv_def ledger_inv_def ledger_ok_def answers_inv_def)
qed

theorem approval_decided_once_witness:
  "(1, ''approval_a'', ApprovedForSession) \<in> set (sy_answers demo_sys) \<and> sy_taken demo_sys = [''approval_a''] \<and>
   (\<exists>r. (r, ApprovedForSession) \<in> set (sy_log demo_sys) \<and> aq_request_id r = ''approval_a'')"
proof -
  have "(1, ''approval_a'', ApprovedForSession) \<in> set (sy_answers demo_sys)" "sy_taken demo_sys = [''approval_a'']"
    by code_simp+
  then show ?thesis using approval_decided_once [OF demo_sys_reachable] by (auto simp: timeout_decision_def)
qed

text \<open>C28. No tool is approved without a host: a waiter that is told to go on has the approval of a
  host for its own request, or a host allowed the same tool for the session on an earlier request.\<close>

theorem approval_comes_from_host:
  assumes "approval_step\<^sup>*\<^sup>* init_approval y" and "(w, rid, d) \<in> set (sy_answers y)" and "is_approved d"
  shows "\<exists>r. (r, d) \<in> set (sy_log y) \<and> aq_request_id r = rid \<and>
    ((rid, d) \<in> set (sy_host y) \<or>
     d = ApprovedForSession \<and> (\<exists>r' d'. (r', d') \<in> set (sy_log y) \<and> (aq_request_id r', d') \<in> set (sy_host y) \<and>
        decision_action d' = ''allow_session'' \<and> aq_tool_name r' = aq_tool_name r))"
proof -
  have inv: "approval_inv y" using ab.inv_reachable [OF refl assms(1)] .
  moreover have "d \<noteq> timeout_decision" using assms(3) by (auto simp: timeout_decision_def)
  ultimately obtain r where r: "(r, d) \<in> set (sy_log y)" "aq_request_id r = rid"
    using assms(2) by (auto simp: approval_inv_def answers_inv_def)
  with inv assms(3) have "(rid, d) \<in> set (sy_host y) \<or> d = ApprovedForSession \<and> host_granted y (aq_tool_name r)"
    unfolding approval_inv_def grant_inv_def by blast
  with r show ?thesis unfolding host_granted_def by blast
qed

theorem approval_comes_from_host_witness:
  "\<exists>r. (r, ApprovedForSession) \<in> set (sy_log demo_sys) \<and> aq_request_id r = ''approval_a'' \<and>
    ((''approval_a'', ApprovedForSession) \<in> set (sy_host demo_sys) \<or>
     ApprovedForSession = ApprovedForSession \<and> (\<exists>r' d'. (r', d') \<in> set (sy_log demo_sys) \<and>
        (aq_request_id r', d') \<in> set (sy_host demo_sys) \<and>
        decision_action d' = ''allow_session'' \<and> aq_tool_name r' = aq_tool_name r))"
proof -
  have "(1, ''approval_a'', ApprovedForSession) \<in> set (sy_answers demo_sys)" by code_simp
  from approval_comes_from_host [OF demo_sys_reachable this is_approved_simps(2)] show ?thesis .
qed

text \<open>C30. No wake-up is lost: a waiter whose request has been decided has been notified since it went
  to sleep, and its next pass answers with the decision, even if its timeout has run out meanwhile.\<close>

theorem decided_waiter_is_woken:
  assumes "approval_step\<^sup>*\<^sup>* init_approval y" and "sy_waiters y w = Some x"
    and "decision_of (wt_request x) (sy_broker y) = Some d"
  shows "wt_notified x \<and>
    (\<forall>late elapsed. sy_answers (approval_apply (AWake w late elapsed) y) = sy_answers y @ [(w, wt_request x, d)])"
proof -
  have "sleep_inv y" using ab.inv_reachable [OF refl assms(1)] by (simp add: approval_inv_def)
  then have "wt_notified x" using assms(2,3) unfolding sleep_inv_def by (metis option.distinct(1))
  with assms(2,3) show ?thesis by (simp add: wait_wake_def wait_pass_def after_pass_def)
qed

definition demo_waiting :: approval_sys where
  "demo_waiting = the (approval_run (butlast demo_ops) init_approval)"

theorem decided_waiter_is_woken_witness:
  "wt_notified (the (sy_waiters demo_waiting 1)) \<and>
   sy_answers (approval_apply (AWake 1 True 9) demo_waiting) = [(1, ''approval_a'', ApprovedForSession)]"
proof -
  have "approval_run (butlast demo_ops) init_approval \<noteq> None" by code_simp
  then have "approval_run (butlast demo_ops) init_approval = Some demo_waiting" by (auto simp: demo_waiting_def)
  note reach = approval_run_steps [OF this]
  define x where "x = \<lparr>wt_request = ''approval_a'', wt_timeout = None, wt_notified = True\<rparr>"
  have x: "sy_waiters demo_waiting 1 = Some x" unfolding x_def by code_simp
  have "decision_of (wt_request x) (sy_broker demo_waiting) = Some ApprovedForSession" unfolding x_def by code_simp
  from decided_waiter_is_woken [OF reach x this] have
    "sy_answers (approval_apply (AWake 1 True 9) demo_waiting) = sy_answers demo_waiting @ [(1, wt_request x, ApprovedForSession)]"
    "wt_notified x" by blast+
  moreover have "sy_answers demo_waiting = []" by code_simp
  ultimately show ?thesis using x by (simp add: x_def)
qed

text \<open>What cancellation leaves: nothing open, no session grant, and only denials from then on.\<close>

lemma cancelled_op:
  assumes "approval_inv y" and "br_cancel_decision (sy_broker y) \<noteq> None" and "op \<noteq> AReset"
  shows "br_cancel_decision (sy_broker (approval_apply op y)) \<noteq> None \<and>
    (\<exists>new. sy_log (approval_apply op y) = sy_log y @ new \<and> (\<forall>(r, d) \<in> set new. \<exists>reason. d = Denied reason))"
proof -
  obtain reason where c: "br_cancel_decision (sy_broker y) = Some (Denied reason)"
    using assms(1,2) by (auto simp: approval_inv_def grant_inv_def)
  have shut: "pending_request rid (sy_broker y) = None" for rid
    using assms(1,2) by (simp add: approval_inv_def closed_inv_def)
  have pass: "br_cancel_decision (sy_broker (after_pass w rid timeout (wait_wake rid timeout late elapsed (sy_broker y)) y)) \<noteq> None \<and>
      sy_log (after_pass w rid timeout (wait_wake rid timeout late elapsed (sy_broker y)) y) = sy_log y"
    for w rid timeout late elapsed
    using assms(2) by (cases rule: wait_wake_cases [of rid "sy_broker y" timeout late elapsed]) (auto simp: after_pass_def)
  show ?thesis
  proof (cases op)
    case (ACancel r)
    then show ?thesis by (auto simp: cancel_pending_def Let_def)
  next
    case (AWait w rid timeout elapsed)
    with pass show ?thesis by (simp add: wait_pass_is_wake)
  next
    case (AWake w late elapsed)
    with pass c show ?thesis by (cases "sy_waiters y w") simp_all
  qed (use assms(3) c shut in \<open>simp_all add: register_def initial_decision_def discard_def\<close>)
qed

lemma cancelled_steps:
  assumes "approval_step_cancelled\<^sup>*\<^sup>* y z" and "approval_inv y" and "br_cancel_decision (sy_broker y) \<noteq> None"
  shows "approval_inv z \<and> br_cancel_decision (sy_broker z) \<noteq> None \<and>
    (\<exists>new. sy_log z = sy_log y @ new \<and> (\<forall>(r, d) \<in> set new. \<exists>reason. d = Denied reason))"
  using assms(1)
proof (induction rule: rtranclp_induct)
  case base
  with assms show ?case by simp
next
  case (step u v)
  then obtain op where op: "approval_enabled op u" "op \<noteq> AReset" "v = approval_apply op u" by blast
  from step.IH obtain new where new: "sy_log u = sy_log y @ new" "\<forall>(r, d) \<in> set new. \<exists>reason. d = Denied reason"
    by blast
  from step.IH op(2) obtain more where more: "sy_log v = sy_log u @ more"
      "\<forall>(r, d) \<in> set more. \<exists>reason. d = Denied reason" "br_cancel_decision (sy_broker v) \<noteq> None"
    using cancelled_op [of u op] unfolding op(3) by blast
  have "sy_log v = sy_log y @ (new @ more)" using new(1) more(1) by simp
  moreover have "\<forall>(r, d) \<in> set (new @ more). \<exists>reason. d = Denied reason" using new(2) more(2) by auto
  ultimately show ?case using approval_inv_step [OF _ op(1)] step.IH more(3) unfolding op(3) by blast
qed

text \<open>C31. Cancelling closes the broker until the next run resets it: every open request is denied with
  the reason, afterwards nothing is open or allowed for the session and a host can decide nothing,
  and whatever is recorded later is a denial.\<close>

theorem cancellation_closes_broker:
  assumes "approval_step\<^sup>*\<^sup>* init_approval y"
    and "approval_step_cancelled\<^sup>*\<^sup>* (approval_apply (ACancel reason) y) z"
  shows "(\<forall>rid r. pending_request rid (sy_broker y) = Some r \<longrightarrow> (r, Denied reason) \<in> set (sy_log z)) \<and>
    (\<forall>rid. pending_request rid (sy_broker z) = None) \<and>
    (\<forall>tool. \<not> allows_tool_for_session tool (sy_broker z)) \<and>
    (\<forall>rid d. \<exists>e. resolve rid d (sy_broker z) = Inl e) \<and>
    (\<exists>new. sy_log z = sy_log y @ new \<and> (\<forall>r d. (r, d) \<in> set new \<longrightarrow> \<not> is_approved d))"
proof -
  let ?c = "approval_apply (ACancel reason) y"
  let ?open = "map (\<lambda>r. (r, Denied reason)) (open_requests (br_pending (sy_broker y)))"
  have inv: "approval_inv y" using ab.inv_reachable [OF refl assms(1)] .
  then have c: "approval_inv ?c" by (rule approval_inv_step) simp
  have "br_cancel_decision (sy_broker ?c) \<noteq> None" by (simp add: cancel_pending_def Let_def)
  from cancelled_steps [OF assms(2) c this] obtain new where
    z: "approval_inv z" "br_cancel_decision (sy_broker z) \<noteq> None" "sy_log z = sy_log ?c @ new"
       "\<forall>(r, d) \<in> set new. \<exists>reason. d = Denied reason" by blast
  have l: "sy_log z = sy_log y @ (?open @ new)" using z(3) by simp
  have open_in: "r \<in> set (open_requests (br_pending (sy_broker y)))" if open_r: "pending_request rid (sy_broker y) = Some r" for rid r
  proof -
    obtain e where "btree_get rid (br_pending (sy_broker y)) = Some e" "pa_decision e = None" "r = pa_request e"
      using open_r by (auto simp: pending_request_Some_iff)
    moreover have "btree_ok (br_pending (sy_broker y))"
      using inv by (simp add: approval_inv_def ledger_inv_def ledger_ok_def)
    ultimately show ?thesis by (force simp: open_requests_def btree_get_set)
  qed
  have shut: "\<forall>rid. pending_request rid (sy_broker z) = None"
    using z(1,2) by (simp add: approval_inv_def closed_inv_def)
  have "\<forall>rid d. \<exists>e. resolve rid d (sy_broker z) = Inl e" using shut by (simp add: resolve_def)
  moreover have "\<forall>tool. \<not> allows_tool_for_session tool (sy_broker z)" using z(2) by (simp add: allows_tool_for_session_def)
  moreover have "\<not> is_approved d" if "(r, d) \<in> set (?open @ new)" for r d using that z(4) by auto
  moreover have "(r, Denied reason) \<in> set (sy_log z)" if "pending_request rid (sy_broker y) = Some r" for rid r
    using open_in [OF that] l by simp
  ultimately show ?thesis using shut l by blast
qed

theorem cancellation_closes_broker_witness:
  "pending_request ''approval_b'' (sy_broker demo_sys) = Some (demo_request ''b'') \<and>
   (demo_request ''b'', Denied ''closed'') \<in>
     set (sy_log (approval_apply (ACancel ''closed'') demo_sys)) \<and>
   \<not> allows_tool_for_session ''bash'' (sy_broker (approval_apply (ACancel ''closed'') demo_sys))"
proof -
  have "pending_request ''approval_b'' (sy_broker demo_sys) = Some (demo_request ''b'')" by code_simp
  then show ?thesis
    using cancellation_closes_broker [OF demo_sys_reachable rtranclp.rtrancl_refl, of "''closed''"] by blast
qed

text \<open>After the engine has asked, a tool runs only if the run is not cancelled and the answer is an
  approval; every other answer becomes an error result of the same call, and the code says which.\<close>

theorem tool_runs_only_if_approved:
  "(approval_outcome print call rid cancelled d = None \<longleftrightarrow> \<not> cancelled \<and> is_approved d) \<and>
   (\<forall>r. approval_outcome print call rid cancelled d = Some r \<longrightarrow>
      tr_tool_call_id r = tc_id call \<and> tr_status r = RsError \<and>
      tr_error_code r = Some (if cancelled then ''tool_execution_cancelled''
        else if decision_action d = ''deny'' then ''tool_approval_denied''
        else if decision_action d = ''timeout'' then ''tool_approval_timeout'' else ''approval_unresolved''))"
proof (cases cancelled)
  case True
  then show ?thesis by (simp add: approval_outcome_def approval_error_result_def plain_result_def Let_def)
next
  case False
  have "decision_action d \<in> {''allow'', ''allow_session'', ''deny'', ''timeout'', ''needs_approval''}"
    by (induction d) simp_all
  with False show ?thesis
    by (auto simp: approval_outcome_def is_approved_def approval_error_result_def plain_result_def Let_def
        approval_resolution_error_result_def)
qed

theorem tool_runs_only_if_approved_witness:
  "\<exists>r. approval_outcome (\<lambda>_. ''{}'') \<lparr>tc_id = ''call'', tc_name = ''bash'', tc_arguments = [], tc_extra_content = None\<rparr>
      ''approval_a'' False (Denied ''no'') = Some r \<and> tr_error_code r = Some ''tool_approval_denied''"
  using tool_runs_only_if_approved [of "\<lambda>_. ''{}''"
      "\<lparr>tc_id = ''call'', tc_name = ''bash'', tc_arguments = [], tc_extra_content = None\<rparr>" "''approval_a''" False
      "Denied ''no''"]
  by (cases "approval_outcome (\<lambda>_. ''{}'') \<lparr>tc_id = ''call'', tc_name = ''bash'', tc_arguments = [], tc_extra_content = None\<rparr>
      ''approval_a'' False (Denied ''no'')") auto

end
