(* ===== verification/Tool_Policy.thy ===== *)
theory Tool_Policy
  imports Checkpoint_Types "HOL-Library.Code_Target_Numeral"
begin

text \<open>
  Tool metadata and tool policies (\<open>tools/metadata.rs\<close>, \<open>tools/policy.rs\<close>), the merge of the policies
  of agent, runner and run (\<open>runner/support.rs\<close>), and the part of \<open>runtime/tool_planner.rs\<close> that
  projects a policy onto the metadata of a task and reads it back.
\<close>

section \<open>Labels\<close>

text \<open>
  The characters of a UTF-8 string, for \<open>chars().count()\<close> and for the order of \<open>encode_utf16\<close>. The
  last equations are for bytes that a Rust string cannot hold.
\<close>

fun code_points :: "string \<Rightarrow> nat list" where
  "code_points [] = []"
| "code_points (a # s) =
     (let n = of_char a in
      if n < 0x80 then n # code_points s
      else if n < 0xE0 then
        (case s of b # t \<Rightarrow> ((n - 0xC0) * 64 + (of_char b - 0x80)) # code_points t | _ \<Rightarrow> [n])
      else if n < 0xF0 then
        (case s of b # c # t \<Rightarrow> ((n - 0xE0) * 4096 + (of_char b - 0x80) * 64 + (of_char c - 0x80)) # code_points t | _ \<Rightarrow> [n])
      else
        (case s of b # c # d # t \<Rightarrow>
           ((n - 0xF0) * 262144 + (of_char b - 0x80) * 4096 + (of_char c - 0x80) * 64 + (of_char d - 0x80)) # code_points t
         | _ \<Rightarrow> [n]))"

definition utf16_units :: "nat \<Rightarrow> nat list" where
  "utf16_units n = (if n < 0x10000 then [n]
     else [0xD800 + (n - 0x10000) div 1024, 0xDC00 + (n - 0x10000) mod 1024])"

definition encode_utf16 :: "string \<Rightarrow> nat list" where
  "encode_utf16 s = concat (map utf16_units (code_points s))"

text \<open>\<open>sort_by(utf16_cmp)\<close> followed by \<open>dedup\<close>.\<close>

definition utf16_sorted :: "('a \<Rightarrow> string) \<Rightarrow> 'a list \<Rightarrow> 'a list" where
  "utf16_sorted f xs = remdups_adj (sort_key (encode_utf16 \<circ> f) xs)"

definition is_label_space :: "char \<Rightarrow> bool" where
  "is_label_space c \<longleftrightarrow> (of_char c :: nat) \<in> {9, 10, 13, 32}"

definition trim_metadata_whitespace :: "string \<Rightarrow> string" where
  "trim_metadata_whitespace s = rev (dropWhile is_label_space (rev (dropWhile is_label_space s)))"

definition MAX_TOOL_METADATA_LABELS :: nat where
  "MAX_TOOL_METADATA_LABELS = 32"

definition MAX_TOOL_METADATA_LABEL_CODE_POINTS :: nat where
  "MAX_TOOL_METADATA_LABEL_CODE_POINTS = 128"

fun trimmed_labels :: "string \<Rightarrow> string list \<Rightarrow> string + string list" where
  "trimmed_labels field [] = Inr []"
| "trimmed_labels field (v # vs) =
     (let t = trim_metadata_whitespace v in
      if t = [] then Inl (field @ '' cannot contain a blank label'')
      else if MAX_TOOL_METADATA_LABEL_CODE_POINTS < length (code_points t)
      then Inl (field @ '' labels cannot exceed 128 Unicode code points'')
      else and_then (trimmed_labels field vs) (\<lambda>ts. Inr (t # ts)))"

definition normalize_tool_metadata_labels :: "string list \<Rightarrow> string \<Rightarrow> string + string list" where
  "normalize_tool_metadata_labels values field =
     and_then (trimmed_labels field values) (\<lambda>ts.
       let n = utf16_sorted (\<lambda>s. s) ts
       in if MAX_TOOL_METADATA_LABELS < length n then Inl (field @ '' cannot contain more than 32 labels'') else Inr n)"

section \<open>Metadata of a tool\<close>

datatype tool_side_effect = SeUnknown | SeNone | SeRead | SeWrite | SeExecute | SeNetwork | SeExternal

fun side_effect_str :: "tool_side_effect \<Rightarrow> string" where
  "side_effect_str SeUnknown = ''unknown''"
| "side_effect_str SeNone = ''none''"
| "side_effect_str SeRead = ''read''"
| "side_effect_str SeWrite = ''write''"
| "side_effect_str SeExecute = ''execute''"
| "side_effect_str SeNetwork = ''network''"
| "side_effect_str SeExternal = ''external''"

definition decode_side_effect :: "json \<Rightarrow> tool_side_effect option" where
  "decode_side_effect v = Option.bind (unit_variant v) (\<lambda>s.
     find (\<lambda>e. side_effect_str e = s) [SeUnknown, SeNone, SeRead, SeWrite, SeExecute, SeNetwork, SeExternal])"

datatype tool_result_retention = Archive | Preserve

record tool_metadata =
  tm_side_effect :: tool_side_effect
  tm_idempotency :: tool_idempotency
  tm_terminal :: bool
  tm_result_retention :: tool_result_retention
  tm_capability_tags :: "string list"
  tm_cost_dimensions :: "string list"

definition metadata_normalized :: "tool_metadata \<Rightarrow> string + tool_metadata" where
  "metadata_normalized m =
     and_then (normalize_tool_metadata_labels (tm_capability_tags m) ''capability_tags'') (\<lambda>tags.
     and_then (normalize_tool_metadata_labels (tm_cost_dimensions m) ''cost_dimensions'') (\<lambda>dims.
       Inr (m\<lparr>tm_capability_tags := tags, tm_cost_dimensions := dims\<rparr>)))"

section \<open>Policies\<close>

datatype approval_policy = ApDefault | ApNever | ApAlways | ApOnRequest

record tool_policy =
  tp_allowed_tools :: "string list option"
  tp_disallowed_tools :: "string list"
  tp_approval :: approval_policy
  tp_can_use_tool :: "(string \<Rightarrow> fields \<Rightarrow> bool) option"
  tp_denied_side_effects :: "tool_side_effect list"
  tp_denied_capability_tags :: "string list"
  tp_deny_terminal_tools :: bool
  tp_denied_cost_dimensions :: "string list"

definition policy_default :: tool_policy where
  "policy_default = \<lparr>tp_allowed_tools = None, tp_disallowed_tools = [], tp_approval = ApDefault, tp_can_use_tool = None,
     tp_denied_side_effects = [], tp_denied_capability_tags = [], tp_deny_terminal_tools = False,
     tp_denied_cost_dimensions = []\<rparr>"

definition normalize_metadata_denials :: "tool_policy \<Rightarrow> string + tool_policy" where
  "normalize_metadata_denials p =
     and_then (normalize_tool_metadata_labels (tp_denied_capability_tags p) ''denied_capability_tags'') (\<lambda>tags.
     and_then (normalize_tool_metadata_labels (tp_denied_cost_dimensions p) ''denied_cost_dimensions'') (\<lambda>dims.
       Inr (p\<lparr>tp_denied_side_effects := utf16_sorted side_effect_str (tp_denied_side_effects p),
              tp_denied_capability_tags := tags, tp_denied_cost_dimensions := dims\<rparr>)))"

text \<open>\<open>normalized\<close> works on a copy.\<close>

definition normalized :: "tool_policy \<Rightarrow> string + tool_policy" where
  "normalized p = normalize_metadata_denials p"

text \<open>A method that ends in \<open>expect\<close> returns \<open>None\<close> when it panics.\<close>

definition expect :: "'e + 'a \<Rightarrow> 'a option" where
  "expect r = (case r of Inr a \<Rightarrow> Some a | Inl _ \<Rightarrow> None)"

definition deny_side_effect :: "tool_side_effect \<Rightarrow> tool_policy \<Rightarrow> tool_policy option" where
  "deny_side_effect e p = expect (normalize_metadata_denials (p\<lparr>tp_denied_side_effects := tp_denied_side_effects p @ [e]\<rparr>))"

definition deny_capability_tag :: "string \<Rightarrow> tool_policy \<Rightarrow> string + tool_policy" where
  "deny_capability_tag tag p =
     normalize_metadata_denials (p\<lparr>tp_denied_capability_tags := tp_denied_capability_tags p @ [tag]\<rparr>)"

definition deny_terminal_tools :: "tool_policy \<Rightarrow> tool_policy" where
  "deny_terminal_tools p = p\<lparr>tp_deny_terminal_tools := True\<rparr>"

definition deny_cost_dimension :: "string \<Rightarrow> tool_policy \<Rightarrow> string + tool_policy" where
  "deny_cost_dimension dim p =
     normalize_metadata_denials (p\<lparr>tp_denied_cost_dimensions := tp_denied_cost_dimensions p @ [dim]\<rparr>)"

definition allows_arguments :: "string \<Rightarrow> fields \<Rightarrow> tool_policy \<Rightarrow> bool" where
  "allows_arguments tool args p = (case tp_can_use_tool p of None \<Rightarrow> True | Some f \<Rightarrow> f tool args)"

definition metadata_denial_source :: "tool_policy \<Rightarrow> tool_metadata option \<Rightarrow> string option" where
  "metadata_denial_source p metadata =
     (case metadata of
        None \<Rightarrow> None
      | Some m \<Rightarrow>
          if tm_side_effect m \<in> set (tp_denied_side_effects p) then Some ''metadata.side_effect''
          else if tp_deny_terminal_tools p \<and> tm_terminal m then Some ''metadata.terminal''
          else if list_ex (\<lambda>t. t \<in> set (tp_denied_capability_tags p)) (tm_capability_tags m)
          then Some ''metadata.capability_tag''
          else if list_ex (\<lambda>d. d \<in> set (tp_denied_cost_dimensions p)) (tm_cost_dimensions m)
          then Some ''metadata.cost_dimension''
          else None)"

definition extend_metadata_denials :: "tool_policy \<Rightarrow> tool_policy \<Rightarrow> tool_policy option" where
  "extend_metadata_denials p other = expect (normalize_metadata_denials
     (p\<lparr>tp_denied_side_effects := tp_denied_side_effects p @ tp_denied_side_effects other,
        tp_denied_capability_tags := tp_denied_capability_tags p @ tp_denied_capability_tags other,
        tp_deny_terminal_tools := tp_deny_terminal_tools p \<or> tp_deny_terminal_tools other,
        tp_denied_cost_dimensions := tp_denied_cost_dimensions p @ tp_denied_cost_dimensions other\<rparr>))"

section \<open>The merge of the levels\<close>

text \<open>\<open>retain(|tool| seen.insert(tool))\<close> keeps the first of equal names.\<close>

fun retain_first :: "'a list \<Rightarrow> 'a set \<Rightarrow> 'a list" where
  "retain_first [] seen = []"
| "retain_first (x # xs) seen = (if x \<in> seen then retain_first xs seen else x # retain_first xs (insert x seen))"

definition first_set :: "approval_policy list \<Rightarrow> approval_policy" where
  "first_set ps = (case find (\<lambda>a. a \<noteq> ApDefault) ps of Some a \<Rightarrow> a | None \<Rightarrow> ApDefault)"

definition or_else :: "'a option \<Rightarrow> 'a option \<Rightarrow> 'a option" where
  "or_else x y = (case x of Some a \<Rightarrow> Some a | None \<Rightarrow> y)"

definition merged_tool_policy :: "tool_policy \<Rightarrow> tool_policy \<Rightarrow> tool_policy \<Rightarrow> tool_policy option" where
  "merged_tool_policy agent runner run =
     (let preds = List.map_filter tp_can_use_tool [agent, runner, run];
          merged = agent\<lparr>
            tp_allowed_tools := or_else (tp_allowed_tools run) (or_else (tp_allowed_tools runner) (tp_allowed_tools agent)),
            tp_disallowed_tools := retain_first (tp_disallowed_tools agent @ tp_disallowed_tools runner @ tp_disallowed_tools run) {},
            tp_can_use_tool := (if preds = [] then None else Some (\<lambda>tool args. list_all (\<lambda>f. f tool args) preds)),
            tp_approval := first_set [tp_approval run, tp_approval agent, tp_approval runner]\<rparr>
      in Option.bind (extend_metadata_denials merged runner) (\<lambda>m. extend_metadata_denials m run))"

definition tool_allowed_by_policy :: "tool_policy \<Rightarrow> string \<Rightarrow> bool" where
  "tool_allowed_by_policy p tool \<longleftrightarrow>
     (case tp_allowed_tools p of None \<Rightarrow> True | Some ts \<Rightarrow> tool \<in> set ts) \<and> tool \<notin> set (tp_disallowed_tools p)"

section \<open>The projection onto a task\<close>

text \<open>A policy travels with the metadata of a task, under private keys.\<close>

definition ALLOWED_TOOLS_METADATA_KEY :: string where
  "ALLOWED_TOOLS_METADATA_KEY = ''_vv_agent_allowed_tools''"

definition DISALLOWED_TOOLS_METADATA_KEY :: string where
  "DISALLOWED_TOOLS_METADATA_KEY = ''_vv_agent_disallowed_tools''"

definition TOOL_POLICY_APPROVAL_METADATA_KEY :: string where
  "TOOL_POLICY_APPROVAL_METADATA_KEY = ''_vv_agent_tool_policy_approval''"

definition TOOL_POLICY_CAN_USE_TOOL_METADATA_KEY :: string where
  "TOOL_POLICY_CAN_USE_TOOL_METADATA_KEY = ''_vv_agent_tool_policy_can_use_tool''"

definition DENIED_SIDE_EFFECTS_METADATA_KEY :: string where
  "DENIED_SIDE_EFFECTS_METADATA_KEY = ''_vv_agent_denied_side_effects''"

definition DENIED_CAPABILITY_TAGS_METADATA_KEY :: string where
  "DENIED_CAPABILITY_TAGS_METADATA_KEY = ''_vv_agent_denied_capability_tags''"

definition DENY_TERMINAL_TOOLS_METADATA_KEY :: string where
  "DENY_TERMINAL_TOOLS_METADATA_KEY = ''_vv_agent_deny_terminal_tools''"

definition DENIED_COST_DIMENSIONS_METADATA_KEY :: string where
  "DENIED_COST_DIMENSIONS_METADATA_KEY = ''_vv_agent_denied_cost_dimensions''"

lemmas metadata_keys = ALLOWED_TOOLS_METADATA_KEY_def DISALLOWED_TOOLS_METADATA_KEY_def
  TOOL_POLICY_APPROVAL_METADATA_KEY_def TOOL_POLICY_CAN_USE_TOOL_METADATA_KEY_def
  DENIED_SIDE_EFFECTS_METADATA_KEY_def DENIED_CAPABILITY_TAGS_METADATA_KEY_def
  DENY_TERMINAL_TOOLS_METADATA_KEY_def DENIED_COST_DIMENSIONS_METADATA_KEY_def

definition put_or_remove :: "string \<Rightarrow> json option \<Rightarrow> fields \<Rightarrow> fields" where
  "put_or_remove k v m = (case v of Some x \<Rightarrow> btree_insert k x m | None \<Rightarrow> btree_remove k m)"

definition project_metadata_denial_list :: "string \<Rightarrow> json list \<Rightarrow> fields \<Rightarrow> fields" where
  "project_metadata_denial_list k vs m = put_or_remove k (if vs = [] then None else Some (JArr vs)) m"

definition write_projected_metadata_denials :: "tool_policy \<Rightarrow> fields \<Rightarrow> fields" where
  "write_projected_metadata_denials p m =
     (let m1 = project_metadata_denial_list DENIED_SIDE_EFFECTS_METADATA_KEY
                 (map (\<lambda>e. JStr (side_effect_str e)) (tp_denied_side_effects p)) m;
          m2 = project_metadata_denial_list DENIED_CAPABILITY_TAGS_METADATA_KEY (map JStr (tp_denied_capability_tags p)) m1;
          m3 = put_or_remove DENY_TERMINAL_TOOLS_METADATA_KEY
                 (if tp_deny_terminal_tools p then Some (JBool True) else None) m2
      in project_metadata_denial_list DENIED_COST_DIMENSIONS_METADATA_KEY (map JStr (tp_denied_cost_dimensions p)) m3)"

text \<open>A value under a key that does not decode is an error; a missing key is the default. The decoder's own text is left out of the message.\<close>

definition projected_list :: "(json \<Rightarrow> 'a option) \<Rightarrow> string \<Rightarrow> string \<Rightarrow> fields \<Rightarrow> string + 'a list" where
  "projected_list d k name m =
     (case btree_get k m of
        None \<Rightarrow> Inr []
      | Some v \<Rightarrow> ok_or (decode_list d v) (''invalid projected '' @ name))"

definition projected_metadata_denials :: "fields \<Rightarrow> string + tool_policy" where
  "projected_metadata_denials m =
     and_then (projected_list decode_side_effect DENIED_SIDE_EFFECTS_METADATA_KEY ''denied_side_effects'' m) (\<lambda>effects.
     and_then (projected_list as_str DENIED_CAPABILITY_TAGS_METADATA_KEY DENIED_CAPABILITY_TAGS_METADATA_KEY m) (\<lambda>tags.
     and_then (case btree_get DENY_TERMINAL_TOOLS_METADATA_KEY m of
                 Some (JBool b) \<Rightarrow> Inr b
               | Some _ \<Rightarrow> Inl ''invalid projected deny_terminal_tools''
               | None \<Rightarrow> Inr False) (\<lambda>terminal.
     and_then (projected_list as_str DENIED_COST_DIMENSIONS_METADATA_KEY DENIED_COST_DIMENSIONS_METADATA_KEY m) (\<lambda>dims.
       normalized (policy_default\<lparr>tp_denied_side_effects := effects, tp_denied_capability_tags := tags,
         tp_deny_terminal_tools := terminal, tp_denied_cost_dimensions := dims\<rparr>)))))"

text \<open>\<open>None\<close> is the panic of \<open>extend_metadata_denials\<close>; on an error the task is not touched.\<close>

definition merge_projected_metadata_denials :: "tool_policy \<Rightarrow> fields \<Rightarrow> (fields \<times> (string + tool_policy)) option" where
  "merge_projected_metadata_denials p m =
     (case projected_metadata_denials m of
        Inl e \<Rightarrow> Some (m, Inl e)
      | Inr effective \<Rightarrow>
          (case normalized p of
             Inl e \<Rightarrow> Some (m, Inl e)
           | Inr q \<Rightarrow> map_option (\<lambda>r. (write_projected_metadata_denials r m, Inr r)) (extend_metadata_denials effective q)))"

fun approval_str :: "approval_policy \<Rightarrow> string option" where
  "approval_str ApDefault = None"
| "approval_str ApNever = Some ''never''"
| "approval_str ApAlways = Some ''always''"
| "approval_str ApOnRequest = Some ''on_request''"

definition project_tool_policy :: "tool_policy \<Rightarrow> fields \<Rightarrow> fields option" where
  "project_tool_policy p m =
     (let m1 = put_or_remove ALLOWED_TOOLS_METADATA_KEY (map_option (\<lambda>ts. JArr (map JStr ts)) (tp_allowed_tools p)) m;
          m2 = project_metadata_denial_list DISALLOWED_TOOLS_METADATA_KEY (map JStr (tp_disallowed_tools p)) m1;
          m3 = put_or_remove TOOL_POLICY_APPROVAL_METADATA_KEY (map_option JStr (approval_str (tp_approval p))) m2;
          m4 = put_or_remove TOOL_POLICY_CAN_USE_TOOL_METADATA_KEY
                 (if tp_can_use_tool p \<noteq> None then Some (JBool True) else None) m3
      in map_option fst (merge_projected_metadata_denials p m4))"

section \<open>Lemmas on labels\<close>

lemma set_utf16_sorted [simp]: "set (utf16_sorted f xs) = set xs"
  by (simp add: utf16_sorted_def)

lemma sorted_key_remdups_adj: "sorted (map f xs) \<Longrightarrow> sorted (map f (remdups_adj xs))"
  by (induction xs rule: remdups_adj.induct) (auto split: if_splits)

lemma remdups_adj_idem: "remdups_adj (remdups_adj xs) = remdups_adj xs"
  by (metis distinct_adj_altdef distinct_adj_remdups_adj)

lemma utf16_sorted_idem: "utf16_sorted f (utf16_sorted f xs) = utf16_sorted f xs"
proof -
  have "sorted (map (encode_utf16 \<circ> f) (utf16_sorted f xs))"
    unfolding utf16_sorted_def by (intro sorted_key_remdups_adj) simp
  then have "sort_key (encode_utf16 \<circ> f) (utf16_sorted f xs) = utf16_sorted f xs" by (rule sort_key_id_if_sorted)
  then show ?thesis by (simp add: utf16_sorted_def remdups_adj_idem)
qed

definition label_ok :: "string \<Rightarrow> bool" where
  "label_ok s \<longleftrightarrow> trim_metadata_whitespace s = s \<and> s \<noteq> [] \<and> length (code_points s) \<le> MAX_TOOL_METADATA_LABEL_CODE_POINTS"

lemma dropWhile_hd_rev:
  "dropWhile p (rev (dropWhile p (rev xs))) = rev (dropWhile p (rev (dropWhile p xs)))"
  by (induction xs) (auto simp: dropWhile_append dest: set_dropWhileD)

lemma trim_label_idem [simp]:
  "trim_metadata_whitespace (trim_metadata_whitespace s) = trim_metadata_whitespace s"
  by (simp add: trim_metadata_whitespace_def dropWhile_hd_rev)

lemma trimmed_labels_Inr:
  "trimmed_labels field vs = Inr ts \<Longrightarrow> ts = map trim_metadata_whitespace vs \<and> list_all label_ok ts"
  by (induction vs arbitrary: ts)
    (auto simp: Let_def label_ok_def and_then_Inr_iff split: if_splits)

lemma trimmed_labels_id: "list_all label_ok ts \<Longrightarrow> trimmed_labels field ts = Inr ts"
  by (induction ts) (auto simp: label_ok_def and_then_def Let_def)

definition labels_ok :: "string list \<Rightarrow> bool" where
  "labels_ok ls \<longleftrightarrow> list_all label_ok ls \<and> utf16_sorted (\<lambda>s. s) ls = ls \<and> length ls \<le> MAX_TOOL_METADATA_LABELS"

lemma normalize_labels_Inr:
  assumes "normalize_tool_metadata_labels vs field = Inr ls"
  shows "labels_ok ls \<and> set ls = trim_metadata_whitespace ` set vs"
proof -
  obtain ts where ts: "trimmed_labels field vs = Inr ts" and ls: "ls = utf16_sorted (\<lambda>s. s) ts"
    and len: "length ls \<le> MAX_TOOL_METADATA_LABELS"
    using assms by (auto simp: normalize_tool_metadata_labels_def and_then_Inr_iff Let_def split: if_splits)
  from trimmed_labels_Inr [OF ts] have "set ls = trim_metadata_whitespace ` set vs" "list_all label_ok ls"
    by (auto simp: ls list_all_iff)
  then show ?thesis using len by (simp add: labels_ok_def ls utf16_sorted_idem)
qed

lemma normalize_labels_id: "labels_ok ls \<Longrightarrow> normalize_tool_metadata_labels ls field = Inr ls"
  by (simp add: labels_ok_def normalize_tool_metadata_labels_def trimmed_labels_id and_then_def Let_def)

section \<open>Lemmas on policies\<close>

definition denials_ok :: "tool_policy \<Rightarrow> bool" where
  "denials_ok p \<longleftrightarrow> utf16_sorted side_effect_str (tp_denied_side_effects p) = tp_denied_side_effects p \<and>
     labels_ok (tp_denied_capability_tags p) \<and> labels_ok (tp_denied_cost_dimensions p)"

definition only_denials :: "tool_policy \<Rightarrow> bool" where
  "only_denials p \<longleftrightarrow> tp_allowed_tools p = None \<and> tp_disallowed_tools p = [] \<and> tp_approval p = ApDefault \<and> tp_can_use_tool p = None"

lemma normalize_denials_Inr:
  assumes "normalize_metadata_denials p = Inr q"
  shows "denials_ok q \<and> set (tp_denied_side_effects q) = set (tp_denied_side_effects p) \<and>
    set (tp_denied_capability_tags q) = trim_metadata_whitespace ` set (tp_denied_capability_tags p) \<and>
    set (tp_denied_cost_dimensions q) = trim_metadata_whitespace ` set (tp_denied_cost_dimensions p) \<and>
    tp_deny_terminal_tools q = tp_deny_terminal_tools p \<and>
    tp_allowed_tools q = tp_allowed_tools p \<and> tp_disallowed_tools q = tp_disallowed_tools p \<and>
    tp_approval q = tp_approval p \<and> tp_can_use_tool q = tp_can_use_tool p"
proof -
  obtain tags dims where n: "normalize_tool_metadata_labels (tp_denied_capability_tags p) ''denied_capability_tags'' = Inr tags"
      "normalize_tool_metadata_labels (tp_denied_cost_dimensions p) ''denied_cost_dimensions'' = Inr dims"
    and q: "q = p\<lparr>tp_denied_side_effects := utf16_sorted side_effect_str (tp_denied_side_effects p),
              tp_denied_capability_tags := tags, tp_denied_cost_dimensions := dims\<rparr>"
    using assms by (auto simp: normalize_metadata_denials_def and_then_Inr_iff)
  from normalize_labels_Inr [OF n(1)] normalize_labels_Inr [OF n(2)] show ?thesis
    by (simp add: q denials_ok_def utf16_sorted_idem)
qed

lemma normalize_denials_id: "denials_ok p \<Longrightarrow> normalize_metadata_denials p = Inr p"
  by (simp add: denials_ok_def normalize_metadata_denials_def normalize_labels_id and_then_def)

lemma labels_trimmed: "labels_ok ls \<Longrightarrow> trim_metadata_whitespace ` set ls = set ls"
  by (force simp: labels_ok_def list_all_iff label_ok_def)

lemma expect_Some_iff: "expect r = Some a \<longleftrightarrow> r = Inr a"
  by (cases r) (auto simp: expect_def)

text \<open>The tools that a policy denies by their metadata.\<close>

definition denies :: "tool_policy \<Rightarrow> tool_metadata \<Rightarrow> bool" where
  "denies p md \<longleftrightarrow> metadata_denial_source p (Some md) \<noteq> None"

lemma denies_iff:
  "denies p md \<longleftrightarrow> tm_side_effect md \<in> set (tp_denied_side_effects p) \<or> tp_deny_terminal_tools p \<and> tm_terminal md \<or>
     (\<exists>t \<in> set (tm_capability_tags md). t \<in> set (tp_denied_capability_tags p)) \<or>
     (\<exists>d \<in> set (tm_cost_dimensions md). d \<in> set (tp_denied_cost_dimensions p))"
  by (auto simp: denies_def metadata_denial_source_def list_ex_iff)

lemma extend_denials:
  assumes "extend_metadata_denials p q = Some r" and "denials_ok p" and "denials_ok q"
  shows "denials_ok r \<and> (denies r md \<longleftrightarrow> denies p md \<or> denies q md) \<and>
    tp_allowed_tools r = tp_allowed_tools p \<and> tp_disallowed_tools r = tp_disallowed_tools p \<and>
    tp_approval r = tp_approval p \<and> tp_can_use_tool r = tp_can_use_tool p"
proof -
  have n: "normalize_metadata_denials
     (p\<lparr>tp_denied_side_effects := tp_denied_side_effects p @ tp_denied_side_effects q,
        tp_denied_capability_tags := tp_denied_capability_tags p @ tp_denied_capability_tags q,
        tp_deny_terminal_tools := tp_deny_terminal_tools p \<or> tp_deny_terminal_tools q,
        tp_denied_cost_dimensions := tp_denied_cost_dimensions p @ tp_denied_cost_dimensions q\<rparr>) = Inr r"
    using assms(1) by (simp add: extend_metadata_denials_def expect_Some_iff)
  have "labels_ok (tp_denied_capability_tags p)" "labels_ok (tp_denied_cost_dimensions p)"
    "labels_ok (tp_denied_capability_tags q)" "labels_ok (tp_denied_cost_dimensions q)"
    using assms(2,3) by (simp_all add: denials_ok_def)
  note trimmed = this [THEN labels_trimmed]
  show ?thesis using normalize_denials_Inr [OF n] by (auto simp: denies_iff image_Un trimmed)
qed

text \<open>Reading back what was written.\<close>

lemma put_or_remove_get [simp]:
  "btree_ok m \<Longrightarrow> btree_get x (put_or_remove k v m) = (if x = k then v else btree_get x m)"
  by (cases v) (simp_all add: put_or_remove_def)

lemma put_or_remove_ok [simp]: "btree_ok m \<Longrightarrow> btree_ok (put_or_remove k v m)"
  by (cases v) (simp_all add: put_or_remove_def)

lemma decode_side_effect_str [simp]: "decode_side_effect (JStr (side_effect_str e)) = Some e"
  by (cases e) (simp_all add: decode_side_effect_def)

lemma projected_list_written:
  assumes "btree_get k m = (if xs = [] then None else Some (JArr (map e xs)))" and "\<And>x. d (e x) = Some x"
  shows "projected_list d k name m = Inr xs"
  using assms by (cases "xs = []") (simp_all add: projected_list_def decode_list_encode ok_or_def)

lemma projected_written:
  assumes "btree_ok m" and "denials_ok p" and "only_denials p"
  shows "projected_metadata_denials (write_projected_metadata_denials p m) = Inr p"
proof -
  let ?m = "write_projected_metadata_denials p m"
  have get: "btree_get DENIED_SIDE_EFFECTS_METADATA_KEY ?m =
      (if tp_denied_side_effects p = [] then None else Some (JArr (map (\<lambda>e. JStr (side_effect_str e)) (tp_denied_side_effects p))))"
    "btree_get DENIED_CAPABILITY_TAGS_METADATA_KEY ?m =
      (if tp_denied_capability_tags p = [] then None else Some (JArr (map JStr (tp_denied_capability_tags p))))"
    "btree_get DENY_TERMINAL_TOOLS_METADATA_KEY ?m = (if tp_deny_terminal_tools p then Some (JBool True) else None)"
    "btree_get DENIED_COST_DIMENSIONS_METADATA_KEY ?m =
      (if tp_denied_cost_dimensions p = [] then None else Some (JArr (map JStr (tp_denied_cost_dimensions p))))"
    using assms(1) by (simp_all add: write_projected_metadata_denials_def project_metadata_denial_list_def Let_def metadata_keys)
  have lists: "projected_list decode_side_effect DENIED_SIDE_EFFECTS_METADATA_KEY name ?m = Inr (tp_denied_side_effects p)"
    "projected_list as_str DENIED_CAPABILITY_TAGS_METADATA_KEY name ?m = Inr (tp_denied_capability_tags p)"
    "projected_list as_str DENIED_COST_DIMENSIONS_METADATA_KEY name ?m = Inr (tp_denied_cost_dimensions p)" for name
    by (rule projected_list_written [OF get(1)] projected_list_written [OF get(2)] projected_list_written [OF get(4)]; simp)+
  have "policy_default\<lparr>tp_denied_side_effects := tp_denied_side_effects p, tp_denied_capability_tags := tp_denied_capability_tags p,
      tp_deny_terminal_tools := tp_deny_terminal_tools p, tp_denied_cost_dimensions := tp_denied_cost_dimensions p\<rparr> = p"
    using assms(3) by (cases p) (simp add: only_denials_def policy_default_def)
  with normalize_denials_id [OF assms(2)] show ?thesis
    by (cases "tp_deny_terminal_tools p") (simp_all add: projected_metadata_denials_def lists get(3) and_then_def normalized_def)
qed

lemma projected_Inr:
  assumes "projected_metadata_denials m = Inr p"
  shows "denials_ok p \<and> only_denials p"
proof -
  obtain q where "normalize_metadata_denials q = Inr p" "only_denials q"
    using assms by (auto simp: projected_metadata_denials_def and_then_Inr_iff normalized_def only_denials_def policy_default_def)
  with normalize_denials_Inr [OF this(1)] show ?thesis by (simp add: only_denials_def)
qed

text \<open>The projection depends on its four keys only.\<close>

definition denial_keys :: "string set" where
  "denial_keys = {DENIED_SIDE_EFFECTS_METADATA_KEY, DENIED_CAPABILITY_TAGS_METADATA_KEY,
     DENY_TERMINAL_TOOLS_METADATA_KEY, DENIED_COST_DIMENSIONS_METADATA_KEY}"

lemma projected_cong:
  assumes "\<And>k. k \<in> denial_keys \<Longrightarrow> btree_get k m = btree_get k n"
  shows "projected_metadata_denials m = projected_metadata_denials n"
  using assms by (simp add: projected_metadata_denials_def projected_list_def denial_keys_def)

lemma write_projected_others:
  "btree_ok m \<Longrightarrow> k \<notin> denial_keys \<Longrightarrow> btree_get k (write_projected_metadata_denials p m) = btree_get k m"
  by (simp add: denial_keys_def write_projected_metadata_denials_def project_metadata_denial_list_def Let_def)

lemma set_retain_first: "set (retain_first xs seen) = set xs - seen"
  by (induction xs arbitrary: seen) auto

section \<open>Properties\<close>

text \<open>Projecting a policy onto a task only adds denials: the effective policy denies exactly the tools
  that the policy already projected on the task or the new one denies, it is what is read back from
  the task, and no other metadata of the task is touched.\<close>

theorem denials_only_grow:
  assumes "btree_ok m" and "merge_projected_metadata_denials p m = Some (m', Inr eff)"
  shows "projected_metadata_denials m' = Inr eff \<and>
    (\<exists>old q. projected_metadata_denials m = Inr old \<and> normalized p = Inr q \<and>
       (\<forall>md. denies eff md \<longleftrightarrow> denies old md \<or> denies q md)) \<and>
    (\<forall>k. k \<notin> denial_keys \<longrightarrow> btree_get k m' = btree_get k m)"
proof -
  obtain old q where old: "projected_metadata_denials m = Inr old" and q: "normalized p = Inr q"
    and r: "extend_metadata_denials old q = Some eff" "m' = write_projected_metadata_denials eff m"
    using assms(2) by (auto simp: merge_projected_metadata_denials_def split: sum.splits)
  have ok: "denials_ok old" "only_denials old" using projected_Inr [OF old] by simp_all
  have "denials_ok q" using q normalize_denials_Inr by (simp add: normalized_def)
  note ext = extend_denials [OF r(1) ok(1) this]
  then have "only_denials eff" using ok(2) by (simp add: only_denials_def)
  then show ?thesis
    using ext projected_written [OF assms(1)] write_projected_others [OF assms(1)] old q unfolding r(2) by blast
qed

definition demo_policy :: "string \<Rightarrow> tool_policy" where
  "demo_policy tag = policy_default\<lparr>tp_denied_capability_tags := [tag], tp_denied_side_effects := [SeNetwork]\<rparr>"

definition demo_task :: fields where
  "demo_task = [(DENIED_SIDE_EFFECTS_METADATA_KEY, JArr [JStr ''write''])]"

theorem denials_only_grow_witness:
  "\<exists>m' eff. merge_projected_metadata_denials (demo_policy '' fs '') demo_task = Some (m', Inr eff) \<and>
    projected_metadata_denials m' = Inr eff \<and> tp_denied_capability_tags eff = [''fs''] \<and>
    tp_denied_side_effects eff = [SeNetwork, SeWrite]"
proof -
  have v: "map_option (\<lambda>x. case snd x of Inr e \<Rightarrow> Some (tp_denied_capability_tags e, tp_denied_side_effects e) | Inl _ \<Rightarrow> None)
      (merge_projected_metadata_denials (demo_policy '' fs '') demo_task) = Some (Some ([''fs''], [SeNetwork, SeWrite]))"
    by code_simp
  then obtain m' r where mr: "merge_projected_metadata_denials (demo_policy '' fs '') demo_task = Some (m', r)"
    by (cases "merge_projected_metadata_denials (demo_policy '' fs '') demo_task") auto
  with v obtain eff where eq: "merge_projected_metadata_denials (demo_policy '' fs '') demo_task = Some (m', Inr eff)"
    and eff: "tp_denied_capability_tags eff = [''fs'']" "tp_denied_side_effects eff = [SeNetwork, SeWrite]"
    by (cases r) auto
  have "btree_ok demo_task" by (simp add: btree_ok_def demo_task_def)
  from denials_only_grow [OF this eq] eq eff show ?thesis by blast
qed

text \<open>Denial metadata of a task that cannot be read fails closed: projecting a policy leaves it in
  place and unreadable, so that every later reader fails too.\<close>

theorem unreadable_denials_stay:
  assumes "btree_ok m" and "projected_metadata_denials m = Inl e" and "project_tool_policy p m = Some m'"
  shows "projected_metadata_denials m' = Inl e \<and> (\<forall>k. k \<in> denial_keys \<longrightarrow> btree_get k m' = btree_get k m)"
proof -
  define m4 where "m4 = put_or_remove TOOL_POLICY_CAN_USE_TOOL_METADATA_KEY
      (if tp_can_use_tool p \<noteq> None then Some (JBool True) else None)
     (put_or_remove TOOL_POLICY_APPROVAL_METADATA_KEY (map_option JStr (approval_str (tp_approval p)))
     (project_metadata_denial_list DISALLOWED_TOOLS_METADATA_KEY (map JStr (tp_disallowed_tools p))
     (put_or_remove ALLOWED_TOOLS_METADATA_KEY (map_option (\<lambda>ts. JArr (map JStr ts)) (tp_allowed_tools p)) m)))"
  have same: "btree_get k m4 = btree_get k m" if "k \<in> denial_keys" for k
  proof -
    have "k \<noteq> ALLOWED_TOOLS_METADATA_KEY" "k \<noteq> DISALLOWED_TOOLS_METADATA_KEY" "k \<noteq> TOOL_POLICY_APPROVAL_METADATA_KEY"
      "k \<noteq> TOOL_POLICY_CAN_USE_TOOL_METADATA_KEY" using that by (auto simp: denial_keys_def metadata_keys)
    then show ?thesis using assms(1) by (simp add: m4_def project_metadata_denial_list_def)
  qed
  then have "projected_metadata_denials m4 = Inl e" using projected_cong [of m4 m] assms(2) by simp
  moreover have "project_tool_policy p m = map_option fst (merge_projected_metadata_denials p m4)"
    by (simp only: project_tool_policy_def Let_def m4_def)
  ultimately have "m' = m4" using assms(3) by (simp add: merge_projected_metadata_denials_def)
  with same \<open>projected_metadata_denials m4 = Inl e\<close> show ?thesis by simp
qed

theorem unreadable_denials_stay_witness:
  "\<exists>m'. project_tool_policy (demo_policy ''fs'') [(DENY_TERMINAL_TOOLS_METADATA_KEY, JStr ''yes'')] = Some m' \<and>
    projected_metadata_denials m' = Inl ''invalid projected deny_terminal_tools''"
proof -
  let ?m = "[(DENY_TERMINAL_TOOLS_METADATA_KEY, JStr ''yes'')]"
  have e: "projected_metadata_denials ?m = Inl ''invalid projected deny_terminal_tools''"
    by (simp add: projected_metadata_denials_def projected_list_def and_then_def metadata_keys)
  have "\<not> Option.is_none (project_tool_policy (demo_policy ''fs'') ?m)" by code_simp
  then obtain m' where m': "project_tool_policy (demo_policy ''fs'') ?m = Some m'" by (auto simp: Option.is_none_def)
  have "btree_ok ?m" by (simp add: btree_ok_def)
  from unreadable_denials_stay [OF this e m'] m' show ?thesis by blast
qed



lemma set_labels_le:
  assumes "normalize_tool_metadata_labels vs field = Inr ls"
  shows "card (trim_metadata_whitespace ` set vs) \<le> MAX_TOOL_METADATA_LABELS"
  using normalize_labels_Inr [OF assms] card_length [of ls] by (auto simp: labels_ok_def)

text \<open>C38. The union of two valid policies is not always valid: when the two deny more than 32 capability
  tags, or more than 32 cost dimensions, together, their union ends in the panic of \<open>expect\<close>, and so
  does the merge of the policies of a run with them.\<close>

theorem union_of_valid_policies_panics:
  assumes "normalized p = Inr p" and "normalized q = Inr q"
    and "MAX_TOOL_METADATA_LABELS < card (set (tp_denied_capability_tags p) \<union> set (tp_denied_capability_tags q)) \<or>
      MAX_TOOL_METADATA_LABELS < card (set (tp_denied_cost_dimensions p) \<union> set (tp_denied_cost_dimensions q))"
  shows "extend_metadata_denials p q = None \<and> merged_tool_policy p q run = None"
proof -
  have ok: "denials_ok p" "denials_ok q"
    using normalize_denials_Inr [of p p] normalize_denials_Inr [of q q] assms(1,2) by (simp_all add: normalized_def)
  then have "labels_ok (tp_denied_capability_tags p)" "labels_ok (tp_denied_cost_dimensions p)"
    "labels_ok (tp_denied_capability_tags q)" "labels_ok (tp_denied_cost_dimensions q)"
    by (simp_all add: denials_ok_def)
  note trimmed = this [THEN labels_trimmed]
  have none: "extend_metadata_denials p' q = None"
    if p': "tp_denied_capability_tags p' = tp_denied_capability_tags p" "tp_denied_cost_dimensions p' = tp_denied_cost_dimensions p" for p'
  proof (rule ccontr)
    assume "extend_metadata_denials p' q \<noteq> None"
    then obtain tags dims where
      "normalize_tool_metadata_labels (tp_denied_capability_tags p @ tp_denied_capability_tags q) ''denied_capability_tags'' = Inr tags"
      "normalize_tool_metadata_labels (tp_denied_cost_dimensions p @ tp_denied_cost_dimensions q) ''denied_cost_dimensions'' = Inr dims"
      using p' by (auto simp: extend_metadata_denials_def normalize_metadata_denials_def expect_Some_iff and_then_Inr_iff)
    from this [THEN set_labels_le] assms(3) show False by (auto simp: image_Un trimmed)
  qed
  show ?thesis by (simp add: none merged_tool_policy_def Let_def)
qed

definition letters :: "nat \<Rightarrow> string list" where
  "letters start = map (\<lambda>i. [char_of (start + i)]) [0..<20]"

definition demo_wide :: "nat \<Rightarrow> tool_policy" where
  "demo_wide start = policy_default\<lparr>tp_denied_capability_tags := letters start\<rparr>"

theorem union_of_valid_policies_panics_witness:
  "normalized (demo_wide 65) = Inr (demo_wide 65) \<and> normalized (demo_wide 97) = Inr (demo_wide 97) \<and>
   merged_tool_policy (demo_wide 65) (demo_wide 97) policy_default = None"
proof -
  have "denials_ok (demo_wide 65)" "denials_ok (demo_wide 97)" by code_simp+
  then have ok: "normalized (demo_wide 65) = Inr (demo_wide 65)" "normalized (demo_wide 97) = Inr (demo_wide 97)"
    by (simp_all add: normalized_def normalize_denials_id)
  have "MAX_TOOL_METADATA_LABELS < card (set (tp_denied_capability_tags (demo_wide 65)) \<union> set (tp_denied_capability_tags (demo_wide 97)))"
    by code_simp
  then show ?thesis using union_of_valid_policies_panics [OF ok, of policy_default] ok by blast
qed

end
