(* ===== verification/Tool_Planner.thy ===== *)
theory Tool_Planner
  imports Tool_Policy
begin

text \<open>
  Which tools a run offers to the model: the registry (\<open>tools/registry/mod.rs\<close>) with the closing of
  object schemas (\<open>tools/argument_validation.rs\<close>), and the planner (\<open>runtime/tool_planner.rs\<close>), which
  chooses names from the task and schemas from the registry. The compiler of JSON schemas is a
  third-party crate and a parameter, and so is the table of built-in schemas.
\<close>

section \<open>Names\<close>

definition WORKSPACE_TOOLS :: "string list" where
  "WORKSPACE_TOOLS = [''find_files'', ''file_info'', ''read_file'', ''write_file'', ''edit_file'', ''search_files'', ''todo_write'']"

text \<open>The members of \<open>AgentTask\<close> that the planner reads.\<close>

record plan_task =
  pt_allow_interruption :: bool
  pt_use_workspace :: bool
  pt_sub_agents :: "string list"
  pt_agent_type :: "string option"
  pt_native_multimodal :: bool
  pt_extra_tool_names :: "string list"
  pt_exclude_tools :: "string list"
  pt_metadata :: fields

definition sub_agents_enabled :: "plan_task \<Rightarrow> bool" where
  "sub_agents_enabled t \<longleftrightarrow> pt_sub_agents t \<noteq> []"

fun is_json_truthy :: "json \<Rightarrow> bool" where
  "is_json_truthy JNull = False"
| "is_json_truthy (JBool b) = b"
| "is_json_truthy (JNum (PosInt n)) = (n \<noteq> 0)"
| "is_json_truthy (JNum (NegInt i)) = (i \<noteq> 0)"
| "is_json_truthy (JNum (Float m e)) = (m \<noteq> 0)"
| "is_json_truthy (JStr s) = (s \<noteq> [])"
| "is_json_truthy (JArr xs) = (xs \<noteq> [])"
| "is_json_truthy (JObj m) = (m \<noteq> [])"

definition metadata_tool_names :: "plan_task \<Rightarrow> string \<Rightarrow> string set option" where
  "metadata_tool_names t k =
     map_option (\<lambda>vs. set (List.map_filter as_str vs)) (Option.bind (btree_get k (pt_metadata t)) as_array)"

definition candidate_names :: "plan_task \<Rightarrow> string list" where
  "candidate_names t =
     (if pt_allow_interruption t then [''ask_user''] else []) @
     (if pt_use_workspace t then WORKSPACE_TOOLS else []) @
     (if pt_agent_type t = Some ''computer'' then [''bash'', ''check_background_command'', ''stop_background_command''] else []) @
     (if sub_agents_enabled t then [''create_sub_task'', ''sub_task_status''] else []) @
     (case btree_get ''available_skills'' (pt_metadata t) of
        Some v \<Rightarrow> if is_json_truthy v then [''activate_skill''] else []
      | None \<Rightarrow> []) @
     (if pt_native_multimodal t then [''read_image''] else []) @
     pt_extra_tool_names t"

fun dedup_names :: "string list \<Rightarrow> string list \<Rightarrow> string list" where
  "dedup_names [] acc = acc"
| "dedup_names (n # ns) acc = dedup_names ns (if n \<in> set acc then acc else acc @ [n])"

definition plan_tool_names :: "plan_task \<Rightarrow> string list" where
  "plan_tool_names t =
     (let n1 = candidate_names t;
          n2 = (if pt_exclude_tools t = [] then n1 else filter (\<lambda>n. n \<notin> set (pt_exclude_tools t)) n1);
          n3 = (case metadata_tool_names t DISALLOWED_TOOLS_METADATA_KEY of Some ds \<Rightarrow> filter (\<lambda>n. n \<notin> ds) n2 | None \<Rightarrow> n2);
          n4 = (case metadata_tool_names t ALLOWED_TOOLS_METADATA_KEY of Some as \<Rightarrow> filter (\<lambda>n. n \<in> as) n3 | None \<Rightarrow> n3)
      in dedup_names n4 [])"

section \<open>The registry\<close>

text \<open>
  \<open>close_object_schemas\<close>: an object schema that does not say whether it has additional properties has
  none. The source first adds the member and then descends; the added member is a boolean, so the
  order does not matter.
\<close>

fun close_object_schemas :: "json \<Rightarrow> json" where
  "close_object_schemas (JObj m) =
     (let closed = map (\<lambda>(k, v). (k, close_object_schemas v)) m
      in JObj (if btree_get ''type'' m = Some (JStr ''object'')
               then btree_or_insert ''additionalProperties'' (JBool False) closed else closed))"
| "close_object_schemas (JArr xs) = JArr (map close_object_schemas xs)"
| "close_object_schemas v = v"

definition json_index :: "string \<Rightarrow> json \<Rightarrow> json" where
  "json_index k v = (case json_get k v of Some w \<Rightarrow> w | None \<Rightarrow> JNull)"

datatype tool_exposure = Direct | Hidden

record 'h tool_spec =
  sp_name :: string
  sp_handler :: 'h
  sp_description :: string
  sp_schema :: json
  sp_exposure :: tool_exposure
  sp_tool_metadata :: "tool_metadata option"

record ('h, 'v) tool_registry =
  rg_tools :: "(string, 'h tool_spec) btree"
  rg_schemas :: "(string, json) btree"
  rg_validators :: "(string, 'v) btree"
  rg_tool_order :: "string list"
  rg_planner_extra :: "string list"

definition registry_new :: "('h, 'v) tool_registry" where
  "registry_new = \<lparr>rg_tools = [], rg_schemas = [], rg_validators = [], rg_tool_order = [], rg_planner_extra = []\<rparr>"

definition validator_for_tool_schema :: "(json \<Rightarrow> string + 'v) \<Rightarrow> json \<Rightarrow> string + 'v" where
  "validator_for_tool_schema compile schema =
     and_then (ok_or (Option.bind (json_get ''function'' schema) (json_get ''parameters''))
                ''tool schema must contain function.parameters'') compile"

definition schema_description :: "json \<Rightarrow> string \<Rightarrow> string" where
  "schema_description schema old =
     (case as_str (json_index ''description'' (json_index ''function'' schema)) of Some d \<Rightarrow> d | None \<Rightarrow> old)"

definition effective_schema :: "(string \<Rightarrow> json option) \<Rightarrow> ('h, 'v) tool_registry \<Rightarrow> 'h tool_spec \<Rightarrow> json" where
  "effective_schema builtin r spec =
     close_object_schemas (case btree_get (sp_name spec) (rg_schemas r) of
        Some s \<Rightarrow> s
      | None \<Rightarrow> (case builtin (sp_name spec) of Some s \<Rightarrow> s | None \<Rightarrow> sp_schema spec))"

definition register_spec ::
  "(string \<Rightarrow> json option) \<Rightarrow> (json \<Rightarrow> string + 'v) \<Rightarrow> 'h tool_spec \<Rightarrow> ('h, 'v) tool_registry \<Rightarrow> string + ('h, 'v) tool_registry" where
  "register_spec builtin compile spec r =
     (let name = sp_name spec; schema = effective_schema builtin r spec in
      and_then (ensure (\<not> btree_contains name (rg_tools r)) (''tool already registered: '' @ name)) (\<lambda>_.
      and_then (validator_for_tool_schema compile schema) (\<lambda>validator.
      and_then (case sp_tool_metadata spec of
                  None \<Rightarrow> Inr None
                | Some m \<Rightarrow> and_then (metadata_normalized m) (\<lambda>n. Inr (Some n))) (\<lambda>metadata.
        Inr (r\<lparr>rg_schemas := btree_insert name schema (rg_schemas r),
               rg_validators := btree_insert name validator (rg_validators r),
               rg_tool_order := rg_tool_order r @ [name],
               rg_tools := btree_insert name
                 (spec\<lparr>sp_schema := schema, sp_description := schema_description schema (sp_description spec),
                       sp_tool_metadata := metadata\<rparr>) (rg_tools r)\<rparr>)))))"

definition register_schema ::
  "(json \<Rightarrow> string + 'v) \<Rightarrow> string \<Rightarrow> json \<Rightarrow> ('h, 'v) tool_registry \<Rightarrow> string + ('h, 'v) tool_registry" where
  "register_schema compile name schema0 r =
     (let schema = close_object_schemas schema0 in
      and_then (validator_for_tool_schema compile schema) (\<lambda>validator.
        Inr (r\<lparr>rg_tools := (case btree_get name (rg_tools r) of
                  Some spec \<Rightarrow> btree_insert name
                    (spec\<lparr>sp_schema := schema, sp_description := schema_description schema (sp_description spec)\<rparr>) (rg_tools r)
                | None \<Rightarrow> rg_tools r),
               rg_schemas := btree_insert name schema (rg_schemas r),
               rg_validators := btree_insert name validator (rg_validators r)\<rparr>)))"

text \<open>\<open>register_executor\<close> and \<open>register_tool_with_parameters\<close> register the specification and offer the tool to the planner.\<close>

definition register_extra ::
  "(string \<Rightarrow> json option) \<Rightarrow> (json \<Rightarrow> string + 'v) \<Rightarrow> 'h tool_spec \<Rightarrow> ('h, 'v) tool_registry \<Rightarrow> string + ('h, 'v) tool_registry" where
  "register_extra builtin compile spec r =
     and_then (register_spec builtin compile spec r) (\<lambda>r'.
       Inr (r'\<lparr>rg_planner_extra := rg_planner_extra r' @ [sp_name spec]\<rparr>))"

definition has_schema :: "string \<Rightarrow> ('h, 'v) tool_registry \<Rightarrow> bool" where
  "has_schema name r \<longleftrightarrow> btree_contains name (rg_schemas r)"

definition is_model_visible :: "('h, 'v) tool_registry \<Rightarrow> string \<Rightarrow> bool" where
  "is_model_visible r name = (case btree_get name (rg_tools r) of None \<Rightarrow> True | Some spec \<Rightarrow> sp_exposure spec \<noteq> Hidden)"

fun collect_results :: "('e + 'a) list \<Rightarrow> 'e + 'a list" where
  "collect_results [] = Inr []"
| "collect_results (x # xs) = and_then x (\<lambda>a. and_then (collect_results xs) (\<lambda>as. Inr (a # as)))"

definition list_openai_schemas :: "string list option \<Rightarrow> ('h, 'v) tool_registry \<Rightarrow> string + json list" where
  "list_openai_schemas names r =
     collect_results (map (\<lambda>n. ok_or (btree_get n (rg_schemas r)) (''Schema not registered: '' @ n))
       (filter (is_model_visible r) (case names of Some ns \<Rightarrow> ns | None \<Rightarrow> rg_tool_order r)))"

definition planner_available :: "('h, 'v) tool_registry \<Rightarrow> tool_policy option \<Rightarrow> string \<Rightarrow> bool" where
  "planner_available r policy name \<longleftrightarrow> has_schema name r \<and>
     (case btree_get name (rg_tools r) of
        None \<Rightarrow> False
      | Some spec \<Rightarrow> (case policy of None \<Rightarrow> True | Some p \<Rightarrow> metadata_denial_source p (sp_tool_metadata spec) = None))"

text \<open>
  \<open>patch_dynamic_tool_schema_hints\<close>: the description of the shell tool ends with a line about the shell
  of the machine, which is looked up there and is a parameter.
\<close>

definition trim_end :: "string \<Rightarrow> string" where
  "trim_end s = rev (trim_end_rev (rev s))"

definition json_set :: "string \<Rightarrow> json \<Rightarrow> json \<Rightarrow> json" where
  "json_set k w v = (case v of JObj m \<Rightarrow> JObj (btree_insert k w m) | _ \<Rightarrow> v)"

definition patch_schema :: "string \<Rightarrow> json \<Rightarrow> json" where
  "patch_schema hint schema =
     (let f = json_index ''function'' schema in
      if as_str (json_index ''name'' f) \<noteq> Some ''bash'' then schema
      else let base = trim_end (case as_str (json_index ''description'' f) of Some d \<Rightarrow> d | None \<Rightarrow> [])
           in json_set ''function'' (json_set ''description'' (JStr (trim (base @ [CHR 0x0A, CHR 0x0A] @ hint))) f) schema)"

text \<open>\<open>None\<close> is the panic of the \<open>expect\<close> at the end.\<close>

definition plan_tool_schemas_with_policy ::
  "string \<Rightarrow> ('h, 'v) tool_registry \<Rightarrow> plan_task \<Rightarrow> tool_policy option \<Rightarrow> json list option" where
  "plan_tool_schemas_with_policy hint r t policy =
     map_option (map (patch_schema hint))
       (expect (list_openai_schemas (Some (filter (planner_available r policy) (plan_tool_names t))) r))"

section \<open>Lemmas\<close>

lemma dedup_names_spec:
  "distinct acc \<Longrightarrow> distinct (dedup_names ns acc) \<and> set (dedup_names ns acc) = set acc \<union> set ns"
  by (induction ns arbitrary: acc) auto

lemma collect_results_Inr: "collect_results (map Inr xs) = Inr xs"
  by (induction xs) (simp_all add: and_then_def)

text \<open>What the operations of the registry keep.\<close>

definition registry_ok :: "('h, 'v) tool_registry \<Rightarrow> bool" where
  "registry_ok r \<longleftrightarrow> distinct (rg_tool_order r) \<and>
     (\<forall>n. n \<in> set (rg_tool_order r) \<longleftrightarrow> btree_contains n (rg_tools r)) \<and>
     (\<forall>n s. btree_get n (rg_tools r) = Some s \<longrightarrow> sp_name s = n \<and> btree_get n (rg_schemas r) = Some (sp_schema s) \<and>
        btree_contains n (rg_validators r)) \<and>
     set (rg_planner_extra r) \<subseteq> set (rg_tool_order r)"

lemma registry_ok_register_spec:
  assumes "registry_ok r" and "register_spec builtin compile spec r = Inr r'"
  shows "registry_ok r' \<and> rg_tool_order r' = rg_tool_order r @ [sp_name spec]"
proof -
  define schema where "schema = effective_schema builtin r spec"
  obtain v md where new: "\<not> btree_contains (sp_name spec) (rg_tools r)" and r': "r' = r\<lparr>
      rg_schemas := btree_insert (sp_name spec) schema (rg_schemas r),
      rg_validators := btree_insert (sp_name spec) v (rg_validators r),
      rg_tool_order := rg_tool_order r @ [sp_name spec],
      rg_tools := btree_insert (sp_name spec) (spec\<lparr>sp_schema := schema,
        sp_description := schema_description schema (sp_description spec), sp_tool_metadata := md\<rparr>) (rg_tools r)\<rparr>"
    using assms(2) unfolding register_spec_def Let_def schema_def [symmetric] ensure_def
    by (auto simp: and_then_Inr_iff split: if_splits)
  show ?thesis using assms(1) new by (auto simp: r' registry_ok_def btree_contains_def split: if_splits)
qed

lemma registry_ok_register_extra:
  assumes "registry_ok r" and "register_extra builtin compile spec r = Inr r'"
  shows "registry_ok r'"
proof -
  obtain q where q: "register_spec builtin compile spec r = Inr q"
      "r' = q\<lparr>rg_planner_extra := rg_planner_extra q @ [sp_name spec]\<rparr>"
    using assms(2) by (auto simp: register_extra_def and_then_Inr_iff)
  have "registry_ok q" "sp_name spec \<in> set (rg_tool_order q)" using registry_ok_register_spec [OF assms(1) q(1)] by simp_all
  then show ?thesis by (simp add: q(2) registry_ok_def)
qed

lemma registry_ok_register_schema:
  assumes "registry_ok r" and "register_schema compile name schema r = Inr r'"
  shows "registry_ok r'"
proof -
  obtain v where r': "r' = r\<lparr>rg_tools := (case btree_get name (rg_tools r) of
                  Some spec \<Rightarrow> btree_insert name (spec\<lparr>sp_schema := close_object_schemas schema,
                    sp_description := schema_description (close_object_schemas schema) (sp_description spec)\<rparr>) (rg_tools r)
                | None \<Rightarrow> rg_tools r),
               rg_schemas := btree_insert name (close_object_schemas schema) (rg_schemas r),
               rg_validators := btree_insert name v (rg_validators r)\<rparr>"
    using assms(2) by (auto simp: register_schema_def Let_def and_then_Inr_iff)
  show ?thesis
  proof (cases "btree_get name (rg_tools r)")
    case None
    with assms(1) show ?thesis by (auto simp: r' registry_ok_def btree_contains_def)
  next
    case (Some s)
    then have "sp_name s = name" using assms(1) by (simp add: registry_ok_def)
    with Some assms(1) show ?thesis by (auto simp: r' registry_ok_def btree_contains_def)
  qed
qed

text \<open>The registries that registrations lead to.\<close>

inductive registry_reach :: "(string \<Rightarrow> json option) \<Rightarrow> (json \<Rightarrow> string + 'v) \<Rightarrow> ('h, 'v) tool_registry \<Rightarrow> bool"
  for builtin compile where
  new: "registry_reach builtin compile registry_new"
| spec: "registry_reach builtin compile r \<Longrightarrow> register_spec builtin compile s r = Inr r' \<Longrightarrow> registry_reach builtin compile r'"
| extra: "registry_reach builtin compile r \<Longrightarrow> register_extra builtin compile s r = Inr r' \<Longrightarrow> registry_reach builtin compile r'"
| schema: "registry_reach builtin compile r \<Longrightarrow> register_schema compile n j r = Inr r' \<Longrightarrow> registry_reach builtin compile r'"

lemma registry_reach_ok: "registry_reach builtin compile r \<Longrightarrow> registry_ok r"
proof (induction rule: registry_reach.induct)
  case new
  show ?case by (simp add: registry_new_def registry_ok_def btree_contains_def)
next
  case (spec r s r')
  then show ?case using registry_ok_register_spec by blast
next
  case (extra r s r')
  then show ?case using registry_ok_register_extra by blast
next
  case (schema r n j r')
  then show ?case using registry_ok_register_schema by blast
qed

lemma list_schemas_available:
  assumes "registry_ok r" and "\<And>n. n \<in> set ns \<Longrightarrow> btree_contains n (rg_tools r)"
  shows "list_openai_schemas (Some ns) r =
    Inr (map (\<lambda>n. sp_schema (the (btree_get n (rg_tools r)))) (filter (is_model_visible r) ns))"
proof -
  have "ok_or (btree_get n (rg_schemas r)) (''Schema not registered: '' @ n) = Inr (sp_schema (the (btree_get n (rg_tools r))))"
    if n: "n \<in> set (filter (is_model_visible r) ns)" for n
  proof -
    obtain s where s: "btree_get n (rg_tools r) = Some s" using n assms(2) [of n] by (auto simp: btree_contains_def)
    then have "btree_get n (rg_schemas r) = Some (sp_schema s)" using assms(1) by (simp add: registry_ok_def)
    with s show ?thesis by (simp add: ok_or_def)
  qed
  then have "map (\<lambda>n. ok_or (btree_get n (rg_schemas r)) (''Schema not registered: '' @ n)) (filter (is_model_visible r) ns) =
      map Inr (map (\<lambda>n. sp_schema (the (btree_get n (rg_tools r)))) (filter (is_model_visible r) ns))"
    by (simp del: set_filter)
  then show ?thesis by (simp only: list_openai_schemas_def option.case collect_results_Inr)
qed

text \<open>A schema in which every object says whether it has additional properties.\<close>

fun closed_schema :: "json \<Rightarrow> bool" where
  "closed_schema (JObj m) \<longleftrightarrow> (btree_get ''type'' m = Some (JStr ''object'') \<longrightarrow> btree_contains ''additionalProperties'' m) \<and>
     list_all (\<lambda>(k, v). closed_schema v) m"
| "closed_schema (JArr xs) = list_all closed_schema xs"
| "closed_schema v = True"

lemma registry_insert_sub: "set (btree_insert k v m) \<subseteq> insert (k, v) (set m)"
  by (induction k v m rule: btree_insert.induct) auto

lemma set_btree_or_insert_sub: "set (btree_or_insert k v m) \<subseteq> insert (k, v) (set m)"
  using registry_insert_sub [of k v m] by (auto simp: btree_or_insert_def)

lemma btree_get_map_close: "btree_get k (map (\<lambda>(k, v). (k, f v)) m) = map_option f (btree_get k m)"
  by (induction k m rule: btree_get.induct) auto

lemma close_str_iff [simp]: "close_object_schemas v = JStr s \<longleftrightarrow> v = JStr s"
  by (cases v) (simp_all add: Let_def)

lemma closed_schema_close: "closed_schema (close_object_schemas v)"
proof (induction v rule: close_object_schemas.induct)
  case (1 m)
  let ?c = "map (\<lambda>(k, v). (k, close_object_schemas v)) m"
  have kids: "\<forall>(k, v) \<in> set ?c. closed_schema v" using 1 by auto
  have type: "btree_get ''type'' ?c = Some (JStr ''object'') \<longleftrightarrow> btree_get ''type'' m = Some (JStr ''object'')"
    by (auto simp: btree_get_map_close)
  show ?case
  proof (cases "btree_get ''type'' m = Some (JStr ''object'')")
    case True
    have "\<forall>(k, v) \<in> set (btree_or_insert ''additionalProperties'' (JBool False) ?c). closed_schema v"
      using kids set_btree_or_insert_sub [of "''additionalProperties''" "JBool False" ?c] by fastforce
    then show ?thesis using True
      by (auto simp: Let_def list_all_iff btree_contains_def btree_get_or_insert)
  next
    case False
    with kids type show ?thesis by (auto simp: Let_def list_all_iff)
  qed
qed (auto simp: list_all_iff)

lemma close_closed_schema: "closed_schema v \<Longrightarrow> close_object_schemas v = v"
proof (induction v rule: close_object_schemas.induct)
  case (1 m)
  have "map (\<lambda>(k, v). (k, close_object_schemas v)) m = m"
    using 1 by (intro map_idI) (auto simp: list_all_iff)
  with 1(2) show ?case by (auto simp: Let_def btree_or_insert_def)
next
  case (2 xs)
  then show ?case by (auto simp: list_all_iff intro: map_idI)
qed simp_all

section \<open>Properties\<close>

text \<open>The planned names are distinct and are exactly the names that the task's features and extra tools
  suggest, less the excluded and the disallowed ones, and within the allowed ones if those are given.\<close>

theorem planned_names_exact:
  "distinct (plan_tool_names t) \<and>
   (n \<in> set (plan_tool_names t) \<longleftrightarrow> n \<in> set (candidate_names t) \<and> n \<notin> set (pt_exclude_tools t) \<and>
      (case metadata_tool_names t DISALLOWED_TOOLS_METADATA_KEY of Some ds \<Rightarrow> n \<notin> ds | None \<Rightarrow> True) \<and>
      (case metadata_tool_names t ALLOWED_TOOLS_METADATA_KEY of Some as \<Rightarrow> n \<in> as | None \<Rightarrow> True))"
  by (auto simp: plan_tool_names_def Let_def dedup_names_spec split: option.splits)

text \<open>C39. Planning the schemas of a run cannot panic, and offers exactly the planned tools that are registered,
  not hidden and not denied by the policy, each with the schema of its specification.\<close>

theorem planned_schemas_respect_policy:
  fixes r :: "('h, 'v) tool_registry"
  assumes "registry_reach builtin compile r"
  shows "\<exists>ns. plan_tool_schemas_with_policy hint r t policy =
      Some (map (\<lambda>n. patch_schema hint (sp_schema (the (btree_get n (rg_tools r))))) ns) \<and> distinct ns \<and>
    (\<forall>n. n \<in> set ns \<longleftrightarrow> n \<in> set (plan_tool_names t) \<and> (\<exists>spec. btree_get n (rg_tools r) = Some spec \<and>
       sp_exposure spec \<noteq> Hidden \<and> (\<forall>p. policy = Some p \<longrightarrow> metadata_denial_source p (sp_tool_metadata spec) = None)))"
proof -
  have ok: "registry_ok r" using registry_reach_ok [OF assms] .
  let ?a = "filter (planner_available r policy) (plan_tool_names t)"
  let ?ns = "filter (is_model_visible r) ?a"
  have "distinct (plan_tool_names t)" using dedup_names_spec by (simp add: plan_tool_names_def Let_def)
  then have "distinct ?ns" by simp
  moreover have "list_openai_schemas (Some ?a) r = Inr (map (\<lambda>n. sp_schema (the (btree_get n (rg_tools r)))) ?ns)"
    using ok by (intro list_schemas_available) (auto simp: planner_available_def btree_contains_def split: option.splits)
  then have "plan_tool_schemas_with_policy hint r t policy =
      Some (map (\<lambda>n. patch_schema hint (sp_schema (the (btree_get n (rg_tools r))))) ?ns)"
    by (simp add: plan_tool_schemas_with_policy_def expect_def)
  moreover have "n \<in> set ?ns \<longleftrightarrow> n \<in> set (plan_tool_names t) \<and> (\<exists>spec. btree_get n (rg_tools r) = Some spec \<and>
       sp_exposure spec \<noteq> Hidden \<and> (\<forall>p. policy = Some p \<longrightarrow> metadata_denial_source p (sp_tool_metadata spec) = None))" for n
    using ok by (auto simp: planner_available_def is_model_visible_def has_schema_def btree_contains_def registry_ok_def
        split: option.splits)
  ultimately show ?thesis by blast
qed

text \<open>A registry with one tool that reads and one that writes, and a policy that denies writing.\<close>

definition demo_schema :: json where
  "demo_schema = object_of [(''function'', object_of [(''name'', JStr ''x''), (''parameters'', object_of [(''type'', JStr ''object'')])])]"

definition demo_spec :: "string \<Rightarrow> tool_side_effect \<Rightarrow> unit tool_spec" where
  "demo_spec name effect = \<lparr>sp_name = name, sp_handler = (), sp_description = [], sp_schema = demo_schema, sp_exposure = Direct,
     sp_tool_metadata = Some \<lparr>tm_side_effect = effect, tm_idempotency = Idem_Unknown, tm_terminal = False,
       tm_result_retention = Archive, tm_capability_tags = [], tm_cost_dimensions = []\<rparr>\<rparr>"

definition demo_registry :: "(unit, unit) tool_registry" where
  "demo_registry = projr (and_then (register_extra (\<lambda>_. None) (\<lambda>_. Inr ()) (demo_spec ''look'' SeRead) registry_new)
     (register_extra (\<lambda>_. None) (\<lambda>_. Inr ()) (demo_spec ''store'' SeWrite)))"

definition demo_plan :: plan_task where
  "demo_plan = \<lparr>pt_allow_interruption = False, pt_use_workspace = False, pt_sub_agents = [], pt_agent_type = None,
     pt_native_multimodal = False, pt_extra_tool_names = [''look'', ''store'', ''look''], pt_exclude_tools = [], pt_metadata = []\<rparr>"

lemma demo_registry_reach: "registry_reach (\<lambda>_. None) (\<lambda>_. Inr ()) demo_registry"
proof -
  let ?reg = "\<lambda>s. register_extra (\<lambda>_. None) (\<lambda>_. Inr ()) s :: (unit, unit) tool_registry \<Rightarrow> _"
  have "isl (?reg (demo_spec ''look'' SeRead) registry_new) = False"
    "isl (and_then (?reg (demo_spec ''look'' SeRead) registry_new) (?reg (demo_spec ''store'' SeWrite))) = False"
    by code_simp+
  then obtain q where q: "?reg (demo_spec ''look'' SeRead) registry_new = Inr q"
      "?reg (demo_spec ''store'' SeWrite) q = Inr demo_registry"
    by (auto simp: demo_registry_def and_then_def split: sum.splits)
  show ?thesis
    by (rule registry_reach.extra [OF registry_reach.extra [OF registry_reach.new q(1)] q(2)])
qed

theorem planned_schemas_respect_policy_witness:
  "plan_tool_schemas_with_policy [] demo_registry demo_plan (Some (policy_default\<lparr>tp_denied_side_effects := [SeWrite]\<rparr>)) =
     Some [close_object_schemas demo_schema] \<and>
   (\<exists>ns. plan_tool_schemas_with_policy [] demo_registry demo_plan (Some (policy_default\<lparr>tp_denied_side_effects := [SeWrite]\<rparr>)) =
      Some (map (\<lambda>n. patch_schema [] (sp_schema (the (btree_get n (rg_tools demo_registry))))) ns) \<and> distinct ns)"
proof -
  have "plan_tool_schemas_with_policy [] demo_registry demo_plan (Some (policy_default\<lparr>tp_denied_side_effects := [SeWrite]\<rparr>)) =
     Some [close_object_schemas demo_schema]" by code_simp
  then show ?thesis
    using planned_schemas_respect_policy [OF demo_registry_reach, of "[]" demo_plan
        "Some (policy_default\<lparr>tp_denied_side_effects := [SeWrite]\<rparr>)"] by blast
qed

text \<open>The schema that a tool is validated against is closed: every object schema in it says whether it
  takes additional properties, and a schema that already says so everywhere is not changed.\<close>

theorem schemas_are_closed:
  "closed_schema (close_object_schemas v) \<and> (closed_schema v \<longrightarrow> close_object_schemas v = v) \<and>
   close_object_schemas (close_object_schemas v) = close_object_schemas v"
  using closed_schema_close close_closed_schema by blast

theorem schemas_are_closed_witness:
  "close_object_schemas (close_object_schemas demo_schema) = close_object_schemas demo_schema \<and>
   close_object_schemas demo_schema \<noteq> demo_schema"
proof -
  have "close_object_schemas demo_schema \<noteq> demo_schema" by code_simp
  then show ?thesis using schemas_are_closed [of demo_schema] by blast
qed

end
