(* ===== verification/Message_Sanitizer.thy ===== *)
theory Message_Sanitizer
  imports Checkpoint_Types
begin

text \<open>
  The sanitizer of message histories (\<open>memory/message_sanitizer.rs\<close>). A provider refuses a history in
  which a tool result has no call or a call has no result, so a history is cleaned before a run is
  resumed from it.
\<close>

section \<open>The filters\<close>

definition nonblank :: "string option \<Rightarrow> bool" where
  "nonblank x = (case x of Some t \<Rightarrow> \<not> is_blank t | None \<Rightarrow> False)"

definition has_thinking_content :: "message \<Rightarrow> bool" where
  "has_thinking_content m = nonblank (ms_reasoning_content m)"

definition keep_assistant :: "message \<Rightarrow> bool" where
  "keep_assistant m \<longleftrightarrow> ms_role m \<noteq> RoleAssistant \<or> \<not> is_blank (ms_content m) \<or> ms_tool_calls m \<noteq> [] \<or>
     (case ms_image_url m of Some url \<Rightarrow> url \<noteq> [] | None \<Rightarrow> False) \<or> has_thinking_content m"

definition filter_empty_assistant_messages :: "message list \<Rightarrow> message list" where
  "filter_empty_assistant_messages ms = filter keep_assistant ms"

definition filter_thinking_only_messages :: "message list \<Rightarrow> message list" where
  "filter_thinking_only_messages ms =
     filter (\<lambda>m. ms_role m \<noteq> RoleAssistant \<or> \<not> has_thinking_content m \<or> \<not> is_blank (ms_content m) \<or>
                 ms_tool_calls m \<noteq> []) ms"

text \<open>The identities of a call and of a result, without surrounding white space.\<close>

definition call_key :: "tool_call \<Rightarrow> string" where
  "call_key c = trim (tc_id c)"

definition result_key :: "message \<Rightarrow> string" where
  "result_key m = trim (case ms_tool_call_id m of Some i \<Rightarrow> i | None \<Rightarrow> [])"

definition count_keys :: "string list \<Rightarrow> (string, nat) btree" where
  "count_keys ks = fold (\<lambda>k m. if k = [] then m
      else btree_insert k ((case btree_get k m of Some n \<Rightarrow> n | None \<Rightarrow> 0) + 1) m) ks []"

text \<open>The loop over the zipped calls and results, which ends at the first pair that does not match.\<close>

fun pair_up :: "(string, nat) btree \<Rightarrow> (string, nat) btree \<Rightarrow> tool_call list \<Rightarrow> message list \<Rightarrow> tool_call list \<times> message list" where
  "pair_up cc rc (c # cs) (r # rs) =
     (if call_key c \<noteq> result_key r \<or> btree_get (call_key c) cc \<noteq> Some 1 \<or> btree_get (result_key r) rc \<noteq> Some 1
      then ([], [])
      else let (pc, pr) = pair_up cc rc cs rs in (c # pc, r # pr))"
| "pair_up cc rc _ _ = ([], [])"

definition paired_turn :: "tool_call list \<Rightarrow> message list \<Rightarrow> tool_call list \<times> message list" where
  "paired_turn calls results =
     pair_up (count_keys (map call_key calls)) (count_keys (map result_key results))
       (filter (\<lambda>c. call_key c \<noteq> []) calls) (filter (\<lambda>r. result_key r \<noteq> []) results)"

definition is_tool :: "message \<Rightarrow> bool" where
  "is_tool m \<longleftrightarrow> ms_role m = RoleTool"

definition has_calls :: "message \<Rightarrow> bool" where
  "has_calls m \<longleftrightarrow> ms_role m = RoleAssistant \<and> ms_tool_calls m \<noteq> []"

text \<open>The messages that replace an assistant message with calls and the results behind it.\<close>

definition filter_turn :: "bool \<Rightarrow> bool \<Rightarrow> message \<Rightarrow> message list \<Rightarrow> message list" where
  "filter_turn drop_orphans drop_unresolved m results =
     (let (calls, paired) = paired_turn (ms_tool_calls m) results;
          visible = (if drop_unresolved then calls else ms_tool_calls m)
      in (if visible = [] then [] else [m\<lparr>ms_tool_calls := visible\<rparr>]) @
         (if \<not> drop_orphans then results else if calls = [] then [] else paired))"

function filter_tool_turns :: "bool \<Rightarrow> bool \<Rightarrow> message list \<Rightarrow> message list" where
  "filter_tool_turns od ud [] = []"
| "filter_tool_turns od ud (m # ms) =
     (if is_tool m then (if od then [] else [m]) @ filter_tool_turns od ud ms
      else if \<not> has_calls m then m # filter_tool_turns od ud ms
      else filter_turn od ud m (takeWhile is_tool ms) @ filter_tool_turns od ud (dropWhile is_tool ms))"
  by pat_completeness auto
termination
  by (relation "measure (\<lambda>(od, ud, ms). length ms)") (auto simp: le_imp_less_Suc length_dropWhile_le)

definition filter_orphan_tool_results :: "message list \<Rightarrow> message list" where
  "filter_orphan_tool_results ms = filter_tool_turns True False ms"

definition filter_unresolved_tool_uses :: "message list \<Rightarrow> message list" where
  "filter_unresolved_tool_uses ms = filter_tool_turns False True ms"

definition sanitize_for_resume :: "message list \<Rightarrow> message list" where
  "sanitize_for_resume ms =
     filter_unresolved_tool_uses (filter_orphan_tool_results (filter_empty_assistant_messages ms))"

section \<open>Paired histories\<close>

text \<open>
  What a provider accepts: a tool result only directly behind an assistant message with calls, and
  behind such a message exactly one result for each of its calls, in their order.
\<close>

definition answered :: "tool_call list \<Rightarrow> message list \<Rightarrow> bool" where
  "answered calls results \<longleftrightarrow> map call_key calls = map result_key results \<and>
     distinct (map call_key calls) \<and> [] \<notin> set (map call_key calls)"

function well_paired :: "message list \<Rightarrow> bool" where
  "well_paired [] = True"
| "well_paired (m # ms) =
     (if is_tool m then False
      else if \<not> has_calls m then well_paired ms
      else answered (ms_tool_calls m) (takeWhile is_tool ms) \<and> well_paired (dropWhile is_tool ms))"
  by pat_completeness auto
termination
  by (relation "measure length") (auto simp: le_imp_less_Suc length_dropWhile_le)

subsection \<open>Counting\<close>

declare One_nat_def [simp del]

lemma count_keys_get: "k \<noteq> [] \<Longrightarrow>
  btree_get k (count_keys ks) = (if count_list ks k = 0 then None else Some (count_list ks k))"
proof -
  assume k: "k \<noteq> []"
  let ?f = "\<lambda>k m. if k = [] then m else btree_insert k ((case btree_get k m of Some n \<Rightarrow> n | None \<Rightarrow> 0) + 1) m"
  have "btree_get k (fold ?f ks m) =
      (if count_list ks k = 0 then btree_get k m
       else Some (count_list ks k + (case btree_get k m of Some n \<Rightarrow> n | None \<Rightarrow> 0)))" for m :: "(string, nat) btree"
    using k by (induction ks arbitrary: m) (auto split: option.splits)
  from this [of "[]"] show ?thesis by (simp add: count_keys_def)
qed

lemma count_keys_one: "k \<noteq> [] \<Longrightarrow> btree_get k (count_keys ks) = Some 1 \<longleftrightarrow> count_list ks k = 1"
  by (simp add: count_keys_get)

lemma count_list_one_distinct: "distinct ks \<Longrightarrow> k \<in> set ks \<Longrightarrow> count_list ks k = 1"
  by (induction ks) auto

subsection \<open>One turn\<close>

lemma pair_up_spec:
  assumes "pair_up cc rc cs rs = (pc, pr)"
  shows "map call_key pc = map result_key pr \<and> (\<exists>ct. cs = pc @ ct) \<and> (\<exists>rt. rs = pr @ rt) \<and>
    (\<forall>c \<in> set pc. btree_get (call_key c) cc = Some 1) \<and> (\<forall>r \<in> set pr. btree_get (result_key r) rc = Some 1)"
  using assms
proof (induction cc rc cs rs arbitrary: pc pr rule: pair_up.induct)
  case (1 cc rc c cs r rs)
  show ?case
  proof (cases "call_key c \<noteq> result_key r \<or> btree_get (call_key c) cc \<noteq> Some 1 \<or> btree_get (result_key r) rc \<noteq> Some 1")
    case True
    with 1(2) show ?thesis by auto
  next
    case False
    obtain pc' pr' where p: "pair_up cc rc cs rs = (pc', pr')" by (cases "pair_up cc rc cs rs")
    with False 1(2) have eq: "pc = c # pc'" "pr = r # pr'" by auto
    from 1(1) [OF False p] False show ?thesis by (auto simp: eq)
  qed
qed auto

text \<open>The results that were paired are paired again, whatever stood between them.\<close>

lemma pair_up_again:
  assumes "pair_up cc rc cs rs = (pc, pr)" and "\<forall>r \<in> set pr. btree_get (result_key r) rc' = Some 1"
  shows "pair_up cc rc' cs pr = (pc, pr)"
  using assms
proof (induction cc rc cs rs arbitrary: pc pr rule: pair_up.induct)
  case (1 cc rc c cs r rs)
  show ?case
  proof (cases "call_key c \<noteq> result_key r \<or> btree_get (call_key c) cc \<noteq> Some 1 \<or> btree_get (result_key r) rc \<noteq> Some 1")
    case True
    with 1(2) show ?thesis by auto
  next
    case False
    obtain pc' pr' where p: "pair_up cc rc cs rs = (pc', pr')" by (cases "pair_up cc rc cs rs")
    with False 1(2) have eq: "pc = c # pc'" "pr = r # pr'" by auto
    with 1(3) have "pair_up cc rc' cs pr' = (pc', pr')" by (intro 1(1) [OF False p]) simp
    with False eq 1(3) show ?thesis by auto
  qed
qed auto

lemma pair_up_all:
  assumes "map call_key cs = map result_key rs" and "\<forall>c \<in> set cs. btree_get (call_key c) cc = Some 1"
    and "\<forall>r \<in> set rs. btree_get (result_key r) rc = Some 1"
  shows "pair_up cc rc cs rs = (cs, rs)"
  using assms by (induction cc rc cs rs rule: pair_up.induct) auto

lemma count_list_filter_le: "count_list (map f (filter p xs)) k \<le> count_list (map f xs) k"
  by (induction xs) auto

lemma distinct_if_counts: "(\<And>k. k \<in> set ks \<Longrightarrow> count_list ks k \<le> 1) \<Longrightarrow> distinct ks"
proof (induction ks)
  case (Cons a ks)
  have "a \<notin> set ks" using Cons(2) [of a] by (auto simp: count_list_0_iff)
  moreover have "count_list ks k \<le> 1" if "k \<in> set ks" for k using Cons(2) [of k] that by (auto split: if_splits)
  ultimately show ?case using Cons(1) by simp
qed simp

lemma paired_turn_spec:
  assumes "paired_turn calls results = (pc, pr)"
  shows "answered pc pr \<and> (\<exists>ct. filter (\<lambda>c. call_key c \<noteq> []) calls = pc @ ct) \<and> set pr \<subseteq> set results"
proof -
  note spec = pair_up_spec [OF assms [unfolded paired_turn_def]]
  then obtain ct rt where ct: "filter (\<lambda>c. call_key c \<noteq> []) calls = pc @ ct"
    and rt: "filter (\<lambda>r. result_key r \<noteq> []) results = pr @ rt" by blast
  have pc: "set pc \<subseteq> set (filter (\<lambda>c. call_key c \<noteq> []) calls)" by (simp add: ct)
  have pr: "set pr \<subseteq> set (filter (\<lambda>r. result_key r \<noteq> []) results)" by (simp add: rt)
  have "count_list (map call_key pc) k \<le> 1" if k: "k \<in> set (map call_key pc)" for k
  proof -
    obtain c where c: "c \<in> set pc" "k = call_key c" using k by auto
    with pc have "k \<noteq> []" by auto
    moreover have "btree_get k (count_keys (map call_key calls)) = Some 1" using spec c by simp
    ultimately have "count_list (map call_key calls) k = 1" by (simp add: count_keys_one)
    moreover have "count_list (map call_key pc) k \<le> count_list (map call_key (filter (\<lambda>c. call_key c \<noteq> []) calls)) k"
      by (simp add: ct)
    ultimately show ?thesis
      using count_list_filter_le [of call_key "\<lambda>c. call_key c \<noteq> []" calls k] by linarith
  qed
  then have "distinct (map call_key pc)" by (rule distinct_if_counts)
  with spec pc pr ct show ?thesis by (auto simp: answered_def)
qed

lemma answered_lengths: "answered pc pr \<Longrightarrow> pc = [] \<longleftrightarrow> pr = []"
  by (auto simp: answered_def dest: map_eq_imp_length_eq)

lemma answered_results: "answered pc pr \<Longrightarrow> distinct (map result_key pr) \<and> [] \<notin> set (map result_key pr)"
  unfolding answered_def by metis

lemma count_keys_distinct: "distinct ks \<Longrightarrow> k \<in> set ks \<Longrightarrow> k \<noteq> [] \<Longrightarrow> btree_get k (count_keys ks) = Some 1"
  by (simp add: count_keys_one count_list_one_distinct)

lemma key_counts:
  assumes "distinct (map f xs)" and "[] \<notin> set (map f xs)"
  shows "\<forall>x \<in> set xs. btree_get (f x) (count_keys (map f xs)) = Some 1"
proof
  fix x assume "x \<in> set xs"
  then have x: "f x \<in> set (map f xs)" by simp
  with assms(2) have "f x \<noteq> []" by metis
  with assms(1) x show "btree_get (f x) (count_keys (map f xs)) = Some 1" by (rule count_keys_distinct)
qed

lemma filter_nonblank_results: "[] \<notin> set (map f rs) \<Longrightarrow> filter (\<lambda>r. f r \<noteq> []) rs = rs"
  by (induction rs) auto

lemma paired_turn_again:
  assumes "paired_turn calls results = (pc, pr)"
  shows "paired_turn calls pr = (pc, pr)"
proof -
  have "answered pc pr" using paired_turn_spec [OF assms] by simp
  note res = answered_results [OF this]
  note pair_up_again [OF assms [unfolded paired_turn_def] key_counts [of result_key pr]]
  with res show ?thesis by (simp add: paired_turn_def filter_nonblank_results)
qed

lemma paired_turn_complete:
  assumes "answered calls results"
  shows "paired_turn calls results = (calls, results)"
proof -
  note res = answered_results [OF assms]
  have c: "map call_key calls = map result_key results" "distinct (map call_key calls)" "[] \<notin> set (map call_key calls)"
    using assms unfolding answered_def by blast+
  show ?thesis
    using pair_up_all [OF c(1) key_counts [OF c(2,3)] key_counts [of result_key results]] c(3) res
    by (simp add: paired_turn_def filter_nonblank_results)
qed

subsection \<open>The whole history\<close>

text \<open>The two passes over the turns as one.\<close>

function clean_turns :: "message list \<Rightarrow> message list" where
  "clean_turns [] = []"
| "clean_turns (m # ms) =
     (if is_tool m then clean_turns ms
      else if \<not> has_calls m then m # clean_turns ms
      else let (calls, results) = paired_turn (ms_tool_calls m) (takeWhile is_tool ms)
           in (if calls = [] then [] else m\<lparr>ms_tool_calls := calls\<rparr> # results) @ clean_turns (dropWhile is_tool ms))"
  by pat_completeness auto
termination
  by (relation "measure length") (auto simp: le_imp_less_Suc length_dropWhile_le)

lemma takeWhile_append_stop: "\<forall>x \<in> set xs. p x \<Longrightarrow> takeWhile p ys = [] \<Longrightarrow> takeWhile p (xs @ ys) = xs"
  by (induction xs) auto

lemma dropWhile_append_stop: "\<forall>x \<in> set xs. p x \<Longrightarrow> takeWhile p ys = [] \<Longrightarrow> dropWhile p (xs @ ys) = ys"
  by (induction xs) (auto simp: takeWhile_eq_Nil_iff split: list.splits intro: dropWhile_eq_self_iff [THEN iffD2])

lemma tool_run: "\<forall>x \<in> set (takeWhile is_tool ms). is_tool x"
  by (meson set_takeWhileD)

lemma paired_are_tools:
  "paired_turn calls (takeWhile is_tool ms) = (pc, pr) \<Longrightarrow> \<forall>x \<in> set pr. is_tool x"
  using paired_turn_spec tool_run by blast

lemma filter_turn_orphans:
  assumes "ms_tool_calls m \<noteq> []" and "paired_turn (ms_tool_calls m) results = (pc, pr)"
  shows "filter_turn True False m results = m # pr"
proof -
  have "pc = [] \<longleftrightarrow> pr = []" using paired_turn_spec [OF assms(2)] answered_lengths by blast
  with assms show ?thesis by (auto simp: filter_turn_def)
qed

text \<open>After the first pass no result stands without its assistant message.\<close>

lemma orphan_pass_head: "takeWhile is_tool (filter_tool_turns True False ms) = []"
proof (induction ms rule: clean_turns.induct)
  case (2 m ms)
  show ?case
  proof (cases "is_tool m \<or> \<not> has_calls m")
    case True
    with 2 show ?thesis by auto
  next
    case False
    then have "ms_tool_calls m \<noteq> []" by (simp add: has_calls_def)
    then obtain pr where "filter_turn True False m (takeWhile is_tool ms) = m # pr"
      using filter_turn_orphans by (metis surj_pair)
    with False show ?thesis by simp
  qed
qed simp

lemma two_passes_clean: "filter_tool_turns False True (filter_tool_turns True False ms) = clean_turns ms"
proof (induction ms rule: clean_turns.induct)
  case (2 m ms)
  show ?case
  proof (cases "is_tool m \<or> \<not> has_calls m")
    case True
    with 2 show ?thesis by auto
  next
    case False
    then have m: "ms_tool_calls m \<noteq> []" "has_calls m" "\<not> is_tool m" by (simp_all add: has_calls_def)
    obtain pc pr where p: "paired_turn (ms_tool_calls m) (takeWhile is_tool ms) = (pc, pr)" by fastforce
    let ?rest = "filter_tool_turns True False (dropWhile is_tool ms)"
    have first: "filter_tool_turns True False (m # ms) = m # (pr @ ?rest)"
      using m filter_turn_orphans [OF m(1) p] by simp
    have run: "takeWhile is_tool (pr @ ?rest) = pr" "dropWhile is_tool (pr @ ?rest) = ?rest"
      using takeWhile_append_stop [OF paired_are_tools [OF p] orphan_pass_head]
        dropWhile_append_stop [OF paired_are_tools [OF p] orphan_pass_head] by blast+
    have "pc = [] \<longleftrightarrow> pr = []" using paired_turn_spec [OF p] answered_lengths by blast
    then have turn: "filter_turn False True m pr = (if pc = [] then [] else m\<lparr>ms_tool_calls := pc\<rparr> # pr)"
      by (auto simp: filter_turn_def paired_turn_again [OF p])
    show ?thesis unfolding first using 2(3) [OF m(3)] m by (simp add: run turn p)
  qed
qed simp

lemma sanitize_is_clean: "sanitize_for_resume ms = clean_turns (filter keep_assistant ms)"
  by (simp add: sanitize_for_resume_def filter_unresolved_tool_uses_def filter_orphan_tool_results_def
      filter_empty_assistant_messages_def two_passes_clean)

lemma clean_head: "takeWhile is_tool (clean_turns ms) = []"
proof (induction ms rule: clean_turns.induct)
  case (2 m ms)
  then show ?case by (auto simp: is_tool_def split: prod.splits)
qed simp

lemma clean_well_paired: "well_paired (clean_turns ms)"
proof (induction ms rule: clean_turns.induct)
  case (2 m ms)
  show ?case
  proof (cases "is_tool m \<or> \<not> has_calls m")
    case True
    with 2 show ?thesis by auto
  next
    case False
    obtain pc pr where p: "paired_turn (ms_tool_calls m) (takeWhile is_tool ms) = (pc, pr)" by fastforce
    note run = takeWhile_append_stop [OF paired_are_tools [OF p] clean_head]
      dropWhile_append_stop [OF paired_are_tools [OF p] clean_head]
    have rest: "well_paired (clean_turns (dropWhile is_tool ms))" using 2(3) False p by simp
    show ?thesis
    proof (cases "pc = []")
      case True
      with False p rest show ?thesis by simp
    next
      case nonempty: False
      have "answered pc pr" using paired_turn_spec [OF p] by simp
      with False nonempty rest show ?thesis by (simp add: p run has_calls_def is_tool_def)
    qed
  qed
qed simp

lemma clean_fixpoint: "well_paired ms \<Longrightarrow> clean_turns ms = ms"
proof (induction ms rule: clean_turns.induct)
  case (2 m ms)
  show ?case
  proof (cases "has_calls m")
    case True
    then have m: "\<not> is_tool m" "ms_tool_calls m \<noteq> []" by (simp_all add: has_calls_def is_tool_def)
    with True 2(4) have a: "answered (ms_tool_calls m) (takeWhile is_tool ms)" and w: "well_paired (dropWhile is_tool ms)"
      by simp_all
    note p = paired_turn_complete [OF a]
    have "clean_turns (dropWhile is_tool ms) = dropWhile is_tool ms" using 2(3) m True p w by simp
    with m True p show ?thesis by simp
  next
    case False
    with 2 show ?thesis by (auto split: if_splits)
  qed
qed simp

text \<open>Messages without calls that are no results pass through, and calls are only cut off.\<close>

definition plain :: "message \<Rightarrow> bool" where
  "plain m \<longleftrightarrow> \<not> is_tool m \<and> \<not> has_calls m"

lemma clean_keeps_plain: "filter plain (clean_turns ms) = filter plain ms"
proof (induction ms rule: clean_turns.induct)
  case (2 m ms)
  show ?case
  proof (cases "is_tool m \<or> \<not> has_calls m")
    case True
    with 2 show ?thesis by (auto simp: plain_def)
  next
    case False
    obtain pc pr where p: "paired_turn (ms_tool_calls m) (takeWhile is_tool ms) = (pc, pr)" by fastforce
    have none: "filter plain xs = []" if "\<forall>x \<in> set xs. is_tool x" for xs
      using that by (auto simp: filter_empty_conv plain_def)
    have "filter plain ms = filter plain (takeWhile is_tool ms) @ filter plain (dropWhile is_tool ms)"
      by (metis filter_append takeWhile_dropWhile_id)
    then have "filter plain ms = filter plain (dropWhile is_tool ms)" by (simp add: none [OF tool_run])
    moreover have "filter plain (clean_turns (dropWhile is_tool ms)) = filter plain (dropWhile is_tool ms)"
      using 2(3) False p by simp
    moreover have "\<not> plain m" "pc \<noteq> [] \<Longrightarrow> \<not> plain (m\<lparr>ms_tool_calls := pc\<rparr>)"
      using False by (auto simp: plain_def has_calls_def)
    ultimately show ?thesis using False p none [OF paired_are_tools [OF p]] by simp
  qed
qed simp

definition cut_calls :: "message \<Rightarrow> message \<Rightarrow> bool" where
  "cut_calls m x \<longleftrightarrow> has_calls m \<and> ms_tool_calls x \<noteq> [] \<and> x = m\<lparr>ms_tool_calls := ms_tool_calls x\<rparr> \<and>
     (\<exists>ct. filter (\<lambda>c. call_key c \<noteq> []) (ms_tool_calls m) = ms_tool_calls x @ ct)"

lemma clean_sources: "x \<in> set (clean_turns ms) \<Longrightarrow> \<exists>m \<in> set ms. x = m \<or> cut_calls m x"
proof (induction ms rule: clean_turns.induct)
  case (2 m ms)
  show ?case
  proof (cases "is_tool m \<or> \<not> has_calls m")
    case True
    with 2 show ?thesis by (auto split: if_splits)
  next
    case False
    obtain pc pr where p: "paired_turn (ms_tool_calls m) (takeWhile is_tool ms) = (pc, pr)" by fastforce
    note spec = paired_turn_spec [OF p]
    from 2(4) False p consider (cut) "x = m\<lparr>ms_tool_calls := pc\<rparr>" "pc \<noteq> []" | (result) "x \<in> set pr"
      | (rest) "x \<in> set (clean_turns (dropWhile is_tool ms))"
      by (auto split: if_splits)
    then show ?thesis
    proof cases
      case cut
      with spec False have "cut_calls m x" by (simp add: cut_calls_def)
      then show ?thesis by simp
    next
      case result
      with spec have "x \<in> set ms" by (meson set_takeWhileD subsetD)
      then show ?thesis by auto
    next
      case rest
      with 2(3) False p have "\<exists>m \<in> set (dropWhile is_tool ms). x = m \<or> cut_calls m x" by simp
      then show ?thesis by (meson list.set_intros(2) set_dropWhileD)
    qed
  qed
qed simp

lemma clean_keeps_assistants: "\<forall>m \<in> set ms. keep_assistant m \<Longrightarrow> x \<in> set (clean_turns ms) \<Longrightarrow> keep_assistant x"
  using clean_sources [of x ms] by (auto simp: keep_assistant_def cut_calls_def)

lemma sanitize_out:
  "well_paired (sanitize_for_resume ms)" "list_all keep_assistant (sanitize_for_resume ms)"
  unfolding sanitize_is_clean list_all_iff
  using clean_well_paired clean_keeps_assistants [of "filter keep_assistant ms"] by auto

lemma sanitize_fixpoint: "well_paired ms \<Longrightarrow> list_all keep_assistant ms \<Longrightarrow> sanitize_for_resume ms = ms"
  by (simp add: sanitize_is_clean clean_fixpoint list_all_iff)

declare One_nat_def [simp]

section \<open>Properties\<close>

text \<open>C36. A sanitized history is one a provider accepts: no tool result stands without its call, every
  assistant message with calls is followed by exactly one result per call in the order of the calls,
  with distinct non-blank identities, and no empty assistant message is left.\<close>

theorem sanitized_history_is_paired:
  "well_paired (sanitize_for_resume ms) \<and> list_all keep_assistant (sanitize_for_resume ms)"
  using sanitize_out by blast

text \<open>Nothing complete is lost: a history that is paired and has no empty assistant message is not
  changed, so sanitizing twice is sanitizing once; system, user and plain assistant messages that say
  something are all kept, in order; and every other message that is left is one of the input, at most
  with its unanswered calls cut off.\<close>

theorem sanitize_keeps_complete_turns:
  "(well_paired ms \<and> list_all keep_assistant ms \<longrightarrow> sanitize_for_resume ms = ms) \<and>
   sanitize_for_resume (sanitize_for_resume ms) = sanitize_for_resume ms \<and>
   filter plain (sanitize_for_resume ms) = filter (\<lambda>m. plain m \<and> keep_assistant m) ms \<and>
   (\<forall>x. x \<in> set (sanitize_for_resume ms) \<longrightarrow> (\<exists>m. m \<in> set ms \<and> (x = m \<or> cut_calls m x)))"
proof -
  have "filter plain (sanitize_for_resume ms) = filter (\<lambda>m. plain m \<and> keep_assistant m) ms"
    by (simp add: sanitize_is_clean clean_keeps_plain conj_commute)
  moreover have "\<exists>m. m \<in> set ms \<and> (x = m \<or> cut_calls m x)" if "x \<in> set (sanitize_for_resume ms)" for x
    using clean_sources [of x "filter keep_assistant ms"] that unfolding sanitize_is_clean by auto
  ultimately show ?thesis using sanitize_fixpoint [of ms] sanitize_fixpoint [OF sanitize_out] by blast
qed

definition demo_call :: "string \<Rightarrow> tool_call" where
  "demo_call i = \<lparr>tc_id = i, tc_name = ''read'', tc_arguments = [], tc_extra_content = None\<rparr>"

definition demo_history :: "message list" where
  "demo_history = [message_new RoleUser ''hi'',
     (message_new RoleAssistant [])\<lparr>ms_tool_calls := [demo_call ''a'', demo_call ''b'']\<rparr>,
     (message_new RoleTool ''one'')\<lparr>ms_tool_call_id := Some '' a ''\<rparr>,
     message_new RoleAssistant ''  '']"

theorem sanitize_keeps_complete_turns_witness:
  "sanitize_for_resume demo_history = [message_new RoleUser ''hi'',
     (message_new RoleAssistant [])\<lparr>ms_tool_calls := [demo_call ''a'']\<rparr>,
     (message_new RoleTool ''one'')\<lparr>ms_tool_call_id := Some '' a ''\<rparr>] \<and>
   sanitize_for_resume (sanitize_for_resume demo_history) = sanitize_for_resume demo_history"
proof -
  have "sanitize_for_resume demo_history = [message_new RoleUser ''hi'',
     (message_new RoleAssistant [])\<lparr>ms_tool_calls := [demo_call ''a'']\<rparr>,
     (message_new RoleTool ''one'')\<lparr>ms_tool_call_id := Some '' a ''\<rparr>]" by code_simp
  then show ?thesis using sanitize_keeps_complete_turns [of demo_history] by blast
qed

end
