(* ===== verification/Tool_Run.thy ===== *)
theory Tool_Run
  imports Checkpoint_Deferred Approval_Broker Tool_Planner Message_Sanitizer
begin

text \<open>
  The execution of tool calls: the arguments of a call (\<open>types/tool_calls.rs\<close>), the guards and life cycle
  of one call (\<open>tools/orchestrator.rs\<close>, \<open>tools/dispatcher.rs\<close>), the hooks around it
  (\<open>runtime/hooks/manager.rs\<close>) and the loop over the calls of one cycle (\<open>runtime/tool_call_runner\<close>).

  Executors, hooks, predicates and callbacks are host code and appear as functions on a state \<open>'s\<close>,
  which stands for the tool context and whatever else they can reach.
\<close>

section \<open>Arguments\<close>

text \<open>The JSON parser is a parameter.\<close>

definition json_type_name :: "json \<Rightarrow> string" where
  "json_type_name v = (case v of JNull \<Rightarrow> ''null'' | JBool _ \<Rightarrow> ''bool'' | JNum _ \<Rightarrow> ''number'' | JStr _ \<Rightarrow> ''string''
     | JArr _ \<Rightarrow> ''array'' | JObj _ \<Rightarrow> ''object'')"

fun parse_raw_tool_arguments :: "(string \<Rightarrow> string + json) \<Rightarrow> json \<Rightarrow> (string \<times> string) + fields" where
  "parse_raw_tool_arguments parse JNull = Inr []"
| "parse_raw_tool_arguments parse (JObj m) = Inr m"
| "parse_raw_tool_arguments parse (JStr raw) =
     (if trim raw = [] then Inr []
      else case parse (trim raw) of
        Inl e \<Rightarrow> Inl (''invalid_arguments_json'', ''Invalid tool arguments JSON: '' @ e)
      | Inr (JObj m) \<Rightarrow> Inr m
      | Inr _ \<Rightarrow> Inl (''invalid_arguments_payload'', ''Tool arguments must decode to an object''))"
| "parse_raw_tool_arguments parse v = Inl (''invalid_arguments_type'', ''Unsupported tool argument type: '' @ json_type_name v)"

definition from_raw_arguments :: "(string \<Rightarrow> string + json) \<Rightarrow> string \<Rightarrow> string \<Rightarrow> json \<Rightarrow> tool_call" where
  "from_raw_arguments parse i name raw =
     (case parse_raw_tool_arguments parse raw of
        Inr args \<Rightarrow> \<lparr>tc_id = i, tc_name = name, tc_arguments = args, tc_extra_content = None\<rparr>
      | Inl (code, err) \<Rightarrow> \<lparr>tc_id = i, tc_name = name, tc_arguments = [], tc_extra_content = Some (object_of
          [(''raw_arguments'', raw), (''argument_error_code'', JStr code), (''argument_error'', JStr err)])\<rparr>)"

definition dispatch_error_result :: "(json \<Rightarrow> string) \<Rightarrow> string \<Rightarrow> string \<Rightarrow> string \<Rightarrow> tool_result" where
  "dispatch_error_result print i message code =
     plain_result i (print (object_of [(''ok'', JBool False), (''error'', JStr message), (''error_code'', JStr code)]))
       RsError ''continue'' code []"

definition argument_error_result :: "(json \<Rightarrow> string) \<Rightarrow> tool_call \<Rightarrow> tool_result option" where
  "argument_error_result print call =
     map_option (\<lambda>extra. dispatch_error_result print (tc_id call)
         (unwrap_or (get_str ''argument_error'' extra) ''Invalid tool arguments'')
         (unwrap_or (get_str ''argument_error_code'' extra) ''invalid_arguments''))
       (Option.bind (tc_extra_content call) as_object)"

section \<open>One call\<close>

record 's executor =
  ex_tool_metadata :: "tool_metadata option"
  ex_metadata :: fields
  ex_validate :: "tool_call \<Rightarrow> string + tool_result option"
  ex_requirement :: "tool_call \<Rightarrow> 's \<Rightarrow> approval_requirement"
  ex_run :: "tool_call \<Rightarrow> 's \<Rightarrow> 's \<times> (string + tool_outcome) option"

text \<open>
  A run that its executor's timeout cuts off is \<open>None\<close>. \<open>tw_begin\<close> is \<open>begin_tool_call\<close> with the
  idempotency key, \<open>tw_take_deferred\<close> the marker a tool may leave in its context.
\<close>

record 's tool_world =
  tw_env :: env
  tw_print :: "json \<Rightarrow> string"
  tw_begin :: "tool_call \<Rightarrow> string option \<Rightarrow> 's \<Rightarrow> 's"
  tw_take_deferred :: "'s \<Rightarrow> 's \<times> tool_outcome option"
  tw_tools :: "(string, 's executor) btree"

record 's run_options =
  op_planned_tools :: "string list option"
  op_policy :: tool_policy
  op_idempotency_key :: "string option"
  op_before_dispatch :: "(tool_call \<Rightarrow> 's \<Rightarrow> 's \<times> string option) option"

definition from_policy :: "tool_policy \<Rightarrow> 's run_options" where
  "from_policy p = \<lparr>op_planned_tools = None, op_policy = p, op_idempotency_key = None, op_before_dispatch = None\<rparr>"

datatype lifecycle_event =
    Planned tool_call
  | Started tool_call
  | DeferredEvent tool_call deferred_handle
  | CompletedEvent tool_call tool_result bool

text \<open>The life cycle of an execution that is not reported yet: the call and whether it was started.\<close>

record execution =
  xn_result :: tool_result
  xn_outcome :: tool_outcome
  xn_lifecycle :: "(tool_call \<times> bool) option"

definition execution_of :: "tool_call \<Rightarrow> tool_result \<Rightarrow> bool \<Rightarrow> execution" where
  "execution_of call result started =
     \<lparr>xn_result = result, xn_outcome = OutcomeCompleted result, xn_lifecycle = Some (call, started)\<rparr>"

definition without_lifecycle :: "tool_result \<Rightarrow> execution" where
  "without_lifecycle result = \<lparr>xn_result = result, xn_outcome = OutcomeCompleted result, xn_lifecycle = None\<rparr>"

definition with_deferred_lifecycle :: "tool_call \<Rightarrow> deferred_handle \<Rightarrow> bool \<Rightarrow> execution" where
  "with_deferred_lifecycle call h started =
     \<lparr>xn_result = (plain_result (tc_id call) ''Deferred tool execution is waiting for a definitive receipt.'' RsError
         ''continue'' [] [])\<lparr>tr_error_code := None\<rparr>,
      xn_outcome = OutcomeDeferred h, xn_lifecycle = Some (call, started)\<rparr>"

definition replace_result :: "tool_result \<Rightarrow> execution \<Rightarrow> execution" where
  "replace_result r x = x\<lparr>xn_result := r,
     xn_outcome := (case xn_outcome x of OutcomeHostInteraction _ q \<Rightarrow> OutcomeHostInteraction r q | _ \<Rightarrow> OutcomeCompleted r)\<rparr>"

definition complete_execution :: "execution \<Rightarrow> lifecycle_event list \<times> tool_result" where
  "complete_execution x =
     ((case xn_lifecycle x of
         None \<Rightarrow> []
       | Some (call, started) \<Rightarrow>
           (case xn_outcome x of
              OutcomeCompleted _ \<Rightarrow> [CompletedEvent call (xn_result x) started]
            | OutcomeDeferred h \<Rightarrow> [DeferredEvent call h]
            | OutcomeHostInteraction _ _ \<Rightarrow> [])), xn_result x)"

definition tool_error :: "(json \<Rightarrow> string) \<Rightarrow> tool_call \<Rightarrow> string \<Rightarrow> string \<Rightarrow> string option \<Rightarrow> tool_result" where
  "tool_error print call code message source =
     plain_result (tc_id call) (error_content print message code call) RsError ''continue'' code
       (case source of
          None \<Rightarrow> []
        | Some p \<Rightarrow> btree_collect [(''mode'', JStr ''permission_denied''), (''policy_source'', JStr p),
            (''tool_name'', JStr (tc_name call)), (''arguments'', JObj (tc_arguments call)), (''message'', JStr message)])"

definition policy_denial :: "(json \<Rightarrow> string) \<Rightarrow> tool_call \<Rightarrow> string \<Rightarrow> tool_result" where
  "policy_denial print call source = tool_error print call ''tool_not_allowed''
     (''Tool '' @ tc_name call @ '' is not allowed for these arguments.'') (Some source)"

definition timeout_result :: "(json \<Rightarrow> string) \<Rightarrow> tool_call \<Rightarrow> string \<Rightarrow> tool_result" where
  "timeout_result print call message =
     plain_result (tc_id call)
       (print (object_of [(''ok'', JBool False), (''error'', JStr message), (''error_code'', JStr ''tool_timeout''), (''retryable'', JBool False)]))
       RsError ''continue'' ''tool_timeout'' (btree_collect [(''output_type'', JStr ''error''), (''retryable'', JBool False)])"

definition orchestrator_needs_id :: "string \<Rightarrow> bool" where
  "orchestrator_needs_id i \<longleftrightarrow> is_blank i \<or> i = ''pending''"

definition fill_call_id :: "tool_call \<Rightarrow> tool_result \<Rightarrow> tool_result" where
  "fill_call_id call r = (if orchestrator_needs_id (tr_tool_call_id r) then r\<lparr>tr_tool_call_id := tc_id call\<rparr> else r)"

text \<open>The name guards, in the order of the code: the source of the first that refuses.\<close>

definition name_denial :: "'s run_options \<Rightarrow> tool_call \<Rightarrow> string option" where
  "name_denial o' call =
     (let p = op_policy o'; n = tc_name call in
      if (case tp_allowed_tools p of Some ts \<Rightarrow> n \<notin> set ts | None \<Rightarrow> False) then Some ''allowed_tools''
      else if n \<in> set (tp_disallowed_tools p) then Some ''disallowed_tools''
      else if \<not> allows_arguments n (tc_arguments call) p then Some ''can_use_tool''
      else if (case op_planned_tools o' of Some ts \<Rightarrow> n \<notin> set ts | None \<Rightarrow> False) then Some ''planned_name''
      else None)"

definition effective_requirement :: "'s run_options \<Rightarrow> 's executor \<Rightarrow> tool_call \<Rightarrow> 's \<Rightarrow> approval_requirement" where
  "effective_requirement o' x call s =
     (case tp_approval (op_policy o') of ApNever \<Rightarrow> NotRequired | ApAlways \<Rightarrow> Required | _ \<Rightarrow> ex_requirement x call s)"

text \<open>The end of a call that was started.\<close>

definition finish_outcome :: "env \<Rightarrow> tool_call \<Rightarrow> tool_outcome \<Rightarrow> string + execution" where
  "finish_outcome E call outcome =
     (case outcome of
        OutcomeHostInteraction r q \<Rightarrow>
          and_then (outcome_validate E (OutcomeHostInteraction r q)) (\<lambda>_.
            Inr ((execution_of call r True)\<lparr>xn_outcome := OutcomeHostInteraction r q\<rparr>))
      | OutcomeCompleted r \<Rightarrow> Inr (execution_of call (fill_call_id call r) True)
      | OutcomeDeferred h \<Rightarrow> Inr (with_deferred_lifecycle call h True))"

definition dispatch_call ::
  "'s tool_world \<Rightarrow> string \<Rightarrow> 's executor \<Rightarrow> 's run_options \<Rightarrow> tool_call \<Rightarrow> 's \<Rightarrow> 's \<times> lifecycle_event list \<times> (string + execution)" where
  "dispatch_call W late x o' call s =
     (let (s1, failed) = (case op_before_dispatch o' of None \<Rightarrow> (s, None) | Some f \<Rightarrow> f call s)
      in case failed of
           Some e \<Rightarrow> (s1, [], Inl e)
         | None \<Rightarrow>
             (case ex_run x call s1 of
                (s2, None) \<Rightarrow> (s2, [Started call], Inr (execution_of call (timeout_result (tw_print W) call late) True))
              | (s2, Some (Inl e)) \<Rightarrow> (s2, [Started call], Inl e)
              | (s2, Some (Inr outcome)) \<Rightarrow>
                  let (s3, marked) = tw_take_deferred W s2
                  in (s3, [Started call], finish_outcome (tw_env W) call (unwrap_or marked outcome))))"

text \<open>
  \<open>run_one_with_approval_and_metadata_deferred\<close>. \<open>approval\<close> is the callback of the engine, \<open>late\<close> the
  message for a timeout. The result is the state, the events reported so far, and an execution.
\<close>

definition run_one_deferred ::
  "'s tool_world \<Rightarrow> string \<Rightarrow> (tool_call \<Rightarrow> approval_requirement \<Rightarrow> 's \<Rightarrow> fields \<Rightarrow> 's \<times> tool_result option) \<Rightarrow>
   's run_options \<Rightarrow> tool_call \<Rightarrow> 's \<Rightarrow> 's \<times> lifecycle_event list \<times> (string + execution)" where
  "run_one_deferred W late approval o' call s =
     (let refuse = (\<lambda>r. (s, [Planned call], Inr (execution_of call r False))); print = tw_print W in
      case argument_error_result print call of
        Some r \<Rightarrow> (s, [], Inr (without_lifecycle r))
      | None \<Rightarrow>
        let tool = btree_get (tc_name call) (tw_tools W) in
        case (case tool of Some x \<Rightarrow> ex_validate x call | None \<Rightarrow> Inr None) of
          Inl e \<Rightarrow> (s, [Planned call], Inl e)
        | Inr (Some r) \<Rightarrow> refuse r
        | Inr None \<Rightarrow>
          (case name_denial o' call of
             Some source \<Rightarrow> refuse (policy_denial print call source)
           | None \<Rightarrow>
             (case tool of
                None \<Rightarrow> refuse (tool_error print call ''tool_not_found'' (''Unknown tool: '' @ tc_name call) None)
              | Some x \<Rightarrow>
                (case metadata_denial_source (op_policy o') (ex_tool_metadata x) of
                   Some source \<Rightarrow> refuse (policy_denial print call source)
                 | None \<Rightarrow>
                   let s1 = tw_begin W call (op_idempotency_key o') s in
                   (case approval call (effective_requirement o' x call s1) s1 (ex_metadata x) of
                      (s2, Some r) \<Rightarrow> (s2, [Planned call], Inr (execution_of call (fill_call_id call r) False))
                    | (s2, None) \<Rightarrow>
                        let (s3, events, res) = dispatch_call W late x o' call s2
                        in (s3, Planned call # events, res))))))"

definition run_one_events ::
  "'s \<times> lifecycle_event list \<times> (string + execution) \<Rightarrow> lifecycle_event list" where
  "run_one_events r = (case r of (s, events, res) \<Rightarrow>
     events @ (case res of Inl _ \<Rightarrow> [] | Inr x \<Rightarrow> fst (complete_execution x)))"

definition observe_result_without_execution :: "(json \<Rightarrow> string) \<Rightarrow> tool_call \<Rightarrow> tool_result \<Rightarrow> lifecycle_event list \<times> execution" where
  "observe_result_without_execution print call result =
     (if argument_error_result print call \<noteq> None then ([], without_lifecycle result)
      else ([Planned call], execution_of call result False))"

section \<open>Properties of one call\<close>

text \<open>The guards that a call has to pass before its executor runs.\<close>

definition permitted ::
  "'s tool_world \<Rightarrow> (tool_call \<Rightarrow> approval_requirement \<Rightarrow> 's \<Rightarrow> fields \<Rightarrow> 's \<times> tool_result option) \<Rightarrow> 's run_options \<Rightarrow>
   tool_call \<Rightarrow> 's \<Rightarrow> 's executor \<Rightarrow> bool" where
  "permitted W approval o' call s x \<longleftrightarrow>
     argument_error_result (tw_print W) call = None \<and> btree_get (tc_name call) (tw_tools W) = Some x \<and>
     ex_validate x call = Inr None \<and>
     tool_allowed_by_policy (op_policy o') (tc_name call) \<and> allows_arguments (tc_name call) (tc_arguments call) (op_policy o') \<and>
     (\<forall>ts. op_planned_tools o' = Some ts \<longrightarrow> tc_name call \<in> set ts) \<and>
     metadata_denial_source (op_policy o') (ex_tool_metadata x) = None \<and>
     (let s1 = tw_begin W call (op_idempotency_key o') s;
          (s2, refused) = approval call (effective_requirement o' x call s1) s1 (ex_metadata x)
      in refused = None \<and> (case op_before_dispatch o' of None \<Rightarrow> True | Some f \<Rightarrow> snd (f call s2) = None))"

lemma name_denial_None_iff:
  "name_denial o' call = None \<longleftrightarrow> tool_allowed_by_policy (op_policy o') (tc_name call) \<and>
     allows_arguments (tc_name call) (tc_arguments call) (op_policy o') \<and>
     (\<forall>ts. op_planned_tools o' = Some ts \<longrightarrow> tc_name call \<in> set ts)"
  by (auto simp: name_denial_def tool_allowed_by_policy_def Let_def split: option.splits)

lemma dispatch_started:
  "Started call \<in> set (fst (snd (dispatch_call W late x o' call s))) \<longleftrightarrow>
     (case op_before_dispatch o' of None \<Rightarrow> True | Some f \<Rightarrow> snd (f call s) = None)"
  by (auto simp: dispatch_call_def Let_def split: option.splits prod.splits sum.splits)

text \<open>C32. An executor is started exactly for the calls that pass every guard: the arguments are valid, the tool
  exists and is planned, no policy denies it by name, arguments or metadata, the approval that the
  policy and the tool ask for does not refuse it, and the host's last check lets it go.\<close>

theorem tool_starts_iff_permitted:
  "Started call \<in> set (fst (snd (run_one_deferred W late approval o' call s))) \<longleftrightarrow>
   (\<exists>x. permitted W approval o' call s x)"
proof (cases "argument_error_result (tw_print W) call")
  case (Some r)
  then show ?thesis by (simp add: run_one_deferred_def permitted_def)
next
  case args: None
  show ?thesis
  proof (cases "btree_get (tc_name call) (tw_tools W)")
    case None
    with args show ?thesis by (auto simp: run_one_deferred_def permitted_def Let_def split: option.splits)
  next
    case (Some x)
    show ?thesis
    proof (cases "ex_validate x call = Inr None \<and> name_denial o' call = None \<and>
        metadata_denial_source (op_policy o') (ex_tool_metadata x) = None")
      case False
      with args Some show ?thesis
        by (auto simp: run_one_deferred_def permitted_def Let_def name_denial_None_iff split: option.splits sum.splits)
    next
      case True
      let ?s1 = "tw_begin W call (op_idempotency_key o') s"
      obtain s2 refused where a: "approval call (effective_requirement o' x call ?s1) ?s1 (ex_metadata x) = (s2, refused)"
        by fastforce
      have p: "(\<exists>x. permitted W approval o' call s x) \<longleftrightarrow>
          refused = None \<and> (case op_before_dispatch o' of None \<Rightarrow> True | Some f \<Rightarrow> snd (f call s2) = None)"
        using args Some True a by (auto simp: permitted_def Let_def name_denial_None_iff)
      show ?thesis
      proof (cases refused)
        case None
        then have "set (fst (snd (run_one_deferred W late approval o' call s))) =
            insert (Planned call) (set (fst (snd (dispatch_call W late x o' call s2))))"
          using args Some True a by (auto simp: run_one_deferred_def Let_def split: prod.splits)
        then show ?thesis using None p dispatch_started [of call W late x o' s2] by simp
      next
        case (Some r)
        with args \<open>btree_get (tc_name call) (tw_tools W) = Some x\<close> True a p show ?thesis
          by (simp add: run_one_deferred_def Let_def)
      qed
    qed
  qed
qed

lemma dispatch_shape:
  assumes "dispatch_call W late x o' call s = (s', events, res)"
  shows "run_one_events (s', events, res) = [] \<or> run_one_events (s', events, res) = [Started call] \<or>
    (\<exists>r. run_one_events (s', events, res) = [Started call, CompletedEvent call r True]) \<or>
    (\<exists>h. run_one_events (s', events, res) = [Started call, DeferredEvent call h])"
  using assms
  by (auto simp: dispatch_call_def finish_outcome_def and_then_def execution_of_def with_deferred_lifecycle_def
      complete_execution_def run_one_events_def Let_def
      split: option.splits prod.splits sum.splits tool_outcome.splits)

text \<open>The life cycle of a call is reported in order and at most once: a call that is refused reports that it
  was planned and completed without a start, a call that runs reports planned, started and then one of
  completed and deferred, and only a call with unreadable arguments reports nothing.\<close>

theorem lifecycle_in_order:
  "\<exists>events. run_one_events (run_one_deferred W late approval o' call s) = events \<and>
    (events = [] \<and> argument_error_result (tw_print W) call \<noteq> None \<or> events = [Planned call] \<or>
     (\<exists>r. events = [Planned call, CompletedEvent call r False]) \<or> events = [Planned call, Started call] \<or>
     (\<exists>r. events = [Planned call, Started call, CompletedEvent call r True]) \<or>
     (\<exists>h. events = [Planned call, Started call, DeferredEvent call h]))"
proof -
  have refused: "run_one_events (t, [], Inr (execution_of call r False)) = [CompletedEvent call r False]"
    for t :: 'a and r by (simp add: run_one_events_def complete_execution_def execution_of_def)
  have planned: "run_one_events (t, Planned call # es, res) = Planned call # run_one_events (t, es, res)" for t :: 'a and es res
    by (simp add: run_one_events_def)
  have failed: "run_one_events (t, [], Inl e) = []" for t :: 'a and e
    by (simp add: run_one_events_def)
  have none: "run_one_events (s, [], Inr (without_lifecycle r)) = []" for r
    by (simp add: run_one_events_def complete_execution_def without_lifecycle_def)
  show ?thesis
    unfolding run_one_deferred_def Let_def
    by (auto simp: refused failed none planned split: option.splits sum.splits prod.splits dest!: dispatch_shape)
qed


section \<open>The calls of a cycle\<close>

subsection \<open>Results as messages\<close>

fun truncation_str :: "truncation_reason \<Rightarrow> string" where
  "truncation_str OutputLimit = ''output_limit''"
| "truncation_str ReadLimit = ''read_limit''"

definition artifact_value :: "artifact_ref \<Rightarrow> json" where
  "artifact_value a = object_of [(''path'', JStr (ar_path a)), (''media_type'', JStr (ar_media_type a)),
     (''encoding'', JStr (ar_encoding a)), (''size_bytes'', json_u64 (ar_size_bytes a)), (''sha256'', JStr (ar_sha256 a))]"

definition cursor_value :: "result_cursor \<Rightarrow> json" where
  "cursor_value c = object_of [(''kind'', JStr (rc_kind c)), (''path'', JStr (rc_path c)),
     (''offset_chars'', json_u64 (rc_offset_chars c)), (''sha256'', JStr (rc_sha256 c))]"

text \<open>\<open>None\<close> is the panic for a truncated result without its byte counts.\<close>

definition recovery_value :: "tool_result \<Rightarrow> json option" where
  "recovery_value r =
     (case (tr_truncation_reason r, tr_original_bytes r, tr_visible_bytes r) of
        (Some reason, Some original, Some visible) \<Rightarrow>
          Some (object_of [(''vv_agent_recovery'', object_of
            ([(''truncated'', JBool True), (''truncation_reason'', JStr (truncation_str reason)),
              (''original_bytes'', json_u64 original), (''visible_bytes'', json_u64 visible)] @
             (case tr_artifact r of Some a \<Rightarrow> [(''artifact'', artifact_value a)] | None \<Rightarrow> []) @
             (case tr_cursor r of Some c \<Rightarrow> [(''cursor'', cursor_value c)] | None \<Rightarrow> [])))])
      | _ \<Rightarrow> None)"

definition to_message :: "env \<Rightarrow> tool_result \<Rightarrow> message option" where
  "to_message E r =
     map_option (\<lambda>content. (message_new RoleTool content)\<lparr>ms_tool_call_id := Some (tr_tool_call_id r), ms_artifact_ref := tr_artifact r,
         ms_metadata := (case tr_artifact r of
            Some _ \<Rightarrow> [(''_vv_agent_microcompact_excerpt'', JStr (tr_content r))] | None \<Rightarrow> [])\<rparr>)
       (if tr_truncated r
        then map_option (\<lambda>enc. tr_content r @ [CHR 0x0A] @ enc) (Option.bind (recovery_value r) (canonicalize E))
        else Some (tr_content r))"

definition image_notification :: "tool_result \<Rightarrow> bool \<Rightarrow> message option" where
  "image_notification r include =
     (if \<not> include then None
      else let loaded = (\<lambda>p. ''[Image loaded] '' @ p) in
        case tr_image_url r of
          Some url \<Rightarrow> Some ((message_new RoleUser (case tr_image_path r of Some p \<Rightarrow> loaded p | None \<Rightarrow> []))
             \<lparr>ms_image_url := Some url, ms_metadata := tr_metadata r\<rparr>)
        | None \<Rightarrow> map_option (\<lambda>p. message_new RoleUser (loaded p)) (tr_image_path r))"

subsection \<open>Hooks\<close>

record 's tool_hook =
  hk_before :: "tool_call \<Rightarrow> 's \<Rightarrow> 's \<times> (tool_call option \<times> tool_result option) option"
  hk_after :: "tool_call \<Rightarrow> tool_result \<Rightarrow> 's \<Rightarrow> 's \<times> tool_result option"

fun apply_before_tool_call :: "'s tool_hook list \<Rightarrow> tool_call \<Rightarrow> 's \<Rightarrow> 's \<times> tool_call \<times> tool_result option" where
  "apply_before_tool_call [] call s = (s, call, None)"
| "apply_before_tool_call (h # hs) call s =
     (case hk_before h call s of
        (s1, None) \<Rightarrow> apply_before_tool_call hs call s1
      | (s1, Some (c, Some r)) \<Rightarrow> (s1, unwrap_or c call, Some r)
      | (s1, Some (c, None)) \<Rightarrow> apply_before_tool_call hs (unwrap_or c call) s1)"

fun apply_after_tool_call :: "'s tool_hook list \<Rightarrow> tool_call \<Rightarrow> tool_result \<Rightarrow> 's \<Rightarrow> 's \<times> tool_result" where
  "apply_after_tool_call [] call r s = (s, r)"
| "apply_after_tool_call (h # hs) call r s =
     (case hk_after h call r s of (s1, r') \<Rightarrow> apply_after_tool_call hs call (unwrap_or r' r) s1)"

subsection \<open>The loop\<close>

definition needs_tool_call_id :: "string \<Rightarrow> bool" where
  "needs_tool_call_id i \<longleftrightarrow> trim i = [] \<or> trim i = ''pending''"

definition normalize_tool_call_id :: "string \<Rightarrow> tool_result \<Rightarrow> tool_result" where
  "normalize_tool_call_id i r = (if needs_tool_call_id (tr_tool_call_id r) then r\<lparr>tr_tool_call_id := i\<rparr> else r)"

definition apply_tool_use_behavior :: "fields \<Rightarrow> tool_call \<Rightarrow> tool_result \<Rightarrow> tool_result \<times> completion_reason option" where
  "apply_tool_use_behavior meta call r =
     (if tr_directive r \<noteq> ''continue'' \<or> tr_status r \<noteq> RsSuccess then (r, None)
      else let behavior = unwrap_or (get_str ''_vv_agent_tool_use_behavior'' meta) ''run_llm_again'';
               stop = (if behavior = ''stop_on_first_tool'' then True
                 else if behavior = ''stop_at_tool_names''
                 then (case Option.bind (btree_get ''_vv_agent_stop_at_tool_names'' meta) as_array of
                         Some names \<Rightarrow> list_ex (\<lambda>n. as_str n = Some (tc_name call)) names | None \<Rightarrow> False)
                 else False)
           in if stop then (r\<lparr>tr_directive := ''finish''\<rparr>,
                Some (if behavior = ''stop_on_first_tool'' then CrStopOnFirstTool else CrStopAtToolName))
              else (r, None))"

definition skipped_tool_result :: "(json \<Rightarrow> string) \<Rightarrow> tool_call \<Rightarrow> string \<Rightarrow> string \<Rightarrow> tool_result" where
  "skipped_tool_result print call code message = dispatch_error_result print (tc_id call) message code"

definition skip_reason :: "string \<Rightarrow> string \<times> string" where
  "skip_reason directive =
     (if directive = ''wait_user'' then (''skipped_due_to_wait_user'', ''Tool skipped because a previous tool requested user input.'')
      else (''skipped_due_to_finish'', ''Tool skipped because a previous tool finished the task.''))"

datatype run_error = RunFailed string | RunPanic

record 's tool_request =
  tq_task_metadata :: fields
  tq_native_multimodal :: bool
  tq_hooks :: "'s tool_hook list"
  tq_check_cancelled :: "'s \<Rightarrow> string option"
  tq_interruption :: "('s \<Rightarrow> 's \<times> message list) option"

text \<open>
  What a run has pushed: the results, each with its call, and the notifications of images, and why it stopped: the
  directive with its reason and tool, or the steering messages.
\<close>

record 's tool_run =
  rn_state :: 's
  rn_results :: "(tool_call \<times> tool_result) list"
  rn_images :: "message list"
  rn_directive :: "(tool_result \<times> completion_reason \<times> string) option"
  rn_interruptions :: "message list"
  rn_error :: "run_error option"

text \<open>One call of the loop: the state, its result, and the reason of the tool-use behaviour.\<close>

definition run_call ::
  "'s tool_world \<Rightarrow> string \<Rightarrow> 's tool_request \<Rightarrow> tool_call \<Rightarrow> 's \<Rightarrow> 's \<times> (string + tool_call \<times> tool_result \<times> completion_reason option)" where
  "run_call W late q call s =
     (let (s1, patched, short) = apply_before_tool_call (tq_hooks q) call s;
          (s2, executed) = (case short of
             Some r \<Rightarrow> (s1, Inr (snd (observe_result_without_execution (tw_print W) patched (normalize_tool_call_id (tc_id call) r))))
           | None \<Rightarrow> (case run_one_deferred W late (\<lambda>_ _ t _. (t, None)) (from_policy policy_default) patched s1 of
                        (t, _, x) \<Rightarrow> (t, x)))
      in case executed of
           Inl e \<Rightarrow> (s2, Inl e)
         | Inr x \<Rightarrow>
             let r1 = normalize_tool_call_id (tc_id patched) (xn_result x);
                 (s3, r2) = apply_after_tool_call (tq_hooks q) patched r1 s2;
                 (r3, reason) = apply_tool_use_behavior (tq_task_metadata q) patched (normalize_tool_call_id (tc_id patched) r2)
             in (s3, Inr (patched, snd (complete_execution (replace_result r3 x)), reason)))"

definition skip_all :: "(json \<Rightarrow> string) \<Rightarrow> string \<times> string \<Rightarrow> tool_call list \<Rightarrow> (tool_call \<times> tool_result) list" where
  "skip_all print why calls = map (\<lambda>c. (c, skipped_tool_result print c (fst why) (snd why))) calls"

text \<open>One iteration of the loop ends the run, or goes on with the result of the call.\<close>

datatype 's iteration = Halt "'s tool_run" | Next 's tool_result "message list"

definition run_iteration ::
  "'s tool_world \<Rightarrow> string \<Rightarrow> 's tool_request \<Rightarrow> tool_call \<Rightarrow> tool_call list \<Rightarrow> 's \<Rightarrow> 's iteration" where
  "run_iteration W late q call rest s =
     (let stop = (\<lambda>t e. Halt \<lparr>rn_state = t, rn_results = [], rn_images = [], rn_directive = None, rn_interruptions = [],
            rn_error = Some e\<rparr>)
      in case tq_check_cancelled q s of
        Some e \<Rightarrow> stop s (RunFailed e)
      | None \<Rightarrow>
        (case run_call W late q call s of
           (s1, Inl e) \<Rightarrow> stop s1 (RunFailed e)
         | (s1, Inr (patched, r, reason)) \<Rightarrow>
             if to_message (tw_env W) r = None then stop s1 RunPanic
             else
               let imgs = (case image_notification r (tq_native_multimodal q) of Some m \<Rightarrow> [m] | None \<Rightarrow> [])
               in if tr_directive r \<noteq> ''continue''
                  then Halt \<lparr>rn_state = s1, rn_results = (call, r) # skip_all (tw_print W) (skip_reason (tr_directive r)) rest,
                        rn_images = imgs, rn_directive = Some (r, unwrap_or reason
                          (if tr_directive r = ''wait_user'' then CrWaitUser else CrToolFinish), tc_name patched),
                        rn_interruptions = [], rn_error = None\<rparr>
                  else
                    (case (case tq_interruption q of None \<Rightarrow> (s1, []) | Some f \<Rightarrow> f s1) of
                       (s2, []) \<Rightarrow> Next s2 r imgs
                     | (s2, steering) \<Rightarrow> Halt \<lparr>rn_state = s2, rn_results = (call, r) # skip_all (tw_print W)
                               (''skipped_due_to_steering'', ''Tool skipped due to queued steering message.'') rest,
                             rn_images = imgs, rn_directive = None, rn_interruptions = steering, rn_error = None\<rparr>)))"

fun run_calls :: "'s tool_world \<Rightarrow> string \<Rightarrow> 's tool_request \<Rightarrow> tool_call list \<Rightarrow> 's \<Rightarrow> 's tool_run" where
  "run_calls W late q [] s =
     \<lparr>rn_state = s, rn_results = [], rn_images = [], rn_directive = None, rn_interruptions = [], rn_error = None\<rparr>"
| "run_calls W late q (call # rest) s =
     (case run_iteration W late q call rest s of
        Halt out \<Rightarrow> out
      | Next s2 r imgs \<Rightarrow>
          let more = run_calls W late q rest s2
          in more\<lparr>rn_results := (call, r) # rn_results more, rn_images := imgs @ rn_images more\<rparr>)"

text \<open>The messages that a finished run has appended to the history.\<close>

definition run_messages :: "'s tool_world \<Rightarrow> 's tool_run \<Rightarrow> message list" where
  "run_messages W out = map (\<lambda>(c, r). the (to_message (tw_env W) r)) (rn_results out) @ rn_images out"

section \<open>Properties of a cycle\<close>

lemma skip_all_calls [simp]: "map fst (skip_all print why calls) = calls"
  by (induction calls) (simp_all add: skip_all_def)

text \<open>The images of an iteration are messages of the user.\<close>

definition images_ok :: "message list \<Rightarrow> bool" where
  "images_ok ms \<longleftrightarrow> (\<forall>m \<in> set ms. ms_role m = RoleUser \<and> ms_tool_calls m = [])"

lemma image_notification_ok: "image_notification r b = Some m \<Longrightarrow> ms_role m = RoleUser \<and> ms_tool_calls m = []"
  by (auto simp: image_notification_def message_new_def Let_def split: if_splits option.splits)

text \<open>A result that was pushed comes from the loop body or was skipped.\<close>

definition from_run :: "'s tool_world \<Rightarrow> string \<Rightarrow> 's tool_request \<Rightarrow> tool_call \<Rightarrow> tool_result \<Rightarrow> bool" where
  "from_run W late q call r \<longleftrightarrow>
     (\<exists>s s1 patched reason. run_call W late q call s = (s1, Inr (patched, r, reason)) \<and> to_message (tw_env W) r \<noteq> None) \<or>
     (\<exists>why. r = skipped_tool_result (tw_print W) call (fst why) (snd why))"

lemma skip_all_from_run: "(c, r) \<in> set (skip_all (tw_print W) why calls) \<Longrightarrow> from_run W late q c r"
  by (auto simp: skip_all_def from_run_def)

lemma iteration_cases:
  obtains (failed) out e where "run_iteration W late q call rest s = Halt out" "rn_error out = Some e"
  | (halted) out r why where "run_iteration W late q call rest s = Halt out" "rn_error out = None" "from_run W late q call r"
      "rn_results out = (call, r) # skip_all (tw_print W) why rest" "images_ok (rn_images out)"
  | (going) s2 r imgs where "run_iteration W late q call rest s = Next s2 r imgs" "from_run W late q call r"
      "tr_directive r = ''continue''" "images_ok imgs"
proof (cases "tq_check_cancelled q s")
  case (Some e)
  then show ?thesis by (intro failed) (auto simp: run_iteration_def Let_def)
next
  case None
  obtain s1 res where rc: "run_call W late q call s = (s1, res)" by fastforce
  show ?thesis
  proof (cases res)
    case (Inl e)
    with None rc show ?thesis by (intro failed) (auto simp: run_iteration_def Let_def)
  next
    case (Inr t)
    obtain patched r reason where t: "t = (patched, r, reason)" by (cases t)
    let ?imgs = "case image_notification r (tq_native_multimodal q) of Some m \<Rightarrow> [m] | None \<Rightarrow> []"
    have imgs: "images_ok ?imgs"
      using image_notification_ok [of r] by (cases "image_notification r (tq_native_multimodal q)") (auto simp: images_ok_def)
    obtain s2 steering where st: "(case tq_interruption q of None \<Rightarrow> (s1, []) | Some f \<Rightarrow> f s1) = (s2, steering)" by fastforce
    show ?thesis
    proof (cases "to_message (tw_env W) r = None")
      case True
      with None rc Inr t show ?thesis by (intro failed) (auto simp: run_iteration_def Let_def)
    next
      case False
      have src: "from_run W late q call r" using rc Inr t False by (auto simp: from_run_def)
      show ?thesis
      proof (cases "tr_directive r = ''continue''")
        case dir: True
        show ?thesis
        proof (cases steering)
          case Nil
          with None rc Inr t False dir st have "run_iteration W late q call rest s = Next s2 r ?imgs"
            by (simp add: run_iteration_def)
          from going [OF this src dir imgs] show ?thesis .
        next
          case (Cons x xs)
          with None rc Inr t False dir st have "run_iteration W late q call rest s =
              Halt \<lparr>rn_state = s2, rn_results = (call, r) # skip_all (tw_print W)
                 (''skipped_due_to_steering'', ''Tool skipped due to queued steering message.'') rest,
               rn_images = ?imgs, rn_directive = None, rn_interruptions = steering, rn_error = None\<rparr>"
            by (simp add: run_iteration_def)
          from halted [OF this] src imgs show ?thesis by simp
        qed
      next
        case dir: False
        with None rc Inr t False have "run_iteration W late q call rest s =
            Halt \<lparr>rn_state = s1, rn_results = (call, r) # skip_all (tw_print W) (skip_reason (tr_directive r)) rest,
             rn_images = ?imgs, rn_directive = Some (r, unwrap_or reason
               (if tr_directive r = ''wait_user'' then CrWaitUser else CrToolFinish), tc_name patched),
             rn_interruptions = [], rn_error = None\<rparr>"
          by (simp add: run_iteration_def)
        from halted [OF this] src imgs show ?thesis by simp
      qed
    qed
  qed
qed

lemma run_calls_spec:
  assumes "rn_error (run_calls W late q calls s) = None"
  shows "map fst (rn_results (run_calls W late q calls s)) = calls \<and>
    (\<forall>(c, r) \<in> set (rn_results (run_calls W late q calls s)). from_run W late q c r) \<and>
    images_ok (rn_images (run_calls W late q calls s))"
  using assms
proof (induction calls arbitrary: s)
  case Nil
  then show ?case by (simp add: images_ok_def)
next
  case (Cons call rest)
  show ?case
  proof (cases rule: iteration_cases [of W late q call rest s])
    case (failed out e)
    with Cons.prems show ?thesis by simp
  next
    case (halted out r why)
    then show ?thesis by (auto dest: skip_all_from_run)
  next
    case (going s2 r imgs)
    with Cons.prems have "rn_error (run_calls W late q rest s2) = None" by (simp add: Let_def)
    from Cons.IH [OF this] going show ?thesis by (auto simp: Let_def images_ok_def)
  qed
qed

subsection \<open>Identities\<close>

text \<open>
  What the runner relies on: hooks and executors answer with the identity of the call or leave it open, and a
  hook that replaces a call keeps its identity.
\<close>

definition id_ok :: "tool_call \<Rightarrow> tool_result \<Rightarrow> bool" where
  "id_ok call r \<longleftrightarrow> tr_tool_call_id r = tc_id call \<or> needs_tool_call_id (tr_tool_call_id r)"

definition hook_keeps_ids :: "'s tool_hook \<Rightarrow> bool" where
  "hook_keeps_ids h \<longleftrightarrow>
     (\<forall>call s s' c r. hk_before h call s = (s', Some (c, r)) \<longrightarrow>
        tc_id (unwrap_or c call) = tc_id call \<and> (\<forall>x. r = Some x \<longrightarrow> id_ok call x)) \<and>
     (\<forall>call r s s' x. hk_after h call r s = (s', Some x) \<longrightarrow> id_ok call r \<longrightarrow> id_ok call x)"

definition executor_keeps_ids :: "'s executor \<Rightarrow> bool" where
  "executor_keeps_ids x \<longleftrightarrow>
     (\<forall>call r. ex_validate x call = Inr (Some r) \<longrightarrow> id_ok call r) \<and>
     (\<forall>call s s' r. ex_run x call s = (s', Some (Inr (OutcomeCompleted r))) \<longrightarrow> id_ok call r) \<and>
     (\<forall>call s s' r q. ex_run x call s = (s', Some (Inr (OutcomeHostInteraction r q))) \<longrightarrow> id_ok call r)"

definition host_keeps_ids :: "'s tool_world \<Rightarrow> 's tool_request \<Rightarrow> bool" where
  "host_keeps_ids W q \<longleftrightarrow> (\<forall>h \<in> set (tq_hooks q). hook_keeps_ids h) \<and>
     (\<forall>n x. btree_get n (tw_tools W) = Some x \<longrightarrow> executor_keeps_ids x) \<and>
     (\<forall>s s' o'. tw_take_deferred W s = (s', Some o') \<longrightarrow> (\<exists>h. o' = OutcomeDeferred h))"

lemma normalize_id: "id_ok call r \<Longrightarrow> tr_tool_call_id (normalize_tool_call_id (tc_id call) r) = tc_id call"
  by (auto simp: id_ok_def normalize_tool_call_id_def)

lemma before_keeps_ids:
  assumes "\<forall>h \<in> set hs. hook_keeps_ids h" and "apply_before_tool_call hs call s = (s', patched, short)"
  shows "tc_id patched = tc_id call \<and> (\<forall>r. short = Some r \<longrightarrow> id_ok patched r)"
  using assms
proof (induction hs call s rule: apply_before_tool_call.induct)
  case (2 h hs call s)
  obtain s1 p where p: "hk_before h call s = (s1, p)" by fastforce
  show ?case
  proof (cases p)
    case None
    with 2(1) [OF p [symmetric]] 2(3,4) p show ?thesis by simp
  next
    case (Some cr)
    obtain c r where cr: "cr = (c, r)" by fastforce
    have keep: "tc_id (unwrap_or c call) = tc_id call" "\<And>x. r = Some x \<Longrightarrow> id_ok call x"
      using 2(3) p Some cr by (auto simp: hook_keeps_ids_def)
    show ?thesis
    proof (cases r)
      case None
      with 2 p Some cr keep(1) show ?thesis by simp
    next
      case (Some x)
      with 2(4) p \<open>p = Some cr\<close> cr keep show ?thesis by (auto simp: id_ok_def)
    qed
  qed
qed simp

lemma after_keeps_ids:
  assumes "\<forall>h \<in> set hs. hook_keeps_ids h" and "id_ok call r"
  shows "id_ok call (snd (apply_after_tool_call hs call r s))"
  using assms
proof (induction hs arbitrary: r s)
  case (Cons h hs)
  obtain s1 x where x: "hk_after h call r s = (s1, x)" by fastforce
  have "id_ok call (unwrap_or x r)"
    using Cons.prems x by (cases x) (auto simp: hook_keeps_ids_def unwrap_or_def)
  with Cons x show ?case by simp
qed simp

lemma fill_keeps_id: "id_ok call r \<Longrightarrow> id_ok call (fill_call_id call r)"
  by (simp add: id_ok_def fill_call_id_def)

lemma plain_result_id [simp]: "tr_tool_call_id (plain_result i c st d code m) = i"
  by (simp add: plain_result_def)

lemma finish_keeps_ids:
  assumes "finish_outcome E call outcome = Inr x" and "\<And>r. outcome = OutcomeCompleted r \<Longrightarrow> id_ok call r"
    and "\<And>r q. outcome = OutcomeHostInteraction r q \<Longrightarrow> id_ok call r"
  shows "id_ok call (xn_result x)"
  using assms
  by (cases outcome) (auto simp: finish_outcome_def execution_of_def with_deferred_lifecycle_def fill_keeps_id
      and_then_Inr_iff id_ok_def [of call "plain_result (tc_id call) c st d code m\<lparr>tr_error_code := None\<rparr>" for c st d code m])

lemma executor_ids:
  "executor_keeps_ids x \<Longrightarrow> ex_run x call s = (s', Some (Inr (OutcomeCompleted r))) \<Longrightarrow> id_ok call r"
  "executor_keeps_ids x \<Longrightarrow> ex_run x call s = (s', Some (Inr (OutcomeHostInteraction r q))) \<Longrightarrow> id_ok call r"
  unfolding executor_keeps_ids_def by blast+

lemma dispatch_keeps_ids:
  assumes "dispatch_call W late x o' call s = (s', events, Inr y)" and "executor_keeps_ids x"
    and marks: "\<And>t t' o'. tw_take_deferred W t = (t', Some o') \<Longrightarrow> \<exists>h. o' = OutcomeDeferred h"
  shows "id_ok call (xn_result y)"
proof -
  define s1 where "s1 = fst (case op_before_dispatch o' of None \<Rightarrow> (s, None) | Some f \<Rightarrow> f call s)"
  obtain s2 end' where run: "ex_run x call s1 = (s2, end')" by fastforce
  show ?thesis
  proof (cases end')
    case None
    with assms(1) run have "y = execution_of call (timeout_result (tw_print W) call late) True"
      by (auto simp: dispatch_call_def s1_def Let_def split: option.splits prod.splits)
    then show ?thesis by (simp add: execution_of_def timeout_result_def id_ok_def)
  next
    case (Some res)
    obtain s3 marked where m: "tw_take_deferred W s2 = (s3, marked)" by fastforce
    from assms(1) run Some obtain outcome where out: "res = Inr outcome"
      by (cases res) (auto simp: dispatch_call_def s1_def Let_def split: option.splits prod.splits)
    with assms(1) run Some m have fin: "finish_outcome (tw_env W) call (unwrap_or marked outcome) = Inr y"
      by (auto simp: dispatch_call_def s1_def Let_def split: option.splits prod.splits)
    show ?thesis
    proof (cases marked)
      case None
      then show ?thesis using fin assms(2) run Some out
        by (intro finish_keeps_ids [OF fin]) (auto simp: unwrap_or_def intro: executor_ids)
    next
      case marked: (Some o'')
      then obtain h where "o'' = OutcomeDeferred h" using marks m by blast
      then show ?thesis using marked by (intro finish_keeps_ids [OF fin]) (simp_all add: unwrap_or_def)
    qed
  qed
qed

lemma run_one_keeps_ids:
  assumes "run_one_deferred W late (\<lambda>_ _ t _. (t, None)) o' call s = (s', events, Inr y)" and "host_keeps_ids W q"
  shows "id_ok call (xn_result y)"
proof (cases "argument_error_result (tw_print W) call")
  case (Some r)
  then have "y = without_lifecycle r" using assms(1) by (simp add: run_one_deferred_def)
  moreover have "tr_tool_call_id r = tc_id call"
    using Some by (auto simp: argument_error_result_def dispatch_error_result_def)
  ultimately show ?thesis by (simp add: without_lifecycle_def id_ok_def)
next
  case args: None
  have here: "id_ok call (xn_result (execution_of call r b))" if "id_ok call r" for r b
    using that by (simp add: execution_of_def)
  have denial: "id_ok call (policy_denial print call source)" "id_ok call (tool_error print call code m source')"
    for print source code m source'
    by (simp_all add: policy_denial_def tool_error_def id_ok_def)
  show ?thesis
  proof (cases "btree_get (tc_name call) (tw_tools W)")
    case None
    with assms(1) args here denial show ?thesis
      by (auto simp: run_one_deferred_def Let_def split: option.splits)
  next
    case (Some x)
    then have x: "executor_keeps_ids x" using assms(2) by (simp add: host_keeps_ids_def)
    have valid: "id_ok call r" if "ex_validate x call = Inr (Some r)" for r
      using x that by (simp add: executor_keeps_ids_def)
    obtain t es res where d: "dispatch_call W late x o' call (tw_begin W call (op_idempotency_key o') s) = (t, es, res)"
      by (metis prod_cases3)
    have disp: "id_ok call (xn_result y)" if "res = Inr y"
      using dispatch_keeps_ids [OF d [unfolded that] x] assms(2) by (simp add: host_keeps_ids_def)
    from assms(1) args Some d here denial valid disp show ?thesis
      by (auto simp: run_one_deferred_def Let_def split: option.splits sum.splits)
  qed
qed

lemma run_call_id:
  assumes "run_call W late q call s = (s', Inr (patched, r, reason))" and host: "host_keeps_ids W q"
  shows "tr_tool_call_id r = tc_id call"
proof -
  have hooks: "\<forall>h \<in> set (tq_hooks q). hook_keeps_ids h" using host by (simp add: host_keeps_ids_def)
  obtain s1 p short where b: "apply_before_tool_call (tq_hooks q) call s = (s1, p, short)" by (metis prod_cases3)
  note p = before_keeps_ids [OF hooks b]
  obtain s2 executed where e: "(case short of
       Some r \<Rightarrow> (s1, Inr (snd (observe_result_without_execution (tw_print W) p (normalize_tool_call_id (tc_id call) r))))
     | None \<Rightarrow> (case run_one_deferred W late (\<lambda>_ _ t _. (t, None)) (from_policy policy_default) p s1 of (t, _, x) \<Rightarrow> (t, x)))
     = (s2, executed)" by fastforce
  with assms(1) b obtain x where x: "executed = Inr x"
    by (cases executed) (auto simp: run_call_def)
  have first: "id_ok p (xn_result x)"
  proof (cases short)
    case None
    obtain t es res where d: "run_one_deferred W late (\<lambda>_ _ t _. (t, None)) (from_policy policy_default) p s1 = (t, es, res)"
      by (metis prod_cases3)
    with e x None have "res = Inr x" by simp
    with d run_one_keeps_ids [OF _ host] show ?thesis by blast
  next
    case (Some r)
    with p have "id_ok p r" "tc_id p = tc_id call" by simp_all
    then have "tr_tool_call_id (normalize_tool_call_id (tc_id call) r) = tc_id p" using normalize_id [of p r] by simp
    with e x Some show ?thesis
      by (auto simp: observe_result_without_execution_def without_lifecycle_def execution_of_def id_ok_def split: if_splits)
  qed
  let ?r1 = "normalize_tool_call_id (tc_id p) (xn_result x)"
  obtain s3 r2 where a: "apply_after_tool_call (tq_hooks q) p ?r1 s2 = (s3, r2)" by fastforce
  have "id_ok p ?r1" using normalize_id [OF first] by (simp add: id_ok_def)
  from after_keeps_ids [OF hooks this, of s2] a have "id_ok p r2" by simp
  note r2 = normalize_id [OF this]
  obtain r3 why where t: "apply_tool_use_behavior (tq_task_metadata q) p (normalize_tool_call_id (tc_id p) r2) = (r3, why)"
    by fastforce
  have "tr_tool_call_id r3 = tc_id p"
    using t r2 by (auto simp: apply_tool_use_behavior_def Let_def split: if_splits)
  moreover have "r = r3"
    using assms(1) b e x a t by (simp add: run_call_def complete_execution_def replace_result_def)
  ultimately show ?thesis using p by simp
qed

lemma from_run_id: "from_run W late q call r \<Longrightarrow> host_keeps_ids W q \<Longrightarrow> tr_tool_call_id r = tc_id call"
  using run_call_id by (fastforce simp: from_run_def skipped_tool_result_def dispatch_error_result_def)

lemma from_run_message: "from_run W late q call r \<Longrightarrow> \<exists>m. to_message (tw_env W) r = Some m"
  by (auto simp: from_run_def to_message_def skipped_tool_result_def dispatch_error_result_def plain_result_def)

lemma to_message_id: "to_message E r = Some m \<Longrightarrow> is_tool m \<and> result_key m = trim (tr_tool_call_id r)"
  by (auto simp: to_message_def is_tool_def result_key_def message_new_def)

text \<open>C33. Every call of a cycle is answered: a run that ends without an error has pushed one result per call, in
  the order of the calls, whether the call ran or was skipped, and each result has its message.\<close>

theorem every_call_answered:
  assumes "rn_error (run_calls W late q calls s) = None"
  shows "map fst (rn_results (run_calls W late q calls s)) = calls \<and>
    length (run_messages W (run_calls W late q calls s)) = length calls + length (rn_images (run_calls W late q calls s)) \<and>
    (\<forall>c r. (c, r) \<in> set (rn_results (run_calls W late q calls s)) \<longrightarrow>
      (\<exists>m. to_message (tw_env W) r = Some m \<and> m \<in> set (run_messages W (run_calls W late q calls s))))"
proof -
  note spec = run_calls_spec [OF assms]
  then have "length (rn_results (run_calls W late q calls s)) = length calls" by (metis length_map)
  moreover have "\<exists>m. to_message (tw_env W) r = Some m \<and> m \<in> set (run_messages W (run_calls W late q calls s))"
    if cr: "(c, r) \<in> set (rn_results (run_calls W late q calls s))" for c r
  proof -
    obtain m where m: "to_message (tw_env W) r = Some m" using spec cr from_run_message by blast
    then have "m = (\<lambda>(c, r). the (to_message (tw_env W) r)) (c, r)" by simp
    with cr have "m \<in> (\<lambda>(c, r). the (to_message (tw_env W) r)) ` set (rn_results (run_calls W late q calls s))" by (rule rev_image_eqI)
    with m show ?thesis by (auto simp: run_messages_def)
  qed
  ultimately show ?thesis using spec by (simp add: run_messages_def)
qed


subsection \<open>An example run\<close>

definition demo_executor :: "unit executor" where
  "demo_executor = \<lparr>ex_tool_metadata = None, ex_metadata = [], ex_validate = (\<lambda>_. Inr None), ex_requirement = (\<lambda>_ _. NotRequired),
     ex_run = (\<lambda>call s. (s, Some (Inr (OutcomeCompleted (demo_result (tc_id call))))))\<rparr>"

definition demo_world :: "unit tool_world" where
  "demo_world = \<lparr>tw_env = demo_env, tw_print = (\<lambda>_. ''{}''), tw_begin = (\<lambda>_ _ s. s), tw_take_deferred = (\<lambda>s. (s, None)),
     tw_tools = [(''read'', demo_executor)]\<rparr>"

definition demo_run_request :: "unit tool_request" where
  "demo_run_request = \<lparr>tq_task_metadata = [(''_vv_agent_tool_use_behavior'', JStr ''stop_on_first_tool'')],
     tq_native_multimodal = False, tq_hooks = [], tq_check_cancelled = (\<lambda>_. None), tq_interruption = None\<rparr>"

definition demo_assistant :: message where
  "demo_assistant = (message_new RoleAssistant [])\<lparr>ms_tool_calls := [demo_call ''a'', demo_call ''b'']\<rparr>"

lemma demo_host: "host_keeps_ids demo_world demo_run_request"
  by (auto simp: host_keeps_ids_def demo_world_def demo_run_request_def executor_keeps_ids_def demo_executor_def
      demo_result_def id_ok_def split: if_splits)

lemma demo_run_error: "rn_error (run_calls demo_world [] demo_run_request (ms_tool_calls demo_assistant) ()) = None"
  by code_simp

theorem every_call_answered_witness:
  "map (\<lambda>(c, r). tr_error_code r) (rn_results (run_calls demo_world [] demo_run_request (ms_tool_calls demo_assistant) ())) =
     [None, Some ''skipped_due_to_finish''] \<and>
   map fst (rn_results (run_calls demo_world [] demo_run_request (ms_tool_calls demo_assistant) ())) = ms_tool_calls demo_assistant"
proof -
  have "map (\<lambda>(c, r). tr_error_code r) (rn_results (run_calls demo_world [] demo_run_request (ms_tool_calls demo_assistant) ())) =
     [None, Some ''skipped_due_to_finish'']" by code_simp
  then show ?thesis using every_call_answered [OF demo_run_error] by blast
qed



end
