(* ===== verification/Spec2Isabelle.thy ===== *)
theory Spec2Isabelle
  imports Agent_Prelude Request_Queue Cancellation_Token Token_Usage Budget Receipt_Laws History_Laws Control_Witnesses
    Thread_State Tool_Run
begin

text \<open>
  Verification of \<open>vv-agent\<close>, a Rust library that runs language-model agents in durable cycles. All
  file names below are relative to \<open>src/crates/vv-agent/src/\<close>.

  \<^bold>\<open>The program.\<close> A run is a sequence of cycles. In a cycle the engine calls a model, runs the tools
  that the model asks for, charges tokens, time and tool calls to a budget, and records what it did
  in a checkpoint. A checkpoint lives in a store that several workers share: a worker claims it with
  a token and a lease, writes its progress with a compare-and-swap on the revision, and commits,
  suspends or finalises it. Events for the outside are staged in an outbox of the checkpoint and
  marked when they are delivered. Tools may answer later through a deferred handle. Around this sit
  the app server, whose requests are serialised per key, and the cancellation tokens that stop a run.

  \<^bold>\<open>The theories.\<close>
  \<^item> \<open>Agent_Prelude\<close>: results as sums, machine integers (\<open>u64\<close>, \<open>u32\<close> with checked and saturating
    arithmetic on naturals below their bound), strings and \<open>trim\<close>, the ordered map of the standard
    library, and the locales \<open>ordered_map\<close> and \<open>state_machine\<close>.
  \<^item> \<open>Request_Queue\<close> (\<open>app_server/request_serialization.rs\<close>): scopes, queues with shared and exclusive
    access, and every interleaving of acquisitions and releases as a step relation (C1 to C4).
  \<^item> \<open>Cancellation_Token\<close> (\<open>runtime/cancellation.rs\<close>): tokens in a heap with parents and children, the
    critical sections of registration and cancellation, and their interleavings (C5 to C7).
  \<^item> \<open>Json_Value\<close>: the values of \<open>serde_json\<close> and the derived decoders of structs and options.
  \<^item> \<open>Token_Usage\<close> (\<open>types/token_usage.rs\<close>, \<open>runtime/token_usage.rs\<close>): normalisation of provider usage,
    ledgers of model calls, their summaries and wire forms (C8 to C11).
  \<^item> \<open>Budget\<close> (\<open>budget.rs\<close>, \<open>runtime/engine/budget.rs\<close>): the evaluator of limits and the controller of the
    engine (C12 to C17).
  \<^item> \<open>Checkpoint_Types\<close> (\<open>checkpoint.rs\<close>, \<open>checkpoint/canonical.rs\<close>, \<open>checkpoint/deferred.rs\<close>,
    \<open>checkpoint/controller_host.rs\<close>, \<open>types/tool_calls.rs\<close>, \<open>types/messages.rs\<close>, \<open>types/records.rs\<close>,
    \<open>runtime/state.rs\<close>): identities, results of tools, journal entries, outbox entries and the
    checkpoint itself, each with its validation.
  \<^item> \<open>Operation_Journal\<close> (\<open>runtime/state/journal.rs\<close>): the wire form of journal entries and the state
    machine of one operation (C18, C19).
  \<^item> \<open>Checkpoint_Rules\<close> (\<open>runtime/state/validation.rs\<close>, \<open>runtime/state/transitions.rs\<close>): the validation
    of a checkpoint and the pure transitions that the stores share.
  \<^item> \<open>Checkpoint_Deferred\<close> (\<open>runtime/state/deferred.rs\<close>): admission, acceptance and resolution of
    deferred tools.
  \<^item> \<open>Controller_Types\<close> (\<open>checkpoint/controller*.rs\<close>): the commands of a controller, their receipts and
    wakes, questions to the host, their records, answers and notifications, with validation and digests.
  \<^item> \<open>Checkpoint_Store\<close> (\<open>runtime/stores/memory.rs\<close>, \<open>memory_impl_core.rs\<close>, \<open>runtime/state/history.rs\<close>): the
    in-memory store and the archive of completed history.
  \<^item> \<open>Checkpoint_Laws\<close>: the store as a machine. \<open>exec\<close> runs one call; any sequence of calls of any
    workers is a fold of it, because every call holds the lock of the store. The locale \<open>lease_store\<close>
    states what a table of leases promises and is interpreted on the store (C20 to C24).
  \<^item> \<open>Receipt_Laws\<close>: effects that happen once: events, tool receipts, deferred handles, and the barrier
    of a deferred batch (C25 to C30).
  \<^item> \<open>History_Archive\<close> (\<open>runtime/state/history.rs\<close>): the reader of the archive of completed cycles and
    model calls, and the hydration of a terminal checkpoint from it.
  \<^item> \<open>History_Laws\<close>: what is archived can be read, is never lost and is complete in the result of a
    run (C31 to C33).
  \<^item> \<open>Controller_Store\<close> (\<open>runtime/stores/memory_controller.rs\<close>, \<open>memory_impl_controller.rs\<close>,
    \<open>controller_helpers.rs\<close>): the calls of controllers on the store: commands that suspend, resume, cancel
    or abort a run or answer its question, the wakes they leave, questions, notifications and answers.
  \<^item> \<open>Work_Outbox\<close>: the contract of an outbox of work as the locale \<open>work_outbox\<close>: items that are taken
    with a lease, finished, settled and expired, and what every such outbox guarantees.
  \<^item> \<open>Command_Laws\<close>, \<open>Controller_Laws\<close>: all calls of workers and controllers as one machine \<open>full_exec\<close>; a
    command takes effect as a whole or not at all (C34), and checkpoints and ledger stay consistent (C35).
  \<^item> \<open>Outbox_Laws\<close>: \<open>work_outbox\<close> interpreted on the wakes and on the notifications; a command is applied
    once, and who owns a wake (C36 to C38).
  \<^item> \<open>Control_Laws\<close>: a request to cancel is not lost, and an answer of the host is injected once (C39, C40).
  \<^item> \<open>Control_Witnesses\<close>: concrete runs on which the laws of the controller are evaluated.

  \<^bold>\<open>Parameters.\<close> Code outside the repository and code that is not modelled is a parameter. For the
  checkpoint these are the fields of the record \<open>env\<close>: canonical JSON and SHA-256, the codecs of run
  events, tool results, agent results and cycle records, the validation and the digest of run
  definitions, and the constructors of the events that the transitions and the controller stage
  (\<open>control_event_value\<close>). The clock of a call is an argument of it. No law of them is assumed, except
  where a theorem names it: the reading of archived history assumes \<open>parser_inverts_canonical\<close> (the JSON
  parser reads back what canonical JSON printed, up to the nesting that \<open>serde_json\<close> accepts) and
  \<open>readable_op\<close> (the records that a caller hands over survive their own codecs, a suspension names the
  claimed cycle, and a renewal keeps the lease on the wire). \<open>demo_env\<close> and \<open>hist_env\<close> are concrete
  instances, on which the witnesses evaluate.

  \<^bold>\<open>Bounds.\<close> A \<open>u64\<close> is a natural number; where the code uses checked, saturating or narrowing
  arithmetic, or compares with \<open>MAX_WIRE_INTEGER\<close>, so does the model. Every loop of the modelled code is
  structural recursion, so no fuel is used. Strings are lists of characters below 256: lengths are
  byte lengths, as in the source.

  \<^bold>\<open>Not modelled.\<close> The SQLite and Redis stores (their engines are not part of the sources), the codec of
  whole checkpoints, the decoders of the controller wires other than commands, the engine loop over
  model and tool callbacks, the model clients, the runner, the sub-agents, the distributed workers,
  shell and processes, tools, workspace, skills, configuration, events, the rest of the app server, and
  the command line.
\<close>

end
